(* ===== verification/GoPrelude.thy ===== *)
theory GoPrelude
  imports Main "HOL-Library.Sublist"
begin

text \<open>
  Shared vocabulary of the development: Go strings (byte strings, a list of \<open>char\<close>) with the
  functions of package \<open>strings\<close> and \<open>strconv\<close> that the worker calls, Go errors as values,
  the named theorem collections, and the generic list lemmas that the components share.
\<close>

named_theorems go_simps \<open>unfolding of small Go library functions\<close>
named_theorems path_simps \<open>normal forms of path expressions\<close>
named_theorems os_simps \<open>unfolding of file system calls\<close>
named_theorems inv_intros \<open>invariant preservation, one rule per operation\<close>

section \<open>Errors\<close>

text \<open>
  \<open>ErrorString\<close> is \<open>errors.New\<close> (or \<open>fmt.Errorf\<close> without a cause), \<open>WrapError\<close> is
  \<open>fmt.Errorf\<close> with \<open>%w\<close>; the \<open>Sys\<close> constructors are the causes that the \<open>os\<close> package reports,
  \<open>SysFault\<close> standing for every cause outside the model (permissions, a full disk); the rest are
  the sentinel errors that the packages of the worker declare. \<open>OutOfFuel\<close> is no Go error: it marks
  that a loop which need not stop has not returned within the fuel it was given.
\<close>

datatype go_error =
    ErrorString string
  | WrapError string go_error
  | SysNotExist | SysExist | SysNotDir | SysIsDir | SysNotEmpty | SysLoop | SysInvalid
  | SysFault string
  | IoEOF
  | ErrInvalidBackupID | ErrBackupNotFound | ErrInvalidBackupPath
  | ErrInvalidMountID | ErrMountAlreadyExists | ErrUnsafeArchivePath | ErrUnsupportedEntry
  | ErrPermissionDenied | ErrLinksUnsupported
  | ErrSFTPAuthenticationDenied | ErrSFTPPanelUnavailable
  | SkipDir
  | OutOfFuel

text \<open>\<open>errors.Is\<close> follows the chain of causes; \<open>os.IsNotExist\<close> does not.\<close>

fun errors_is :: "go_error \<Rightarrow> go_error \<Rightarrow> bool" where
  "errors_is (WrapError m e) t = (WrapError m e = t \<or> errors_is e t)"
| "errors_is e t = (e = t)"

definition os_is_not_exist :: "go_error \<Rightarrow> bool" where
  "os_is_not_exist e \<longleftrightarrow> e = SysNotExist"

lemma errors_is_refl [simp]: "errors_is e e"
  by (cases e) auto

section \<open>Package strings\<close>

abbreviation slash :: char where "slash \<equiv> CHR ''/''"
abbreviation backslash :: char where "backslash \<equiv> CHR 0x5C"

definition HasPrefix :: "string \<Rightarrow> string \<Rightarrow> bool" where
  "HasPrefix s p \<longleftrightarrow> prefix p s"

definition HasSuffix :: "string \<Rightarrow> string \<Rightarrow> bool" where
  "HasSuffix s p \<longleftrightarrow> suffix p s"

definition TrimPrefix :: "string \<Rightarrow> string \<Rightarrow> string" where
  "TrimPrefix s p = (if prefix p s then drop (length p) s else s)"

definition TrimSuffix :: "string \<Rightarrow> string \<Rightarrow> string" where
  "TrimSuffix s p = (if suffix p s then take (length s - length p) s else s)"

text \<open>\<open>strings.Contains\<close>.\<close>

fun Contains :: "string \<Rightarrow> string \<Rightarrow> bool" where
  "Contains [] p = (p = [])"
| "Contains (c # cs) p = (prefix p (c # cs) \<or> Contains cs p)"

lemma Contains_iff: "Contains s p \<longleftrightarrow> (\<exists>a b. s = a @ p @ b)"
proof (induction s)
  case (Cons c cs)
  have "(\<exists>a b. c # cs = a @ p @ b) \<longleftrightarrow> (\<exists>b. c # cs = p @ b) \<or> (\<exists>a b. cs = a @ p @ b)"
    by (metis append_Cons append_Nil list.exhaust list.inject)
  with Cons show ?case by (auto simp: prefix_def)
qed simp

text \<open>\<open>strings.Trim\<close>, \<open>TrimLeft\<close> and \<open>TrimRight\<close> with an ASCII cutset.\<close>

definition TrimLeft :: "string \<Rightarrow> string \<Rightarrow> string" where
  "TrimLeft s cutset = dropWhile (\<lambda>c. c \<in> set cutset) s"

definition TrimRight :: "string \<Rightarrow> string \<Rightarrow> string" where
  "TrimRight s cutset = rev (dropWhile (\<lambda>c. c \<in> set cutset) (rev s))"

definition Trim :: "string \<Rightarrow> string \<Rightarrow> string" where
  "Trim s cutset = TrimRight (TrimLeft s cutset) cutset"

text \<open>
  \<open>strings.ReplaceAll\<close>: leftmost, non-overlapping replacements. The worker never calls it with an
  empty pattern; on an empty pattern the model leaves the string alone.
\<close>

function ReplaceAll :: "string \<Rightarrow> string \<Rightarrow> string \<Rightarrow> string" where
  "ReplaceAll [] old new = []"
| "ReplaceAll (c # cs) old new =
     (if old \<noteq> [] \<and> prefix old (c # cs)
      then new @ ReplaceAll (drop (length old) (c # cs)) old new
      else c # ReplaceAll cs old new)"
  by pat_completeness auto
termination
  by (relation "measure (\<lambda>(s, _, _). length s)") (auto simp: neq_Nil_conv)

lemma ReplaceAll_absent: "c \<notin> set s \<Longrightarrow> ReplaceAll s [c] new = s"
  by (induction s) auto

text \<open>
  \<open>strings.TrimSpace\<close> drops the runes of \<open>unicode.IsSpace\<close> at both ends: the ASCII spaces and the
  UTF-8 encodings of U+0085, U+00A0, U+1680, U+2000 to U+200A, U+2028, U+2029, U+202F, U+205F and
  U+3000.
\<close>

definition space_encodings :: "string list" where
  "space_encodings =
     [[CHR 0x09], [CHR 0x0A], [CHR 0x0B], [CHR 0x0C], [CHR 0x0D], [CHR 0x20],
      [CHR 0xC2, CHR 0x85], [CHR 0xC2, CHR 0xA0], [CHR 0xE1, CHR 0x9A, CHR 0x80],
      [CHR 0xE2, CHR 0x80, CHR 0x80], [CHR 0xE2, CHR 0x80, CHR 0x81],
      [CHR 0xE2, CHR 0x80, CHR 0x82], [CHR 0xE2, CHR 0x80, CHR 0x83],
      [CHR 0xE2, CHR 0x80, CHR 0x84], [CHR 0xE2, CHR 0x80, CHR 0x85],
      [CHR 0xE2, CHR 0x80, CHR 0x86], [CHR 0xE2, CHR 0x80, CHR 0x87],
      [CHR 0xE2, CHR 0x80, CHR 0x88], [CHR 0xE2, CHR 0x80, CHR 0x89],
      [CHR 0xE2, CHR 0x80, CHR 0x8A], [CHR 0xE2, CHR 0x80, CHR 0xA8],
      [CHR 0xE2, CHR 0x80, CHR 0xA9], [CHR 0xE2, CHR 0x80, CHR 0xAF],
      [CHR 0xE2, CHR 0x81, CHR 0x9F], [CHR 0xE3, CHR 0x80, CHR 0x80]]"

lemma find_SomeD: "find P xs = Some x \<Longrightarrow> x \<in> set xs \<and> P x"
  by (auto simp: find_Some_iff)

function trim_encs :: "string list \<Rightarrow> string \<Rightarrow> string" where
  "trim_encs encs s =
     (case find (\<lambda>e. e \<noteq> [] \<and> prefix e s) encs of
        None \<Rightarrow> s
      | Some e \<Rightarrow> trim_encs encs (drop (length e) s))"
  by pat_completeness auto
termination
  by (relation "measure (\<lambda>(_, s). length s)")
    (auto dest!: find_SomeD simp: prefix_def)

declare trim_encs.simps [simp del]

definition TrimSpace :: "string \<Rightarrow> string" where
  "TrimSpace s =
     rev (trim_encs (map rev space_encodings) (rev (trim_encs space_encodings s)))"

text \<open>\<open>strings.Split\<close> on a one-byte separator, and the inverse \<open>strings.Join\<close>.\<close>

fun Split :: "char \<Rightarrow> string \<Rightarrow> string list" where
  "Split d [] = [[]]"
| "Split d (c # cs) =
     (if c = d then [] # Split d cs
      else (case Split d cs of [] \<Rightarrow> [[c]] | x # xs \<Rightarrow> (c # x) # xs))"

fun JoinWith :: "char \<Rightarrow> string list \<Rightarrow> string" where
  "JoinWith d [] = []"
| "JoinWith d [x] = x"
| "JoinWith d (x # y # ys) = x @ d # JoinWith d (y # ys)"

text \<open>\<open>strings.ToLower\<close> on ASCII letters; other bytes are left alone.\<close>

definition lower_char :: "char \<Rightarrow> char" where
  "lower_char c =
     (let n = (of_char c :: nat) in if 65 \<le> n \<and> n \<le> 90 then char_of (n + 32) else c)"

definition ToLower :: "string \<Rightarrow> string" where
  "ToLower s = map lower_char s"

section \<open>Decimal numerals\<close>

definition digit_char :: "nat \<Rightarrow> char" where
  "digit_char d = char_of (48 + d)"

fun nat_digits :: "nat \<Rightarrow> string" where
  "nat_digits n =
     (if n < 10 then [digit_char n] else nat_digits (n div 10) @ [digit_char (n mod 10)])"

declare nat_digits.simps [simp del]

text \<open>\<open>strconv.Itoa\<close>, and \<open>fmt.Sprint\<close> or \<open>%d\<close> of an int.\<close>

definition Itoa :: "int \<Rightarrow> string" where
  "Itoa i = (if i < 0 then CHR ''-'' # nat_digits (nat (- i)) else nat_digits (nat i))"

section \<open>Lemmas on strings\<close>

lemma HasPrefix_append [simp]: "HasPrefix (p @ s) p"
  by (simp add: HasPrefix_def)

lemma TrimPrefix_append [simp]: "TrimPrefix (p @ s) p = s"
  by (simp add: TrimPrefix_def)

lemma TrimSuffix_append [simp]: "TrimSuffix (s @ p) p = s"
  by (simp add: TrimSuffix_def suffix_def)

lemma Split_nonempty [simp]: "Split d s \<noteq> []"
  by (induction s) (auto split: list.splits)

lemma Split_append: "Split d (a @ d # b) = Split d a @ Split d b"
  by (induction a) (auto split: list.splits)

lemma last_sep_inject:
  assumes "d \<notin> set p" "d \<notin> set q"
  shows "xs @ d # p = ys @ d # q \<longleftrightarrow> xs = ys \<and> p = q"
proof
  assume "xs @ d # p = ys @ d # q"
  then have "rev p @ d # rev xs = rev q @ d # rev ys"
    by (metis append.assoc append_Cons append_Nil rev.simps(2) rev_append)
  moreover have "takeWhile (\<lambda>c. c \<noteq> d) (rev p @ d # rev xs) = rev p"
    using assms(1) by (subst takeWhile_append2) auto
  moreover have "takeWhile (\<lambda>c. c \<noteq> d) (rev q @ d # rev ys) = rev q"
    using assms(2) by (subst takeWhile_append2) auto
  ultimately have "rev p = rev q" by simp
  with \<open>rev p @ d # rev xs = rev q @ d # rev ys\<close> show "xs = ys \<and> p = q" by simp
qed auto

lemma Split_nosep: "d \<notin> set s \<Longrightarrow> Split d s = [s]"
  by (induction s) auto

lemma Split_mem_nosep: "x \<in> set (Split d s) \<Longrightarrow> d \<notin> set x"
  by (induction s arbitrary: x) (fastforce split: if_splits list.splits)+

lemma Split_JoinWith:
  "xs \<noteq> [] \<Longrightarrow> \<forall>x \<in> set xs. d \<notin> set x \<Longrightarrow> Split d (JoinWith d xs) = xs"
  by (induction xs rule: induct_list012) (auto simp: Split_nosep Split_append)

lemma JoinWith_Cons: "xs \<noteq> [] \<Longrightarrow> JoinWith d (x # xs) = x @ d # JoinWith d xs"
  by (cases xs) auto

lemma JoinWith_Split [simp]: "JoinWith d (Split d s) = s"
proof (induction s)
  case (Cons c cs)
  obtain x xs where x: "Split d cs = x # xs" by (cases "Split d cs") auto
  show ?case
    using Cons x by (cases xs) (auto simp: JoinWith_Cons)
qed simp

lemma JoinWith_append:
  "xs \<noteq> [] \<Longrightarrow> ys \<noteq> [] \<Longrightarrow> JoinWith d (xs @ ys) = JoinWith d xs @ d # JoinWith d ys"
  by (induction xs rule: induct_list012) (auto simp: JoinWith_Cons)

lemma JoinWith_Nil_iff: "JoinWith d xs = [] \<longleftrightarrow> xs = [] \<or> xs = [[]]"
  by (cases "(d, xs)" rule: JoinWith.cases) auto

lemma set_JoinWith: "set (JoinWith d xs) \<subseteq> insert d (\<Union> (set ` set xs))"
  by (induction xs rule: induct_list012) auto

lemma set_Split: "x \<in> set (Split d s) \<Longrightarrow> set x \<subseteq> set s"
  by (induction s arbitrary: x) (fastforce split: if_splits list.splits)+

subsection \<open>Trimming\<close>

lemma trim_encs_suffix: "suffix (trim_encs encs s) s"
proof (induction encs s rule: trim_encs.induct)
  case (1 encs s)
  then show ?case
    by (subst trim_encs.simps) (auto split: option.splits intro: suffix_order.trans suffix_drop)
qed

lemma trim_encs_no_prefix: "e \<in> set encs \<Longrightarrow> e \<noteq> [] \<Longrightarrow> \<not> prefix e (trim_encs encs s)"
proof (induction encs s rule: trim_encs.induct)
  case (1 encs s)
  then show ?case
    by (subst trim_encs.simps) (auto split: option.splits simp: find_None_iff)
qed

lemma trim_encs_id: "\<forall>e \<in> set encs. e \<noteq> [] \<longrightarrow> \<not> prefix e s \<Longrightarrow> trim_encs encs s = s"
  by (subst trim_encs.simps) (auto split: option.splits dest: find_SomeD)

lemma TrimSpace_idem [simp]: "TrimSpace (TrimSpace s) = TrimSpace s"
proof -
  define t where "t = trim_encs space_encodings s"
  define u where "u = trim_encs (map rev space_encodings) (rev t)"
  have "prefix (rev u) t"
    using trim_encs_suffix [of "map rev space_encodings" "rev t"]
    by (simp add: u_def suffix_to_prefix)
  then have "trim_encs space_encodings (rev u) = rev u"
    using trim_encs_no_prefix [of _ space_encodings s] prefix_order.trans
    by (intro trim_encs_id) (auto simp: t_def)
  moreover have "trim_encs (map rev space_encodings) u = u"
    using trim_encs_no_prefix [of _ "map rev space_encodings" "rev t"]
    by (intro trim_encs_id) (auto simp: u_def)
  ultimately show ?thesis
    by (simp add: TrimSpace_def t_def u_def)
qed

lemma TrimSpace_Nil [simp]: "TrimSpace [] = []"
  by (subst TrimSpace_def) (simp add: trim_encs_id prefix_Nil)

lemma set_TrimSpace: "set (TrimSpace s) \<subseteq> set s"
proof -
  have sub: "set (trim_encs encs t) \<subseteq> set t" for encs t
    by (rule set_mono_suffix [OF trim_encs_suffix])
  show ?thesis
    using sub [of "map rev space_encodings" "rev (trim_encs space_encodings s)"]
      sub [of space_encodings s]
    by (auto simp: TrimSpace_def)
qed

text \<open>Only bytes of space encodings are trimmed.\<close>

lemma trim_encs_dropped: "set s \<subseteq> set (trim_encs encs s) \<union> \<Union> (set ` set encs)"
proof (induction encs s rule: trim_encs.induct)
  case (1 encs s)
  show ?case
  proof (cases "find (\<lambda>e. e \<noteq> [] \<and> prefix e s) encs")
    case (Some e)
    then have e: "e \<in> set encs" "prefix e s" by (auto dest: find_SomeD)
    then have "set s = set e \<union> set (drop (length e) s)" by (auto simp: prefix_def)
    with 1 [OF Some] e(1) Some show ?thesis by (subst trim_encs.simps) auto
  qed (subst trim_encs.simps, simp)
qed

lemma TrimSpace_dropped: "set s \<subseteq> set (TrimSpace s) \<union> \<Union> (set ` set space_encodings)"
  using trim_encs_dropped [of s space_encodings]
    trim_encs_dropped [of "rev (trim_encs space_encodings s)" "map rev space_encodings"]
  by (auto simp: TrimSpace_def)

lemma space_bytes:
  "slash \<notin> \<Union> (set ` set space_encodings)" "CHR 0x00 \<notin> \<Union> (set ` set space_encodings)"
  by (simp_all add: space_encodings_def)

subsection \<open>Numerals\<close>

lemma of_char_digit: "d < 10 \<Longrightarrow> (of_char (digit_char d) :: nat) = 48 + d"
  by (simp add: digit_char_def)

lemma nat_digits_digits: "c \<in> set (nat_digits n) \<Longrightarrow> \<exists>d < 10. c = digit_char d"
proof (induction n rule: nat_digits.induct)
  case (1 n)
  show ?case
  proof (cases "n < 10")
    case True
    with 1 show ?thesis by (subst (asm) nat_digits.simps) auto
  next
    case False
    have "nat_digits n = nat_digits (n div 10) @ [digit_char (n mod 10)]"
      using False by (subst nat_digits.simps) simp
    with "1.prems" have "c \<in> set (nat_digits (n div 10)) \<or> c = digit_char (n mod 10)"
      by auto
    with False "1.IH" show ?thesis by (metis mod_less_divisor zero_less_numeral)
  qed
qed

definition digits_value :: "string \<Rightarrow> nat" where
  "digits_value s = foldl (\<lambda>a c. 10 * a + (of_char c - 48)) 0 s"

lemma digits_value_nat_digits: "digits_value (nat_digits n) = n"
proof (induction n rule: nat_digits.induct)
  case (1 n)
  show ?case
  proof (cases "n < 10")
    case True
    then show ?thesis
      by (subst nat_digits.simps) (simp add: digits_value_def of_char_digit)
  next
    case False
    then have "digits_value (nat_digits (n div 10)) = n div 10" using 1 by simp
    with False show ?thesis
      by (subst nat_digits.simps) (simp add: digits_value_def of_char_digit)
  qed
qed

lemma nat_digits_inject [simp]: "nat_digits m = nat_digits n \<longleftrightarrow> m = n"
  by (metis digits_value_nat_digits)

lemma digit_char_neq:
  "(of_char c :: nat) < 48 \<or> 57 < (of_char c :: nat) \<Longrightarrow> d < 10 \<Longrightarrow> c \<noteq> digit_char d"
  using of_char_digit by fastforce

lemma notin_nat_digits:
  "(of_char c :: nat) < 48 \<or> 57 < (of_char c :: nat) \<Longrightarrow> c \<notin> set (nat_digits n)"
  using nat_digits_digits [of c n] digit_char_neq [of c] by blast

lemma Itoa_chars: "c \<in> set (Itoa i) \<Longrightarrow> c = CHR ''-'' \<or> (\<exists>d < 10. c = digit_char d)"
  by (auto simp: Itoa_def dest: nat_digits_digits split: if_splits)

lemma notin_Itoa:
  "c \<noteq> CHR ''-'' \<Longrightarrow> (of_char c :: nat) < 48 \<or> 57 < (of_char c :: nat) \<Longrightarrow> c \<notin> set (Itoa i)"
  using Itoa_chars [of c i] digit_char_neq [of c] by blast

lemma Itoa_inject [simp]: "Itoa i = Itoa j \<longleftrightarrow> i = j"
proof -
  have "CHR ''-'' \<notin> set (nat_digits n)" for n
    by (rule notin_nat_digits) simp
  then have "nat_digits n \<noteq> CHR ''-'' # s" for n s
    by (metis list.set_intros(1))
  moreover from this have "CHR ''-'' # s \<noteq> nat_digits n" for n s
    by metis
  ultimately show ?thesis
    by (auto simp: Itoa_def)
qed

lemma colon_notin_Itoa [simp]: "CHR '':'' \<notin> set (Itoa i)"
  by (rule notin_Itoa) simp_all

lemma percent_notin_Itoa [simp]: "CHR ''%'' \<notin> set (Itoa i)"
  by (rule notin_Itoa) simp_all

lemma slash_notin_Itoa [simp]: "CHR ''/'' \<notin> set (Itoa i)"
  by (rule notin_Itoa) simp_all

end
