(* ===== verification/Allocation.thy ===== *)
theory Allocation
  imports GoPrelude
begin

text \<open>
  The pool of network allocations, \<open>internal/allocation/manager.go\<close>. A manager holds the
  configured (IP, port) pairs in order and the keys in use. The Go map \<open>used\<close> only ever maps a key
  to \<open>true\<close>, so it is the list of its keys; the list order is the order in which a \<open>range\<close> visits
  them, about which nothing is assumed. Opening a TCP listener and parsing an IP address are the
  parameters \<open>listen\<close> and \<open>parse_ip\<close>. The mutex makes each operation one step.
\<close>

record Allocation =
  IP :: string
  Port :: int

record Manager =
  allowed :: "Allocation list"
  used :: "string list"

section \<open>Keys, normalisation, validation\<close>

definition JoinHostPort :: "string \<Rightarrow> string \<Rightarrow> string" where
  "JoinHostPort host port =
     (if CHR '':'' \<in> set host then ''['' @ host @ '']:'' @ port else host @ '':'' @ port)"

definition allocationKey :: "Allocation \<Rightarrow> string" where
  "allocationKey a = JoinHostPort (TrimSpace (IP a)) (Itoa (Port a))"

definition isPortFree :: "(string \<Rightarrow> bool) \<Rightarrow> string \<Rightarrow> int \<Rightarrow> bool" where
  "isPortFree listen ip port = listen (JoinHostPort (TrimSpace ip) (Itoa port))"

definition normaliseAllocation :: "Allocation \<Rightarrow> Allocation" where
  "normaliseAllocation a = a\<lparr>IP := TrimSpace (IP a)\<rparr>"

definition validAllocation :: "Allocation \<Rightarrow> bool" where
  "validAllocation a \<longleftrightarrow> IP a \<noteq> [] \<and> Port a \<ge> 1 \<and> Port a \<le> 65535"

definition validateAllocation :: "(string \<Rightarrow> bool) \<Rightarrow> Allocation \<Rightarrow> go_error option" where
  "validateAllocation parse_ip a0 =
     (let a = normaliseAllocation a0
      in if IP a = [] then Some (ErrorString ''allocation IP is required'')
         else if IP a \<noteq> ''0.0.0.0'' \<and> IP a \<noteq> ''::'' \<and> \<not> parse_ip (IP a)
           then Some (ErrorString (''invalid allocation IP address: '' @ IP a))
         else if Port a < 1 \<or> Port a > 65535
           then Some (ErrorString (''allocation port must be between 1 and 65535 for '' @ IP a))
         else None)"

fun validate_all :: "(string \<Rightarrow> bool) \<Rightarrow> Allocation list \<Rightarrow> go_error option" where
  "validate_all parse_ip [] = None"
| "validate_all parse_ip (a # as) =
     (case validateAllocation parse_ip a of Some e \<Rightarrow> Some e | None \<Rightarrow> validate_all parse_ip as)"

definition validateConfiguration :: "(string \<Rightarrow> bool) \<Rightarrow> Allocation list \<Rightarrow> go_error option" where
  "validateConfiguration parse_ip as =
     (if as = [] then Some (ErrorString ''at least one allocation is required'')
      else validate_all parse_ip as)"

fun normalise_loop :: "string list \<Rightarrow> Allocation list \<Rightarrow> Allocation list" where
  "normalise_loop seen [] = []"
| "normalise_loop seen (a0 # as) =
     (let a = normaliseAllocation a0; key = allocationKey a
      in if \<not> validAllocation a then normalise_loop seen as
         else if key \<in> set seen then normalise_loop seen as
         else a # normalise_loop (key # seen) as)"

definition normaliseAllocations :: "Allocation list \<Rightarrow> Allocation list" where
  "normaliseAllocations as = normalise_loop [] as"

definition allocationSet :: "Allocation list \<Rightarrow> string set" where
  "allocationSet as = set (map allocationKey as)"

section \<open>Operations of the manager\<close>

definition NewManager :: "Allocation list \<Rightarrow> Manager" where
  "NewManager as = \<lparr>allowed = normaliseAllocations as, used = []\<rparr>"

definition Configuration :: "Manager \<Rightarrow> Allocation list" where
  "Configuration m = allowed m"

definition Reconfigure ::
  "(string \<Rightarrow> bool) \<Rightarrow> Manager \<Rightarrow> Allocation list \<Rightarrow> (go_error + Allocation list) \<times> Manager" where
  "Reconfigure parse_ip m as0 =
     (let as = normaliseAllocations as0
      in case validateConfiguration parse_ip as of
           Some e \<Rightarrow> (Inl e, m)
         | None \<Rightarrow>
             (case find (\<lambda>key. key \<notin> allocationSet as) (used m) of
                Some key \<Rightarrow>
                  (Inl (ErrorString (''cannot remove allocation '' @ key
                      @ '' while an existing Cell still uses it'')), m)
              | None \<Rightarrow> (Inr as, m\<lparr>allowed := as\<rparr>)))"

fun ips_loop :: "string list \<Rightarrow> Allocation list \<Rightarrow> string list" where
  "ips_loop seen [] = []"
| "ips_loop seen (a # as) =
     (if IP a \<in> set seen then ips_loop seen as else IP a # ips_loop (IP a # seen) as)"

definition IPs :: "Manager \<Rightarrow> string list" where
  "IPs m = ips_loop [] (allowed m)"

definition mark_used :: "string \<Rightarrow> Manager \<Rightarrow> Manager" where
  "mark_used key m = m\<lparr>used := List.insert key (used m)\<rparr>"

definition clear_used :: "string \<Rightarrow> Manager \<Rightarrow> Manager" where
  "clear_used key m = m\<lparr>used := filter (\<lambda>k. k \<noteq> key) (used m)\<rparr>"

definition ReserveExisting :: "Manager \<Rightarrow> Allocation \<Rightarrow> Manager" where
  "ReserveExisting m a0 =
     (let a = normaliseAllocation a0
      in if \<not> validAllocation a then m else mark_used (allocationKey a) m)"

definition Release :: "Manager \<Rightarrow> Allocation \<Rightarrow> Manager" where
  "Release m a0 =
     (let a = normaliseAllocation a0
      in if \<not> validAllocation a then m else clear_used (allocationKey a) m)"

text \<open>The loop bodies of the two bulk operations are those of the single ones.\<close>

definition ReserveMany :: "Manager \<Rightarrow> Allocation list \<Rightarrow> Manager" where
  "ReserveMany m as = foldl ReserveExisting m as"

definition ReplaceReservations :: "Manager \<Rightarrow> Allocation list \<Rightarrow> Allocation list \<Rightarrow> Manager" where
  "ReplaceReservations m old new = foldl ReserveExisting (foldl Release m old) new"

definition IsReserved :: "Manager \<Rightarrow> Allocation \<Rightarrow> bool" where
  "IsReserved m a0 =
     (let a = normaliseAllocation a0
      in if \<not> validAllocation a then False else allocationKey a \<in> set (used m))"

fun allocate_loop ::
  "(string \<Rightarrow> bool) \<Rightarrow> Manager \<Rightarrow> Allocation list \<Rightarrow> (Allocation \<times> Manager) option" where
  "allocate_loop listen m [] = None"
| "allocate_loop listen m (a # as) =
     (if allocationKey a \<in> set (used m) then allocate_loop listen m as
      else if \<not> isPortFree listen (IP a) (Port a) then allocate_loop listen m as
      else Some (a, mark_used (allocationKey a) m))"

definition Allocate :: "(string \<Rightarrow> bool) \<Rightarrow> Manager \<Rightarrow> (go_error + Allocation) \<times> Manager" where
  "Allocate listen m =
     (if allowed m = [] then (Inl (ErrorString ''no allocations configured''), m)
      else case allocate_loop listen m (allowed m) of
             Some (a, m') \<Rightarrow> (Inr a, m')
           | None \<Rightarrow> (Inl (ErrorString ''no free allocations available''), m))"

fun allocate_ip_loop ::
  "(string \<Rightarrow> bool) \<Rightarrow> Manager \<Rightarrow> string \<Rightarrow> bool \<Rightarrow> Allocation list \<Rightarrow>
     (go_error + Allocation) \<times> Manager" where
  "allocate_ip_loop listen m ip configured [] =
     (if \<not> configured then (Inl (ErrorString ''allocation IP is not configured''), m)
      else (Inl (ErrorString ''no free allocations available for IP''), m))"
| "allocate_ip_loop listen m ip configured (a # as) =
     (if IP a \<noteq> ip then allocate_ip_loop listen m ip configured as
      else if allocationKey a \<in> set (used m) then allocate_ip_loop listen m ip True as
      else if \<not> isPortFree listen (IP a) (Port a) then allocate_ip_loop listen m ip True as
      else (Inr a, mark_used (allocationKey a) m))"

definition AllocateForIP ::
  "(string \<Rightarrow> bool) \<Rightarrow> Manager \<Rightarrow> string \<Rightarrow> (go_error + Allocation) \<times> Manager" where
  "AllocateForIP listen m ip0 =
     (let ip = TrimSpace ip0
      in if ip = [] then (Inl (ErrorString ''allocation IP is required''), m)
         else allocate_ip_loop listen m ip False (allowed m))"

section \<open>Keys identify slots\<close>

lemma JoinHostPort_inject:
  assumes "CHR '':'' \<notin> set p" "CHR '':'' \<notin> set q"
  shows "JoinHostPort h p = JoinHostPort k q \<longleftrightarrow> h = k \<and> p = q"
proof -
  note split = last_sep_inject [OF assms]
  show ?thesis
    using split [of "''['' @ h @ '']''" "''['' @ k @ '']''"] split [of h k]
      split [of "''['' @ h @ '']''" k] split [of h "''['' @ k @ '']''"]
    by (auto simp: JoinHostPort_def)
qed

text \<open>
  Two allocations have the same key exactly when they agree on the trimmed IP and the port: the
  textual key (with its bracketed form for IPv6) never confuses two slots.
\<close>

theorem allocationKey_inject:
  "allocationKey a = allocationKey b \<longleftrightarrow> TrimSpace (IP a) = TrimSpace (IP b) \<and> Port a = Port b"
  by (simp add: allocationKey_def JoinHostPort_inject)

section \<open>The normalised configuration\<close>

definition slot :: "Allocation \<Rightarrow> string \<times> int" where
  "slot a = (TrimSpace (IP a), Port a)"

definition usable :: "Allocation \<Rightarrow> bool" where
  "usable a \<longleftrightarrow> validAllocation (normaliseAllocation a)"

lemma normalise_simps [simp]:
  "IP (normaliseAllocation a) = TrimSpace (IP a)" "Port (normaliseAllocation a) = Port a"
  "normaliseAllocation (normaliseAllocation a) = normaliseAllocation a"
  by (simp_all add: normaliseAllocation_def)

lemma key_slot: "allocationKey a = allocationKey b \<longleftrightarrow> slot a = slot b"
  by (simp add: allocationKey_def JoinHostPort_inject slot_def)

lemma key_normalise [simp]: "allocationKey (normaliseAllocation a) = allocationKey a"
  by (simp add: allocationKey_def)

lemma slot_normalise [simp]: "slot (normaliseAllocation a) = slot a"
  by (simp add: slot_def)

lemma usable_slot: "slot a = slot b \<Longrightarrow> usable a = usable b"
  by (simp add: usable_def slot_def validAllocation_def)

text \<open>What every stored configuration satisfies.\<close>

definition config_ok :: "Allocation list \<Rightarrow> bool" where
  "config_ok as \<longleftrightarrow> distinct (map allocationKey as)
     \<and> (\<forall>a \<in> set as. validAllocation a \<and> normaliseAllocation a = a)"

lemma normalise_loop_mem:
  "a \<in> set (normalise_loop seen as) \<Longrightarrow>
     validAllocation a \<and> normaliseAllocation a = a \<and> allocationKey a \<notin> set seen
     \<and> (\<exists>b \<in> set as. a = normaliseAllocation b)"
  by (induction seen as rule: normalise_loop.induct) (fastforce simp: Let_def split: if_splits)+

lemma normalise_loop_distinct: "distinct (map allocationKey (normalise_loop seen as))"
proof (induction seen as rule: normalise_loop.induct)
  case (2 seen a as)
  then show ?case
    using normalise_loop_mem [of _ "allocationKey a # seen" as] by (fastforce simp: Let_def)
qed simp

lemma normalise_loop_covers:
  "b \<in> set as \<Longrightarrow> usable b \<Longrightarrow>
     allocationKey b \<in> set seen \<or> allocationKey b \<in> allocationKey ` set (normalise_loop seen as)"
proof (induction seen as rule: normalise_loop.induct)
  case (2 seen a as)
  then show ?case by (cases "b = a") (auto simp: Let_def usable_def)
qed simp

lemma normalise_loop_id:
  "distinct (map allocationKey as) \<Longrightarrow> \<forall>a \<in> set as. validAllocation a \<and> normaliseAllocation a = a
     \<Longrightarrow> allocationKey ` set as \<inter> set seen = {} \<Longrightarrow> normalise_loop seen as = as"
  by (induction seen as rule: normalise_loop.induct) (auto simp: Let_def)

lemma config_ok_normalise [simp]: "config_ok (normaliseAllocations as)"
  using normalise_loop_mem [of _ "[]" as] normalise_loop_distinct [of "[]" as]
  by (auto simp: config_ok_def normaliseAllocations_def)

lemma normalise_config_ok: "config_ok as \<Longrightarrow> normaliseAllocations as = as"
  by (simp add: config_ok_def normaliseAllocations_def normalise_loop_id)

lemma keys_normaliseAllocations:
  "allocationSet (normaliseAllocations as) = allocationKey ` {a \<in> set as. usable a}"
proof
  show "allocationSet (normaliseAllocations as) \<subseteq> allocationKey ` {a \<in> set as. usable a}"
    using normalise_loop_mem [of _ "[]" as]
    by (fastforce simp: allocationSet_def normaliseAllocations_def usable_def)
  show "allocationKey ` {a \<in> set as. usable a} \<subseteq> allocationSet (normaliseAllocations as)"
    using normalise_loop_covers [of _ as "[]"]
    by (auto simp: allocationSet_def normaliseAllocations_def)
qed

lemma normaliseAllocations_slots:
  "slot ` set (normaliseAllocations as) = slot ` {a \<in> set as. usable a}"
  using keys_normaliseAllocations [of as]
  by (auto simp: allocationSet_def image_iff set_eq_iff key_slot) (metis key_slot)+

text \<open>
  Normalising a configuration yields distinct keys and only trimmed allocations with ports in
  1..65535; it keeps exactly the slots of the usable inputs, and a second pass changes nothing.
\<close>

theorem normaliseAllocations_correct:
  "config_ok (normaliseAllocations as)
   \<and> slot ` set (normaliseAllocations as) = slot ` {a \<in> set as. usable a}
   \<and> normaliseAllocations (normaliseAllocations as) = normaliseAllocations as"
  by (simp add: normalise_config_ok normaliseAllocations_slots)

section \<open>Reservations as an interface\<close>

text \<open>
  What the cell manager relies on: reserving and releasing act on one slot each, and unusable
  allocations are ignored.
\<close>

locale reservations =
  fixes reserved :: "'m \<Rightarrow> 'a \<Rightarrow> bool"
    and reserve :: "'m \<Rightarrow> 'a \<Rightarrow> 'm"
    and release :: "'m \<Rightarrow> 'a \<Rightarrow> 'm"
    and place :: "'a \<Rightarrow> 'k"
    and fit :: "'a \<Rightarrow> bool"
  assumes reserved_reserve:
      "reserved (reserve m a) b \<longleftrightarrow> (fit a \<and> place a = place b) \<or> reserved m b"
    and reserved_release:
      "reserved (release m a) b \<longleftrightarrow> reserved m b \<and> \<not> (fit a \<and> place a = place b)"
    and reserved_fit: "reserved m a \<Longrightarrow> fit a"
    and fit_place: "place a = place b \<Longrightarrow> fit a = fit b"
begin

lemma reserved_many:
  "reserved (foldl reserve m as) b \<longleftrightarrow> (\<exists>a \<in> set as. fit a \<and> place a = place b) \<or> reserved m b"
  by (induction as arbitrary: m) (auto simp: reserved_reserve)

lemma released_one: "reserved (release m a) b \<longleftrightarrow> reserved m b \<and> place a \<noteq> place b"
  using reserved_release [of m a b] reserved_fit [of m b] fit_place [of a b] by blast

lemma released_many:
  "reserved (foldl release m as) b \<longleftrightarrow> reserved m b \<and> (\<forall>a \<in> set as. place a \<noteq> place b)"
  by (induction as arbitrary: m) (auto simp: released_one)

lemma replaced:
  "reserved (foldl reserve (foldl release m old) new) b \<longleftrightarrow>
     fit b \<and> ((\<exists>a \<in> set new. place a = place b)
        \<or> reserved m b \<and> (\<forall>a \<in> set old. place a \<noteq> place b))"
  unfolding reserved_many released_many
  using fit_place [of _ b] reserved_fit [of m b] by blast

end

lemma used_mark [simp]: "set (used (mark_used k m)) = insert k (set (used m))"
  by (simp add: mark_used_def)

lemma used_clear [simp]: "set (used (clear_used k m)) = set (used m) - {k}"
  by (auto simp: clear_used_def)

lemma IsReserved_alt: "IsReserved m a \<longleftrightarrow> usable a \<and> allocationKey a \<in> set (used m)"
  by (simp add: IsReserved_def usable_def Let_def)

interpretation pool: reservations IsReserved ReserveExisting Release slot usable
proof (unfold_locales, goal_cases)
  case (1 m a b)
  then show ?case
    using usable_slot [of a b]
    by (auto simp: IsReserved_alt ReserveExisting_def Let_def usable_def [symmetric] key_slot)
next
  case (2 m a b)
  then show ?case
    by (auto simp: IsReserved_alt Release_def Let_def usable_def [symmetric] key_slot)
next
  case (3 m a)
  then show ?case by (simp add: IsReserved_alt)
next
  case (4 a b)
  then show ?case by (rule usable_slot)
qed

text \<open>
  Replacing reservations, the step of a definition update, leaves exactly the usable new slots
  and the old reservations outside the released slots reserved.
\<close>

theorem ReplaceReservations_correct:
  "IsReserved (ReplaceReservations m old new) b \<longleftrightarrow>
     usable b \<and> (slot b \<in> slot ` set new \<or> IsReserved m b \<and> slot b \<notin> slot ` set old)"
  unfolding ReplaceReservations_def using pool.replaced [of m old new b] by (auto simp: image_iff eq_commute)

section \<open>Invariant and runs\<close>

definition pool_inv :: "Manager \<Rightarrow> bool" where
  "pool_inv m \<longleftrightarrow> config_ok (allowed m) \<and> distinct (used m)"

lemma pool_inv_mark [inv_intros]: "pool_inv m \<Longrightarrow> pool_inv (mark_used k m)"
  by (auto simp: pool_inv_def mark_used_def)

lemma pool_inv_clear [inv_intros]: "pool_inv m \<Longrightarrow> pool_inv (clear_used k m)"
  by (auto simp: pool_inv_def clear_used_def)

lemma pool_inv_reserve [inv_intros]: "pool_inv m \<Longrightarrow> pool_inv (ReserveExisting m a)"
  by (auto simp: ReserveExisting_def Let_def intro: inv_intros)

lemma pool_inv_release [inv_intros]: "pool_inv m \<Longrightarrow> pool_inv (Release m a)"
  by (auto simp: Release_def Let_def intro: inv_intros)

lemma pool_inv_foldl:
  assumes "\<And>m a. pool_inv m \<Longrightarrow> pool_inv (f m a)"
  shows "pool_inv m \<Longrightarrow> pool_inv (foldl f m as)"
  using assms by (induction as arbitrary: m) auto

text \<open>The specification of both allocation loops: the first free slot of the candidates.\<close>

definition free_slot :: "(string \<Rightarrow> bool) \<Rightarrow> Manager \<Rightarrow> Allocation \<Rightarrow> bool" where
  "free_slot listen m a \<longleftrightarrow>
     allocationKey a \<notin> set (used m) \<and> isPortFree listen (IP a) (Port a)"

lemma allocate_loop_spec:
  "allocate_loop listen m as =
     map_option (\<lambda>a. (a, mark_used (allocationKey a) m)) (find (free_slot listen m) as)"
  by (induction as) (auto simp: free_slot_def)

lemma allocate_ip_loop_spec:
  "allocate_ip_loop listen m ip c as =
     (case find (\<lambda>a. IP a = ip \<and> free_slot listen m a) as of
        Some a \<Rightarrow> (Inr a, mark_used (allocationKey a) m)
      | None \<Rightarrow>
          (Inl (ErrorString (if c \<or> (\<exists>a \<in> set as. IP a = ip)
             then ''no free allocations available for IP'' else ''allocation IP is not configured'')), m))"
  by (induction as arbitrary: c) (auto simp: free_slot_def)

text \<open>
  \<open>Allocate\<close> hands out the first configured allocation that is neither in use nor bound by a
  listener, and marks exactly that key; it fails, changing nothing, exactly when there is none.
\<close>

theorem Allocate_correct:
  "Allocate listen m =
     (case find (free_slot listen m) (allowed m) of
        Some a \<Rightarrow> (Inr a, m\<lparr>used := allocationKey a # used m\<rparr>)
      | None \<Rightarrow> (Inl (ErrorString (if allowed m = [] then ''no allocations configured''
                                  else ''no free allocations available'')), m))"
  by (auto simp: Allocate_def allocate_loop_spec mark_used_def free_slot_def
      split: option.splits dest!: find_SomeD)

text \<open>
  \<open>AllocateForIP\<close> does the same among the allocations of the requested IP, and tells an unknown
  IP from an exhausted one.
\<close>

theorem AllocateForIP_correct:
  "AllocateForIP listen m ip0 =
     (let ip = TrimSpace ip0
      in if ip = [] then (Inl (ErrorString ''allocation IP is required''), m)
         else case find (\<lambda>a. IP a = ip \<and> free_slot listen m a) (allowed m) of
           Some a \<Rightarrow> (Inr a, m\<lparr>used := allocationKey a # used m\<rparr>)
         | None \<Rightarrow> (Inl (ErrorString (if ip \<in> IP ` set (allowed m)
               then ''no free allocations available for IP''
               else ''allocation IP is not configured'')), m))"
proof -
  have "(\<exists>a \<in> set (allowed m). IP a = i) \<longleftrightarrow> i \<in> IP ` set (allowed m)" for i
    by auto
  then show ?thesis
    by (auto simp: AllocateForIP_def allocate_ip_loop_spec mark_used_def free_slot_def Let_def
        split: option.splits dest!: find_SomeD)
qed

lemma validate_all_None:
  "validate_all parse_ip as = None \<longleftrightarrow> (\<forall>a \<in> set as. validateAllocation parse_ip a = None)"
  by (induction as) (auto split: option.splits)

definition ip_accepted :: "(string \<Rightarrow> bool) \<Rightarrow> Allocation \<Rightarrow> bool" where
  "ip_accepted parse_ip a \<longleftrightarrow>
     (let ip = TrimSpace (IP a) in ip = ''0.0.0.0'' \<or> ip = ''::'' \<or> parse_ip ip)"

lemma validateAllocation_None:
  "validateAllocation parse_ip a = None \<longleftrightarrow> usable a \<and> ip_accepted parse_ip a"
  by (auto simp: validateAllocation_def Let_def usable_def validAllocation_def ip_accepted_def)

text \<open>
  C15. \<open>Reconfigure\<close> accepts a configuration exactly when its normal form is nonempty, every IP in
  it parses, and every key in use is still configured; then it installs the normal form and keeps
  the reservations. Otherwise the manager is unchanged.
\<close>

theorem Reconfigure_correct:
  "case Reconfigure parse_ip m as of (r, m') \<Rightarrow>
     if list_ex usable as \<and> list_all (ip_accepted parse_ip) (filter usable as)
        \<and> set (used m) \<subseteq> allocationKey ` {a \<in> set as. usable a}
     then r = Inr (normaliseAllocations as) \<and> m' = m\<lparr>allowed := normaliseAllocations as\<rparr>
     else isl r \<and> m' = m"
proof -
  let ?n = "normaliseAllocations as"
  have slots: "slot ` set ?n = slot ` {a \<in> set as. usable a}" and ok: "config_ok ?n"
    by (simp_all add: normaliseAllocations_slots)
  have nonempty: "?n \<noteq> [] \<longleftrightarrow> (\<exists>a \<in> set as. usable a)"
    using slots by (cases ?n) auto
  have acc: "ip_accepted parse_ip a = ip_accepted parse_ip b" if "slot a = slot b" for a b
    using that by (simp add: ip_accepted_def slot_def)
  have "validate_all parse_ip ?n = None
    \<longleftrightarrow> (\<forall>a \<in> set as. usable a \<longrightarrow> ip_accepted parse_ip a)"
  proof -
    have "validate_all parse_ip ?n = None \<longleftrightarrow> (\<forall>a \<in> set ?n. ip_accepted parse_ip a)"
      using ok by (auto simp: validate_all_None validateAllocation_None config_ok_def usable_def)
    also have "\<dots> \<longleftrightarrow> (\<forall>a \<in> {a \<in> set as. usable a}. ip_accepted parse_ip a)"
      using slots acc by (metis (no_types, lifting) imageE imageI)
    finally show ?thesis by auto
  qed
  then have valid: "validateConfiguration parse_ip ?n = None \<longleftrightarrow>
      (\<exists>a \<in> set as. usable a) \<and> (\<forall>a \<in> set as. usable a \<longrightarrow> ip_accepted parse_ip a)"
    using nonempty by (auto simp: validateConfiguration_def)
  have keys: "find (\<lambda>key. key \<notin> allocationSet ?n) (used m) = None \<longleftrightarrow>
      set (used m) \<subseteq> allocationKey ` {a \<in> set as. usable a}"
    by (auto simp: find_None_iff keys_normaliseAllocations)
  show ?thesis
    using valid keys by (auto simp: Reconfigure_def Let_def list_ex_iff list_all_iff split: option.splits)
qed

subsection \<open>Runs\<close>

datatype pool_op =
    OpAllocate "string \<Rightarrow> bool"
  | OpAllocateForIP "string \<Rightarrow> bool" string
  | OpReserve Allocation
  | OpReserveMany "Allocation list"
  | OpRelease Allocation
  | OpReplace "Allocation list" "Allocation list"
  | OpReconfigure "string \<Rightarrow> bool" "Allocation list"

definition handed :: "(go_error + Allocation) \<Rightarrow> Allocation list" where
  "handed r = (case r of Inl _ \<Rightarrow> [] | Inr a \<Rightarrow> [a])"

fun pool_exec :: "pool_op \<Rightarrow> Manager \<Rightarrow> Allocation list \<times> Manager" where
  "pool_exec (OpAllocate listen) m = apfst handed (Allocate listen m)"
| "pool_exec (OpAllocateForIP listen ip) m = apfst handed (AllocateForIP listen m ip)"
| "pool_exec (OpReserve a) m = ([], ReserveExisting m a)"
| "pool_exec (OpReserveMany as) m = ([], ReserveMany m as)"
| "pool_exec (OpRelease a) m = ([], Release m a)"
| "pool_exec (OpReplace old new) m = ([], ReplaceReservations m old new)"
| "pool_exec (OpReconfigure parse_ip as) m = ([], snd (Reconfigure parse_ip m as))"

fun pool_run :: "pool_op list \<Rightarrow> Manager \<Rightarrow> Allocation list \<times> Manager" where
  "pool_run [] m = ([], m)"
| "pool_run (x # xs) m =
     (let (hs, m') = pool_exec x m; (hs', m'') = pool_run xs m' in (hs @ hs', m''))"

fun gives_back :: "pool_op \<Rightarrow> bool" where
  "gives_back (OpRelease a) = True"
| "gives_back (OpReplace old new) = True"
| "gives_back _ = False"

lemma pool_exec_allocating:
  assumes "pool_exec x m = (hs, m')" "x = OpAllocate listen \<or> x = OpAllocateForIP listen ip"
  shows "hs = [] \<and> m' = m \<or>
    (\<exists>a. hs = [a] \<and> a \<in> set (allowed m) \<and> allocationKey a \<notin> set (used m)
       \<and> m' = m\<lparr>used := allocationKey a # used m\<rparr>)"
  using assms
  by (auto simp: Allocate_def AllocateForIP_def allocate_loop_spec allocate_ip_loop_spec Let_def
      handed_def mark_used_def free_slot_def split: option.splits if_splits dest!: find_SomeD)

lemma reserve_grows: "set (used m) \<subseteq> set (used (ReserveExisting m a))"
  by (auto simp: ReserveExisting_def Let_def)

lemma reserve_many_grows: "set (used m) \<subseteq> set (used (ReserveMany m as))"
  unfolding ReserveMany_def
  using reserve_grows by (induction as arbitrary: m) (auto, blast)

lemma reconfigure_used: "used (snd (Reconfigure parse_ip m as)) = used m"
  by (auto simp: Reconfigure_def Let_def split: option.splits)

lemma pool_exec_keeps:
  assumes "pool_exec x m = (hs, m')" "\<not> gives_back x"
  shows "set (used m) \<subseteq> set (used m') \<and> distinct (map allocationKey hs)
    \<and> allocationKey ` set hs \<inter> set (used m) = {} \<and> allocationKey ` set hs \<subseteq> set (used m')"
proof (cases x)
  case (OpAllocate listen)
  then show ?thesis using pool_exec_allocating [OF assms(1), of listen] by fastforce
next
  case (OpAllocateForIP listen ip)
  then show ?thesis using pool_exec_allocating [OF assms(1), of listen ip] by fastforce
qed (use assms reserve_grows reserve_many_grows reconfigure_used in \<open>auto, blast+\<close>)

lemma pool_inv_allocating:
  assumes "pool_inv m" "x = OpAllocate listen \<or> x = OpAllocateForIP listen ip"
  shows "pool_inv (snd (pool_exec x m))"
proof -
  obtain hs m' where e: "pool_exec x m = (hs, m')" by fastforce
  from pool_exec_allocating [OF this assms(2)] assms(1) have "pool_inv m'"
    by (auto simp: pool_inv_def)
  with e show ?thesis by simp
qed

lemma pool_inv_exec:
  assumes "pool_inv m"
  shows "pool_inv (snd (pool_exec x m))"
proof (cases x)
  case (OpAllocate listen)
  then show ?thesis using pool_inv_allocating [OF assms] by blast
next
  case (OpAllocateForIP listen ip)
  then show ?thesis using pool_inv_allocating [OF assms] by blast
next
  case (OpReconfigure parse_ip as)
  then show ?thesis
    using assms by (auto simp: pool_inv_def Reconfigure_def Let_def split: option.splits)
qed (use assms in \<open>auto simp: ReserveMany_def ReplaceReservations_def
    intro!: pool_inv_foldl inv_intros\<close>)

lemma pool_inv_run: "pool_inv m \<Longrightarrow> pool_inv (snd (pool_run xs m))"
proof (induction xs arbitrary: m)
  case (Cons x xs)
  then show ?case
    using pool_inv_exec [of m x] Cons.IH [of "snd (pool_exec x m)"]
    by (simp add: split_def Let_def)
qed simp

text \<open>
  From a fresh pool every run of operations keeps the configured keys distinct, trimmed and
  valid, and the table of keys in use free of duplicates.
\<close>

theorem pool_reachable_inv: "pool_inv (snd (pool_run ops (NewManager as)))"
  by (rule pool_inv_run) (simp add: pool_inv_def NewManager_def)

text \<open>
  C4. No slot is handed out twice: along any run without a release, the allocations handed out are
  pairwise different slots, none of them was in use before, and all of them stay in use.
\<close>

theorem no_double_allocation:
  assumes "pool_run ops m = (hs, m')" "list_all (\<lambda>x. \<not> gives_back x) ops"
  shows "distinct (map slot hs) \<and> allocationKey ` set hs \<inter> set (used m) = {}
    \<and> set (used m) \<union> allocationKey ` set hs \<subseteq> set (used m')"
proof -
  have "distinct (map allocationKey hs) \<and> allocationKey ` set hs \<inter> set (used m) = {}
    \<and> set (used m) \<union> allocationKey ` set hs \<subseteq> set (used m')"
    using assms
  proof (induction ops arbitrary: m hs)
    case (Cons x xs)
    obtain hs1 m1 hs2 where r: "pool_exec x m = (hs1, m1)" "pool_run xs m1 = (hs2, m')"
      "hs = hs1 @ hs2"
      using Cons.prems(1) by (auto simp: split_def Let_def) (metis prod.collapse)
    have k: "set (used m) \<subseteq> set (used m1)" "distinct (map allocationKey hs1)"
      "allocationKey ` set hs1 \<inter> set (used m) = {}" "allocationKey ` set hs1 \<subseteq> set (used m1)"
      using pool_exec_keeps [OF r(1)] Cons.prems(2) by auto
    have i: "distinct (map allocationKey hs2)" "allocationKey ` set hs2 \<inter> set (used m1) = {}"
      "set (used m1) \<union> allocationKey ` set hs2 \<subseteq> set (used m')"
      using Cons.IH [OF r(2)] Cons.prems(2) by auto
    from k i r(3) show ?case by auto blast+
  qed simp
  then show ?thesis by (auto simp: distinct_map inj_on_def key_slot)
qed

theorem no_double_allocation_witness:
  "\<exists>hs m'. pool_run [OpAllocate (\<lambda>_. True), OpAllocate (\<lambda>_. True)]
       (NewManager [\<lparr>IP = ''1'', Port = 1\<rparr>, \<lparr>IP = ''1'', Port = 2\<rparr>]) = (hs, m')
     \<and> length hs = 2 \<and> distinct (map slot hs)"
proof -
  let ?ops = "[OpAllocate (\<lambda>_. True), OpAllocate (\<lambda>_. True)]"
  let ?m = "NewManager [\<lparr>IP = ''1'', Port = 1\<rparr>, \<lparr>IP = ''1'', Port = 2\<rparr>]"
  have r: "pool_run ?ops ?m = (fst (pool_run ?ops ?m), snd (pool_run ?ops ?m))" by simp
  have "length (fst (pool_run ?ops ?m)) = 2" by code_simp
  moreover have "distinct (map slot (fst (pool_run ?ops ?m)))"
    using no_double_allocation [OF r] by simp
  ultimately show ?thesis by (metis r)
qed

end
