(* ===== verification/GoPath.thy ===== *)
theory GoPath
  imports GoPrelude
begin

text \<open>
  Package \<open>path/filepath\<close> of Go on a Unix host (where it agrees with package \<open>path\<close>):
  \<open>Clean\<close>, \<open>Join\<close>, \<open>Abs\<close>, \<open>Rel\<close>, \<open>Dir\<close>, \<open>Base\<close>, \<open>Ext\<close> and \<open>IsAbs\<close>, executable on strings,
  and the normal forms the path checks of the worker rest on: a cleaned absolute path is
  \<open>rooted cs\<close> for a list \<open>cs\<close> of plain components, and containment of paths is the prefix order
  on those lists.
\<close>

section \<open>Operations\<close>

definition is_abs :: "string \<Rightarrow> bool" where
  "is_abs p \<longleftrightarrow> HasPrefix p ''/''"

text \<open>
  \<open>clean_comps r acc cs\<close> processes the components \<open>cs\<close> left to right; \<open>acc\<close> holds the components
  kept so far, last one first; \<open>r\<close> says whether the path is rooted.
\<close>

fun clean_comps :: "bool \<Rightarrow> string list \<Rightarrow> string list \<Rightarrow> string list" where
  "clean_comps r acc [] = rev acc"
| "clean_comps r acc (c # cs) =
     (if c = [] \<or> c = ''.'' then clean_comps r acc cs
      else if c = ''..'' then
        (case acc of
           [] \<Rightarrow> if r then clean_comps r [] cs else clean_comps r [c] cs
         | a # as \<Rightarrow> if a = ''..'' then clean_comps r (c # acc) cs else clean_comps r as cs)
      else clean_comps r (c # acc) cs)"

definition rooted :: "string list \<Rightarrow> string" where
  "rooted cs = slash # JoinWith slash cs"

definition path_clean :: "string \<Rightarrow> string" where
  "path_clean p =
     (let cs = clean_comps (is_abs p) [] (Split slash p)
      in if is_abs p then rooted cs else if cs = [] then ''.'' else JoinWith slash cs)"

definition path_join :: "string list \<Rightarrow> string" where
  "path_join es =
     (let ne = filter (\<lambda>e. e \<noteq> []) es
      in if ne = [] then [] else path_clean (JoinWith slash ne))"

text \<open>\<open>filepath.Abs\<close>; \<open>wd\<close> is the result of \<open>os.Getwd\<close>.\<close>

type_synonym getwd = "go_error + string"

definition path_abs :: "getwd \<Rightarrow> string \<Rightarrow> go_error + string" where
  "path_abs wd p =
     (if is_abs p then Inr (path_clean p)
      else case wd of Inl e \<Rightarrow> Inl e | Inr d \<Rightarrow> Inr (path_join [d, p]))"

definition comps :: "string \<Rightarrow> string list" where
  "comps p = filter (\<lambda>c. c \<noteq> []) (Split slash p)"

fun strip_common :: "string list \<Rightarrow> string list \<Rightarrow> string list \<times> string list" where
  "strip_common (b # bs) (t # ts) = (if b = t then strip_common bs ts else (b # bs, t # ts))"
| "strip_common bs ts = (bs, ts)"

definition path_rel :: "string \<Rightarrow> string \<Rightarrow> go_error + string" where
  "path_rel basepath targpath =
     (let base = path_clean basepath; targ = path_clean targpath
      in if targ = base then Inr ''.''
         else let base' = (if base = ''.'' then [] else base)
              in if is_abs base' \<noteq> is_abs targ then Inl (ErrorString ''Rel: cannot make relative'')
                 else let (bs, ts) = strip_common (comps base') (comps targ)
                      in if bs \<noteq> [] \<and> ts \<noteq> [] \<and> hd bs = ''..''
                         then Inl (ErrorString ''Rel: cannot make relative'')
                         else Inr (JoinWith slash (map (\<lambda>_. ''..'') bs @ ts)))"

text \<open>The test every path check of the worker makes on the result of \<open>Rel\<close>.\<close>

definition rel_escapes :: "string \<Rightarrow> bool" where
  "rel_escapes r \<longleftrightarrow> r = ''..'' \<or> HasPrefix r ''../''"

definition path_dir :: "string \<Rightarrow> string" where
  "path_dir p = path_clean (rev (dropWhile (\<lambda>c. c \<noteq> slash) (rev p)))"

definition path_base :: "string \<Rightarrow> string" where
  "path_base p =
     (if p = [] then ''.''
      else let q = rev (dropWhile (\<lambda>c. c = slash) (rev p))
           in if q = [] then ''/'' else rev (takeWhile (\<lambda>c. c \<noteq> slash) (rev q)))"

definition path_ext :: "string \<Rightarrow> string" where
  "path_ext p =
     (let b = takeWhile (\<lambda>c. c \<noteq> slash) (rev p); e = takeWhile (\<lambda>c. c \<noteq> CHR ''.'') b
      in if length e < length b then CHR ''.'' # rev e else [])"

section \<open>Plain components and rooted paths\<close>

definition plain :: "string \<Rightarrow> bool" where
  "plain c \<longleftrightarrow> c \<noteq> [] \<and> c \<noteq> ''.'' \<and> c \<noteq> ''..'' \<and> slash \<notin> set c"

definition plains :: "string list \<Rightarrow> bool" where
  "plains cs \<longleftrightarrow> (\<forall>c \<in> set cs. plain c)"

lemma plains_simps [simp]:
  "plains []" "plains (c # cs) \<longleftrightarrow> plain c \<and> plains cs"
  "plains (cs @ ds) \<longleftrightarrow> plains cs \<and> plains ds" "plains (rev cs) \<longleftrightarrow> plains cs"
  by (auto simp: plains_def)

lemma plains_mem: "plains cs \<Longrightarrow> c \<in> set cs \<Longrightarrow> plain c"
  by (simp add: plains_def)

lemma plains_prefix: "prefix bs cs \<Longrightarrow> plains cs \<Longrightarrow> plains bs"
  by (auto simp: prefix_def)

lemma plains_butlast: "plains cs \<Longrightarrow> plains (butlast cs)"
  by (auto simp: plains_def dest: in_set_butlastD)

lemma plain_props: "plain c \<Longrightarrow> c \<noteq> []" "plain c \<Longrightarrow> c \<noteq> ''.''" "plain c \<Longrightarrow> c \<noteq> ''..''"
  "plain c \<Longrightarrow> slash \<notin> set c"
  by (auto simp: plain_def)

lemma plainI: "c \<noteq> [] \<Longrightarrow> c \<noteq> ''.'' \<Longrightarrow> c \<noteq> ''..'' \<Longrightarrow> slash \<notin> set c \<Longrightarrow> plain c"
  by (simp add: plain_def)

lemma is_abs_rooted [simp]: "is_abs (rooted cs)"
  by (simp add: is_abs_def rooted_def HasPrefix_def)

lemma is_abs_Cons [simp]: "is_abs (c # s) \<longleftrightarrow> c = slash"
  by (auto simp: is_abs_def HasPrefix_def)

lemma is_abs_Nil [simp]: "\<not> is_abs []"
  by (simp add: is_abs_def HasPrefix_def)

lemma is_abs_append: "s \<noteq> [] \<Longrightarrow> is_abs (s @ t) \<longleftrightarrow> is_abs s"
  by (cases s) auto

lemma rooted_nonempty [simp]: "rooted cs \<noteq> []"
  by (simp add: rooted_def)

lemma plains_noslash: "plains cs \<Longrightarrow> \<forall>c \<in> set cs. slash \<notin> set c"
  by (auto simp: plains_def plain_def)

lemma plains_nonempty: "plains cs \<Longrightarrow> \<forall>c \<in> set cs. c \<noteq> []"
  by (auto simp: plains_def plain_def)

lemma plains_notmem: "plains cs \<Longrightarrow> [] \<notin> set cs" "plains cs \<Longrightarrow> ''..'' \<notin> set cs"
  by (auto simp: plains_def plain_def)

lemma Split_plains: "plains cs \<Longrightarrow> cs \<noteq> [] \<Longrightarrow> Split slash (JoinWith slash cs) = cs"
  by (rule Split_JoinWith) (auto dest: plains_noslash)

lemma Split_rooted:
  "plains cs \<Longrightarrow> Split slash (rooted cs) = [] # (if cs = [] then [[]] else cs)"
  by (auto simp: rooted_def Split_plains)

lemma comps_rooted [simp]: "plains cs \<Longrightarrow> comps (rooted cs) = cs"
  by (cases "cs = []") (simp_all add: comps_def Split_rooted filter_id_conv plains_nonempty)

lemma rooted_inject: "plains cs \<Longrightarrow> plains ds \<Longrightarrow> rooted cs = rooted ds \<longleftrightarrow> cs = ds"
  by (metis comps_rooted)

lemma rooted_append: "bs \<noteq> [] \<Longrightarrow> cs \<noteq> [] \<Longrightarrow> rooted (bs @ cs) = rooted bs @ slash # JoinWith slash cs"
  by (simp add: rooted_def JoinWith_append)

lemma clean_comps_append:
  "clean_comps True acc (cs @ ds) = clean_comps True (rev (clean_comps True acc cs)) ds"
  by (induction "True" acc cs rule: clean_comps.induct) (auto split: list.splits)

lemma clean_comps_plain:
  "plains acc \<Longrightarrow> \<forall>c \<in> set cs. slash \<notin> set c \<Longrightarrow> plains (clean_comps True acc cs)"
proof (induction cs arbitrary: acc)
  case (Cons c cs)
  have IH: "plains (clean_comps True a cs)" if "plains a" for a
    using Cons that by simp
  consider "c = [] \<or> c = ''.''" | "c = ''..''" | "plain c"
    using Cons.prems(2) by (auto intro: plainI)
  then show ?case
  proof cases
    case 1
    with IH [OF Cons.prems(1)] show ?thesis by auto
  next
    case 2
    with IH [of acc] IH [of "tl acc"] Cons.prems(1) show ?thesis
      by (cases acc) (auto dest: plain_props)
  next
    case 3
    with IH [of "c # acc"] Cons.prems(1) show ?thesis by (simp add: plain_props)
  qed
qed simp

lemma clean_comps_plains: "plains cs \<Longrightarrow> clean_comps r acc cs = rev acc @ cs"
  by (induction cs arbitrary: acc) (auto dest: plain_props)

lemma clean_comps_empty [simp]: "clean_comps r acc ([] # cs) = clean_comps r acc cs"
  by simp

definition clean_abs :: "string \<Rightarrow> string list" where
  "clean_abs p = clean_comps True [] (Split slash p)"

lemma plains_clean_abs [simp]: "plains (clean_abs p)"
  unfolding clean_abs_def by (rule clean_comps_plain) (auto dest: Split_mem_nosep)

lemma path_clean_abs: "is_abs p \<Longrightarrow> path_clean p = rooted (clean_abs p)"
  by (simp add: path_clean_def clean_abs_def Let_def)

lemma clean_abs_rooted [simp]: "plains cs \<Longrightarrow> clean_abs (rooted cs) = cs"
  by (auto simp: clean_abs_def Split_rooted clean_comps_plains)

lemma path_clean_rooted [simp]: "plains cs \<Longrightarrow> path_clean (rooted cs) = rooted cs"
  by (simp add: path_clean_abs)

section \<open>Joining, relative paths and containment\<close>

text \<open>Where joining \<open>r\<close> onto the directory \<open>rooted bs\<close> ends up.\<close>

definition descend :: "string list \<Rightarrow> string \<Rightarrow> string list" where
  "descend bs r = clean_comps True (rev bs) (Split slash r)"

lemma plains_descend [simp]: "plains bs \<Longrightarrow> plains (descend bs r)"
  unfolding descend_def by (rule clean_comps_plain) (auto dest: Split_mem_nosep)

lemma descend_Nil [simp]: "descend bs [] = bs"
  by (simp add: descend_def)

lemma descend_append_slash: "descend bs (a @ slash # b) = descend (descend bs a) b"
  by (simp add: descend_def Split_append clean_comps_append)

lemma clean_abs_descend: "clean_abs p = descend [] p"
  by (simp add: clean_abs_def descend_def)

lemma descend_rooted: "plains cs \<Longrightarrow> descend bs (rooted cs) = bs @ cs"
  by (auto simp: descend_def Split_rooted clean_comps_plains)

lemma descend_plain: "plain c \<Longrightarrow> descend bs c = bs @ [c]"
  by (simp add: descend_def Split_nosep plain_props)

lemma descend_JoinWith: "plains cs \<Longrightarrow> descend bs (JoinWith slash cs) = bs @ cs"
  by (cases "cs = []") (auto simp: descend_def Split_plains clean_comps_plains)

lemma clean_abs_rooted_slash: "plains bs \<Longrightarrow> clean_abs (rooted bs @ slash # r) = descend bs r"
  by (simp add: clean_abs_descend descend_append_slash descend_rooted)

lemma path_join_rooted [path_simps]:
  "plains bs \<Longrightarrow> path_join [rooted bs, r] = rooted (descend bs r)"
  by (cases "r = []") (simp_all add: path_join_def path_clean_abs is_abs_append clean_abs_rooted_slash
      rooted_nonempty)

lemma path_join_rooted3 [path_simps]:
  "plains bs \<Longrightarrow> path_join [rooted bs, r, s] = rooted (descend (descend bs r) s)"
  by (cases "r = []"; cases "s = []")
    (simp_all add: path_join_def path_clean_abs is_abs_append clean_abs_rooted_slash
      descend_append_slash rooted_nonempty)

text \<open>\<open>Abs\<close> of any path is a rooted path of plain components.\<close>

definition rooted_wd :: "getwd \<Rightarrow> bool" where
  "rooted_wd wd \<longleftrightarrow> (case wd of Inl _ \<Rightarrow> True | Inr d \<Rightarrow> is_abs d)"

lemma path_join_abs: "is_abs d \<Longrightarrow> path_join [d, p] = rooted (descend (clean_abs d) p)"
  by (cases d; cases "p = []") (auto simp: path_join_def path_clean_abs clean_abs_descend
      descend_append_slash [of _ "_ # _", simplified])

lemma path_abs_rooted:
  assumes "rooted_wd wd" "path_abs wd p = Inr q"
  obtains cs where "plains cs" "q = rooted cs"
proof -
  show ?thesis
  proof (cases "is_abs p")
    case True
    with assms(2) have "q = rooted (clean_abs p)" by (simp add: path_abs_def path_clean_abs)
    then show ?thesis by (intro that [of "clean_abs p"]) simp_all
  next
    case False
    with assms obtain d where "is_abs d" "q = path_join [d, p]"
      by (auto simp: path_abs_def rooted_wd_def split: sum.splits)
    then show ?thesis
      by (intro that [of "descend (clean_abs d) p"]) (simp_all add: path_join_abs)
  qed
qed

lemma path_abs_abs: "is_abs p \<Longrightarrow> path_abs wd p = Inr (path_clean p)"
  by (simp add: path_abs_def)

lemma path_abs_of_rooted [simp]: "plains cs \<Longrightarrow> path_abs wd (rooted cs) = Inr (rooted cs)"
  by (simp add: path_abs_abs)

lemma strip_common_append [simp]: "strip_common (bs @ xs) (bs @ ys) = strip_common xs ys"
  by (induction bs) auto

lemma strip_common_eq: "strip_common bs ts = (bs', ts') \<Longrightarrow> \<exists>p. bs = p @ bs' \<and> ts = p @ ts'"
proof (induction bs ts arbitrary: bs' ts' rule: strip_common.induct)
  case (1 b bs t ts)
  then show ?case by (auto split: if_splits)
qed auto

lemma strip_common_Nil1 [simp]: "strip_common [] ts = ([], ts)"
  by (cases ts) auto

lemma strip_common_fst_Nil: "fst (strip_common bs ts) = [] \<longleftrightarrow> prefix bs ts"
  by (induction bs ts rule: strip_common.induct) auto

text \<open>
  \<open>Rel\<close> between two cleaned absolute paths never fails, and the result escapes exactly when the
  base is not a component prefix of the target: this is what makes the worker's check sound and
  complete, where a test of string prefixes would not be.
\<close>

lemma path_rel_rooted:
  assumes "plains bs" "plains ts"
  shows "path_rel (rooted bs) (rooted ts) =
    Inr (if bs = ts then ''.''
         else let (bs', ts') = strip_common bs ts in JoinWith slash (map (\<lambda>_. ''..'') bs' @ ts'))"
proof -
  obtain bs' ts' where s: "strip_common bs ts = (bs', ts')" by fastforce
  from strip_common_eq [OF s] assms(1) have "plains bs'" by auto
  then have "bs' \<noteq> [] \<Longrightarrow> hd bs' \<noteq> ''..''" by (metis list.set_sel(1) plains_mem plain_props(3))
  moreover have "rooted bs \<noteq> ''.''" by (simp add: rooted_def)
  ultimately show ?thesis
    using assms s by (auto simp: path_rel_def rooted_inject Let_def)
qed

lemma rel_escapes_JoinWith:
  assumes "plains ts"
  shows "rel_escapes (JoinWith slash (map (\<lambda>_. ''..'') (bs :: string list) @ ts)) \<longleftrightarrow> bs \<noteq> []"
proof (cases bs)
  case Nil
  have "JoinWith slash ts \<noteq> ''..''"
  proof
    assume "JoinWith slash ts = ''..''"
    then have "Split slash ''..'' = ts"
      using assms Split_plains [of ts] by (cases "ts = []") auto
    then have "ts = [''..'']" by (simp add: Split_nosep)
    then show False using assms by (auto dest: plain_props)
  qed
  moreover have "\<not> HasPrefix (JoinWith slash ts) ''../''"
  proof
    assume "HasPrefix (JoinWith slash ts) ''../''"
    then obtain z where z: "JoinWith slash ts = ''..'' @ slash # z"
      by (auto simp: HasPrefix_def prefix_def)
    then have "ts \<noteq> []" by auto
    then have "Split slash (''..'' @ slash # z) = ts"
      using z assms Split_plains [of ts] by auto
    moreover have "Split slash (''..'' @ slash # z) = ''..'' # Split slash z"
      unfolding Split_append by (simp add: Split_nosep)
    ultimately have "''..'' \<in> set ts" by (metis list.set_intros(1))
    with assms show False by (auto dest: plains_notmem)
  qed
  ultimately show ?thesis using Nil by (simp add: rel_escapes_def)
next
  case (Cons b bs')
  then show ?thesis
    by (cases "map (\<lambda>_. ''..'') bs' @ ts") (auto simp: rel_escapes_def HasPrefix_def)
qed

lemma rel_escapes_iff:
  assumes "plains bs" "plains ts" "path_rel (rooted bs) (rooted ts) = Inr r"
  shows "rel_escapes r \<longleftrightarrow> \<not> prefix bs ts"
proof -
  obtain bs' ts' where s: "strip_common bs ts = (bs', ts')" by fastforce
  from strip_common_eq [OF s] assms(2) have "plains ts'" by auto
  moreover have "bs' = [] \<longleftrightarrow> prefix bs ts" using s strip_common_fst_Nil [of bs ts] by simp
  moreover have "\<not> rel_escapes ''.''" by (simp add: rel_escapes_def HasPrefix_def)
  ultimately show ?thesis
    using assms s rel_escapes_JoinWith [of ts' bs'] by (cases "bs = ts") (auto simp: path_rel_rooted)
qed

text \<open>\<open>Dir\<close> and \<open>Base\<close> of a rooted path.\<close>

lemma path_dir_slash: "slash \<notin> set c \<Longrightarrow> path_dir (a @ slash # c) = path_clean (a @ [slash])"
proof -
  assume "slash \<notin> set c"
  then have "dropWhile (\<lambda>x. x \<noteq> slash) (rev c @ slash # rev a) = slash # rev a"
    by (subst dropWhile_append2) auto
  then show ?thesis by (simp add: path_dir_def)
qed

lemma path_base_slash:
  assumes "slash \<notin> set c" "c \<noteq> []"
  shows "path_base (a @ slash # c) = c"
proof -
  have "takeWhile (\<lambda>x. x \<noteq> slash) (rev c @ slash # rev a) = rev c"
    using assms by (subst takeWhile_append2) auto
  moreover have "dropWhile (\<lambda>x. x = slash) (rev c @ slash # rev a) = rev c @ slash # rev a"
  proof -
    obtain x xs where x: "rev c = x # xs" using assms(2) by (cases "rev c") auto
    then have "x \<in> set c" by (metis list.set_intros(1) set_rev)
    with assms(1) have "x \<noteq> slash" by auto
    with x show ?thesis by simp
  qed
  ultimately show ?thesis by (simp add: path_base_def)
qed

lemma path_dir_rooted [path_simps]:
  assumes "plains cs" "plain c"
  shows "path_dir (rooted (cs @ [c])) = rooted cs"
proof -
  have r: "rooted (cs @ [c]) = (if cs = [] then [] else rooted cs) @ slash # c"
    by (simp add: rooted_append) (simp add: rooted_def)
  show ?thesis
    unfolding r using assms
    using path_dir_slash [of c "[]"]
    by (cases "cs = []") (simp_all add: path_dir_slash plain_props path_clean_abs is_abs_append
        clean_abs_rooted_slash, simp add: rooted_def clean_abs_def)
qed

lemma path_base_rooted [path_simps]:
  assumes "plain c"
  shows "path_base (rooted (cs @ [c])) = c"
proof -
  have r: "rooted (cs @ [c]) = (if cs = [] then [] else rooted cs) @ slash # c"
    by (simp add: rooted_append) (simp add: rooted_def)
  show ?thesis
    unfolding r using assms by (simp add: path_base_slash plain_props)
qed

text \<open>A cleaned relative path: some \<open>..\<close>, then plain components.\<close>

lemma clean_comps_relative:
  assumes "plains ps" "\<forall>c \<in> set cs. slash \<notin> set c"
  shows "\<exists>n qs. plains qs \<and> clean_comps False (rev ps @ replicate k ''..'') cs = replicate n ''..'' @ qs"
  using assms
proof (induction cs arbitrary: ps k)
  case Nil
  then show ?case by auto
next
  case (Cons c cs)
  note IH = Cons.IH [where k = k] Cons.IH [where ps = "[]" and k = "Suc k"]
  have sl: "\<forall>c \<in> set cs. slash \<notin> set c" using Cons.prems(2) by simp
  consider "c = [] \<or> c = ''.''" | "c = ''..''" | "plain c"
    using Cons.prems(2) by (auto intro: plainI)
  then show ?case
  proof cases
    case 1
    with IH(1) [OF Cons.prems(1) sl] show ?thesis by auto
  next
    case 2
    show ?thesis
    proof (cases ps rule: rev_cases)
      case Nil
      have "clean_comps False (replicate k ''..'') (c # cs)
          = clean_comps False (replicate (Suc k) ''..'') cs"
        using 2 by (cases k) auto
      then show ?thesis using IH(2) sl Nil by simp
    next
      case (snoc qs q)
      then have "clean_comps False (rev ps @ replicate k ''..'') (c # cs)
          = clean_comps False (rev qs @ replicate k ''..'') cs"
        using 2 Cons.prems(1) by (auto dest: plain_props)
      then show ?thesis using IH(1) [of qs] sl snoc Cons.prems(1) by simp
    qed
  next
    case 3
    then have "clean_comps False (rev ps @ replicate k ''..'') (c # cs)
        = clean_comps False (rev (ps @ [c]) @ replicate k ''..'') cs"
      by (simp add: plain_props)
    then show ?thesis using IH(1) [of "ps @ [c]"] sl 3 Cons.prems(1) by simp
  qed
qed

lemma path_clean_relative:
  assumes "\<not> is_abs p"
  obtains n qs where "plains qs" "path_clean p = (if n = 0 \<and> qs = [] then ''.''
    else JoinWith slash (replicate n ''..'' @ qs))"
proof -
  obtain n qs where "plains qs"
    "clean_comps False [] (Split slash p) = replicate n ''..'' @ qs"
    using clean_comps_relative [of "[]" "Split slash p" 0] by (auto dest: Split_mem_nosep)
  then show ?thesis
    using assms by (intro that [of qs n]) (auto simp: path_clean_def Let_def)
qed

lemma HasPrefix_dots: "n \<noteq> 0 \<Longrightarrow> JoinWith slash (replicate n ''..'' @ qs) = ''..''
    \<or> HasPrefix (JoinWith slash (replicate n ''..'' @ qs)) ''../''"
  by (cases n; cases "replicate (n - 1) ''..'' @ qs") (auto simp: HasPrefix_def)

lemma path_clean_plains: "plains cs \<Longrightarrow> cs \<noteq> [] \<Longrightarrow> path_clean (JoinWith slash cs) = JoinWith slash cs"
proof -
  assume p: "plains cs" "cs \<noteq> []"
  have "\<not> is_abs (JoinWith slash cs)"
  proof -
    obtain c cs' where c: "cs = c # cs'" using p(2) by (cases cs) auto
    show ?thesis
      using p(1) unfolding c by (cases cs'; cases c) (auto simp: plain_def is_abs_def HasPrefix_def)
  qed
  with p show ?thesis by (simp add: path_clean_def Split_plains clean_comps_plains)
qed

text \<open>The containment relation between absolute paths.\<close>

definition within :: "string \<Rightarrow> string \<Rightarrow> bool" where
  "within base p \<longleftrightarrow>
     is_abs base \<and> is_abs p \<and> path_clean p = p \<and> prefix (clean_abs base) (clean_abs p)"

lemma within_rooted [simp]:
  "plains bs \<Longrightarrow> plains ts \<Longrightarrow> within (rooted bs) (rooted ts) \<longleftrightarrow> prefix bs ts"
  by (simp add: within_def)

lemma within_refl: "is_abs b \<Longrightarrow> path_clean b = b \<Longrightarrow> within b b"
  by (simp add: within_def)

lemma within_trans: "within a b \<Longrightarrow> within b c \<Longrightarrow> within a c"
  by (auto simp: within_def)

end
