(* ===== verification/OsModel.thy ===== *)
theory OsModel
  imports GoPath "HOL-Library.AList" "HOL-Library.Char_ord" "HOL-Library.List_Lexorder"
begin

text \<open>
  The file system the worker runs on, and the functions of package \<open>os\<close> it calls. A file system is
  a finite association list from absolute component lists to nodes; the root directory is always
  there. Path resolution is that of a Unix kernel: symbolic links are followed, at most 40 of them.
  Every call may also fail for a reason outside the model (permissions, a full disk, a dying disk):
  \<open>faults\<close> says which calls of the run do, and theorems hold for every such function. A faulty call
  leaves the files alone. Permission bits and times are not part of a node.
\<close>

section \<open>Nodes and stores\<close>

datatype node = DirNode | FileNode string | LinkNode string | SpecialNode

type_synonym fpath = "string list"
type_synonym fsys = "(fpath \<times> node) list"

definition fs_get :: "fsys \<Rightarrow> fpath \<Rightarrow> node option" where
  "fs_get f p = (if p = [] then Some DirNode else map_of f p)"

definition fs_put :: "fpath \<Rightarrow> node \<Rightarrow> fsys \<Rightarrow> fsys" where
  "fs_put p n f = AList.update p n f"

definition fs_del :: "fpath \<Rightarrow> fsys \<Rightarrow> fsys" where
  "fs_del p f = filter (\<lambda>(k, _). k \<noteq> p) f"

definition fs_cut :: "fpath \<Rightarrow> fsys \<Rightarrow> fsys" where
  "fs_cut p f = filter (\<lambda>(k, _). \<not> prefix p k) f"

definition fs_move :: "fpath \<Rightarrow> fpath \<Rightarrow> fsys \<Rightarrow> fsys" where
  "fs_move a b f =
     map (\<lambda>(k, n). if prefix a k then (b @ drop (length a) k, n) else (k, n)) (fs_cut b f)"

text \<open>The names in a directory: a kernel hands out single names only, never \<open>.\<close>, \<open>..\<close> or a name with a slash.\<close>

definition fs_children :: "fsys \<Rightarrow> fpath \<Rightarrow> string list" where
  "fs_children f p =
     sort (remdups (map (\<lambda>(k, _). last k)
       (filter (\<lambda>(k, _). k \<noteq> [] \<and> butlast k = p \<and> plain (last k)) f)))"

lemma fs_get_root [simp]: "fs_get f [] = Some DirNode"
  by (simp add: fs_get_def)

lemma fs_get_put [simp]: "p \<noteq> [] \<Longrightarrow> fs_get (fs_put p n f) q = (if q = p then Some n else fs_get f q)"
  by (simp add: fs_get_def fs_put_def update_conv')

lemma map_of_filter_key:
  "map_of (filter (\<lambda>(k, _). P k) f) q = (if P q then map_of f q else None)"
  by (induction f) auto

lemma fs_get_del [simp]: "p \<noteq> [] \<Longrightarrow> fs_get (fs_del p f) q = (if q = p then None else fs_get f q)"
  by (simp add: fs_get_def fs_del_def map_of_filter_key)

lemma fs_get_cut [simp]:
  "p \<noteq> [] \<Longrightarrow> fs_get (fs_cut p f) q = (if prefix p q then None else fs_get f q)"
  by (auto simp: fs_get_def fs_cut_def map_of_filter_key)

lemma fs_children_iff: "c \<in> set (fs_children f p) \<longleftrightarrow> plain c \<and> fs_get f (p @ [c]) \<noteq> None"
  by (force simp: fs_children_def fs_get_def map_of_eq_None_iff image_iff snoc_eq_iff_butlast)

text \<open>Where a moved tree ends up.\<close>

lemma fs_get_move:
  assumes "a \<noteq> []" "b \<noteq> []" "\<not> prefix a b" "\<not> prefix b a"
  shows "fs_get (fs_move a b f) q =
    (if prefix b q then fs_get f (a @ drop (length b) q)
     else if prefix a q then None else fs_get f q)"
proof (cases "q = []")
  case True
  then show ?thesis using assms by (auto simp: prefix_Nil)
next
  case False
  have dis: "\<not> prefix b (a @ r)" "\<not> prefix a (b @ r)" for r
    using assms(3,4) by (metis prefixI prefix_same_cases)+
  have "map_of (fs_move a b f) q =
    (if prefix b q then map_of f (a @ drop (length b) q)
     else if prefix a q then None else map_of f q)"
  proof (induction f)
    case (Cons kn f)
    obtain k n where kn: "kn = (k, n)" by fastforce
    show ?case
    proof (cases "prefix b k")
      case True
      then have "fs_move a b (kn # f) = fs_move a b f" by (simp add: kn fs_move_def fs_cut_def)
      moreover have "k \<noteq> a @ r" "a @ r \<noteq> k" for r using True dis by auto
      moreover have "q = k \<Longrightarrow> prefix b q" using True by simp
      ultimately show ?thesis using Cons by (auto simp: kn)
    next
      case False
      then have m: "fs_move a b (kn # f) =
          (if prefix a k then (b @ drop (length a) k, n) else (k, n)) # fs_move a b f"
        by (simp add: kn fs_move_def fs_cut_def)
      show ?thesis
      proof (cases "prefix a k")
        case True
        then obtain r where "k = a @ r" by (auto simp: prefix_def)
        then show ?thesis using m Cons dis by (auto simp: kn prefix_def)
      next
        case n: False
        have "k \<noteq> a @ r" for r using n by auto
        then show ?thesis using m n False Cons by (auto simp: kn)
      qed
    qed
  qed (simp add: fs_move_def fs_cut_def)
  with False assms(1) show ?thesis by (auto simp: fs_get_def)
qed

section \<open>Path resolution\<close>

text \<open>
  \<open>namei n f fl cur cs\<close> walks the components \<open>cs\<close> from the directory \<open>cur\<close>; \<open>n\<close> symbolic links
  may still be followed; \<open>fl\<close> says whether a link in the last position is followed. The result is
  a location, which need not exist yet.
\<close>

function namei :: "nat \<Rightarrow> fsys \<Rightarrow> bool \<Rightarrow> fpath \<Rightarrow> string list \<Rightarrow> go_error + fpath" where
  "namei n f fl cur [] = Inr cur"
| "namei n f fl cur (c # cs) =
     (if c = [] \<or> c = ''.'' then namei n f fl cur cs
      else if c = ''..'' then namei n f fl (butlast cur) cs
      else case fs_get f (cur @ [c]) of
        None \<Rightarrow> if cs = [] then Inr (cur @ [c]) else Inl SysNotExist
      | Some (LinkNode t) \<Rightarrow>
          if cs = [] \<and> \<not> fl then Inr (cur @ [c])
          else (case n of
              0 \<Rightarrow> Inl SysLoop
            | Suc m \<Rightarrow> namei m f fl (if is_abs t then [] else cur) (Split slash t @ cs))
      | Some DirNode \<Rightarrow> namei n f fl (cur @ [c]) cs
      | Some _ \<Rightarrow> if cs = [] then Inr (cur @ [c]) else Inl SysNotDir)"
  by pat_completeness auto
termination
  by (relation "measures [\<lambda>(n, _). n, \<lambda>(_, _, _, _, cs). length cs]") auto

definition max_links :: nat where
  "max_links = 40"

record world =
  files :: fsys
  wd :: getwd
  faults :: "nat \<Rightarrow> string option"
  ticks :: nat

definition locate :: "bool \<Rightarrow> getwd \<Rightarrow> fsys \<Rightarrow> string \<Rightarrow> go_error + fpath" where
  "locate fl d f p =
     (if p = [] then Inl SysNotExist
      else if CHR 0x00 \<in> set p then Inl SysInvalid
      else if is_abs p then namei max_links f fl [] (comps p)
      else case d of Inl _ \<Rightarrow> Inl SysNotExist | Inr s \<Rightarrow> namei max_links f fl (comps s) (comps p))"

section \<open>Computations over the world\<close>

type_synonym 'a os = "world \<Rightarrow> (go_error + 'a) \<times> world"

definition os_return :: "'a \<Rightarrow> 'a os" where
  "os_return x = (\<lambda>w. (Inr x, w))"

definition os_throw :: "go_error \<Rightarrow> 'a os" where
  "os_throw e = (\<lambda>w. (Inl e, w))"

text \<open>\<open>x, err := m; if err != nil { return err }; k x\<close>\<close>

definition os_bind :: "'a os \<Rightarrow> ('a \<Rightarrow> 'b os) \<Rightarrow> 'b os" where
  "os_bind m k = (\<lambda>w. case m w of (Inl e, w') \<Rightarrow> (Inl e, w') | (Inr x, w') \<Rightarrow> k x w')"

text \<open>\<open>x, err := m; k x err\<close>: the error is looked at.\<close>

definition os_attempt :: "'a os \<Rightarrow> (go_error + 'a \<Rightarrow> 'b os) \<Rightarrow> 'b os" where
  "os_attempt m k = (\<lambda>w. case m w of (r, w') \<Rightarrow> k r w')"

abbreviation os_seq :: "'a os \<Rightarrow> 'b os \<Rightarrow> 'b os" where
  "os_seq m k \<equiv> os_bind m (\<lambda>_. k)"

text \<open>\<open>_ = m\<close>: the error is dropped.\<close>

abbreviation os_ignore :: "'a os \<Rightarrow> 'b os \<Rightarrow> 'b os" where
  "os_ignore m k \<equiv> os_attempt m (\<lambda>_. k)"

text \<open>\<open>if err := m; err != nil { return fmt.Errorf("...: %w", err) }\<close>\<close>

definition os_wrap :: "string \<Rightarrow> 'a os \<Rightarrow> 'a os" where
  "os_wrap msg m = (\<lambda>w. case m w of (Inl e, w') \<Rightarrow> (Inl (WrapError msg e), w') | (Inr x, w') \<Rightarrow> (Inr x, w'))"

definition os_lift :: "go_error + 'a \<Rightarrow> 'a os" where
  "os_lift r = (\<lambda>w. (r, w))"

definition os_abs :: "string \<Rightarrow> string os" where
  "os_abs p = (\<lambda>w. (path_abs (wd w) p, w))"

text \<open>One call: the fault table is consulted first.\<close>

definition os_call :: "(getwd \<Rightarrow> fsys \<Rightarrow> (go_error + 'a) \<times> fsys) \<Rightarrow> 'a os" where
  "os_call m = (\<lambda>w.
     case faults w (ticks w) of
       Some msg \<Rightarrow> (Inl (SysFault msg), w\<lparr>ticks := Suc (ticks w)\<rparr>)
     | None \<Rightarrow>
         (case m (wd w) (files w) of
            (r, f) \<Rightarrow> (r, w\<lparr>files := f, ticks := Suc (ticks w)\<rparr>)))"

section \<open>Package os\<close>

definition fs_info :: "bool \<Rightarrow> string \<Rightarrow> getwd \<Rightarrow> fsys \<Rightarrow> go_error + node" where
  "fs_info fl p d f =
     (case locate fl d f p of
        Inl e \<Rightarrow> Inl e
      | Inr q \<Rightarrow> (case fs_get f q of None \<Rightarrow> Inl SysNotExist | Some n \<Rightarrow> Inr n))"

definition os_stat :: "string \<Rightarrow> node os" where
  "os_stat p = os_call (\<lambda>d f. (fs_info True p d f, f))"

definition os_lstat :: "string \<Rightarrow> node os" where
  "os_lstat p = os_call (\<lambda>d f. (fs_info False p d f, f))"

definition fs_mkdir :: "fpath \<Rightarrow> fsys \<Rightarrow> (go_error + unit) \<times> fsys" where
  "fs_mkdir q f = (if fs_get f q \<noteq> None then (Inl SysExist, f) else (Inr (), fs_put q DirNode f))"

definition os_mkdir :: "string \<Rightarrow> unit os" where
  "os_mkdir p = os_call (\<lambda>d f.
     case locate False d f p of Inl e \<Rightarrow> (Inl e, f) | Inr q \<Rightarrow> fs_mkdir q f)"

text \<open>
  \<open>os.MkdirAll\<close> stats the path, recurs into its parent and then makes the last directory; seen from
  the front it makes the missing prefixes of the path one after the other.
\<close>

fun mkdirs :: "fpath \<Rightarrow> string list \<Rightarrow> string list \<Rightarrow> fsys \<Rightarrow> (go_error + unit) \<times> fsys" where
  "mkdirs start pfx [] f = (Inr (), f)"
| "mkdirs start pfx (c # cs) f =
     (let pre = pfx @ [c];
          info = (case namei max_links f True start pre of
                    Inl e \<Rightarrow> Inl e
                  | Inr q \<Rightarrow> (case fs_get f q of None \<Rightarrow> Inl SysNotExist | Some n \<Rightarrow> Inr n))
      in case info of
           Inr DirNode \<Rightarrow> mkdirs start pre cs f
         | Inr _ \<Rightarrow> (Inl SysNotDir, f)
         | Inl _ \<Rightarrow>
             (case namei max_links f False start pre of
                Inl e \<Rightarrow> (Inl e, f)
              | Inr q \<Rightarrow>
                  (case fs_mkdir q f of
                     (Inl e, f') \<Rightarrow> (Inl e, f')
                   | (Inr _, f') \<Rightarrow> mkdirs start pre cs f')))"

definition os_mkdir_all :: "string \<Rightarrow> unit os" where
  "os_mkdir_all p = os_call (\<lambda>d f.
     if p = [] then (Inl SysNotExist, f)
     else if CHR 0x00 \<in> set p then (Inl SysInvalid, f)
     else if is_abs p then mkdirs [] [] (comps p) f
     else case d of Inl _ \<Rightarrow> (Inl SysNotExist, f) | Inr s \<Rightarrow> mkdirs (comps s) [] (comps p) f)"

definition os_remove_all :: "string \<Rightarrow> unit os" where
  "os_remove_all p = os_call (\<lambda>d f.
     if p = [] then (Inr (), f)
     else case locate False d f p of
       Inl e \<Rightarrow> (if e = SysNotExist then Inr () else Inl e, f)
     | Inr q \<Rightarrow> if q = [] then (Inl (SysFault ''device or resource busy''), fs_cut [] f)
               else (Inr (), fs_cut q f))"

definition os_remove :: "string \<Rightarrow> unit os" where
  "os_remove p = os_call (\<lambda>d f.
     case locate False d f p of
       Inl e \<Rightarrow> (Inl e, f)
     | Inr q \<Rightarrow>
         (case fs_get f q of
            None \<Rightarrow> (Inl SysNotExist, f)
          | Some DirNode \<Rightarrow>
              if q = [] then (Inl (SysFault ''device or resource busy''), f)
              else if fs_children f q \<noteq> [] then (Inl SysNotEmpty, f) else (Inr (), fs_del q f)
          | Some _ \<Rightarrow> (Inr (), fs_del q f)))"

definition fs_rename :: "bool \<Rightarrow> fpath \<Rightarrow> fpath \<Rightarrow> fsys \<Rightarrow> (go_error + unit) \<times> fsys" where
  "fs_rename same a b f =
     (case fs_get f a of
        None \<Rightarrow> (Inl SysNotExist, f)
      | Some n \<Rightarrow>
          if fs_get f b = Some DirNode \<and> (same \<or> a \<noteq> b) then (Inl SysExist, f)
          else if a = b then (Inr (), f)
          else if prefix a b then (Inl SysInvalid, f)
          else if n = DirNode \<and> fs_get f b \<noteq> None then (Inl SysNotDir, f)
          else (Inr (), fs_move a b f))"

definition os_rename :: "string \<Rightarrow> string \<Rightarrow> unit os" where
  "os_rename old new = os_call (\<lambda>d f.
     case locate False d f old of
       Inl e \<Rightarrow> (Inl e, f)
     | Inr a \<Rightarrow>
         (case locate False d f new of
            Inl e \<Rightarrow> (Inl e, f)
          | Inr b \<Rightarrow> fs_rename (old = new) a b f))"

text \<open>\<open>os.WriteFile\<close>: open with \<open>O_CREATE|O_TRUNC\<close> and write everything.\<close>

definition os_write_file :: "string \<Rightarrow> string \<Rightarrow> unit os" where
  "os_write_file p data = os_call (\<lambda>d f.
     case locate True d f p of
       Inl e \<Rightarrow> (Inl e, f)
     | Inr q \<Rightarrow>
         (case fs_get f q of
            Some DirNode \<Rightarrow> (Inl SysIsDir, f)
          | Some SpecialNode \<Rightarrow> (Inr (), f)
          | _ \<Rightarrow> (Inr (), fs_put q (FileNode data) f)))"

text \<open>\<open>os.OpenFile\<close> with \<open>O_CREATE|O_EXCL\<close>, which makes an empty file.\<close>

definition os_create_excl :: "string \<Rightarrow> unit os" where
  "os_create_excl p = os_call (\<lambda>d f.
     case locate False d f p of
       Inl e \<Rightarrow> (Inl e, f)
     | Inr q \<Rightarrow> if fs_get f q \<noteq> None then (Inl SysExist, f) else (Inr (), fs_put q (FileNode []) f))"

definition os_read_file :: "string \<Rightarrow> string os" where
  "os_read_file p = os_call (\<lambda>d f.
     (case fs_info True p d f of
        Inl e \<Rightarrow> Inl e
      | Inr DirNode \<Rightarrow> Inl SysIsDir
      | Inr (FileNode data) \<Rightarrow> Inr data
      | Inr _ \<Rightarrow> Inl (SysFault ''special file''), f))"

text \<open>\<open>os.ReadDir\<close>: the entries in name order, each with its own kind (links not followed).\<close>

definition fs_entries :: "fsys \<Rightarrow> fpath \<Rightarrow> (string \<times> node) list" where
  "fs_entries f q =
     concat (map (\<lambda>c. case fs_get f (q @ [c]) of None \<Rightarrow> [] | Some n \<Rightarrow> [(c, n)]) (fs_children f q))"

definition os_read_dir :: "string \<Rightarrow> (string \<times> node) list os" where
  "os_read_dir p = os_call (\<lambda>d f.
     (case locate True d f p of
        Inl e \<Rightarrow> Inl e
      | Inr q \<Rightarrow>
          (case fs_get f q of
             None \<Rightarrow> Inl SysNotExist
           | Some DirNode \<Rightarrow> Inr (fs_entries f q)
           | Some _ \<Rightarrow> Inl SysNotDir), f))"

section \<open>Confinement\<close>

text \<open>
  A directory is \<open>solid\<close> when the path to it runs through directories only and no symbolic link lies
  below it: then a path that is lexically below it is also resolved below it. \<open>agree_outside\<close> says
  that two file systems differ only below a directory.
\<close>

definition solid :: "fsys \<Rightarrow> fpath \<Rightarrow> bool" where
  "solid f root \<longleftrightarrow> (\<forall>p. prefix p root \<longrightarrow> fs_get f p = Some DirNode)
     \<and> (\<forall>p t. prefix root p \<longrightarrow> fs_get f p \<noteq> Some (LinkNode t))"

definition agree_outside :: "fpath \<Rightarrow> fsys \<Rightarrow> fsys \<Rightarrow> bool" where
  "agree_outside root f g \<longleftrightarrow> (\<forall>p. \<not> prefix root p \<longrightarrow> fs_get g p = fs_get f p)"

lemma agree_outside_refl [simp]: "agree_outside root f f"
  by (simp add: agree_outside_def)

lemma agree_outside_trans:
  "agree_outside root f g \<Longrightarrow> agree_outside root g h \<Longrightarrow> agree_outside root f h"
  by (simp add: agree_outside_def)

lemma agree_outside_mono: "agree_outside q f g \<Longrightarrow> prefix root q \<Longrightarrow> agree_outside root f g"
  unfolding agree_outside_def using prefix_order.trans by blast

lemma agree_outside_put [intro]: "q \<noteq> [] \<Longrightarrow> prefix root q \<Longrightarrow> agree_outside root f (fs_put q n f)"
  by (auto simp: agree_outside_def)

lemma agree_outside_cut: "q \<noteq> [] \<Longrightarrow> prefix root q \<Longrightarrow> agree_outside root f (fs_cut q f)"
  by (auto simp: agree_outside_def intro: prefix_order.trans)

lemma agree_outside_del: "q \<noteq> [] \<Longrightarrow> prefix root q \<Longrightarrow> agree_outside root f (fs_del q f)"
  by (auto simp: agree_outside_def)

lemma solid_put:
  assumes "solid f root" "prefix root q" "q \<noteq> root \<or> n = DirNode" "q \<noteq> []" "\<forall>t. n \<noteq> LinkNode t"
  shows "solid f root \<Longrightarrow> solid (fs_put q n f) root"
  using assms by (auto simp: solid_def dest: prefix_order.antisym)

text \<open>Walking plain components where no link is met stays on the lexical path.\<close>

lemma namei_plain:
  assumes "namei n f fl cur cs = Inr q" "plains cs"
    "\<And>ds t. ds \<noteq> [] \<Longrightarrow> prefix ds cs \<Longrightarrow> fs_get f (cur @ ds) \<noteq> Some (LinkNode t)"
  shows "q = cur @ cs"
  using assms
proof (induction cs arbitrary: cur)
  case (Cons c cs)
  have c: "plain c" "plains cs" using Cons.prems(2) by auto
  have nolink: "fs_get f (cur @ [c]) \<noteq> Some (LinkNode t)" for t
    using Cons.prems(3) [of "[c]"] by simp
  show ?case
  proof (cases "fs_get f (cur @ [c]) = Some DirNode")
    case True
    then have "namei n f fl (cur @ [c]) cs = Inr q"
      using Cons.prems(1) c(1) by (simp add: plain_props)
    then have "q = (cur @ [c]) @ cs"
      by (rule Cons.IH [OF _ c(2)]) (use Cons.prems(3) [of "c # _"] in auto)
    then show ?thesis by simp
  next
    case False
    then show ?thesis
      using Cons.prems(1) c(1) nolink by (auto simp: plain_props split: option.splits node.splits if_splits)
  qed
qed simp

text \<open>Everything passed through on the way is a directory.\<close>

lemma namei_passes_dirs:
  assumes "namei n f fl cur cs = Inr q" "plains cs"
    "\<And>ds t. ds \<noteq> [] \<Longrightarrow> prefix ds cs \<Longrightarrow> fs_get f (cur @ ds) \<noteq> Some (LinkNode t)"
    "ds \<noteq> []" "strict_prefix ds cs"
  shows "fs_get f (cur @ ds) = Some DirNode"
  using assms
proof (induction cs arbitrary: cur ds)
  case (Cons c cs)
  have c: "plain c" "plains cs" using Cons.prems(2) by auto
  obtain ds' where ds: "ds = c # ds'" "strict_prefix ds' cs"
    using Cons.prems(4,5) by (cases ds) auto
  then have "cs \<noteq> []" by auto
  have nolink: "fs_get f (cur @ [c]) \<noteq> Some (LinkNode t)" for t
    using Cons.prems(3) [of "[c]"] by simp
  have dir: "fs_get f (cur @ [c]) = Some DirNode" "namei n f fl (cur @ [c]) cs = Inr q"
    using Cons.prems(1) c(1) nolink \<open>cs \<noteq> []\<close>
    by (auto simp: plain_props split: option.splits node.splits)
  show ?case
  proof (cases "ds' = []")
    case False
    have "fs_get f ((cur @ [c]) @ ds') = Some DirNode"
      by (rule Cons.IH [OF dir(2) c(2) _ False ds(2)]) (use Cons.prems(3) [of "c # _"] in auto)
    with ds show ?thesis by simp
  qed (use dir ds in simp)
qed simp

lemma solid_nolink:
  assumes "solid f root" "prefix root p \<or> prefix p root" "prefix ds p"
  shows "fs_get f ds \<noteq> Some (LinkNode t)"
proof -
  from assms(2,3) have "prefix ds root \<or> prefix root ds"
    using prefix_same_cases prefix_order.trans by blast
  with assms(1) show ?thesis by (auto simp: solid_def)
qed

lemma locate_ancestor:
  assumes "locate fl d f (rooted p) = Inr q" "plains p" "solid f root" "prefix root p"
    "ds \<noteq> []" "strict_prefix ds p"
  shows "fs_get f ds = Some DirNode"
proof -
  have "namei max_links f fl [] p = Inr q"
    using assms(1,2) by (simp add: locate_def split: if_splits)
  then have "fs_get f ([] @ ds) = Some DirNode"
    by (rule namei_passes_dirs [OF _ assms(2) _ assms(5,6)])
      (use solid_nolink [OF assms(3), of p] assms(4) in auto)
  then show ?thesis by simp
qed

lemma locate_solid:
  assumes "solid f root" "plains p" "prefix root p" "locate fl d f (rooted p) = Inr q"
  shows "q = p"
proof -
  have "namei max_links f fl [] p = Inr q"
    using assms(2,4) by (simp add: locate_def split: if_splits)
  then have "q = [] @ p"
    by (rule namei_plain [OF _ assms(2)]) (use solid_nolink [OF assms(1), of p] assms(3) in auto)
  then show ?thesis by simp
qed

lemma namei_solid:
  assumes "solid f root" "plains p" "prefix root p \<or> prefix p root" "namei n f fl [] p = Inr q"
  shows "q = p"
proof -
  have "q = [] @ p"
    by (rule namei_plain [OF assms(4,2)]) (use solid_nolink [OF assms(1,3)] in auto)
  then show ?thesis by simp
qed

lemma mkdirs_confined:
  assumes "mkdirs [] pfx cs f = (r, f')" "solid f root" "plains (pfx @ cs)"
    "prefix root (pfx @ cs) \<or> prefix (pfx @ cs) root"
  shows "agree_outside root f f' \<and> solid f' root"
  using assms
proof (induction cs arbitrary: pfx f)
  case (Cons c cs)
  let ?pre = "pfx @ [c]"
  have pre: "plains ?pre" "prefix root ?pre \<or> prefix ?pre root"
    using Cons.prems(3,4) prefix_same_cases [of root "pfx @ c # cs" ?pre]
      prefix_order.trans [of ?pre "pfx @ c # cs" root] by auto
  have step: "agree_outside root g f' \<and> solid f' root"
    if "mkdirs [] ?pre cs g = (r, f')" "solid g root" for g
    using Cons.IH [OF that] Cons.prems(3,4) by simp
  have mk: "agree_outside root f g \<and> solid g root"
    if "namei max_links f False [] ?pre = Inr q" "fs_mkdir q f = (x, g)" for q x g
  proof -
    have "q = ?pre" using namei_solid [OF Cons.prems(2) pre that(1)] .
    show ?thesis
    proof (cases "fs_get f q = None")
      case True
      with \<open>q = ?pre\<close> pre(2) Cons.prems(2) have "prefix root q" by (auto simp: solid_def)
      with True that(2) \<open>q = ?pre\<close> Cons.prems(2) solid_put [OF Cons.prems(2), of q DirNode]
      show ?thesis by (auto simp: fs_mkdir_def)
    next
      case False
      with that(2) Cons.prems(2) show ?thesis by (simp add: fs_mkdir_def)
    qed
  qed
  have both: "agree_outside root f f' \<and> solid f' root"
    if "namei max_links f False [] ?pre = Inr q" "fs_mkdir q f = (x, g)"
      "mkdirs [] ?pre cs g = (r, f')" for q x g
    using mk [OF that(1,2)] step [OF that(3)] agree_outside_trans by blast
  show ?case
    using Cons.prems(1,2) step mk both
    by (auto simp: Let_def split: sum.splits option.splits node.splits prod.splits)
qed simp

definition confined :: "fpath \<Rightarrow> 'a os \<Rightarrow> bool" where
  "confined root m \<longleftrightarrow> (\<forall>w. solid (files w) root \<longrightarrow>
     agree_outside root (files w) (files (snd (m w))) \<and> solid (files (snd (m w))) root
     \<and> wd (snd (m w)) = wd w)"

named_theorems confined_intros \<open>confinement, one rule per way to build a computation\<close>

lemma confinedD:
  assumes "confined root m" "solid (files w) root" "m w = (r, w')"
  shows "agree_outside root (files w) (files w')" "solid (files w') root" "wd w' = wd w"
  using assms by (force simp: confined_def)+

lemma confined_return [confined_intros]: "confined root (os_return x)"
  by (simp add: confined_def os_return_def)

lemma confined_throw [confined_intros]: "confined root (os_throw e)"
  by (simp add: confined_def os_throw_def)

lemma confined_lift [confined_intros]: "confined root (os_lift r)"
  by (simp add: confined_def os_lift_def)

lemma confined_attempt [confined_intros]:
  assumes "confined root m" "\<And>r. confined root (k r)"
  shows "confined root (os_attempt m k)"
  unfolding confined_def
proof (intro allI impI)
  fix w :: world assume s: "solid (files w) root"
  obtain r w1 where m: "m w = (r, w1)" by fastforce
  obtain r2 w2 where k: "k r w1 = (r2, w2)" by fastforce
  from confinedD [OF assms(1) s m] confinedD [OF assms(2) _ k] m k
  show "agree_outside root (files w) (files (snd (os_attempt m k w)))
      \<and> solid (files (snd (os_attempt m k w))) root \<and> wd (snd (os_attempt m k w)) = wd w"
    by (auto simp: os_attempt_def intro: agree_outside_trans)
qed

lemma os_bind_attempt:
  "os_bind m k = os_attempt m (\<lambda>r. case r of Inl e \<Rightarrow> os_throw e | Inr x \<Rightarrow> k x)"
  by (auto simp: os_bind_def os_attempt_def os_throw_def fun_eq_iff split: sum.splits prod.splits)

lemma os_wrap_attempt:
  "os_wrap msg m = os_attempt m (\<lambda>r. case r of Inl e \<Rightarrow> os_throw (WrapError msg e) | Inr x \<Rightarrow> os_return x)"
  by (auto simp: os_wrap_def os_attempt_def os_throw_def os_return_def fun_eq_iff
      split: sum.splits prod.splits)

lemma confined_bind [confined_intros]:
  assumes "confined root m" "\<And>x. confined root (k x)"
  shows "confined root (os_bind m k)"
  unfolding os_bind_attempt by (auto intro!: confined_intros assms split: sum.split)

lemma confined_wrap [confined_intros]: "confined root m \<Longrightarrow> confined root (os_wrap msg m)"
  unfolding os_wrap_attempt by (auto intro!: confined_intros split: sum.split)

lemma confined_abs_bind [confined_intros]:
  assumes "\<And>d q. path_abs d p = Inr q \<Longrightarrow> confined root (k q)"
  shows "confined root (os_bind (os_abs p) k)"
  using assms by (auto simp: confined_def os_bind_def os_abs_def split: sum.splits)

text \<open>Calls: it is enough to look at the fault-free case.\<close>

lemma confined_call:
  assumes "\<And>d f r g. m d f = (r, g) \<Longrightarrow> solid f root \<Longrightarrow> agree_outside root f g \<and> solid g root"
  shows "confined root (os_call m)"
  unfolding confined_def
proof (intro allI impI)
  fix w :: world assume "solid (files w) root"
  moreover obtain r g where "m (wd w) (files w) = (r, g)" by fastforce
  ultimately show "agree_outside root (files w) (files (snd (os_call m w)))
      \<and> solid (files (snd (os_call m w))) root \<and> wd (snd (os_call m w)) = wd w"
    using assms by (auto simp: os_call_def split: option.split)
qed

lemma confined_reads [confined_intros]:
  "confined root (os_stat p)" "confined root (os_lstat p)" "confined root (os_read_file p)"
  "confined root (os_read_dir p)"
  unfolding os_stat_def os_lstat_def os_read_file_def os_read_dir_def
  by (auto intro!: confined_call)

lemma confined_mkdir_all [confined_intros]:
  "plains p \<Longrightarrow> prefix root p \<or> prefix p root \<Longrightarrow> confined root (os_mkdir_all (rooted p))"
  unfolding os_mkdir_all_def
  by (rule confined_call) (auto split: if_splits dest: mkdirs_confined [where pfx = "[]", simplified])

lemma confined_write_file [confined_intros]:
  assumes "plains p" "prefix root p"
  shows "confined root (os_write_file (rooted p) data)"
  unfolding os_write_file_def
proof (rule confined_call)
  fix d f r g
  assume e: "(case locate True d f (rooted p) of Inl e \<Rightarrow> (Inl e, f)
      | Inr q \<Rightarrow> (case fs_get f q of Some DirNode \<Rightarrow> (Inl SysIsDir, f)
          | Some SpecialNode \<Rightarrow> (Inr (), f) | _ \<Rightarrow> (Inr (), fs_put q (FileNode data) f))) = (r, g)"
    and s: "solid f root"
  show "agree_outside root f g \<and> solid g root"
  proof (cases "g = f")
    case False
    with e obtain q where q: "locate True d f (rooted p) = Inr q" "g = fs_put q (FileNode data) f"
      "fs_get f q \<noteq> Some DirNode"
      by (auto split: sum.splits option.splits node.splits)
    have "q = p" using locate_solid [OF s assms q(1)] .
    then have "p \<noteq> []" "p \<noteq> root" using q(3) s by (auto simp: solid_def)
    with q \<open>q = p\<close> assms s solid_put [OF s assms(2)] show ?thesis by auto
  qed (use s in simp)
qed

lemma locate_confined:
  assumes "locate fl d f (rooted p) = Inr q" "solid f root" "plains p" "prefix root p"
    "fs_get f q \<noteq> Some DirNode \<or> p \<noteq> root"
  shows "q = p" "p \<noteq> []" "p \<noteq> root"
proof -
  show "q = p" using locate_solid [OF assms(2,3,4,1)] .
  with assms(2,5) show "p \<noteq> root" by (auto simp: solid_def)
  with assms(4) show "p \<noteq> []" by auto
qed

lemma confined_create_excl [confined_intros]:
  assumes "plains p" "prefix root p"
  shows "confined root (os_create_excl (rooted p))"
  unfolding os_create_excl_def
proof (rule confined_call)
  fix d f r g
  assume e: "(case locate False d f (rooted p) of Inl e \<Rightarrow> (Inl e, f)
      | Inr q \<Rightarrow> if fs_get f q \<noteq> None then (Inl SysExist, f)
               else (Inr (), fs_put q (FileNode []) f)) = (r, g)"
    and s: "solid f root"
  show "agree_outside root f g \<and> solid g root"
  proof (cases "g = f")
    case False
    with e obtain q where q: "locate False d f (rooted p) = Inr q" "g = fs_put q (FileNode []) f"
      "fs_get f q = None"
      by (auto split: sum.splits if_splits)
    with locate_confined [OF q(1) s assms] assms s solid_put [OF s assms(2)] show ?thesis by auto
  qed (use s in simp)
qed

lemma solid_shrink:
  assumes "solid f root" "\<And>q. fs_get g q \<noteq> fs_get f q \<Longrightarrow> fs_get g q = None \<and> \<not> prefix q root"
  shows "solid g root"
  unfolding solid_def
proof (intro conjI allI impI)
  fix p assume "prefix p root"
  then show "fs_get g p = Some DirNode" using assms(1) assms(2) [of p] by (auto simp: solid_def)
next
  fix p t assume "prefix root p"
  then show "fs_get g p \<noteq> Some (LinkNode t)"
    using assms(1) assms(2) [of p] by (cases "fs_get g p = fs_get f p") (auto simp: solid_def)
qed

lemma confined_remove_all [confined_intros]:
  assumes "plains p" "prefix root p" "p \<noteq> root"
  shows "confined root (os_remove_all (rooted p))"
  unfolding os_remove_all_def
proof (rule confined_call)
  fix d f and r :: "go_error + unit" and g
  assume e: "(if rooted p = [] then (Inr (), f)
     else case locate False d f (rooted p) of
       Inl e \<Rightarrow> (if e = SysNotExist then Inr () else Inl e, f)
     | Inr q \<Rightarrow> if q = [] then (Inl (SysFault ''device or resource busy''), fs_cut [] f)
               else (Inr (), fs_cut q f)) = (r, g)"
    and s: "solid f root"
  have ne: "p \<noteq> []" "\<not> prefix p root" using assms(2,3) by (auto dest: prefix_order.antisym)
  show "agree_outside root f g \<and> solid g root"
  proof (cases "g = f")
    case False
    then obtain q where q: "locate False d f (rooted p) = Inr q" using e by (auto split: sum.splits)
    have "q = p" using locate_solid [OF s assms(1,2) q] .
    with e q ne have g: "g = fs_cut p f" by simp
    have "solid g root"
      by (rule solid_shrink [OF s])
        (use g ne prefix_order.trans in \<open>auto split: if_splits\<close>)
    with g ne assms(2) show ?thesis by (auto intro: agree_outside_cut)
  qed (use s in simp)
qed

lemma confined_remove [confined_intros]:
  assumes "plains p" "prefix root p" "p \<noteq> root"
  shows "confined root (os_remove (rooted p))"
  unfolding os_remove_def
proof (rule confined_call)
  fix d f and r :: "go_error + unit" and g
  assume e: "(case locate False d f (rooted p) of
       Inl e \<Rightarrow> (Inl e, f)
     | Inr q \<Rightarrow> (case fs_get f q of None \<Rightarrow> (Inl SysNotExist, f)
          | Some DirNode \<Rightarrow>
              if q = [] then (Inl (SysFault ''device or resource busy''), f)
              else if fs_children f q \<noteq> [] then (Inl SysNotEmpty, f) else (Inr (), fs_del q f)
          | Some _ \<Rightarrow> (Inr (), fs_del q f))) = (r, g)"
    and s: "solid f root"
  have ne: "p \<noteq> []" "\<not> prefix p root" using assms(2,3) by (auto dest: prefix_order.antisym)
  show "agree_outside root f g \<and> solid g root"
  proof (cases "g = f")
    case False
    with e obtain q where q: "locate False d f (rooted p) = Inr q" "g = fs_del q f"
      by (auto split: sum.splits option.splits node.splits if_splits)
    have g: "g = fs_del p f" using locate_solid [OF s assms(1,2) q(1)] q(2) by simp
    have "solid g root" by (rule solid_shrink [OF s]) (use g ne in \<open>auto split: if_splits\<close>)
    with g ne assms(2) show ?thesis by (auto intro: agree_outside_del)
  qed (use s in simp)
qed

lemma confined_rename [confined_intros]:
  assumes "plains a" "prefix root a" "plains b" "prefix root b"
  shows "confined root (os_rename (rooted a) (rooted b))"
  unfolding os_rename_def
proof (rule confined_call)
  fix d f r g
  assume e: "(case locate False d f (rooted a) of Inl e \<Rightarrow> (Inl e, f)
     | Inr q \<Rightarrow> (case locate False d f (rooted b) of Inl e \<Rightarrow> (Inl e, f)
          | Inr b' \<Rightarrow> fs_rename (rooted a = rooted b) q b' f)) = (r, g)"
    and s: "solid f root"
  show "agree_outside root f g \<and> solid g root"
  proof (cases "g = f")
    case False
    with e obtain a' b' where l: "locate False d f (rooted a) = Inr a'"
      "locate False d f (rooted b) = Inr b'" and m: "fs_rename (rooted a = rooted b) a' b' f = (r, g)"
      by (auto split: sum.splits)
    have ab: "a' = a" "b' = b" using locate_solid [OF s _ _ l(1)] locate_solid [OF s _ _ l(2)] assms by auto
    from m False ab have g: "g = fs_move a b f" and pre: "\<not> prefix a b"
      and nd: "fs_get f b \<noteq> Some DirNode" and ex: "fs_get f a \<noteq> None"
      by (auto simp: fs_rename_def split: option.splits if_splits)
    from pre assms(4) have "a \<noteq> root" by auto
    moreover from nd s have "b \<noteq> root" by (auto simp: solid_def)
    ultimately have rt: "a \<noteq> root" "b \<noteq> root" by auto
    with assms have ne: "a \<noteq> []" "b \<noteq> []" by auto
    show ?thesis
    proof (cases "prefix b a")
      case True
      text \<open>then \<open>b\<close> is on the way to \<open>a\<close>, hence a directory, and \<open>Rename\<close> refuses\<close>
      with pre have "strict_prefix b a" by (auto simp: strict_prefix_def)
      with locate_ancestor [OF l(1) assms(1) s assms(2) ne(2)] nd show ?thesis by simp
    next
      case nba: False
      note get = fs_get_move [OF ne pre nba, of f]
      have "fs_get g q = fs_get f q" if "\<not> prefix root q" for q
        using that assms(2,4) prefix_order.trans by (auto simp: g get)
      moreover have "solid g root"
        unfolding solid_def
      proof (intro conjI allI impI)
        fix q assume "prefix q root"
        then have "\<not> prefix b q" "\<not> prefix a q"
          using assms rt prefix_order.trans prefix_order.antisym by metis+
        then show "fs_get g q = Some DirNode" using s \<open>prefix q root\<close> by (simp add: g get solid_def)
      next
        fix q t assume q: "prefix root q"
        have "prefix root (a @ r)" for r using assms(2) by (simp add: prefix_prefix)
        then show "fs_get g q \<noteq> Some (LinkNode t)" using s q by (auto simp: g get solid_def)
      qed
      ultimately show ?thesis by (simp add: agree_outside_def)
    qed
  qed (use s in simp)
qed

section \<open>Calls that succeed\<close>

definition calm :: "world \<Rightarrow> bool" where
  "calm w \<longleftrightarrow> (\<forall>i. faults w i = None)"

lemma os_call_calm:
  "calm w \<Longrightarrow> os_call m w =
     (fst (m (wd w) (files w)), w\<lparr>files := snd (m (wd w) (files w)), ticks := Suc (ticks w)\<rparr>)"
  by (simp add: calm_def os_call_def split_def)

lemma calm_update [simp]: "calm (w\<lparr>files := f, ticks := n\<rparr>) = calm w"
  by (simp add: calm_def)

definition not_exist :: "go_error + 'a \<Rightarrow> bool" where
  "not_exist r \<longleftrightarrow> (case r of Inl e \<Rightarrow> os_is_not_exist e | Inr _ \<Rightarrow> False)"

lemma not_exist_simps [simp]: "not_exist (Inr x) = False" "not_exist (Inl e) = (e = SysNotExist)"
  by (simp_all add: not_exist_def os_is_not_exist_def)

lemma namei_dirs:
  assumes "plains cs" "\<And>ds. ds \<noteq> [] \<Longrightarrow> strict_prefix ds cs \<Longrightarrow> fs_get f (cur @ ds) = Some DirNode"
    "fl \<Longrightarrow> cs \<noteq> [] \<Longrightarrow> \<forall>t. fs_get f (cur @ cs) \<noteq> Some (LinkNode t)"
  shows "namei n f fl cur cs = Inr (cur @ cs)"
  using assms
proof (induction cs arbitrary: cur)
  case (Cons c cs)
  have c: "plain c" "plains cs" using Cons.prems(1) by auto
  show ?case
  proof (cases "cs = []")
    case True
    then show ?thesis
      using Cons.prems(3) c by (auto simp: plain_props split: option.split node.split)
  next
    case False
    have "fs_get f (cur @ [c]) = Some DirNode"
      using Cons.prems(2) [of "[c]"] False by (auto simp: strict_prefix_def)
    moreover have "namei n f fl (cur @ [c]) cs = Inr ((cur @ [c]) @ cs)"
      by (rule Cons.IH [OF c(2)]) (use Cons.prems(2) [of "c # _"] Cons.prems(3) in auto)
    ultimately show ?thesis using c by (simp add: plain_props)
  qed
qed simp

definition on_dirs :: "fsys \<Rightarrow> fpath \<Rightarrow> bool" where
  "on_dirs f p \<longleftrightarrow> plains p \<and> CHR 0x00 \<notin> set (rooted p)
     \<and> (\<forall>ds. strict_prefix ds p \<longrightarrow> fs_get f ds = Some DirNode)"

lemma locate_on_dirs:
  assumes "on_dirs f p" "fl \<Longrightarrow> \<forall>t. fs_get f p \<noteq> Some (LinkNode t)"
  shows "locate fl d f (rooted p) = Inr p"
  using assms namei_dirs [of p f "[]" fl max_links]
  by (simp add: locate_def on_dirs_def)

lemma fs_info_on_dirs:
  assumes "on_dirs f p" "\<forall>t. fs_get f p \<noteq> Some (LinkNode t)"
  shows "fs_info fl (rooted p) d f = (case fs_get f p of None \<Rightarrow> Inl SysNotExist | Some n \<Rightarrow> Inr n)"
  using assms by (simp add: fs_info_def locate_on_dirs)

text \<open>A calm call on a path whose existing prefixes are directories.\<close>

definition open_path :: "fsys \<Rightarrow> fpath \<Rightarrow> bool" where
  "open_path f p \<longleftrightarrow> plains p \<and> CHR 0x00 \<notin> set (rooted p)
     \<and> (\<forall>ds. prefix ds p \<longrightarrow> fs_get f ds = None \<or> fs_get f ds = Some DirNode)"

definition with_dirs :: "fpath \<Rightarrow> fsys \<Rightarrow> fsys \<Rightarrow> bool" where
  "with_dirs p f g \<longleftrightarrow> (\<forall>q. fs_get g q = (if prefix q p then Some DirNode else fs_get f q))"

lemma mkdirs_creates:
  assumes "plains (pfx @ cs)" "\<And>ds. prefix ds pfx \<Longrightarrow> fs_get f ds = Some DirNode"
    "\<And>ds. prefix ds (pfx @ cs) \<Longrightarrow> fs_get f ds = None \<or> fs_get f ds = Some DirNode"
  shows "\<exists>g. mkdirs [] pfx cs f = (Inr (), g) \<and> with_dirs (pfx @ cs) f g"
  using assms
proof (induction cs arbitrary: pfx f)
  case Nil
  then show ?case by (auto simp: with_dirs_def)
next
  case (Cons c cs)
  let ?pre = "pfx @ [c]"
  have pre: "namei max_links f fl [] ?pre = Inr ?pre" for fl
  proof -
    have "namei max_links f fl [] ?pre = Inr ([] @ ?pre)"
    proof (rule namei_dirs)
      show "fs_get f ([] @ ds) = Some DirNode" if "strict_prefix ds ?pre" for ds
        using that Cons.prems(2) by (auto simp: strict_prefix_def)
    qed (use Cons.prems(1) Cons.prems(3) [of ?pre] in auto)
    then show ?thesis by simp
  qed
  have ne: "?pre \<noteq> []" by simp
  show ?case
  proof (cases "fs_get f ?pre")
    case (Some n)
    then have d: "fs_get f ?pre = Some DirNode" using Cons.prems(3) [of ?pre] by auto
    then have "mkdirs [] pfx (c # cs) f = mkdirs [] ?pre cs f" using pre by (simp add: Let_def)
    moreover have "\<exists>g. mkdirs [] ?pre cs f = (Inr (), g) \<and> with_dirs (?pre @ cs) f g"
      by (rule Cons.IH) (use Cons.prems d in auto)
    ultimately show ?thesis by simp
  next
    case None
    let ?f = "fs_put ?pre DirNode f"
    have m: "mkdirs [] pfx (c # cs) f = mkdirs [] ?pre cs ?f"
      using pre None by (simp add: fs_mkdir_def Let_def)
    have "\<exists>g. mkdirs [] ?pre cs ?f = (Inr (), g) \<and> with_dirs (?pre @ cs) ?f g"
      by (rule Cons.IH) (use Cons.prems in auto)
    then obtain g where g: "mkdirs [] ?pre cs ?f = (Inr (), g)" "with_dirs (?pre @ cs) ?f g" by blast
    have "with_dirs (pfx @ c # cs) f g"
      using g(2) by (auto simp: with_dirs_def)
    with g(1) m show ?thesis by auto
  qed
qed

lemma os_mkdir_all_creates:
  assumes "calm w" "open_path (files w) p"
  obtains g where "os_mkdir_all (rooted p) w = (Inr (), w\<lparr>files := g, ticks := Suc (ticks w)\<rparr>)"
    "with_dirs p (files w) g"
proof -
  obtain g where "mkdirs [] [] p (files w) = (Inr (), g)" "with_dirs p (files w) g"
    using mkdirs_creates [of "[]" p "files w"] assms(2) by (auto simp: open_path_def)
  then show ?thesis
    using assms by (intro that [of g]) (auto simp: os_mkdir_all_def os_call_calm open_path_def)
qed

lemma os_stat_on_dirs:
  assumes "calm w" "on_dirs (files w) p" "\<forall>t. fs_get (files w) p \<noteq> Some (LinkNode t)"
  shows "os_stat (rooted p) w =
    (case fs_get (files w) p of None \<Rightarrow> Inl SysNotExist | Some n \<Rightarrow> Inr n, w\<lparr>ticks := Suc (ticks w)\<rparr>)"
  using assms by (simp add: os_stat_def os_call_calm fs_info_on_dirs)

lemma os_rename_moves:
  assumes "calm w" "on_dirs (files w) a" "on_dirs (files w) b" "fs_get (files w) a \<noteq> None"
    "fs_get (files w) b = None" "\<not> prefix a b"
  shows "os_rename (rooted a) (rooted b) w =
    (Inr (), w\<lparr>files := fs_move a b (files w), ticks := Suc (ticks w)\<rparr>)"
proof -
  have "a \<noteq> b" using assms(6) by auto
  with assms show ?thesis
    by (simp add: os_rename_def os_call_calm locate_on_dirs fs_rename_def split: option.splits)
qed

lemma nul_rooted: "CHR 0x00 \<in> set (rooted cs) \<longleftrightarrow> (\<exists>c \<in> set cs. CHR 0x00 \<in> set c)"
  by (induction cs rule: JoinWith.induct [of _ slash]) (auto simp: rooted_def)

text \<open>
  What stands in the way to the directory \<open>cur @ cs\<close>: nothing, a missing component, or a file. The
  lookup of every entry of that directory fails for that reason.
\<close>

fun dir_status :: "fsys \<Rightarrow> fpath \<Rightarrow> string list \<Rightarrow> go_error option" where
  "dir_status f cur [] = None"
| "dir_status f cur (c # cs) =
     (case fs_get f (cur @ [c]) of
        None \<Rightarrow> Some SysNotExist
      | Some DirNode \<Rightarrow> dir_status f (cur @ [c]) cs
      | Some _ \<Rightarrow> Some SysNotDir)"

lemma namei_entry:
  assumes "plains (cs @ [c])" "\<And>ds t. prefix ds (cs @ [c]) \<Longrightarrow> fs_get f (cur @ ds) \<noteq> Some (LinkNode t)"
  shows "namei n f fl cur (cs @ [c]) =
    (case dir_status f cur cs of None \<Rightarrow> Inr (cur @ cs @ [c]) | Some e \<Rightarrow> Inl e)"
  using assms
proof (induction cs arbitrary: cur)
  case Nil
  then show ?case using Nil(2) [of "[c]"] by (auto simp: plain_props split: option.split node.split)
next
  case (Cons d ds)
  have "fs_get f (cur @ [d]) \<noteq> Some (LinkNode t)" for t using Cons.prems(2) [of "[d]"] by simp
  moreover have "namei n f fl (cur @ [d]) (ds @ [c]) =
    (case dir_status f (cur @ [d]) ds of None \<Rightarrow> Inr ((cur @ [d]) @ ds @ [c]) | Some e \<Rightarrow> Inl e)"
    by (rule Cons.IH) (use Cons.prems(1) Cons.prems(2) [of "d # _"] in auto)
  ultimately show ?case
    using Cons.prems(1) by (auto simp: plain_props split: option.split node.split)
qed

lemma dir_status_None:
  "dir_status f cur cs = None \<longleftrightarrow> (\<forall>ds. ds \<noteq> [] \<longrightarrow> prefix ds cs \<longrightarrow> fs_get f (cur @ ds) = Some DirNode)"
proof (induction cs arbitrary: cur)
  case (Cons c cs)
  show ?case
  proof
    assume "dir_status f cur (c # cs) = None"
    then have d: "fs_get f (cur @ [c]) = Some DirNode" "dir_status f (cur @ [c]) cs = None"
      by (auto split: option.splits node.splits)
    show "\<forall>ds. ds \<noteq> [] \<longrightarrow> prefix ds (c # cs) \<longrightarrow> fs_get f (cur @ ds) = Some DirNode"
    proof (intro allI impI)
      fix ds :: fpath assume "ds \<noteq> []" "prefix ds (c # cs)"
      then obtain es where es: "ds = c # es" "prefix es cs" by (cases ds) auto
      show "fs_get f (cur @ ds) = Some DirNode"
        using d es Cons.IH [of "cur @ [c]"] by (cases "es = []") auto
    qed
  next
    assume a: "\<forall>ds. ds \<noteq> [] \<longrightarrow> prefix ds (c # cs) \<longrightarrow> fs_get f (cur @ ds) = Some DirNode"
    have "fs_get f (cur @ [c]) = Some DirNode" using a [rule_format, of "[c]"] by simp
    moreover have "fs_get f ((cur @ [c]) @ ds) = Some DirNode" if "prefix ds cs" for ds
      using a [rule_format, of "c # ds"] that by simp
    ultimately show "dir_status f cur (c # cs) = None" using Cons.IH [of "cur @ [c]"] by simp
  qed
qed simp

lemma os_stat_entry:
  assumes "calm w" "solid (files w) root" "plains (cs @ [c])" "prefix root cs"
    "CHR 0x00 \<notin> set (rooted (cs @ [c]))"
  shows "os_stat (rooted (cs @ [c])) w =
    (case dir_status (files w) [] cs of
       Some e \<Rightarrow> Inl e
     | None \<Rightarrow> (case fs_get (files w) (cs @ [c]) of None \<Rightarrow> Inl SysNotExist | Some n \<Rightarrow> Inr n),
     w\<lparr>ticks := Suc (ticks w)\<rparr>)"
proof -
  have "fs_get (files w) ([] @ ds) \<noteq> Some (LinkNode t)" if "prefix ds (cs @ [c])" for ds t
    using solid_nolink [OF assms(2) _ that] assms(4) by auto
  from namei_entry [OF assms(3) this] assms show ?thesis
    by (simp add: os_stat_def os_call_calm fs_info_def locate_def split: option.split)
qed

text \<open>Names as a kernel allows them.\<close>

definition wf_names :: "fsys \<Rightarrow> bool" where
  "wf_names f \<longleftrightarrow> (\<forall>q. fs_get f q \<noteq> None \<longrightarrow> plains q \<and> CHR 0x00 \<notin> set (rooted q))"

lemma wf_names_check: "list_all (\<lambda>(k, _). plains k \<and> CHR 0x00 \<notin> set (rooted k)) f \<Longrightarrow> wf_names f"
proof -
  assume f: "list_all (\<lambda>(k, _). plains k \<and> CHR 0x00 \<notin> set (rooted k)) f"
  have "plains q \<and> CHR 0x00 \<notin> set (rooted q)" if "fs_get f q \<noteq> None" for q
    using f that by (cases "q = []") (auto simp: fs_get_def list_all_iff nul_rooted dest!: map_of_SomeD)
  then show ?thesis by (simp add: wf_names_def)
qed

lemma wf_namesD: "wf_names f \<Longrightarrow> fs_get f q \<noteq> None \<Longrightarrow> plains q \<and> CHR 0x00 \<notin> set (rooted q)"
  unfolding wf_names_def by blast

text \<open>Everything has its parent directory.\<close>

definition connected :: "fsys \<Rightarrow> bool" where
  "connected f \<longleftrightarrow> list_all (\<lambda>(k, _). fs_get f (butlast k) = Some DirNode) f"

lemma connected_parents:
  assumes "connected f"
  shows "fs_get f p \<noteq> None \<Longrightarrow> strict_prefix q p \<Longrightarrow> fs_get f q = Some DirNode"
proof (induction p rule: rev_induct)
  case (snoc c p)
  then have "(p @ [c], the (fs_get f (p @ [c]))) \<in> set f"
    by (auto simp: fs_get_def dest: map_of_SomeD)
  then have "fs_get f p = Some DirNode" using assms by (auto simp: connected_def list_all_iff)
  moreover have "q = p \<or> strict_prefix q p" using snoc.prems(2) by (auto simp: strict_prefix_def)
  ultimately show ?case using snoc.IH by auto
qed simp

lemma fs_entries_get: "(c, n) \<in> set (fs_entries f q) \<Longrightarrow> fs_get f (q @ [c]) = Some n"
  by (auto simp: fs_entries_def split: option.splits)

lemma fs_entries_names: "map fst (fs_entries f q) = fs_children f q"
proof -
  have "map fst (concat (map (\<lambda>c. case fs_get f (q @ [c]) of None \<Rightarrow> [] | Some n \<Rightarrow> [(c, n)]) cs)) = cs"
    if "\<forall>c \<in> set cs. fs_get f (q @ [c]) \<noteq> None" for cs
    using that by (induction cs) auto
  then show ?thesis unfolding fs_entries_def using fs_children_iff by blast
qed

text \<open>A successful lookup in a solid directory runs through directories.\<close>

lemma fs_info_solid:
  assumes "solid f root" "plains p" "prefix root p" "fs_info fl (rooted p) d f = Inr n"
  shows "fs_get f p = Some n" "on_dirs f p"
proof -
  obtain q where l: "locate fl d f (rooted p) = Inr q" and n: "fs_get f q = Some n"
    using assms(4) by (auto simp: fs_info_def split: sum.splits option.splits)
  have "q = p" by (rule locate_solid [OF assms(1,2,3) l])
  then show "fs_get f p = Some n" using n by simp
  have "fs_get f ds = Some DirNode" if "strict_prefix ds p" for ds
    using that locate_ancestor [OF l assms(2,1,3)] by (cases "ds = []") auto
  moreover have "CHR 0x00 \<notin> set (rooted p)" using l by (auto simp: locate_def split: if_splits)
  ultimately show "on_dirs f p" using assms(2) by (simp add: on_dirs_def)
qed

lemma locate_on_dirsD:
  assumes "locate fl d f (rooted p) = Inr q" "plains p" "solid f root" "prefix root p"
  shows "on_dirs f p"
proof -
  have "fs_get f ds = Some DirNode" if "strict_prefix ds p" for ds
    using that locate_ancestor [OF assms] by (cases "ds = []") auto
  moreover have "CHR 0x00 \<notin> set (rooted p)" using assms(1) by (auto simp: locate_def split: if_splits)
  ultimately show ?thesis using assms(2) by (simp add: on_dirs_def)
qed

lemma os_lstat_child:
  assumes "calm w" "on_dirs (files w) p" "fs_get (files w) p = Some DirNode"
    "fs_get (files w) (p @ [c]) = Some n" "plain c" "CHR 0x00 \<notin> set c"
  shows "os_lstat (rooted (p @ [c])) w = (Inr n, w\<lparr>ticks := Suc (ticks w)\<rparr>)"
proof -
  have "on_dirs (files w) (p @ [c])"
    using assms by (auto simp: on_dirs_def nul_rooted strict_prefix_def)
  with assms show ?thesis by (simp add: os_lstat_def os_call_calm fs_info_def locate_on_dirs)
qed

section \<open>Deciding the conditions on a file system\<close>

definition is_link :: "node \<Rightarrow> bool" where
  "is_link n \<longleftrightarrow> (case n of LinkNode _ \<Rightarrow> True | _ \<Rightarrow> False)"

lemma solid_check:
  assumes "list_all (\<lambda>p. fs_get f p = Some DirNode) (prefixes root)"
    "list_all (\<lambda>(k, n). \<not> (is_link n \<and> prefix root k)) f"
  shows "solid f root"
  unfolding solid_def
proof (intro conjI allI impI)
  fix p t assume "prefix root p"
  then show "fs_get f p \<noteq> Some (LinkNode t)"
    using assms(2) by (fastforce simp: fs_get_def list_all_iff is_link_def split: if_splits dest: map_of_SomeD)
qed (use assms(1) in \<open>simp add: list_all_iff\<close>)

lemma on_dirs_check:
  assumes "plains p" "CHR 0x00 \<notin> set (rooted p)"
    "list_all (\<lambda>q. q = p \<or> fs_get f q = Some DirNode) (prefixes p)"
  shows "on_dirs f p"
  using assms by (auto simp: on_dirs_def list_all_iff strict_prefix_def)

lemma open_path_check:
  assumes "plains p" "CHR 0x00 \<notin> set (rooted p)"
    "list_all (\<lambda>q. fs_get f q = None \<or> fs_get f q = Some DirNode) (prefixes p)"
  shows "open_path f p"
  using assms by (auto simp: open_path_def list_all_iff)

definition calm_world :: "fsys \<Rightarrow> world" where
  "calm_world f = \<lparr>files = f, wd = Inr ''/'', faults = \<lambda>_. None, ticks = 0\<rparr>"

lemma calm_world_simps [simp]:
  "calm (calm_world f)" "files (calm_world f) = f" "wd (calm_world f) = Inr ''/''"
  "ticks (calm_world f) = 0" "faults (calm_world f) i = None"
  by (simp_all add: calm_def calm_world_def)

end
