(* ===== verification/PathGuard.thy ===== *)
theory PathGuard
  imports OsModel
begin

text \<open>
  The interface of the worker's path checks. Each subsystem has its own check that turns a base
  directory and a requested path into an absolute path or an error; all of them promise that a path
  they return lies in the base directory. \<open>path_guard\<close> states that promise, and what a computation
  guarded by such a check may touch; the subsystems interpret it for their checks.
\<close>

text \<open>\<open>p, err := check(...); if err != nil { return err }; ...\<close>\<close>

definition with_path :: "(getwd \<Rightarrow> go_error + string) \<Rightarrow> (string \<Rightarrow> 'a os) \<Rightarrow> 'a os" where
  "with_path g k = (\<lambda>w. case g (wd w) of Inl e \<Rightarrow> (Inl e, w) | Inr p \<Rightarrow> k p w)"

lemma with_path_const [simp]:
  "with_path (\<lambda>d. Inr p) k = k p" "with_path (\<lambda>d. Inl e) k = os_throw e"
  by (simp_all add: with_path_def os_throw_def fun_eq_iff)

lemma confined_if [confined_intros]:
  "(b \<Longrightarrow> confined root m) \<Longrightarrow> (\<not> b \<Longrightarrow> confined root n) \<Longrightarrow> confined root (if b then m else n)"
  by simp

lemma confined_with_path:
  assumes "\<And>d p. g d = Inr p \<Longrightarrow> confined root (k p)"
  shows "confined root (with_path g k)"
  unfolding confined_def
proof (intro allI impI)
  fix w :: world assume s: "solid (files w) root"
  show "agree_outside root (files w) (files (snd (with_path g k w)))
      \<and> solid (files (snd (with_path g k w))) root \<and> wd (snd (with_path g k w)) = wd w"
  proof (cases "g (wd w)")
    case (Inr p)
    with assms [of "wd w" p] s show ?thesis by (simp add: with_path_def confined_def)
  qed (simp add: with_path_def s)
qed

text \<open>The path to a directory runs through directories only.\<close>

definition dir_at :: "fsys \<Rightarrow> fpath \<Rightarrow> bool" where
  "dir_at f root \<longleftrightarrow> (\<forall>p. prefix p root \<longrightarrow> fs_get f p = Some DirNode)"

lemma dir_at_check: "list_all (\<lambda>p. fs_get f p = Some DirNode) (prefixes root) \<Longrightarrow> dir_at f root"
  by (simp add: dir_at_def list_all_iff)

lemma dir_at_on_dirs: "dir_at f p \<Longrightarrow> plains p \<Longrightarrow> CHR 0x00 \<notin> set (rooted p) \<Longrightarrow> on_dirs f p"
  by (auto simp: dir_at_def on_dirs_def strict_prefix_def)

lemma locate_solid_root:
  assumes "dir_at f root" "plains root" "CHR 0x00 \<notin> set (rooted root)"
  shows "locate fl d f (rooted root) = Inr root"
proof (rule locate_on_dirs)
  show "on_dirs f root" using assms by (auto simp: on_dirs_def dir_at_def strict_prefix_def)
  show "\<forall>t. fs_get f root \<noteq> Some (LinkNode t)" using assms(1) by (auto simp: dir_at_def)
qed

text \<open>What a computation returns when it succeeds.\<close>

definition os_gives :: "'a os \<Rightarrow> ('a \<Rightarrow> bool) \<Rightarrow> bool" where
  "os_gives m P \<longleftrightarrow> (\<forall>w x w'. m w = (Inr x, w') \<longrightarrow> P x)"

lemma confined_bind_gives:
  assumes "confined root m" "os_gives m P" "\<And>x. P x \<Longrightarrow> confined root (k x)"
  shows "confined root (os_bind m k)"
  unfolding confined_def
proof (intro allI impI)
  fix w :: world assume s: "solid (files w) root"
  obtain r w1 where m: "m w = (r, w1)" by fastforce
  note m1 = confinedD [OF assms(1) s m]
  show "agree_outside root (files w) (files (snd (os_bind m k w)))
      \<and> solid (files (snd (os_bind m k w))) root \<and> wd (snd (os_bind m k w)) = wd w"
  proof (cases r)
    case (Inr x)
    obtain r2 w2 where k: "k x w1 = (r2, w2)" by fastforce
    have "P x" using assms(2) m Inr by (auto simp: os_gives_def)
    from confinedD [OF assms(3) [OF this] m1(2) k] m1 m k Inr
    show ?thesis by (auto simp: os_bind_def intro: agree_outside_trans)
  qed (use m m1 in \<open>simp add: os_bind_def\<close>)
qed

lemma confined_bind_lift:
  assumes "\<And>x. r = Inr x \<Longrightarrow> confined root (k x)"
  shows "confined root (os_bind (os_lift r) k)"
  using assms by (auto simp: confined_def os_bind_def os_lift_def split: sum.split)

text \<open>Computations that only look at the files.\<close>

definition reads_only :: "'a os \<Rightarrow> bool" where
  "reads_only m \<longleftrightarrow> (\<forall>w. files (snd (m w)) = files w)"

named_theorems reads_intros \<open>computations that leave the files alone\<close>

lemma reads_onlyD: "reads_only m \<Longrightarrow> m w = (r, w') \<Longrightarrow> files w' = files w"
  unfolding reads_only_def by (metis snd_conv)

lemma reads_basic [reads_intros]:
  "reads_only (os_return x)" "reads_only (os_throw e)" "reads_only (os_lift r)" "reads_only (os_abs p)"
  "reads_only (os_stat p)" "reads_only (os_lstat p)" "reads_only (os_read_file p)" "reads_only (os_read_dir p)"
  by (simp_all add: reads_only_def os_return_def os_throw_def os_lift_def os_abs_def os_stat_def os_lstat_def
      os_read_file_def os_read_dir_def os_call_def split: option.split)

lemma reads_attempt [reads_intros]:
  assumes "reads_only m" "\<And>r. reads_only (k r)"
  shows "reads_only (os_attempt m k)"
  using assms by (auto simp: reads_only_def os_attempt_def split: prod.split) (metis snd_conv)

lemma reads_bind [reads_intros]:
  assumes "reads_only m" "\<And>x. reads_only (k x)"
  shows "reads_only (os_bind m k)"
  unfolding os_bind_attempt using assms by (auto intro!: reads_intros split: sum.split)

lemma reads_wrap [reads_intros]: "reads_only m \<Longrightarrow> reads_only (os_wrap msg m)"
  unfolding os_wrap_attempt by (auto intro!: reads_intros split: sum.split)

lemma reads_if [reads_intros]: "reads_only m \<Longrightarrow> reads_only n \<Longrightarrow> reads_only (if b then m else n)"
  by simp

lemma reads_with_path [reads_intros]: "(\<And>p. reads_only (k p)) \<Longrightarrow> reads_only (with_path g k)"
  by (auto simp: reads_only_def with_path_def split: sum.split)

locale path_guard =
  fixes guard :: "getwd \<Rightarrow> string \<Rightarrow> string \<Rightarrow> go_error + string"
  assumes guard_inside:
    "plains bs \<Longrightarrow> guard d (rooted bs) req = Inr p \<Longrightarrow> \<exists>cs. plains cs \<and> prefix bs cs \<and> p = rooted cs"
begin

lemma guard_within: "plains bs \<Longrightarrow> guard d (rooted bs) req = Inr p \<Longrightarrow> within (rooted bs) p"
  using guard_inside by fastforce

lemma confined_guarded:
  assumes "plains bs"
    "\<And>d cs. guard d (rooted bs) req = Inr (rooted cs) \<Longrightarrow> plains cs \<Longrightarrow> prefix bs cs
      \<Longrightarrow> confined bs (k (rooted cs))"
  shows "confined bs (with_path (\<lambda>d. guard d (rooted bs) req) k)"
  using assms guard_inside [OF assms(1)] by (metis confined_with_path)

text \<open>The same for a guarded directory below the confinement.\<close>

lemma confined_guarded_below:
  assumes "plains bs" "prefix root bs"
    "\<And>d cs. guard d (rooted bs) req = Inr (rooted cs) \<Longrightarrow> plains cs \<Longrightarrow> prefix root cs
      \<Longrightarrow> confined root (k (rooted cs))"
  shows "confined root (with_path (\<lambda>d. guard d (rooted bs) req) k)"
proof (rule confined_with_path)
  fix d p assume g: "guard d (rooted bs) req = Inr p"
  then obtain cs where "plains cs" "prefix bs cs" "p = rooted cs" using guard_inside [OF assms(1)] by blast
  with g assms(2,3) show "confined root (k p)" using prefix_order.trans by blast
qed

text \<open>A path the check accepts is never resolved outside a solid base directory.\<close>

lemma guard_locates_inside:
  assumes "plains bs" "solid f bs" "guard d (rooted bs) req = Inr p" "locate fl d f p = Inr q"
  shows "prefix bs q"
  using guard_inside [OF assms(1,3)] locate_solid [OF assms(2)] assms(4) by metis

end

end
