(* ===== verification/Files.thy ===== *)
theory Files
  imports PathGuard "HOL-Library.Multiset" "HOL-Library.Product_Lexorder"
begin

text \<open>
  The file manager of a cell, \<open>internal/files/manager.go\<close>: the path guard \<open>SafePath\<close>, listing with
  pagination, reading and writing, and the recycle bin. A download is the parameter \<open>fetch\<close>; the
  time stamp of the recycle bin is the argument \<open>stamp\<close>.
\<close>

section \<open>The path guard\<close>

definition SafePath :: "getwd \<Rightarrow> string \<Rightarrow> string \<Rightarrow> go_error + string" where
  "SafePath d baseDir requestedPath =
     (case path_abs d baseDir of
        Inl e \<Rightarrow> Inl e
      | Inr absBase \<Rightarrow>
          (let c0 = path_clean requestedPath;
               cleanPath = (if c0 = ''.'' then [] else c0);
               fullPath = path_join [absBase, cleanPath]
           in case path_abs d fullPath of
                Inl e \<Rightarrow> Inl e
              | Inr absFull \<Rightarrow>
                  (case path_rel absBase absFull of
                     Inl e \<Rightarrow> Inl e
                   | Inr relativePath \<Rightarrow>
                       if rel_escapes relativePath then Inl (ErrorString ''invalid path'')
                       else Inr absFull)))"

lemma SafePath_rooted:
  assumes "plains bs"
  shows "SafePath d (rooted bs) req =
    (let cs = descend bs (let c = path_clean req in if c = ''.'' then [] else c)
     in if prefix bs cs then Inr (rooted cs) else Inl (ErrorString ''invalid path''))"
proof -
  let ?r = "let c = path_clean req in if c = ''.'' then [] else c"
  let ?cs = "descend bs ?r"
  have cs: "plains ?cs" using assms by simp
  obtain r where r: "path_rel (rooted bs) (rooted ?cs) = Inr r"
    using path_rel_rooted [OF assms cs] by blast
  show ?thesis
    using rel_escapes_iff [OF assms cs r] r cs assms
    by (simp add: SafePath_def Let_def path_join_rooted)
qed

lemma SafePath_inside:
  assumes "plains bs" "SafePath d (rooted bs) req = Inr p"
  shows "\<exists>cs. plains cs \<and> prefix bs cs \<and> p = rooted cs"
proof -
  let ?r = "let c = path_clean req in if c = ''.'' then [] else c"
  have "prefix bs (descend bs ?r)" "p = rooted (descend bs ?r)"
    using assms(2) unfolding SafePath_rooted [OF assms(1)]
    by (simp_all only: Let_def split: if_splits, simp_all)
  with assms(1) show ?thesis by (metis plains_descend)
qed

interpretation files: path_guard SafePath
  by unfold_locales (rule SafePath_inside)

section \<open>Listing\<close>

definition recycleBinName :: string where "recycleBinName = ''.recycle_bin''"
definition DefaultPageSize :: int where "DefaultPageSize = 250"
definition MaxPageSize :: int where "MaxPageSize = 500"

record FileEntry =
  entry_Name :: string
  entry_Path :: string
  entry_IsDir :: bool
  entry_Size :: int

record Pagination =
  Page :: int
  PerPage :: int
  Total :: int
  TotalPages :: int
  From :: int
  To :: int

record ListResponse =
  resp_Path :: string
  resp_Files :: "FileEntry list"
  resp_Pagination :: Pagination

definition is_dir :: "node \<Rightarrow> bool" where
  "is_dir n \<longleftrightarrow> n = DirNode"

text \<open>\<open>info.Size()\<close>; the size of a directory depends on the host and is taken as 0.\<close>

definition node_size :: "node \<Rightarrow> int" where
  "node_size n = (case n of FileNode data \<Rightarrow> int (length data) | LinkNode t \<Rightarrow> int (length t) | _ \<Rightarrow> 0)"

definition entry_less :: "string \<times> node \<Rightarrow> string \<times> node \<Rightarrow> bool" where
  "entry_less left right \<longleftrightarrow>
     (if is_dir (snd left) \<noteq> is_dir (snd right) then is_dir (snd left)
      else if ToLower (fst left) = ToLower (fst right) then fst left < fst right
      else ToLower (fst left) < ToLower (fst right))"

text \<open>\<open>sort.SliceStable\<close>.\<close>

fun insert_entry :: "string \<times> node \<Rightarrow> (string \<times> node) list \<Rightarrow> (string \<times> node) list" where
  "insert_entry x [] = [x]"
| "insert_entry x (y # ys) = (if entry_less y x then y # insert_entry x ys else x # y # ys)"

definition sort_entries :: "(string \<times> node) list \<Rightarrow> (string \<times> node) list" where
  "sort_entries xs = foldr insert_entry xs []"

text \<open>The clamping at the top of \<open>List\<close> and the window computed after sorting.\<close>

definition clamp_page :: "int \<Rightarrow> int" where
  "clamp_page page = (if page < 1 then 1 else page)"

definition clamp_per_page :: "int \<Rightarrow> int" where
  "clamp_per_page perPage =
     (let p = (if perPage < 1 then DefaultPageSize else perPage)
      in if p > MaxPageSize then MaxPageSize else p)"

text \<open>\<open>(page, totalPages, start, end)\<close> from the clamped values.\<close>

definition page_window :: "int \<Rightarrow> int \<Rightarrow> int \<Rightarrow> int \<times> int \<times> int \<times> int" where
  "page_window n page perPage =
     (let totalPages = (if n > 0 then (n + perPage - 1) div perPage else 1);
          page' = (if page > totalPages then totalPages else page);
          start0 = (page' - 1) * perPage;
          end0 = start0 + perPage;
          start1 = (if start0 > n then n else start0);
          end1 = (if end0 > n then n else end0)
      in (page', totalPages, start1, end1))"

definition slice :: "int \<Rightarrow> int \<Rightarrow> 'a list \<Rightarrow> 'a list" where
  "slice s e xs = take (nat (e - s)) (drop (nat s) xs)"

text \<open>The loop over one page; an entry whose \<open>Info\<close> fails is skipped.\<close>

fun list_entries :: "string \<Rightarrow> string \<Rightarrow> (string \<times> node) list \<Rightarrow> FileEntry list os" where
  "list_entries fullPath requestedPath [] = os_return []"
| "list_entries fullPath requestedPath (x # xs) =
     os_attempt (os_lstat (path_join [fullPath, fst x])) (\<lambda>r. case r of
         Inl _ \<Rightarrow> list_entries fullPath requestedPath xs
       | Inr info \<Rightarrow> os_bind (list_entries fullPath requestedPath xs) (\<lambda>rest.
           os_return (\<lparr>entry_Name = fst x, entry_Path = path_join [requestedPath, fst x],
               entry_IsDir = is_dir (snd x), entry_Size = node_size info\<rparr> # rest)))"

definition files_List :: "string \<Rightarrow> string \<Rightarrow> int \<Rightarrow> int \<Rightarrow> ListResponse os" where
  "files_List baseDir requestedPath page0 perPage0 =
     (let page1 = clamp_page page0; perPage = clamp_per_page perPage0
      in with_path (\<lambda>d. SafePath d baseDir requestedPath) (\<lambda>fullPath.
         os_bind (os_stat fullPath) (\<lambda>info.
         if \<not> is_dir info then os_throw (ErrorString ''path is not a directory'')
         else os_bind (os_read_dir fullPath) (\<lambda>entries0.
           let entries = sort_entries entries0;
               nEntries = int (length entries);
               (page, totalPages, start1, end1) = page_window nEntries page1 perPage
           in os_bind (list_entries fullPath requestedPath (slice start1 end1 entries)) (\<lambda>result.
              let clean = path_clean requestedPath
              in os_return \<lparr>resp_Path = (if clean = ''.'' then [] else clean),
                   resp_Files = result,
                   resp_Pagination = \<lparr>Page = page, PerPage = perPage, Total = nEntries,
                     TotalPages = totalPages,
                     From = (if nEntries > 0 then start1 + 1 else 0),
                     To = (if nEntries > 0 then end1 else 0)\<rparr>\<rparr>)))))"

section \<open>Reading and writing\<close>

definition files_Read :: "string \<Rightarrow> string \<Rightarrow> string os" where
  "files_Read baseDir requestedPath =
     with_path (\<lambda>d. SafePath d baseDir requestedPath) (\<lambda>fullPath. os_read_file fullPath)"

definition EnsureParentDir :: "string \<Rightarrow> unit os" where
  "EnsureParentDir p = os_mkdir_all (path_dir p)"

definition files_Write :: "string \<Rightarrow> string \<Rightarrow> string \<Rightarrow> unit os" where
  "files_Write baseDir requestedPath content =
     with_path (\<lambda>d. SafePath d baseDir requestedPath) (\<lambda>fullPath.
       os_seq (EnsureParentDir fullPath) (os_write_file fullPath content))"

definition WriteBytes :: "string \<Rightarrow> string \<Rightarrow> string \<Rightarrow> unit os" where
  "WriteBytes baseDir requestedPath data =
     with_path (\<lambda>d. SafePath d baseDir requestedPath) (\<lambda>fullPath.
       os_seq (EnsureParentDir fullPath) (os_write_file fullPath data))"

definition files_Delete :: "string \<Rightarrow> string \<Rightarrow> unit os" where
  "files_Delete baseDir requestedPath =
     with_path (\<lambda>d. SafePath d baseDir requestedPath) (\<lambda>fullPath. os_remove_all fullPath)"

definition CreateFolder :: "string \<Rightarrow> string \<Rightarrow> unit os" where
  "CreateFolder baseDir requestedPath =
     with_path (\<lambda>d. SafePath d baseDir requestedPath) (\<lambda>fullPath. os_mkdir_all fullPath)"

definition files_Rename :: "string \<Rightarrow> string \<Rightarrow> string \<Rightarrow> unit os" where
  "files_Rename baseDir oldPath newPath =
     with_path (\<lambda>d. SafePath d baseDir oldPath) (\<lambda>oldFullPath.
     with_path (\<lambda>d. SafePath d baseDir newPath) (\<lambda>newFullPath.
       os_seq (EnsureParentDir newFullPath) (os_rename oldFullPath newFullPath)))"

definition DownloadPath :: "string \<Rightarrow> string \<Rightarrow> string os" where
  "DownloadPath baseDir requestedPath =
     with_path (\<lambda>d. SafePath d baseDir requestedPath) (\<lambda>fullPath.
     os_bind (os_stat fullPath) (\<lambda>info.
       if is_dir info then os_throw (ErrorString ''cannot download a folder'')
       else os_return fullPath))"

definition CreateFile :: "string \<Rightarrow> string \<Rightarrow> unit os" where
  "CreateFile baseDir requestedPath =
     with_path (\<lambda>d. SafePath d baseDir requestedPath) (\<lambda>fullPath.
     os_attempt (os_stat fullPath) (\<lambda>r. case r of
         Inr _ \<Rightarrow> os_throw (ErrorString ''file already exists'')
       | Inl e \<Rightarrow>
           if \<not> os_is_not_exist e then os_throw e
           else os_seq (EnsureParentDir fullPath) (os_create_excl fullPath)))"

record Response =
  StatusCode :: int
  Body :: string
  BodyError :: "go_error option"

definition UploadFromURL ::
  "(string \<Rightarrow> go_error + Response) \<Rightarrow> string \<Rightarrow> string \<Rightarrow> string \<Rightarrow> unit os" where
  "UploadFromURL fetch baseDir requestedPath url =
     (if url = [] then os_throw (ErrorString ''url is required'')
      else with_path (\<lambda>d. SafePath d baseDir requestedPath) (\<lambda>fullPath.
        os_seq (EnsureParentDir fullPath)
        (os_bind (os_lift (fetch url)) (\<lambda>response.
          if StatusCode response < 200 \<or> StatusCode response \<ge> 300
          then os_throw (ErrorString ''failed to download url'')
          else os_seq (os_write_file fullPath (Body response))
            (case BodyError response of None \<Rightarrow> os_return () | Some e \<Rightarrow> os_throw e)))))"

section \<open>The recycle bin\<close>

definition safeRelativePath :: "string \<Rightarrow> go_error + string" where
  "safeRelativePath p =
     (let clean0 = path_clean p
      in if clean0 = ''.'' then Inl (ErrorString ''path is required'')
         else let clean = TrimPrefix clean0 ''/''
         in if clean = [] \<or> clean = ''.'' then Inl (ErrorString ''path is required'')
            else if HasPrefix clean ''../'' \<or> clean = ''..'' \<or> Contains clean ''/../''
            then Inl (ErrorString ''invalid path'')
            else Inr clean)"

text \<open>
  The candidate names of \<open>uniqueRecyclePath\<close>: the bare stamp first, then numbered from 2. The loop
  has no bound in the code, so it takes fuel.
\<close>

definition recycle_candidate :: "string \<Rightarrow> string \<Rightarrow> nat \<Rightarrow> string" where
  "recycle_candidate p stamp index =
     (let directory = path_dir p; extension = path_ext p;
          name = TrimSuffix (path_base p) extension
      in path_join [directory,
           name @ '' (deleted '' @ stamp @ '')'' @
           (if index < 2 then [] else '' '' @ Itoa (int index)) @ extension])"

fun unique_loop :: "nat \<Rightarrow> (nat \<Rightarrow> string) \<Rightarrow> nat \<Rightarrow> string os" where
  "unique_loop 0 cand index = os_throw OutOfFuel"
| "unique_loop (Suc fuel) cand index =
     os_attempt (os_stat (cand index)) (\<lambda>r.
       if not_exist r then os_return (cand index) else unique_loop fuel cand (Suc index))"

definition uniqueRecyclePath :: "nat \<Rightarrow> string \<Rightarrow> string \<Rightarrow> string os" where
  "uniqueRecyclePath fuel stamp p =
     os_attempt (os_stat p) (\<lambda>r.
       if not_exist r then os_return p else unique_loop fuel (recycle_candidate p stamp) 1)"

definition in_recycle_bin :: "string \<Rightarrow> bool" where
  "in_recycle_bin p \<longleftrightarrow> p = recycleBinName \<or> HasPrefix p (recycleBinName @ ''/'')"

definition MoveToRecycleBin :: "nat \<Rightarrow> string \<Rightarrow> string \<Rightarrow> string \<Rightarrow> unit os" where
  "MoveToRecycleBin fuel stamp root p =
     os_bind (os_lift (safeRelativePath p)) (\<lambda>cleanPath.
     if in_recycle_bin cleanPath
     then os_throw (ErrorString ''cannot move recycle bin contents to recycle bin'')
     else with_path (\<lambda>d. SafePath d root cleanPath) (\<lambda>source.
       os_bind (os_stat source) (\<lambda>_.
       with_path (\<lambda>d. SafePath d root (path_join [recycleBinName, cleanPath])) (\<lambda>target0.
       os_bind (uniqueRecyclePath fuel stamp target0) (\<lambda>target.
       os_seq (os_mkdir_all (path_dir target)) (os_rename source target))))))"

definition RestoreFromRecycleBin :: "nat \<Rightarrow> string \<Rightarrow> string \<Rightarrow> string \<Rightarrow> unit os" where
  "RestoreFromRecycleBin fuel stamp root p =
     os_bind (os_lift (safeRelativePath p)) (\<lambda>cleanPath.
     if \<not> in_recycle_bin cleanPath then os_throw (ErrorString ''path is not inside recycle bin'')
     else if cleanPath = recycleBinName
     then os_throw (ErrorString ''cannot restore recycle bin itself'')
     else with_path (\<lambda>d. SafePath d root cleanPath) (\<lambda>source.
       with_path (\<lambda>d. SafePath d root (TrimPrefix cleanPath (recycleBinName @ ''/''))) (\<lambda>target0.
       os_bind (uniqueRecyclePath fuel stamp target0) (\<lambda>target.
       os_seq (os_mkdir_all (path_dir target)) (os_rename source target)))))"

definition PermanentDeleteFromRecycleBin :: "string \<Rightarrow> string \<Rightarrow> unit os" where
  "PermanentDeleteFromRecycleBin root p =
     os_bind (os_lift (safeRelativePath p)) (\<lambda>cleanPath.
     if \<not> in_recycle_bin cleanPath
     then os_throw (ErrorString ''permanent delete is only allowed inside recycle bin'')
     else if cleanPath = recycleBinName
     then os_throw (ErrorString ''cannot permanently delete recycle bin itself'')
     else with_path (\<lambda>d. SafePath d root cleanPath) (\<lambda>target. os_remove_all target))"

section \<open>Containment\<close>

text \<open>
  \<open>SafePath\<close> is sound and complete: for an absolute clean base directory it returns the joined
  path exactly when that path lies in the base directory, component by component, and fails with
  \<open>invalid path\<close> otherwise. An accepted path can be \<open>/\<close>-rooted, contain \<open>..\<close> or doubled slashes: only
  where it ends up matters, and a sibling directory with the same name prefix is refused.
\<close>

theorem SafePath_sound_complete:
  "SafePath d (rooted (clean_abs base)) req =
    (let target = path_join [rooted (clean_abs base), path_clean req]
     in if within (rooted (clean_abs base)) target then Inr target
        else Inl (ErrorString ''invalid path''))"
proof -
  have "descend bs ''.'' = bs" if "plains bs" for bs
    using that by (simp add: descend_def clean_comps_plains)
  then show ?thesis
    by (auto simp: SafePath_rooted path_join_rooted Let_def)
qed

text \<open>The parent of a guarded path lies inside the base, or on the way to it.\<close>

lemma path_dir_plains: "plains cs \<Longrightarrow> path_dir (rooted cs) = rooted (butlast cs)"
proof (cases cs rule: rev_cases)
  case Nil
  have "path_dir (rooted []) = path_clean ''/''" by (simp add: path_dir_def rooted_def)
  also have "\<dots> = rooted []" by (simp add: path_clean_abs clean_abs_def rooted_def)
  finally show ?thesis using Nil by simp
qed (simp add: path_dir_rooted)

lemma prefix_butlast: "prefix bs cs \<Longrightarrow> prefix bs (butlast cs) \<or> prefix (butlast cs) bs"
  by (metis prefix_same_cases prefixeq_butlast)

lemma confined_EnsureParentDir [confined_intros]:
  "plains cs \<Longrightarrow> prefix root cs \<Longrightarrow> confined root (EnsureParentDir (rooted cs))"
  unfolding EnsureParentDir_def
  by (simp add: path_dir_plains confined_mkdir_all plains_butlast prefix_butlast)

lemma confined_mkdir_parent [confined_intros]:
  "plains cs \<Longrightarrow> prefix root cs \<Longrightarrow> confined root (os_mkdir_all (path_dir (rooted cs)))"
  using confined_EnsureParentDir by (simp add: EnsureParentDir_def)

lemma confined_list_entries [confined_intros]: "confined root (list_entries p r xs)"
  by (induction xs) (auto intro!: confined_intros split: sum.split)

lemma confined_unique_loop [confined_intros]: "confined root (unique_loop fuel cand i)"
  by (induction fuel arbitrary: i) (auto intro!: confined_intros)

text \<open>The candidates of the recycle bin stay in the directory of the path they replace.\<close>

definition recycle_name :: "string \<Rightarrow> string \<Rightarrow> nat \<Rightarrow> string" where
  "recycle_name c stamp index =
     TrimSuffix c (path_ext c) @ '' (deleted '' @ stamp @ '')'' @
     (if index < 2 then [] else '' '' @ Itoa (int index)) @ path_ext c"

lemma set_path_ext: "set (path_ext c) \<subseteq> set c"
proof -
  define b where "b = takeWhile (\<lambda>c. c \<noteq> slash) (rev c)"
  define e where "e = takeWhile (\<lambda>c. c \<noteq> CHR ''.'') b"
  have "set b \<subseteq> set c" by (auto simp: b_def dest: set_takeWhileD)
  moreover have "set e \<subseteq> set b" by (auto simp: e_def dest: set_takeWhileD)
  moreover have "length e < length b \<Longrightarrow> CHR ''.'' \<in> set b"
    using nth_length_takeWhile [of "\<lambda>c. c \<noteq> CHR ''.''" b] by (metis e_def nth_mem)
  ultimately show ?thesis by (auto simp: path_ext_def Let_def simp flip: b_def e_def)
qed

lemma plain_recycle_name:
  assumes "plain c" "slash \<notin> set stamp"
  shows "plain (recycle_name c stamp i)"
proof (rule plainI)
  have "CHR ''('' \<in> set (recycle_name c stamp i)" by (simp add: recycle_name_def)
  then show "recycle_name c stamp i \<noteq> []" "recycle_name c stamp i \<noteq> ''.''"
    "recycle_name c stamp i \<noteq> ''..''" by auto
  have "set (TrimSuffix c (path_ext c)) \<subseteq> set c"
    by (auto simp: TrimSuffix_def dest: in_set_takeD)
  then show "slash \<notin> set (recycle_name c stamp i)"
    using assms set_path_ext [of c] by (auto simp: recycle_name_def plain_def)
qed

lemma path_ext_rooted: "slash \<notin> set c \<Longrightarrow> path_ext (rooted (cs @ [c])) = path_ext c"
proof -
  assume c: "slash \<notin> set c"
  have r: "rooted (cs @ [c]) = (if cs = [] then [] else rooted cs) @ slash # c"
    by (simp add: rooted_append) (simp add: rooted_def)
  have all: "takeWhile (\<lambda>x. x \<noteq> slash) (rev c) = rev c"
    using c by (auto simp: takeWhile_eq_all_conv)
  have "takeWhile (\<lambda>x. x \<noteq> slash) (rev c @ slash # ys) = rev c" for ys
    using c by (subst takeWhile_append2) auto
  then have "takeWhile (\<lambda>x. x \<noteq> slash) (rev (rooted (cs @ [c]))) = rev c"
    unfolding r by simp
  then show ?thesis unfolding path_ext_def by (simp only: all)
qed

lemma recycle_candidate_rooted:
  assumes "plains cs" "plain c" "slash \<notin> set stamp"
  shows "recycle_candidate (rooted (cs @ [c])) stamp i = rooted (cs @ [recycle_name c stamp i])"
proof -
  have "recycle_candidate (rooted (cs @ [c])) stamp i = path_join [rooted cs, recycle_name c stamp i]"
    using assms by (simp add: recycle_candidate_def recycle_name_def path_dir_rooted path_base_rooted
        path_ext_rooted plain_props Let_def)
  then show ?thesis
    using assms plain_recycle_name [OF assms(2,3)] by (simp add: path_join_rooted descend_plain)
qed

text \<open>What \<open>safeRelativePath\<close> lets through.\<close>

lemma safeRelativePath_form:
  assumes "safeRelativePath p = Inr c"
  obtains cs where "plains cs" "cs \<noteq> []" "c = JoinWith slash cs"
proof (cases "is_abs p")
  case True
  have "c = JoinWith slash (clean_abs p)" "c \<noteq> []"
    using assms path_clean_abs [OF True]
    by (auto simp: safeRelativePath_def Let_def rooted_def TrimPrefix_def HasPrefix_def split: if_splits)
  then show ?thesis by (intro that [of "clean_abs p"]) auto
next
  case False
  then obtain n qs where q: "plains qs" "path_clean p = (if n = 0 \<and> qs = [] then ''.''
    else JoinWith slash (replicate n ''..'' @ qs))" by (rule path_clean_relative)
  have nz: "\<not> (n = 0 \<and> qs = [])" using assms q(2) by (auto simp: safeRelativePath_def Let_def)
  let ?j = "JoinWith slash (replicate n ''..'' @ qs)"
  have na: "\<not> HasPrefix ?j ''/''"
  proof
    assume "HasPrefix ?j ''/''"
    then obtain z where z: "?j = [] @ slash # z" by (auto simp: HasPrefix_def prefix_def)
    have "Split slash ?j = replicate n ''..'' @ qs"
      using nz q(1) by (intro Split_JoinWith) (auto dest: plains_noslash)
    moreover have "hd (Split slash ?j) = []" unfolding z Split_append by simp
    ultimately have "hd (replicate n ''..'' @ qs) = []" by simp
    then show False using nz q(1) by (cases n; cases qs) (auto dest: plain_props)
  qed
  have tp: "TrimPrefix ?j ''/'' = ?j" using na by (simp add: TrimPrefix_def HasPrefix_def)
  have c: "c = ?j" "\<not> HasPrefix c ''../''" "c \<noteq> ''..''"
    using assms q(2) nz tp by (auto simp: safeRelativePath_def Let_def split: if_splits)
  then have "n = 0" using HasPrefix_dots [of n qs] by auto
  with c nz q(1) show ?thesis by (intro that [of qs]) auto
qed

text \<open>Paths strictly below the base, as the recycle bin computes them.\<close>

lemma SafePath_below:
  assumes "plains bs" "plains cs" "cs \<noteq> []"
  shows "SafePath d (rooted bs) (JoinWith slash cs) = Inr (rooted (bs @ cs))"
proof -
  obtain c cs' where c: "cs = c # cs'" using assms(3) by (cases cs) auto
  have "\<not> is_abs (JoinWith slash cs)"
    using assms(2) unfolding c by (cases cs'; cases c) (auto simp: plain_def is_abs_def HasPrefix_def)
  then have "path_clean (JoinWith slash cs) = JoinWith slash cs"
    using assms(2,3) by (simp add: path_clean_def Split_plains clean_comps_plains)
  moreover have "JoinWith slash cs \<noteq> ''.''"
  proof
    assume "JoinWith slash cs = ''.''"
    then have "Split slash ''.'' = cs" using Split_plains [OF assms(2,3)] by simp
    then show False using assms(2) by (auto simp: Split_nosep dest: plain_props)
  qed
  ultimately show ?thesis using assms by (simp add: SafePath_rooted descend_JoinWith)
qed

definition beside :: "fpath \<Rightarrow> string \<Rightarrow> bool" where
  "beside cs p \<longleftrightarrow> (\<exists>d. plain d \<and> p = rooted (butlast cs @ [d]))"

lemma besideI: "plain d \<Longrightarrow> beside (bs @ [c]) (rooted (bs @ [d]))"
  by (auto simp: beside_def)

lemma gives_unique_loop: "os_gives (unique_loop fuel cand i) (\<lambda>x. \<exists>j \<ge> i. x = cand j)"
proof (induction fuel arbitrary: i)
  case (Suc fuel)
  show ?case
    unfolding os_gives_def
  proof (intro allI impI)
    fix w x w' assume r: "unique_loop (Suc fuel) cand i w = (Inr x, w')"
    obtain y w1 where y: "os_stat (cand i) w = (y, w1)" by fastforce
    show "\<exists>j \<ge> i. x = cand j"
    proof (cases "not_exist y")
      case True
      then show ?thesis using r y by (auto simp: os_attempt_def os_return_def)
    next
      case False
      then have "unique_loop fuel cand (Suc i) w1 = (Inr x, w')" using r y by (simp add: os_attempt_def)
      with Suc [of "Suc i"] show ?thesis unfolding os_gives_def by (meson Suc_leD)
    qed
  qed
qed (simp add: os_gives_def os_throw_def)

lemma gives_uniqueRecyclePath:
  assumes "plains cs" "cs \<noteq> []" "slash \<notin> set stamp"
  shows "os_gives (uniqueRecyclePath fuel stamp (rooted cs)) (beside cs)"
proof -
  obtain bs c where c: "cs = bs @ [c]" using assms(2) by (cases cs rule: rev_cases) auto
  have b: "beside cs (rooted cs)" "beside cs (recycle_candidate (rooted cs) stamp i)" for i
    using assms recycle_candidate_rooted [of bs c stamp i] plain_recycle_name [of c stamp i]
    by (simp_all add: c besideI)
  have l: "unique_loop fuel (recycle_candidate (rooted cs) stamp) 1 w = (Inr x, w') \<Longrightarrow> beside cs x"
    for w x w'
    using gives_unique_loop [of fuel "recycle_candidate (rooted cs) stamp" 1] b(2)
    unfolding os_gives_def by blast
  show ?thesis
    using b(1) l by (auto simp: os_gives_def uniqueRecyclePath_def os_attempt_def os_return_def
        split: prod.splits if_splits)
qed

lemma confined_uniqueRecyclePath [confined_intros]: "confined root (uniqueRecyclePath fuel stamp p)"
  unfolding uniqueRecyclePath_def by (auto intro!: confined_intros)

lemma confined_recycle_move:
  assumes "plains bs" "plains cs" "plains ts" "ts \<noteq> []" "slash \<notin> set stamp"
  shows "confined bs (os_bind (uniqueRecyclePath fuel stamp (rooted (bs @ ts))) (\<lambda>target.
     os_seq (os_mkdir_all (path_dir target)) (os_rename (rooted (bs @ cs)) target)))"
proof (rule confined_bind_gives [OF confined_uniqueRecyclePath gives_uniqueRecyclePath])
  fix x assume "beside (bs @ ts) x"
  with assms(4) obtain d where d: "plain d" "x = rooted (bs @ butlast ts @ [d])"
    by (auto simp: beside_def butlast_append)
  have p: "plains (bs @ butlast ts @ [d])" using d(1) assms by (auto simp: plains_butlast)
  show "confined bs (os_seq (os_mkdir_all (path_dir x)) (os_rename (rooted (bs @ cs)) x))"
    unfolding d(2)
    by (intro confined_bind confined_mkdir_parent confined_rename) (use p assms in simp_all)
qed (use assms in auto)

lemma TrimPrefix_bin:
  assumes "plains cs" "in_recycle_bin (JoinWith slash cs)" "JoinWith slash cs \<noteq> recycleBinName"
  obtains ds where "plains ds" "ds \<noteq> []" "cs = recycleBinName # ds"
    "TrimPrefix (JoinWith slash cs) (recycleBinName @ ''/'') = JoinWith slash ds"
proof -
  obtain z where z: "JoinWith slash cs = recycleBinName @ slash # z"
    using assms(2,3) by (auto simp: in_recycle_bin_def HasPrefix_def prefix_def)
  then have ne: "cs \<noteq> []" by auto
  have "cs = Split slash (recycleBinName @ slash # z)"
    using Split_plains [OF assms(1) ne] by (simp add: z)
  also have "\<dots> = recycleBinName # Split slash z"
    unfolding Split_append by (subst Split_nosep) (auto simp: recycleBinName_def)
  finally have cs: "cs = recycleBinName # Split slash z" .
  show ?thesis
  proof (rule that [of "Split slash z"])
    show "TrimPrefix (JoinWith slash cs) (recycleBinName @ ''/'') = JoinWith slash (Split slash z)"
      unfolding z using TrimPrefix_append [of "recycleBinName @ ''/''" z] by simp
  qed (use assms(1) cs in auto)
qed

section \<open>Confinement of the operations\<close>

lemma path_join_bin:
  assumes "plains cs" "cs \<noteq> []"
  shows "path_join [recycleBinName, JoinWith slash cs] = JoinWith slash (recycleBinName # cs)"
proof -
  have "path_join [recycleBinName, JoinWith slash cs] = path_clean (JoinWith slash (recycleBinName # cs))"
    using assms plains_notmem(1) [OF assms(1)]
    by (auto simp: path_join_def recycleBinName_def JoinWith_Nil_iff JoinWith_Cons)
  moreover have "plains (recycleBinName # cs)" using assms(1) by (auto simp: recycleBinName_def plain_def)
  ultimately show ?thesis
    by (simp add: path_clean_def Split_plains clean_comps_plains recycleBinName_def is_abs_append
        JoinWith_Cons assms(2))
qed

lemma confined_MoveToRecycleBin:
  assumes "plains bs" "slash \<notin> set stamp"
  shows "confined bs (MoveToRecycleBin fuel stamp (rooted bs) p)"
  unfolding MoveToRecycleBin_def
proof (rule confined_bind_lift)
  fix c assume "safeRelativePath p = Inr c"
  then obtain cs where cs: "plains cs" "cs \<noteq> []" "c = JoinWith slash cs" by (rule safeRelativePath_form)
  have t: "path_join [recycleBinName, c] = JoinWith slash (recycleBinName # cs)"
    unfolding cs(3) by (rule path_join_bin [OF cs(1,2)])
  have bin: "plains (recycleBinName # cs)" using cs(1) by (auto simp: recycleBinName_def plain_def)
  show "confined bs (if in_recycle_bin c
     then os_throw (ErrorString ''cannot move recycle bin contents to recycle bin'')
     else with_path (\<lambda>d. SafePath d (rooted bs) c) (\<lambda>source.
       os_bind (os_stat source) (\<lambda>_.
       with_path (\<lambda>d. SafePath d (rooted bs) (path_join [recycleBinName, c])) (\<lambda>target0.
       os_bind (uniqueRecyclePath fuel stamp target0) (\<lambda>target.
       os_seq (os_mkdir_all (path_dir target)) (os_rename source target))))))"
    unfolding t unfolding cs(3) SafePath_below [OF assms(1) cs(1,2)]
      SafePath_below [OF assms(1) bin list.distinct(2)]
      with_path_const
    by (intro confined_if confined_throw confined_bind [OF confined_reads(1)]
        confined_recycle_move [OF assms(1) cs(1) bin _ assms(2)]) simp
qed

lemma confined_RestoreFromRecycleBin:
  assumes "plains bs" "slash \<notin> set stamp"
  shows "confined bs (RestoreFromRecycleBin fuel stamp (rooted bs) p)"
  unfolding RestoreFromRecycleBin_def
proof (rule confined_bind_lift)
  fix c assume "safeRelativePath p = Inr c"
  then obtain cs where cs: "plains cs" "cs \<noteq> []" "c = JoinWith slash cs" by (rule safeRelativePath_form)
  have "confined bs (with_path (\<lambda>d. SafePath d (rooted bs) c) (\<lambda>source.
       with_path (\<lambda>d. SafePath d (rooted bs) (TrimPrefix c (recycleBinName @ ''/''))) (\<lambda>target0.
       os_bind (uniqueRecyclePath fuel stamp target0) (\<lambda>target.
       os_seq (os_mkdir_all (path_dir target)) (os_rename source target)))))"
    if b: "in_recycle_bin c" "c \<noteq> recycleBinName"
  proof -
    obtain ds where ds: "plains ds" "ds \<noteq> []" "cs = recycleBinName # ds"
      "TrimPrefix (JoinWith slash cs) (recycleBinName @ ''/'') = JoinWith slash ds"
      using TrimPrefix_bin [OF cs(1)] b cs(3) by auto
    show ?thesis
      unfolding cs(3) ds(4) SafePath_below [OF assms(1) cs(1,2)] SafePath_below [OF assms(1) ds(1,2)]
        with_path_const
      by (rule confined_recycle_move [OF assms(1) cs(1) ds(1,2) assms(2)])
  qed
  then show "confined bs (if \<not> in_recycle_bin c then os_throw (ErrorString ''path is not inside recycle bin'')
     else if c = recycleBinName
     then os_throw (ErrorString ''cannot restore recycle bin itself'')
     else with_path (\<lambda>d. SafePath d (rooted bs) c) (\<lambda>source.
       with_path (\<lambda>d. SafePath d (rooted bs) (TrimPrefix c (recycleBinName @ ''/''))) (\<lambda>target0.
       os_bind (uniqueRecyclePath fuel stamp target0) (\<lambda>target.
       os_seq (os_mkdir_all (path_dir target)) (os_rename source target)))))"
    by (auto intro!: confined_intros)
qed

lemma confined_PermanentDelete:
  assumes "plains bs"
  shows "confined bs (PermanentDeleteFromRecycleBin (rooted bs) p)"
  unfolding PermanentDeleteFromRecycleBin_def
proof (rule confined_bind_lift)
  fix c assume "safeRelativePath p = Inr c"
  then obtain cs where cs: "plains cs" "cs \<noteq> []" "c = JoinWith slash cs" by (rule safeRelativePath_form)
  show "confined bs (if \<not> in_recycle_bin c
     then os_throw (ErrorString ''permanent delete is only allowed inside recycle bin'')
     else if c = recycleBinName
     then os_throw (ErrorString ''cannot permanently delete recycle bin itself'')
     else with_path (\<lambda>d. SafePath d (rooted bs) c) (\<lambda>target. os_remove_all target))"
    unfolding cs(3) SafePath_below [OF assms cs(1,2)]
    using assms cs by (auto intro!: confined_intros confined_with_path)
qed

lemma confined_guarded_write:
  assumes "plains bs"
  shows "confined bs (with_path (\<lambda>d. SafePath d (rooted bs) p) (\<lambda>q. os_seq (EnsureParentDir q) (os_write_file q s)))"
  by (rule files.confined_guarded [OF assms]) (intro confined_intros)

lemma confined_files:
  assumes "plains bs"
  shows "confined bs (files_Write (rooted bs) p s)" "confined bs (WriteBytes (rooted bs) p s)"
    "confined bs (CreateFolder (rooted bs) p)" "confined bs (CreateFile (rooted bs) p)"
    "confined bs (files_Rename (rooted bs) p q)" "confined bs (UploadFromURL fetch (rooted bs) p s)"
proof -
  show "confined bs (files_Write (rooted bs) p s)" "confined bs (WriteBytes (rooted bs) p s)"
    using confined_guarded_write [OF assms] by (simp_all add: files_Write_def WriteBytes_def)
  show "confined bs (CreateFolder (rooted bs) p)"
    unfolding CreateFolder_def
    by (rule files.confined_guarded [OF assms]) (intro confined_intros, simp_all)
  show "confined bs (CreateFile (rooted bs) p)"
    unfolding CreateFile_def
    by (rule files.confined_guarded [OF assms]) (auto intro!: confined_intros split: sum.split)
  show "confined bs (files_Rename (rooted bs) p q)"
    unfolding files_Rename_def
    by (intro files.confined_guarded [OF assms] confined_intros)
  show "confined bs (UploadFromURL fetch (rooted bs) p s)"
    unfolding UploadFromURL_def
    by (intro confined_if confined_throw files.confined_guarded [OF assms] confined_bind
        confined_EnsureParentDir confined_lift confined_write_file)
      (auto intro!: confined_intros split: option.split)
qed

text \<open>
  When the directory of a cell contains no symbolic link, nothing a file request writes, creates,
  uploads, renames, moves to the bin, restores or deletes for good changes any file of the host outside
  that directory, whatever paths the request names and whichever system calls fail; and the directory is
  still there, without links, afterwards.
\<close>

theorem file_requests_confined:
  assumes "slash \<notin> set stamp"
  shows "list_all (confined (clean_abs dir))
    [files_Write (rooted (clean_abs dir)) p s, WriteBytes (rooted (clean_abs dir)) p s,
     CreateFolder (rooted (clean_abs dir)) p, CreateFile (rooted (clean_abs dir)) p,
     files_Rename (rooted (clean_abs dir)) p q, UploadFromURL fetch (rooted (clean_abs dir)) p s,
     MoveToRecycleBin fuel stamp (rooted (clean_abs dir)) p,
     RestoreFromRecycleBin fuel stamp (rooted (clean_abs dir)) p,
     PermanentDeleteFromRecycleBin (rooted (clean_abs dir)) p]"
  using confined_files [OF plains_clean_abs [of dir]]
    confined_MoveToRecycleBin [OF plains_clean_abs [of dir] assms]
    confined_RestoreFromRecycleBin [OF plains_clean_abs [of dir] assms]
    confined_PermanentDelete [OF plains_clean_abs [of dir]]
  by simp

theorem file_requests_confined_witness:
  "confined (clean_abs ''/srv/cells/c1'') (MoveToRecycleBin 5 ''2026-01-02 03-04-05''
     (rooted (clean_abs ''/srv/cells/c1'')) ''a/b.txt'')"
  using file_requests_confined [of "''2026-01-02 03-04-05''" "''/srv/cells/c1''"] by simp

section \<open>Listing\<close>

lemma mset_insert_entry [simp]: "mset (insert_entry x ys) = add_mset x (mset ys)"
  by (induction ys) auto

text \<open>The comparison is that of the key (not a directory, lower-case name, name).\<close>

definition entry_key :: "string \<times> node \<Rightarrow> bool \<times> string \<times> string" where
  "entry_key e = (\<not> is_dir (snd e), ToLower (fst e), fst e)"

lemma entry_less_key: "entry_less x y \<longleftrightarrow> entry_key x < entry_key y"
  by (auto simp: entry_less_def entry_key_def less_prod_def' less_bool_def)

definition listing_order :: "(string \<times> node) list \<Rightarrow> bool" where
  "listing_order xs \<longleftrightarrow> sorted (map entry_key xs)"

lemma set_insert_entry [simp]: "set (insert_entry x ys) = insert x (set ys)"
  by (induction ys) auto

lemma listing_order_insert: "listing_order ys \<Longrightarrow> listing_order (insert_entry x ys)"
proof (induction ys)
  case (Cons y ys)
  then show ?case by (auto simp: listing_order_def entry_less_key not_less intro: less_imp_le)
qed (simp add: listing_order_def)

lemma sort_entries_listing: "mset (sort_entries xs) = mset xs" "listing_order (sort_entries xs)"
proof (induction xs)
  case (Cons x xs)
  { case 1 then show ?case using Cons by (simp add: sort_entries_def) }
  { case 2 then show ?case using Cons listing_order_insert by (simp add: sort_entries_def) }
qed (simp_all add: sort_entries_def listing_order_def)

lemma concat_pages: "concat (map (\<lambda>i. take k (drop (i * k) xs)) [0..<m]) = take (m * k) xs"
  by (induction m) (simp_all add: take_add add.commute [of k])

lemma clamp_per_page_bounds: "1 \<le> clamp_per_page n" "clamp_per_page n \<le> 500"
  by (auto simp: clamp_per_page_def DefaultPageSize_def MaxPageSize_def Let_def)

definition page_entries :: "int \<Rightarrow> int \<Rightarrow> 'a list \<Rightarrow> 'a list" where
  "page_entries page perPage xs =
     (case page_window (int (length xs)) (clamp_page page) (clamp_per_page perPage) of
        (_, _, s, e) \<Rightarrow> slice s e xs)"

definition page_count :: "int \<Rightarrow> int \<Rightarrow> int" where
  "page_count n perPage = (if n > 0 then (n + clamp_per_page perPage - 1) div clamp_per_page perPage else 1)"

lemma page_count_covers: "n \<le> page_count n perPage * clamp_per_page perPage"
  "0 < n \<Longrightarrow> (page_count n perPage - 1) * clamp_per_page perPage < n" "1 \<le> page_count n perPage"
proof -
  define k where "k = clamp_per_page perPage"
  have k: "1 \<le> k" using clamp_per_page_bounds by (simp add: k_def)
  have d: "(n + k - 1) div k * k \<le> n + k - 1" "n + k - 1 < ((n + k - 1) div k + 1) * k"
  proof -
    have "(n + k - 1) div k * k + (n + k - 1) mod k = n + k - 1" by (rule div_mult_mod_eq)
    moreover have "0 \<le> (n + k - 1) mod k" "(n + k - 1) mod k < k" using k by auto
    ultimately show "(n + k - 1) div k * k \<le> n + k - 1" "n + k - 1 < ((n + k - 1) div k + 1) * k"
      unfolding distrib_right by linarith+
  qed
  show "n \<le> page_count n perPage * clamp_per_page perPage"
    using d k by (auto simp: page_count_def algebra_simps simp flip: k_def)
  show "0 < n \<Longrightarrow> (page_count n perPage - 1) * clamp_per_page perPage < n"
    using d k by (auto simp: page_count_def algebra_simps simp flip: k_def)
  show "1 \<le> page_count n perPage"
    using k using zdiv_mono1 [of k "n + k - 1" k] by (auto simp: page_count_def simp flip: k_def)
qed

lemma nat_window: "nat (min (int l) (int a + int k) - int a) = min (l - a) k"
  by (auto simp: min_def)

lemma page_entries_take:
  assumes "1 \<le> i" "int i \<le> page_count (int (length xs)) perPage"
  shows "page_entries (int i) perPage xs
    = take (nat (clamp_per_page perPage)) (drop ((i - 1) * nat (clamp_per_page perPage)) xs)"
proof (cases "xs = []")
  case True
  then show ?thesis by (simp add: page_entries_def slice_def split: prod.split)
next
  case False
  define k where "k = clamp_per_page perPage"
  define n where "n = int (length xs)"
  have k: "1 \<le> k" using clamp_per_page_bounds by (simp add: k_def)
  have n: "0 < n" using False by (simp add: n_def)
  have pc: "page_count n perPage = (n + k - 1) div k" using n by (simp add: page_count_def k_def)
  have st: "(int i - 1) * k < n"
  proof -
    have "(int i - 1) * k \<le> (page_count n perPage - 1) * k"
      using assms(2) k by (intro mult_right_mono) (auto simp: n_def)
    then show ?thesis using page_count_covers(2) [OF n, of perPage] by (simp add: k_def)
  qed
  have w: "page_window n (clamp_page (int i)) k =
    (int i, (n + k - 1) div k, (int i - 1) * k, min n ((int i - 1) * k + k))"
    using assms st n pc by (auto simp: page_window_def clamp_page_def Let_def n_def)
  have s: "nat ((int i - 1) * k) = (i - 1) * nat k"
    using k assms(1) by (simp add: nat_mult_distrib of_nat_diff)
  have e: "nat (min n ((int i - 1) * k + k) - (int i - 1) * k) = min (length xs - (i - 1) * nat k) (nat k)"
  proof -
    have a: "(int i - 1) * k = int ((i - 1) * nat k)" using k assms(1) by (simp add: of_nat_diff)
    have "k = int (nat k)" using k by simp
    then show ?thesis unfolding n_def a by (metis nat_window)
  qed
  have "page_entries (int i) perPage xs = slice ((int i - 1) * k) (min n ((int i - 1) * k + k)) xs"
    unfolding page_entries_def n_def [symmetric] k_def [symmetric] w by simp
  also have "\<dots> = take (min (length (drop ((i - 1) * nat k) xs)) (nat k)) (drop ((i - 1) * nat k) xs)"
    unfolding slice_def e s by simp
  also have "\<dots> = take (nat k) (drop ((i - 1) * nat k) xs)" by (simp add: min_def)
  finally show ?thesis unfolding k_def .
qed

text \<open>
  The pages of a listing partition it: whatever page size is asked for (values below 1 become 250,
  values above 500 become 500), reading the pages from 1 to the reported number of pages, in order,
  yields every entry exactly once.
\<close>

theorem pages_partition:
  "concat (map (\<lambda>i. page_entries (int i) perPage xs)
     [1..<Suc (nat (page_count (int (length xs)) perPage))]) = xs"
proof -
  define m where "m = nat (page_count (int (length xs)) perPage)"
  define k where "k = nat (clamp_per_page perPage)"
  have "map (\<lambda>i. page_entries (int i) perPage xs) [1..<Suc m]
      = map (\<lambda>i. page_entries (int (Suc i)) perPage xs) [0..<m]"
    unfolding One_nat_def map_Suc_upt [symmetric] by simp
  also have "\<dots> = map (\<lambda>i. take k (drop (i * k) xs)) [0..<m]"
  proof (rule map_cong [OF refl])
    fix i assume "i \<in> set [0..<m]"
    then have "int (Suc i) \<le> page_count (int (length xs)) perPage" by (simp add: m_def nat_less_iff)
    from page_entries_take [OF _ this]
    show "page_entries (int (Suc i)) perPage xs = take k (drop (i * k) xs)" by (simp add: k_def)
  qed
  finally have "concat (map (\<lambda>i. page_entries (int i) perPage xs) [1..<Suc m]) = take (m * k) xs"
    by (simp only: concat_pages)
  moreover have "int (length xs) \<le> int m * int k"
    using page_count_covers(1,3) [of "int (length xs)" perPage] clamp_per_page_bounds [of perPage]
    by (simp add: m_def k_def)
  then have "length xs \<le> m * k" by (metis of_nat_le_iff of_nat_mult)
  ultimately show ?thesis by (simp add: m_def)
qed

end
