(* ===== verification/RecycleBin.thy ===== *)
theory RecycleBin
  imports Files
begin

text \<open>
  The recycle bin of \<open>internal/files/manager.go\<close>: when the search for a free name ends, what a move
  does to the files, and that restoring undoes it.
\<close>

section \<open>The search for a free name\<close>

lemma not_prefix_longer:
  assumes "prefix q r" "xs \<noteq> []"
  shows "\<not> prefix (r @ xs) q"
proof
  assume "prefix (r @ xs) q"
  with assms(1) have "length (r @ xs) \<le> length r" using prefix_length_le le_trans by blast
  with assms(2) show False by simp
qed

lemma dir_status_open_aux:
  assumes "\<And>ds. prefix ds cs \<Longrightarrow> fs_get f (cur @ ds) = None \<or> fs_get f (cur @ ds) = Some DirNode"
  shows "dir_status f cur cs = None \<or> dir_status f cur cs = Some SysNotExist"
  using assms
proof (induction cs arbitrary: cur)
  case (Cons c cs)
  have "dir_status f (cur @ [c]) cs = None \<or> dir_status f (cur @ [c]) cs = Some SysNotExist"
    by (rule Cons.IH) (use Cons.prems [of "c # _"] in auto)
  then show ?case using Cons.prems [of "[c]"] by auto
qed simp

lemma dir_status_cases: "dir_status f cur cs \<in> {None, Some SysNotExist, Some SysNotDir}"
  by (induction f cur cs rule: dir_status.induct) (auto split: option.split node.split)

lemma recycle_name_inject:
  assumes "1 \<le> i" "1 \<le> j" "recycle_name c stamp i = recycle_name c stamp j"
  shows "i = j"
  using assms by (auto simp: recycle_name_def split: if_splits)

lemma fs_get_finite: "finite {q. fs_get f q \<noteq> None}"
proof -
  have "{q. fs_get f q \<noteq> None} \<subseteq> insert [] (fst ` set f)"
    by (force simp: fs_get_def split: if_splits dest: map_of_SomeD)
  then show ?thesis by (rule finite_subset) simp
qed

lemma recycle_name_free: "\<exists>j \<ge> 1. fs_get f (cs @ [recycle_name c stamp j]) = None"
proof (rule ccontr)
  assume "\<not> ?thesis"
  then have "(\<lambda>j. cs @ [recycle_name c stamp j]) ` {1..} \<subseteq> {q. fs_get f q \<noteq> None}" by auto
  then have "finite ((\<lambda>j. cs @ [recycle_name c stamp j]) ` {1..})"
    using fs_get_finite finite_subset by blast
  moreover have "inj_on (\<lambda>j. cs @ [recycle_name c stamp j]) {1..}"
    using recycle_name_inject by (auto simp: inj_on_def)
  ultimately have "finite {1 :: nat ..}" by (rule finite_imageD)
  then show False by (simp add: infinite_Ici)
qed

lemma unique_loop_ends:
  assumes "\<And>k v. files v = f \<Longrightarrow> calm v \<Longrightarrow> os_stat (cand k) v = (res k, v\<lparr>ticks := Suc (ticks v)\<rparr>)"
    "files w = f" "calm w" "not_exist (res j)" "i \<le> j"
  shows "\<exists>fuel x t. unique_loop fuel cand i w = (Inr (cand x), w\<lparr>ticks := t\<rparr>) \<and> i \<le> x \<and> not_exist (res x)"
  using assms(2,3,5)
proof (induction "j - i" arbitrary: i w)
  case 0
  then have "i = j" by simp
  with assms(4) assms(1) [OF 0(2,3), of i]
  have "unique_loop (Suc 0) cand i w = (Inr (cand i), w\<lparr>ticks := Suc (ticks w)\<rparr>)"
    by (simp add: os_attempt_def os_return_def)
  then show ?case using \<open>i = j\<close> assms(4) by blast
next
  case (Suc n)
  let ?w = "w\<lparr>ticks := Suc (ticks w)\<rparr>"
  note st = assms(1) [OF Suc.prems(1,2), of i]
  show ?case
  proof (cases "not_exist (res i)")
    case True
    then have "unique_loop (Suc 0) cand i w = (Inr (cand i), ?w)"
      using st by (simp add: os_attempt_def os_return_def)
    then show ?thesis using True by blast
  next
    case False
    have "\<exists>fuel x t. unique_loop fuel cand (Suc i) ?w = (Inr (cand x), ?w\<lparr>ticks := t\<rparr>)
        \<and> Suc i \<le> x \<and> not_exist (res x)"
      using Suc.hyps(2) Suc.prems by (intro Suc.hyps(1)) (auto simp: calm_def)
    then obtain fuel x t where x: "unique_loop fuel cand (Suc i) ?w = (Inr (cand x), ?w\<lparr>ticks := t\<rparr>)"
      "Suc i \<le> x" "not_exist (res x)" by blast
    have "unique_loop (Suc fuel) cand i w = (Inr (cand x), w\<lparr>ticks := t\<rparr>)"
      using st False x(1) by (simp add: os_attempt_def)
    then show ?thesis using x(2,3) Suc_leD by blast
  qed
qed

lemma unique_loop_diverges:
  assumes "\<And>k v. files v = f \<Longrightarrow> calm v \<Longrightarrow> os_stat (cand k) v = (res k, v\<lparr>ticks := Suc (ticks v)\<rparr>)"
    "\<And>k. \<not> not_exist (res k)"
  shows "files w = f \<Longrightarrow> calm w \<Longrightarrow> fst (unique_loop fuel cand i w) = Inl OutOfFuel"
proof (induction fuel arbitrary: i w)
  case (Suc fuel)
  then show ?case
    using assms(1) [OF Suc.prems, of i] assms(2) [of i] by (simp add: os_attempt_def calm_def)
qed (simp add: os_throw_def)

text \<open>The stat calls of one search, for a path in a solid directory.\<close>

definition entry_info :: "fsys \<Rightarrow> fpath \<Rightarrow> string \<Rightarrow> go_error + node" where
  "entry_info f cs c =
     (case dir_status f [] cs of
        Some e \<Rightarrow> Inl e
      | None \<Rightarrow> (case fs_get f (cs @ [c]) of None \<Rightarrow> Inl SysNotExist | Some n \<Rightarrow> Inr n))"

definition unique_pre :: "fpath \<Rightarrow> fsys \<Rightarrow> fpath \<Rightarrow> string \<Rightarrow> string \<Rightarrow> bool" where
  "unique_pre root f cs c stamp \<longleftrightarrow> solid f root \<and> plains (cs @ [c]) \<and> prefix root cs
     \<and> CHR 0x00 \<notin> set (rooted (cs @ [c])) \<and> slash \<notin> set stamp \<and> CHR 0x00 \<notin> set stamp"

lemma nul_recycle_name:
  assumes "CHR 0x00 \<notin> set c" "CHR 0x00 \<notin> set stamp"
  shows "CHR 0x00 \<notin> set (recycle_name c stamp j)"
proof -
  have "set (TrimSuffix c (path_ext c)) \<subseteq> set c" by (auto simp: TrimSuffix_def dest: in_set_takeD)
  moreover have "CHR 0x00 \<notin> set (Itoa i)" for i by (rule notin_Itoa) (auto intro: digit_char_neq)
  ultimately show ?thesis using assms set_path_ext [of c] by (auto simp: recycle_name_def)
qed

lemma unique_stats:
  assumes "unique_pre root f cs c stamp" "files v = f" "calm v"
  shows "os_stat (rooted (cs @ [c])) v = (entry_info f cs c, v\<lparr>ticks := Suc (ticks v)\<rparr>)"
    "os_stat (recycle_candidate (rooted (cs @ [c])) stamp k) v
      = (entry_info f cs (recycle_name c stamp k), v\<lparr>ticks := Suc (ticks v)\<rparr>)"
proof -
  from assms(1) have p: "solid (files v) root" "plains (cs @ [c])" "prefix root cs"
    "CHR 0x00 \<notin> set (rooted (cs @ [c]))" "slash \<notin> set stamp" "CHR 0x00 \<notin> set stamp"
    using assms(2) by (auto simp: unique_pre_def)
  have n: "CHR 0x00 \<notin> set (rooted (cs @ [recycle_name c stamp k]))"
    using p(4,6) nul_recycle_name by (auto simp: nul_rooted)
  show "os_stat (rooted (cs @ [c])) v = (entry_info f cs c, v\<lparr>ticks := Suc (ticks v)\<rparr>)"
    using os_stat_entry [OF assms(3) p(1,2,3,4)] unfolding entry_info_def assms(2) .
  have "plains (cs @ [recycle_name c stamp k])" using p plain_recycle_name by simp
  from os_stat_entry [OF assms(3) p(1) this p(3) n]
  show "os_stat (recycle_candidate (rooted (cs @ [c])) stamp k) v
      = (entry_info f cs (recycle_name c stamp k), v\<lparr>ticks := Suc (ticks v)\<rparr>)"
    using p recycle_candidate_rooted [of cs c stamp k] by (simp add: entry_info_def flip: assms(2))
qed

lemma uniqueRecyclePath_ends:
  assumes "unique_pre root (files w) cs c stamp" "calm w" "dir_status (files w) [] cs \<noteq> Some SysNotDir"
  obtains fuel d t where
    "uniqueRecyclePath fuel stamp (rooted (cs @ [c])) w = (Inr (rooted (cs @ [d])), w\<lparr>ticks := t\<rparr>)"
    "plain d" "not_exist (entry_info (files w) cs d)"
proof (cases "not_exist (entry_info (files w) cs c)")
  case True
  have "plain c" using assms(1) by (simp add: unique_pre_def)
  moreover have "uniqueRecyclePath 0 stamp (rooted (cs @ [c])) w
      = (Inr (rooted (cs @ [c])), w\<lparr>ticks := Suc (ticks w)\<rparr>)"
    using True unique_stats(1) [OF assms(1) refl assms(2)]
    by (simp add: uniqueRecyclePath_def os_attempt_def os_return_def)
  ultimately show ?thesis using True that by blast
next
  case False
  let ?f = "files w" and ?w = "w\<lparr>ticks := Suc (ticks w)\<rparr>"
  obtain j where j: "1 \<le> j" "fs_get ?f (cs @ [recycle_name c stamp j]) = None"
    using recycle_name_free by blast
  have "dir_status ?f [] cs = None \<or> dir_status ?f [] cs = Some SysNotExist"
    using dir_status_cases [of ?f "[]" cs] assms(3) by auto
  then have "not_exist (entry_info ?f cs (recycle_name c stamp j))"
    using j(2) by (auto simp: entry_info_def)
  from unique_loop_ends [of ?f "recycle_candidate (rooted (cs @ [c])) stamp"
      "\<lambda>k. entry_info ?f cs (recycle_name c stamp k)" ?w, OF unique_stats(2) [OF assms(1)] _ _ this j(1)]
  obtain fuel x t where x: "unique_loop fuel (recycle_candidate (rooted (cs @ [c])) stamp) 1 ?w
      = (Inr (recycle_candidate (rooted (cs @ [c])) stamp x), ?w\<lparr>ticks := t\<rparr>)"
    "not_exist (entry_info ?f cs (recycle_name c stamp x))"
    using assms(2) by (auto simp: calm_def)
  have "uniqueRecyclePath fuel stamp (rooted (cs @ [c])) w
      = (Inr (rooted (cs @ [recycle_name c stamp x])), w\<lparr>ticks := t\<rparr>)"
    using False x(1) unique_stats(1) [OF assms(1) refl assms(2)] recycle_candidate_rooted assms(1)
    by (simp add: uniqueRecyclePath_def os_attempt_def unique_pre_def)
  moreover have "plain (recycle_name c stamp x)"
    using assms(1) plain_recycle_name by (simp add: unique_pre_def)
  ultimately show ?thesis using x(2) that by blast
qed


section \<open>Moving in and out\<close>

lemma dir_status_open: "open_path f cs \<Longrightarrow> dir_status f [] cs = None \<or> dir_status f [] cs = Some SysNotExist"
  using dir_status_open_aux [where f = f and cur = "[]" and cs = cs] by (simp add: open_path_def)

lemma plain_bin [simp]: "plain recycleBinName"
  by (auto simp: recycleBinName_def plain_def)

lemma in_recycle_bin_iff:
  assumes "plains (c # cs)"
  shows "in_recycle_bin (JoinWith slash (c # cs)) \<longleftrightarrow> c = recycleBinName"
proof
  assume b: "in_recycle_bin (JoinWith slash (c # cs))"
  show "c = recycleBinName"
  proof (cases "JoinWith slash (c # cs) = recycleBinName")
    case True
    have "Split slash recycleBinName = [recycleBinName]" by (rule Split_nosep) (simp add: recycleBinName_def)
    then show ?thesis using Split_plains [OF assms] True by simp
  next
    case False
    then show ?thesis using TrimPrefix_bin [OF assms b] by auto
  qed
next
  assume "c = recycleBinName"
  then show "in_recycle_bin (JoinWith slash (c # cs))"
    by (cases cs) (auto simp: in_recycle_bin_def HasPrefix_def)
qed

lemma safeRelativePath_plains:
  assumes "plains cs" "cs \<noteq> []"
  shows "safeRelativePath (JoinWith slash cs) = Inr (JoinWith slash cs)"
proof -
  obtain c cs' where c: "cs = c # cs'" using assms(2) by (cases cs) auto
  have na: "\<not> is_abs (JoinWith slash cs)"
    using assms(1) unfolding c by (cases cs'; cases c) (auto simp: plain_def is_abs_def HasPrefix_def)
  then have cl: "path_clean (JoinWith slash cs) = JoinWith slash cs"
    using assms by (simp add: path_clean_def Split_plains clean_comps_plains)
  have tp: "TrimPrefix (JoinWith slash cs) ''/'' = JoinWith slash cs"
    using na by (simp add: TrimPrefix_def is_abs_def HasPrefix_def)
  have split: "Split slash (JoinWith slash cs) = cs" using assms Split_plains by simp
  have "JoinWith slash cs \<noteq> []"
  proof
    assume "JoinWith slash cs = []"
    then show False using split assms(1) by (auto dest: plain_props)
  qed
  moreover have "JoinWith slash cs \<noteq> d" if "\<not> plain d" "slash \<notin> set d" for d
  proof
    assume "JoinWith slash cs = d"
    then have "[d] = cs" using split Split_nosep [OF that(2)] by simp
    with that(1) assms(1) show False by auto
  qed
  then have "JoinWith slash cs \<noteq> ''.''" "JoinWith slash cs \<noteq> ''..''" by (auto simp: plain_def)
  moreover have "\<not> HasPrefix (JoinWith slash cs) ''../''"
    using rel_escapes_JoinWith [OF assms(1), of "[]"] by (simp add: rel_escapes_def)
  moreover have "\<not> Contains (JoinWith slash cs) ''/../''"
  proof
    assume "Contains (JoinWith slash cs) ''/../''"
    then obtain a b where "JoinWith slash cs = a @ ''/../'' @ b" by (auto simp: Contains_iff)
    then have "JoinWith slash cs = a @ slash # ''..'' @ slash # b" by simp
    then have "cs = Split slash a @ Split slash ''..'' @ Split slash b"
      using split by (simp only: Split_append)
    then have "''..'' \<in> set cs" by (simp add: Split_nosep)
    with assms(1) show False by (auto dest: plains_notmem)
  qed
  ultimately show ?thesis using cl tp by (simp add: safeRelativePath_def Let_def)
qed

text \<open>
  One move of the recycle bin: \<open>src\<close> goes to a free target whose parents are made first.
\<close>

definition moved :: "fpath \<Rightarrow> fpath \<Rightarrow> fsys \<Rightarrow> fsys \<Rightarrow> bool" where
  "moved a b f g \<longleftrightarrow> (\<forall>q. fs_get g q =
     (if prefix b q then fs_get f (a @ drop (length b) q)
      else if prefix a q then None
      else if strict_prefix q b then Some DirNode else fs_get f q))"

lemma recycle_step:
  assumes "calm w" "on_dirs (files w) a" "fs_get (files w) a \<noteq> None" "open_path (files w) bs"
    "plain b" "CHR 0x00 \<notin> set b" "fs_get (files w) (bs @ [b]) = None"
    "\<not> prefix a (bs @ [b])" "\<not> prefix (bs @ [b]) a"
  obtains w' where "os_seq (os_mkdir_all (rooted bs)) (os_rename (rooted a) (rooted (bs @ [b]))) w = (Inr (), w')"
    "calm w'" "moved a (bs @ [b]) (files w) (files w')" "wd w' = wd w"
proof -
  let ?b = "bs @ [b]"
  obtain g where m: "os_mkdir_all (rooted bs) w = (Inr (), w\<lparr>files := g, ticks := Suc (ticks w)\<rparr>)"
    "with_dirs bs (files w) g" by (rule os_mkdir_all_creates [OF assms(1,4)])
  let ?w = "w\<lparr>files := g, ticks := Suc (ticks w)\<rparr>"
  have nb: "\<not> prefix a bs" using assms(8) by auto
  have ga: "fs_get g a \<noteq> None" using m(2) nb assms(3) by (simp add: with_dirs_def)
  have gb: "fs_get g ?b = None"
    using m(2) assms(7) prefix_length_le [of ?b bs] by (auto simp: with_dirs_def)
  have oa: "on_dirs g a" using assms(2) m(2) by (simp add: on_dirs_def with_dirs_def)
  have ob: "on_dirs g ?b"
    using assms(4,5,6) m(2) by (auto simp: on_dirs_def with_dirs_def open_path_def nul_rooted strict_prefix_def)
  have calm: "calm ?w" using assms(1) by simp
  have r: "os_rename (rooted a) (rooted ?b) ?w
      = (Inr (), ?w\<lparr>files := fs_move a ?b g, ticks := Suc (ticks ?w)\<rparr>)"
    using os_rename_moves [OF calm, of a ?b] oa ob ga gb assms(8) by simp
  have "a \<noteq> []" using assms(8) by auto
  then have "moved a ?b (files w) (fs_move a ?b g)"
    using fs_get_move [of a ?b g] assms(8,9) m(2) nb
    by (auto simp: moved_def with_dirs_def strict_prefix_def dest: append_prefixD)
  with m(1) r assms(1) show ?thesis
    by (intro that [of "?w\<lparr>files := fs_move a ?b g, ticks := Suc (ticks ?w)\<rparr>"]) (auto simp: os_bind_def)
qed

lemma on_dirs_open: "on_dirs f (cs @ [c]) \<Longrightarrow> open_path f cs"
  by (auto simp: on_dirs_def open_path_def nul_rooted strict_prefix_def)

lemma unique_at_once:
  assumes "calm w" "os_stat p w = (r, w1)" "not_exist r"
  shows "uniqueRecyclePath fuel stamp p w = (Inr p, w1)"
  using assms by (simp add: uniqueRecyclePath_def os_attempt_def os_return_def)

text \<open>What deleting a file through the API does when its place in the bin is free.\<close>

lemma MoveToRecycleBin_moves:
  fixes w :: world
  assumes "calm w" "solid (files w) root" "plains root" "on_dirs (files w) (root @ ds @ [c])"
    "hd (ds @ [c]) \<noteq> recycleBinName" "fs_get (files w) (root @ ds @ [c]) \<noteq> None"
    "open_path (files w) (root @ recycleBinName # ds)"
    "fs_get (files w) (root @ recycleBinName # ds @ [c]) = None"
  obtains w' where
    "MoveToRecycleBin fuel stamp (rooted root) (JoinWith slash (ds @ [c])) w = (Inr (), w')"
    "calm w'" "moved (root @ ds @ [c]) (root @ recycleBinName # ds @ [c]) (files w) (files w')" "wd w' = wd w"
proof -
  let ?cs = "ds @ [c]" and ?bin = "root @ recycleBinName # ds"
  have pl: "plains ?cs" "plain c" using assms(4) by (auto simp: on_dirs_def)
  have nul: "CHR 0x00 \<notin> set c" using assms(4) by (auto simp: on_dirs_def nul_rooted)
  have nul_bin: "CHR 0x00 \<notin> set (rooted (?bin @ [c]))"
    using assms(7) nul by (auto simp: open_path_def nul_rooted)
  obtain x xs where x: "?cs = x # xs" by (cases ?cs) auto
  have notbin: "\<not> in_recycle_bin (JoinWith slash ?cs)"
    using in_recycle_bin_iff [of x xs] pl x assms(5) by simp
  have join: "path_join [recycleBinName, JoinWith slash ?cs] = JoinWith slash (recycleBinName # ?cs)"
    by (rule path_join_bin) (use pl in auto)
  have src: "SafePath d (rooted root) (JoinWith slash ?cs) = Inr (rooted (root @ ?cs))" for d
    by (rule SafePath_below) (use assms(3) pl in auto)
  have tgt: "SafePath d (rooted root) (JoinWith slash (recycleBinName # ?cs))
      = Inr (rooted (?bin @ [c]))" for d
    using SafePath_below [OF assms(3), of "recycleBinName # ?cs"] pl by simp
  have nolink: "\<forall>t. fs_get (files w) (root @ ?cs) \<noteq> Some (LinkNode t)"
    using assms(2) by (simp add: solid_def)
  obtain n where n: "fs_get (files w) (root @ ?cs) = Some n" using assms(6) by auto
  let ?w1 = "w\<lparr>ticks := Suc (ticks w)\<rparr>"
  let ?w2 = "w\<lparr>ticks := Suc (Suc (ticks w))\<rparr>"
  have st1: "os_stat (rooted (root @ ?cs)) w = (Inr n, ?w1)"
    using os_stat_on_dirs [OF assms(1,4) nolink] n by simp
  have plb: "plains (?bin @ [c])" using assms(3) pl by simp
  have st2: "\<exists>r. os_stat (rooted (?bin @ [c])) ?w1 = (r, ?w2) \<and> not_exist r"
    using os_stat_entry [of ?w1 root ?bin c] assms(1,2,7,8) plb nul_bin
      dir_status_open [of "files w" ?bin]
    by (auto simp: calm_def)
  have un: "uniqueRecyclePath fuel stamp (rooted (?bin @ [c])) ?w1 = (Inr (rooted (?bin @ [c])), ?w2)"
    using unique_at_once [of ?w1] st2 assms(1) by (auto simp: calm_def)
  have calm2: "calm ?w2" using assms(1) by (simp add: calm_def)
  have sep: "\<not> prefix (root @ ?cs) (?bin @ [c])" "\<not> prefix (?bin @ [c]) (root @ ?cs)"
    using assms(5) x by auto
  obtain w' where w': "os_seq (os_mkdir_all (rooted ?bin)) (os_rename (rooted (root @ ?cs)) (rooted (?bin @ [c]))) ?w2
      = (Inr (), w')" "calm w'" "moved (root @ ?cs) (?bin @ [c]) (files ?w2) (files w')" "wd w' = wd ?w2"
    by (rule recycle_step [OF calm2, of "root @ ?cs" ?bin c]) (use assms nul pl sep in auto)
  have dir: "path_dir (rooted (?bin @ [c])) = rooted ?bin" using assms(3) pl by (intro path_dir_rooted) auto
  have "MoveToRecycleBin fuel stamp (rooted root) (JoinWith slash ?cs) w = (Inr (), w')"
    using safeRelativePath_plains [OF pl(1)] notbin join src tgt st1 un w'(1) dir
    by (simp add: MoveToRecycleBin_def os_lift_def os_bind_def)
  with w' show ?thesis by (intro that [of w']) auto
qed

lemma RestoreFromRecycleBin_moves:
  fixes w :: world
  assumes "calm w" "solid (files w) root" "plains root" "on_dirs (files w) (root @ recycleBinName # ds @ [c])"
    "hd (ds @ [c]) \<noteq> recycleBinName" "fs_get (files w) (root @ recycleBinName # ds @ [c]) \<noteq> None"
    "open_path (files w) (root @ ds)" "fs_get (files w) (root @ ds @ [c]) = None"
  obtains w' where
    "RestoreFromRecycleBin fuel stamp (rooted root) (JoinWith slash (recycleBinName # ds @ [c])) w = (Inr (), w')"
    "calm w'" "moved (root @ recycleBinName # ds @ [c]) (root @ ds @ [c]) (files w) (files w')" "wd w' = wd w"
proof -
  let ?cs = "ds @ [c]" and ?src = "root @ recycleBinName # ds @ [c]"
  have pl: "plains ?cs" "plain c" "plains (recycleBinName # ?cs)" using assms(4) by (auto simp: on_dirs_def)
  have nul: "CHR 0x00 \<notin> set c" using assms(4) by (auto simp: on_dirs_def nul_rooted)
  have nul_t: "CHR 0x00 \<notin> set (rooted ((root @ ds) @ [c]))"
    using assms(7) nul by (auto simp: open_path_def nul_rooted)
  have inbin: "in_recycle_bin (JoinWith slash (recycleBinName # ?cs))"
    using in_recycle_bin_iff [OF pl(3)] by simp
  have ne: "JoinWith slash (recycleBinName # ?cs) \<noteq> recycleBinName"
    by (simp add: JoinWith_Cons)
  have tp: "TrimPrefix (JoinWith slash (recycleBinName # ?cs)) (recycleBinName @ ''/'') = JoinWith slash ?cs"
    using TrimPrefix_bin [OF pl(3) inbin ne] by (metis list.inject)
  have src: "SafePath d (rooted root) (JoinWith slash (recycleBinName # ?cs)) = Inr (rooted ?src)" for d
    using SafePath_below [OF assms(3) pl(3)] by simp
  have tgt: "SafePath d (rooted root) (JoinWith slash ?cs) = Inr (rooted ((root @ ds) @ [c]))" for d
    using SafePath_below [OF assms(3) pl(1)] by simp
  let ?w1 = "w\<lparr>ticks := Suc (ticks w)\<rparr>"
  have plt: "plains ((root @ ds) @ [c])" using assms(3) pl by simp
  have st: "\<exists>r. os_stat (rooted ((root @ ds) @ [c])) w = (r, ?w1) \<and> not_exist r"
    using os_stat_entry [of w root "root @ ds" c] assms(1,2,7,8) plt nul_t
      dir_status_open [of "files w" "root @ ds"]
    by auto
  have un: "uniqueRecyclePath fuel stamp (rooted ((root @ ds) @ [c])) w = (Inr (rooted ((root @ ds) @ [c])), ?w1)"
    using unique_at_once [of w] st assms(1) by auto
  have calm1: "calm ?w1" using assms(1) by (simp add: calm_def)
  obtain y ys where x: "?cs = y # ys" by (cases ?cs) auto
  have sep: "\<not> prefix ?src ((root @ ds) @ [c])" "\<not> prefix ((root @ ds) @ [c]) ?src"
    using assms(5) x by auto
  obtain w' where w': "os_seq (os_mkdir_all (rooted (root @ ds)))
        (os_rename (rooted ?src) (rooted ((root @ ds) @ [c]))) ?w1 = (Inr (), w')"
    "calm w'" "moved ?src ((root @ ds) @ [c]) (files ?w1) (files w')" "wd w' = wd ?w1"
    by (rule recycle_step [OF calm1, of ?src "root @ ds" c]) (use assms nul pl sep in auto)
  have dir: "path_dir (rooted ((root @ ds) @ [c])) = rooted (root @ ds)"
    using assms(3) pl by (intro path_dir_rooted) auto
  have "RestoreFromRecycleBin fuel stamp (rooted root) (JoinWith slash (recycleBinName # ?cs)) w = (Inr (), w')"
    using safeRelativePath_plains [OF pl(3)] inbin ne tp src tgt un w'(1) dir
    by (simp add: RestoreFromRecycleBin_def os_lift_def os_bind_def)
  with w' show ?thesis by (intro that [of w']) auto
qed

text \<open>What the files are like after one move, and after moving back.\<close>

lemma moved_get:
  "moved a b f g \<Longrightarrow> \<not> prefix b q \<Longrightarrow> \<not> prefix a q \<Longrightarrow>
    fs_get g q = (if strict_prefix q b then Some DirNode else fs_get f q)"
  by (auto simp: moved_def)

lemma moved_solid:
  assumes "moved (root @ x) (root @ y) f g" "x \<noteq> []" "y \<noteq> []" "solid f root"
  shows "solid g root"
  unfolding solid_def
proof (intro conjI allI impI)
  fix q assume q: "prefix q root"
  then show "fs_get g q = Some DirNode"
    using moved_get [OF assms(1), of q] assms(4) not_prefix_longer [OF q assms(2)] not_prefix_longer [OF q assms(3)]
    by (simp add: solid_def)
next
  fix q t assume "prefix root q"
  then show "fs_get g q \<noteq> Some (LinkNode t)" using assms(1,4) by (auto simp: moved_def solid_def)
qed

lemma moved_on_dirs:
  assumes "moved a b f g" "\<not> prefix a b" "plains b" "CHR 0x00 \<notin> set (rooted b)"
  shows "on_dirs g b"
proof -
  have "fs_get g q = Some DirNode" if "strict_prefix q b" for q
  proof -
    have "\<not> prefix b q" "\<not> prefix a q"
      using that assms(2) prefix_order.antisym prefix_order.trans unfolding strict_prefix_def by blast+
    then show ?thesis using moved_get [OF assms(1)] that by simp
  qed
  then show ?thesis using assms(3,4) by (simp add: on_dirs_def)
qed

lemma moved_open:
  assumes "moved (p @ [c]) b f g" "\<not> prefix b (p @ [c])" "open_path f p"
  shows "open_path g p"
proof -
  have "fs_get g q = None \<or> fs_get g q = Some DirNode" if q: "prefix q p" for q
  proof -
    have "\<not> prefix b q" using assms(2) q prefix_order.trans prefixI by blast
    moreover have "\<not> prefix (p @ [c]) q" using not_prefix_longer [OF q] by simp
    ultimately show ?thesis using moved_get [OF assms(1), of q] assms(3) q by (simp add: open_path_def)
  qed
  then show ?thesis using assms(3) by (simp add: open_path_def)
qed

lemma moved_back:
  assumes "moved a b f g" "moved b a g h" "on_dirs f a" "solid f root" "b = root @ bin # y" "\<not> prefix (root @ [bin]) q"
  shows "fs_get h q = fs_get f q"
proof (cases "prefix a q")
  case True
  then show ?thesis using assms(1,2) by (auto simp: moved_def prefix_def)
next
  case False
  have b: "\<not> prefix b q" using assms(5,6) by (metis append_Cons append_Nil append_assoc append_prefixD)
  have "fs_get f q = Some DirNode" if "strict_prefix q b"
  proof -
    have "prefix q (root @ bin # y)" using that assms(5) by (auto simp: strict_prefix_def)
    then have "prefix q root" using assms(6) by (auto simp: prefix_append prefix_Cons)
    then show ?thesis using assms(4) by (simp add: solid_def)
  qed
  moreover have "fs_get f q = Some DirNode" if "strict_prefix q a" using that assms(3) by (simp add: on_dirs_def)
  ultimately show ?thesis
    using moved_get [OF assms(1) b False] moved_get [OF assms(2) False b] by auto
qed

text \<open>
  C7. Deleting a file or directory of a cell through the recycle bin and restoring it from there
  succeeds and gives back every file of the host outside the bin, contents included, whenever its place
  in the bin is free. \<open>root\<close> is the directory of the cell, \<open>ds\<close> and \<open>c\<close> the path of the entry in it.
\<close>

theorem recycle_roundtrip:
  fixes w :: world
  assumes "calm w" "solid (files w) root" "plains root" "on_dirs (files w) (root @ ds @ [c])"
    "hd (ds @ [c]) \<noteq> recycleBinName" "fs_get (files w) (root @ ds @ [c]) \<noteq> None"
    "open_path (files w) (root @ recycleBinName # ds)"
    "fs_get (files w) (root @ recycleBinName # ds @ [c]) = None"
  shows "\<exists>w1 w2. MoveToRecycleBin fuel stamp (rooted root) (JoinWith slash (ds @ [c])) w = (Inr (), w1)
    \<and> fs_get (files w1) (root @ ds @ [c]) = None
    \<and> RestoreFromRecycleBin fuel stamp' (rooted root) (JoinWith slash (recycleBinName # ds @ [c])) w1 = (Inr (), w2)
    \<and> agree_outside (root @ [recycleBinName]) (files w) (files w2)"
proof -
  let ?a = "root @ ds @ [c]" and ?b = "root @ recycleBinName # ds @ [c]"
  obtain w1 where w1: "MoveToRecycleBin fuel stamp (rooted root) (JoinWith slash (ds @ [c])) w = (Inr (), w1)"
    "calm w1" "moved ?a ?b (files w) (files w1)" "wd w1 = wd w"
    by (rule MoveToRecycleBin_moves [OF assms])
  obtain y ys where y: "ds @ [c] = y # ys" by (cases "ds @ [c]") auto
  have sep: "\<not> prefix ?a ?b" "\<not> prefix ?b ?a" using assms(5) y by auto
  have pl: "plains ?b" using assms(3,4) by (auto simp: on_dirs_def)
  have a1: "fs_get (files w1) ?a = None" using w1(3) sep by (simp add: moved_def)
  have b1: "fs_get (files w1) ?b \<noteq> None" using w1(3) assms(6) by (simp add: moved_def)
  have solid1: "solid (files w1) root"
    by (rule moved_solid [of root "ds @ [c]" "recycleBinName # ds @ [c]"]) (use w1(3) assms(2) in auto)
  have on1: "on_dirs (files w1) ?b"
    by (rule moved_on_dirs [OF w1(3) sep(1) pl]) (use assms(4,7) in \<open>auto simp: on_dirs_def open_path_def nul_rooted\<close>)
  have open1: "open_path (files w1) (root @ ds)"
    by (rule moved_open [of "root @ ds" c ?b "files w"]) (use w1(3) sep(2) assms(4) on_dirs_open [of _ "root @ ds" c] in auto)
  obtain w2 where w2: "RestoreFromRecycleBin fuel stamp' (rooted root)
        (JoinWith slash (recycleBinName # ds @ [c])) w1 = (Inr (), w2)"
    "moved ?b ?a (files w1) (files w2)"
    by (rule RestoreFromRecycleBin_moves [OF w1(2) solid1 assms(3) on1 assms(5) b1 open1 a1])
  have "agree_outside (root @ [recycleBinName]) (files w) (files w2)"
    using moved_back [OF w1(3) w2(2) assms(4,2) refl] by (simp add: agree_outside_def)
  with w1(1) a1 w2(1) show ?thesis by blast
qed

section \<open>Witnesses\<close>

definition bin_files :: fsys where
  "bin_files = [([''c''], DirNode), ([''c'', ''f.txt''], FileNode ''x''), ([''d''], FileNode ''y'')]"

lemma bin_files_solid: "solid bin_files [''c'']"
  by (rule solid_check) (simp_all add: bin_files_def fs_get_def is_link_def)

theorem recycle_roundtrip_witness:
  "\<exists>w1 w2. MoveToRecycleBin 0 ''2026'' (rooted [''c'']) (JoinWith slash ([] @ [''f.txt''])) (calm_world bin_files) = (Inr (), w1)
    \<and> fs_get (files w1) ([''c''] @ [] @ [''f.txt'']) = None
    \<and> RestoreFromRecycleBin 0 ''2026'' (rooted [''c'']) (JoinWith slash (recycleBinName # [] @ [''f.txt''])) w1 = (Inr (), w2)
    \<and> agree_outside ([''c''] @ [recycleBinName]) (files (calm_world bin_files)) (files w2)"
proof (rule recycle_roundtrip)
  show "on_dirs (files (calm_world bin_files)) ([''c''] @ [] @ [''f.txt''])"
    by (rule on_dirs_check) (simp_all add: bin_files_def fs_get_def plain_def rooted_def)
  show "open_path (files (calm_world bin_files)) ([''c''] @ recycleBinName # [])"
    by (rule open_path_check) (simp_all add: bin_files_def fs_get_def plain_def rooted_def recycleBinName_def)
  show "solid (files (calm_world bin_files)) [''c'']" by (simp add: bin_files_solid)
qed (simp_all add: plain_def bin_files_def fs_get_def recycleBinName_def)

text \<open>A second deletion of \<open>f.txt/g\<close> when the bin holds the file \<open>f.txt\<close> does not return.\<close>

definition bin_blocked :: fsys where
  "bin_blocked = [([''c''], DirNode), ([''c'', recycleBinName], DirNode),
     ([''c'', recycleBinName, ''a''], FileNode ''x'')]"


end
