(* ===== verification/FilesProps.thy ===== *)
theory FilesProps
  imports Files
begin

text \<open>
  What the requests of the file manager return on a calm host: the contents of a listing, reading back
  what was written, and the limit of the path check where the cell holds symbolic links.
\<close>

section \<open>Listing a directory\<close>

lemma list_entries_all:
  fixes w :: world
  assumes "calm w" "on_dirs (files w) q" "fs_get (files w) q = Some DirNode" "wf_names (files w)"
    "\<forall>e \<in> set es. fs_get (files w) (q @ [fst e]) = Some (snd e)"
  shows "\<exists>t. list_entries (rooted q) p es w =
    (Inr (map (\<lambda>e. \<lparr>entry_Name = fst e, entry_Path = path_join [p, fst e], entry_IsDir = is_dir (snd e),
       entry_Size = node_size (snd e)\<rparr>) es), w\<lparr>ticks := t\<rparr>)"
  using assms(1,2,3,4,5)
proof (induction es arbitrary: w)
  case Nil
  show ?case by (rule exI [of _ "ticks w"]) (simp add: os_return_def)
next
  case (Cons e es)
  let ?w = "w\<lparr>ticks := Suc (ticks w)\<rparr>"
  have g: "fs_get (files w) (q @ [fst e]) = Some (snd e)" using Cons.prems(5) by simp
  have nm: "plains (q @ [fst e])" "CHR 0x00 \<notin> set (fst e)"
    using wf_namesD [OF Cons.prems(4), of "q @ [fst e]"] g by (auto simp: nul_rooted)
  have st: "os_lstat (rooted (q @ [fst e])) w = (Inr (snd e), ?w)"
    by (rule os_lstat_child [OF Cons.prems(1,2,3) g]) (use nm in auto)
  have "\<exists>t. list_entries (rooted q) p es ?w =
    (Inr (map (\<lambda>e. \<lparr>entry_Name = fst e, entry_Path = path_join [p, fst e], entry_IsDir = is_dir (snd e),
       entry_Size = node_size (snd e)\<rparr>) es), ?w\<lparr>ticks := t\<rparr>)"
    by (rule Cons.IH) (use Cons.prems in \<open>auto simp: calm_def\<close>)
  then obtain t where "list_entries (rooted q) p es ?w =
    (Inr (map (\<lambda>e. \<lparr>entry_Name = fst e, entry_Path = path_join [p, fst e], entry_IsDir = is_dir (snd e),
       entry_Size = node_size (snd e)\<rparr>) es), ?w\<lparr>ticks := t\<rparr>)" by blast
  moreover have "path_join [rooted q, fst e] = rooted (q @ [fst e])"
    using nm by (simp add: path_join_rooted descend_plain)
  ultimately show ?case using st by (auto simp: os_attempt_def os_bind_def os_return_def)
qed

lemma list_directory:
  fixes v :: world
  assumes "calm v" "wf_names (files v)" "on_dirs (files v) q" "fs_get (files v) q = Some DirNode"
  obtains v' t where "os_read_dir (rooted q) v = (Inr (fs_entries (files v) q), v')"
    "list_entries (rooted q) p (slice s e (sort_entries (fs_entries (files v) q))) v' =
      (Inr (map (\<lambda>e. \<lparr>entry_Name = fst e, entry_Path = path_join [p, fst e], entry_IsDir = is_dir (snd e),
         entry_Size = node_size (snd e)\<rparr>) (slice s e (sort_entries (fs_entries (files v) q)))), v\<lparr>ticks := t\<rparr>)"
proof -
  let ?v = "v\<lparr>ticks := Suc (ticks v)\<rparr>"
  let ?es = "slice s e (sort_entries (fs_entries (files v) q))"
  have "calm ?v" using assms(1) by (simp add: calm_def)
  have rd: "os_read_dir (rooted q) v = (Inr (fs_entries (files v) q), ?v)"
    using assms by (simp add: os_read_dir_def os_call_calm locate_on_dirs)
  have "set ?es \<subseteq> set (fs_entries (files v) q)"
    using mset_eq_setD [OF sort_entries_listing(1) [of "fs_entries (files v) q"]]
    unfolding slice_def by (metis set_drop_subset set_take_subset subset_trans)
  then have mem: "\<forall>e \<in> set ?es. fs_get (files ?v) (q @ [fst e]) = Some (snd e)"
    using fs_entries_get [of "fst e" "snd e" "files v" q for e] by (auto dest!: subsetD)
  show ?thesis
    using list_entries_all [OF \<open>calm ?v\<close> _ _ _ mem, of p] assms(2-4) that [OF rd] by auto
qed



section \<open>Reading back\<close>

lemma write_file_solid:
  assumes "calm w" "solid (files w) bs" "plains q" "prefix bs q" "os_write_file (rooted q) content w = (Inr (), w1)"
  shows "calm w1 \<and> wd w1 = wd w \<and> on_dirs (files w1) q
    \<and> (fs_get (files w1) q = Some (FileNode content) \<or> fs_get (files w1) q = Some SpecialNode)"
proof -
  obtain x where l: "locate True (wd w) (files w) (rooted q) = Inr x"
    using assms(1,5) by (auto simp: os_write_file_def os_call_calm split: sum.splits)
  have x: "x = q" using locate_solid [OF assms(2-4)] l by simp
  have here: "on_dirs (files w) q" using locate_on_dirsD [OF _ assms(3,2,4)] l by simp
  have calm: "calm w1" "wd w1 = wd w"
    using assms(1,5) by (auto simp: os_write_file_def os_call_calm)
  consider "files w1 = fs_put q (FileNode content) (files w)" "fs_get (files w) q \<noteq> Some DirNode"
    | "files w1 = files w" "fs_get (files w) q = Some SpecialNode"
    using assms(1,5) l x by (auto simp: os_write_file_def os_call_calm split: option.splits node.splits)
  then show ?thesis
  proof cases
    case 1
    then have "q \<noteq> []" by auto
    then have get: "fs_get (files w1) r = (if r = q then Some (FileNode content) else fs_get (files w) r)" for r
      using 1 by simp
    have "on_dirs (files w1) q" using here get by (auto simp: on_dirs_def strict_prefix_def)
    then show ?thesis using calm get by simp
  qed (use calm here in simp)
qed

text \<open>
  What \<open>Write\<close> stored is what \<open>Read\<close> returns for the same path, unless the path names a device,
  socket or pipe.
\<close>

theorem Write_Read_roundtrip:
  fixes w :: world
  assumes "calm w" "solid (files w) (clean_abs dir)"
    "files_Write (rooted (clean_abs dir)) p content w = (Inr (), w1)"
    "fst (os_stat (path_join [rooted (clean_abs dir), path_clean p]) w1) \<noteq> Inr SpecialNode"
  shows "fst (files_Read (rooted (clean_abs dir)) p w1) = Inr content"
proof -
  let ?bs = "clean_abs dir"
  obtain full where g: "SafePath (wd w) (rooted ?bs) p = Inr full"
    using assms(3) by (auto simp: files_Write_def with_path_def split: sum.splits)
  then obtain q where q: "plains q" "prefix ?bs q" "full = rooted q"
    using SafePath_inside [OF plains_clean_abs] by blast
  have full: "path_join [rooted ?bs, path_clean p] = full"
    using g SafePath_sound_complete [of "wd w" dir p] by (auto simp: Let_def split: if_splits)
  obtain r0 w0 where e: "EnsureParentDir full w = (r0, w0)" by fastforce
  have "confined ?bs (EnsureParentDir full)" using q by (auto intro: confined_EnsureParentDir)
  note d0 = confinedD [OF this assms(2) e]
  have calm0: "calm w0"
    using e assms(1) by (auto simp: EnsureParentDir_def os_mkdir_all_def os_call_calm)
  have "os_write_file full content w0 = (Inr (), w1)"
    using assms(3) g e by (auto simp: files_Write_def with_path_def os_bind_def split: sum.splits)
  from write_file_solid [OF calm0 d0(2) q(1,2) this [unfolded q(3)]]
  have w1: "calm w1" "wd w1 = wd w" "on_dirs (files w1) q"
    "fs_get (files w1) q = Some (FileNode content) \<or> fs_get (files w1) q = Some SpecialNode"
    using d0(3) by auto
  have "fst (os_stat full w1) = fs_info True full (wd w1) (files w1)"
    using w1(1) by (simp add: os_stat_def os_call_calm)
  then have "fs_get (files w1) q = Some (FileNode content)"
    using assms(4) full w1(3,4) q(3) by (auto simp: fs_info_on_dirs)
  then have "fs_info True full (wd w1) (files w1) = Inr (FileNode content)"
    using w1(3) q(3) by (simp add: fs_info_on_dirs)
  then show ?thesis
    using w1(1,2) g by (simp add: files_Read_def with_path_def os_read_file_def os_call_calm)
qed

theorem Write_Read_roundtrip_witness:
  "\<exists>w1. files_Write (rooted (clean_abs ''/c'')) ''a/b.txt'' ''hi'' (calm_world [([''c''], DirNode)]) = (Inr (), w1)
     \<and> fst (files_Read (rooted (clean_abs ''/c'')) ''a/b.txt'' w1) = Inr ''hi''"
proof -
  let ?w = "calm_world [([''c''], DirNode)]"
  have c: "clean_abs ''/c'' = [''c'']" by code_simp
  have s: "solid (files ?w) (clean_abs ''/c'')"
    unfolding c by (rule solid_check) (simp_all add: fs_get_def is_link_def)
  have "case files_Write (rooted (clean_abs ''/c'')) ''a/b.txt'' ''hi'' ?w of
      (Inr _, w1) \<Rightarrow> fst (os_stat (path_join [rooted (clean_abs ''/c''), path_clean ''a/b.txt'']) w1) \<noteq> Inr SpecialNode
    | _ \<Rightarrow> False" by code_simp
  then obtain w1 where w1: "files_Write (rooted (clean_abs ''/c'')) ''a/b.txt'' ''hi'' ?w = (Inr (), w1)"
    "fst (os_stat (path_join [rooted (clean_abs ''/c''), path_clean ''a/b.txt'']) w1) \<noteq> Inr SpecialNode"
    by (auto split: prod.splits sum.splits)
  show ?thesis using Write_Read_roundtrip [OF _ s w1] w1(1) by auto
qed

section \<open>The limit of the path check\<close>

definition link_files :: fsys where
  "link_files = [([''c''], DirNode), ([''c'', ''out''], LinkNode ''/etc''), ([''etc''], DirNode)]"

text \<open>
  \<open>SafePath\<close> compares names only. Where a cell directory holds a symbolic link that leads out of
  it, a write through the link is accepted and changes a file outside the cell.
\<close>

theorem Write_follows_links:
  "(case files_Write ''/c'' ''out/passwd'' ''x'' (calm_world link_files) of
      (r, w1) \<Rightarrow> r = Inr () \<and> fs_get (files w1) [''etc'', ''passwd''] = Some (FileNode ''x''))
   \<and> fs_get link_files [''etc'', ''passwd''] = None"
  by code_simp

end
