(* ===== verification/GoWalk.thy ===== *)
theory GoWalk
  imports PathGuard
begin

text \<open>
  \<open>filepath.Walk\<close> over the file system model. The visitor gets the path, the information and the error
  of an entry and threads an accumulator; it may answer \<open>SkipDir\<close>, and no visitor of the worker changes
  its accumulator when it does. The recursion is bounded by fuel, which has to exceed the depth of the tree;
  on a calm host, over a directory without links, the walk visits exactly the entries of the tree.
\<close>

type_synonym 'a visitor = "'a \<Rightarrow> string \<Rightarrow> node option \<Rightarrow> go_error option \<Rightarrow> 'a os"

fun walk_entry :: "nat \<Rightarrow> 'a visitor \<Rightarrow> string \<Rightarrow> node \<Rightarrow> 'a \<Rightarrow> 'a os"
  and walk_names :: "nat \<Rightarrow> 'a visitor \<Rightarrow> string \<Rightarrow> string list \<Rightarrow> 'a \<Rightarrow> 'a os" where
  "walk_entry 0 fn p info acc = os_throw OutOfFuel"
| "walk_entry (Suc n) fn p info acc =
     (if info \<noteq> DirNode then fn acc p (Some info) None
      else os_attempt (os_read_dir p) (\<lambda>r. case r of
          Inl e \<Rightarrow> fn acc p (Some info) (Some e)
        | Inr es \<Rightarrow> os_bind (fn acc p (Some info) None) (\<lambda>acc'. walk_names n fn p (map fst es) acc')))"
| "walk_names n fn p [] acc = os_return acc"
| "walk_names n fn p (c # cs) acc =
     os_attempt (os_lstat (path_join [p, c])) (\<lambda>r.
     os_attempt (case r of
         Inl e \<Rightarrow> fn acc (path_join [p, c]) None (Some e)
       | Inr info \<Rightarrow> walk_entry n fn (path_join [p, c]) info acc) (\<lambda>r'. case r' of
         Inr acc' \<Rightarrow> walk_names n fn p cs acc'
       | Inl e \<Rightarrow> if e = SkipDir \<and> (case r of Inl _ \<Rightarrow> True | Inr info \<Rightarrow> info = DirNode)
                 then walk_names n fn p cs acc else os_throw e))"

definition filepath_Walk :: "nat \<Rightarrow> string \<Rightarrow> 'a visitor \<Rightarrow> 'a \<Rightarrow> 'a os" where
  "filepath_Walk fuel root fn acc =
     os_attempt (os_lstat root) (\<lambda>r.
     os_attempt (case r of
         Inl e \<Rightarrow> fn acc root None (Some e)
       | Inr info \<Rightarrow> walk_entry fuel fn root info acc) (\<lambda>r'. case r' of
         Inr acc' \<Rightarrow> os_return acc'
       | Inl e \<Rightarrow> if e = SkipDir then os_return acc else os_throw e))"

text \<open>A walk is confined when its visitor is.\<close>

lemma confined_walk:
  assumes "\<And>acc p i e. confined root (fn acc p i e)"
  shows "confined root (walk_entry n fn p info acc)" "confined root (walk_names n fn p cs acc)"
  using assms
  by (induction n fn p info acc and n fn p cs acc rule: walk_entry_walk_names.induct)
    (auto intro!: confined_intros split: sum.split)

lemma confined_filepath_Walk:
  assumes "\<And>acc p i e. confined root (fn acc p i e)"
  shows "confined root (filepath_Walk fuel p fn acc)"
  unfolding filepath_Walk_def by (auto intro!: confined_intros assms confined_walk split: sum.split)

lemma reads_walk:
  assumes "\<And>acc p i e. reads_only (fn acc p i e)"
  shows "reads_only (walk_entry n fn p info acc)" "reads_only (walk_names n fn p cs acc)"
  using assms
  by (induction n fn p info acc and n fn p cs acc rule: walk_entry_walk_names.induct)
    (auto intro!: reads_intros split: sum.split)

lemma reads_filepath_Walk:
  assumes "\<And>acc p i e. reads_only (fn acc p i e)"
  shows "reads_only (filepath_Walk fuel p fn acc)"
  unfolding filepath_Walk_def by (auto intro!: reads_intros assms reads_walk split: sum.split)

section \<open>Pure walks\<close>

text \<open>
  The entries below \<open>q\<close> in the order of the walk; \<open>skip\<close> prunes the tree.
\<close>

fun tree :: "nat \<Rightarrow> fsys \<Rightarrow> (fpath \<Rightarrow> bool) \<Rightarrow> fpath \<Rightarrow> (fpath \<times> node) list" where
  "tree 0 f skip q = []"
| "tree (Suc n) f skip q =
     (case fs_get f q of
        None \<Rightarrow> []
      | Some info \<Rightarrow>
          if skip q then []
          else (q, info) # (if info = DirNode then concat (map (\<lambda>c. tree n f skip (q @ [c])) (fs_children f q)) else []))"

declare tree.simps [simp del]

text \<open>All that lies between \<open>q\<close> and \<open>p\<close> passes: nothing is skipped, and what is not \<open>p\<close> is a directory.\<close>

definition passes :: "fsys \<Rightarrow> (fpath \<Rightarrow> bool) \<Rightarrow> fpath \<Rightarrow> fpath \<Rightarrow> bool" where
  "passes f skip q p \<longleftrightarrow> (\<forall>r. prefix q r \<and> prefix r p \<longrightarrow> \<not> skip r \<and> (r = p \<or> fs_get f r = Some DirNode))"

lemma passes_step:
  assumes "prefix (q @ [c]) p"
  shows "passes f skip q p \<longleftrightarrow> \<not> skip q \<and> fs_get f q = Some DirNode \<and> passes f skip (q @ [c]) p"
proof -
  have qp: "q \<noteq> p" "prefix q p" using assms by (auto dest: append_prefixD)
  have "prefix q r \<and> prefix r p \<longleftrightarrow> r = q \<or> prefix (q @ [c]) r \<and> prefix r p" for r
    using assms qp by (metis append_prefixD prefix_order.antisym prefix_order.order_refl
        prefix_order.trans prefix_same_cases prefix_snoc)
  then show ?thesis unfolding passes_def using qp by auto
qed

lemma prefix_next: "p \<noteq> q \<Longrightarrow> prefix q p \<longleftrightarrow> (\<exists>c. prefix (q @ [c]) p)"
  by (metis append_Nil2 append_prefixD neq_Nil_conv prefix_def append_Cons append_Nil append_assoc)

lemma passes_child:
  assumes "wf_names f" "passes f skip (q @ [c]) p" "prefix (q @ [c]) p" "fs_get f p = Some x"
  shows "c \<in> set (fs_children f q)"
proof -
  have "fs_get f (q @ [c]) \<noteq> None" using assms(2-4) unfolding passes_def by (metis option.distinct(1) prefix_order.order_refl)
  then show ?thesis using wf_namesD [OF assms(1)] by (force simp: fs_children_iff)
qed

lemma tree_passes:
  assumes wf: "wf_names f"
  shows "(p, x) \<in> set (tree n f skip q) \<longleftrightarrow>
     prefix q p \<and> length p < length q + n \<and> fs_get f p = Some x \<and> passes f skip q p"
proof (induction n arbitrary: q)
  case 0
  then show ?case by (auto simp: tree.simps dest: prefix_length_le)
next
  case (Suc n)
  show ?case
  proof (cases "p = q")
    case True
    have "(q, x) \<notin> set (tree n f skip (q @ [c]))" for c using Suc [of "q @ [c]"] True by auto
    with True show ?thesis
      by (auto simp: tree.simps passes_def split: option.split dest: prefix_order.antisym)
  next
    case ne: False
    show ?thesis
    proof (cases "\<not> skip q \<and> fs_get f q = Some DirNode")
      case True
      then have "(p, x) \<in> set (tree (Suc n) f skip q) \<longleftrightarrow> (\<exists>c \<in> set (fs_children f q). (p, x) \<in> set (tree n f skip (q @ [c])))"
        using ne by (auto simp: tree.simps)
      also have "\<dots> \<longleftrightarrow> (\<exists>c. prefix (q @ [c]) p \<and> length p < length q + Suc n \<and> fs_get f p = Some x \<and> passes f skip (q @ [c]) p)"
        unfolding Suc using passes_child [OF wf] by auto
      also have "\<dots> \<longleftrightarrow> prefix q p \<and> length p < length q + Suc n \<and> fs_get f p = Some x \<and> passes f skip q p"
        using passes_step [of q _ p f skip] True prefix_next [OF ne] by auto
      finally show ?thesis .
    next
      case False
      then have "(p, x) \<notin> set (tree (Suc n) f skip q)" using ne by (auto simp: tree.simps split: option.splits)
      moreover have "\<not> (prefix q p \<and> passes f skip q p)" using False ne by (auto simp: passes_def)
      ultimately show ?thesis by blast
    qed
  qed
qed

lemma tree_iff:
  assumes "wf_names f"
  shows "(p, x) \<in> set (tree n f skip q) \<longleftrightarrow>
     prefix q p \<and> length p < length q + n \<and> fs_get f p = Some x
     \<and> (\<forall>r. prefix q r \<longrightarrow> prefix r p \<longrightarrow> \<not> skip r \<and> (r = p \<or> fs_get f r = Some DirNode))"
  unfolding tree_passes [OF assms] passes_def by blast

fun fold_res :: "('a \<Rightarrow> 'b \<Rightarrow> go_error + 'a) \<Rightarrow> 'a \<Rightarrow> 'b list \<Rightarrow> go_error + 'a" where
  "fold_res g acc [] = Inr acc"
| "fold_res g acc (x # xs) = (case g acc x of Inl e \<Rightarrow> Inl e | Inr acc' \<Rightarrow> fold_res g acc' xs)"

lemma fold_res_append:
  "fold_res g acc (xs @ ys) = (case fold_res g acc xs of Inl e \<Rightarrow> Inl e | Inr acc' \<Rightarrow> fold_res g acc' ys)"
  by (induction xs arbitrary: acc) (auto split: sum.split)

lemma fold_res_Inl: "(\<And>acc x. g acc x \<noteq> Inl e) \<Longrightarrow> fold_res g acc xs \<noteq> Inl e"
  by (induction xs arbitrary: acc) (auto split: sum.split)

text \<open>A visitor that reads, prunes at \<open>skip\<close> and otherwise acts like \<open>g\<close>.\<close>

definition visits :: "fsys \<Rightarrow> 'a visitor \<Rightarrow> (fpath \<Rightarrow> bool) \<Rightarrow> ('a \<Rightarrow> fpath \<times> node \<Rightarrow> go_error + 'a) \<Rightarrow> bool" where
  "visits f fn skip g \<longleftrightarrow> (\<forall>acc x. g acc x \<noteq> Inl SkipDir) \<and>
     (\<forall>v q info acc. calm v \<longrightarrow> files v = f \<longrightarrow> on_dirs f q \<longrightarrow> fs_get f q = Some info \<longrightarrow>
       (\<exists>t. fn acc (rooted q) (Some info) None v =
         (if skip q then if info = DirNode then Inl SkipDir else Inr acc else g acc (q, info), v\<lparr>ticks := t\<rparr>)))"

lemma visitsD:
  assumes "visits f fn skip g" "calm v" "files v = f" "on_dirs f q" "fs_get f q = Some info"
  obtains t where "fn acc (rooted q) (Some info) None v =
    (if skip q then if info = DirNode then Inl SkipDir else Inr acc else g acc (q, info), v\<lparr>ticks := t\<rparr>)"
  using assms unfolding visits_def by blast

definition deep :: "fsys \<Rightarrow> fpath \<Rightarrow> nat \<Rightarrow> bool" where
  "deep f q n \<longleftrightarrow> (\<forall>p. prefix q p \<longrightarrow> fs_get f p \<noteq> None \<longrightarrow> length p < length q + n)"

lemma deep_child: "deep f q (Suc n) \<Longrightarrow> deep f (q @ [c]) n"
  unfolding deep_def using append_prefixD by fastforce

lemma on_dirs_child:
  assumes "on_dirs f q" "fs_get f q = Some DirNode" "plain c" "CHR 0x00 \<notin> set c"
  shows "on_dirs f (q @ [c])"
  using assms by (auto simp: on_dirs_def nul_rooted strict_prefix_def)

lemma walk_names_tree:
  assumes IH: "\<And>c info acc v. c \<in> set cs \<Longrightarrow> files v = f \<Longrightarrow> calm v \<Longrightarrow> fs_get f (q @ [c]) = Some info \<Longrightarrow>
      \<exists>t. walk_entry n fn (rooted (q @ [c])) info acc v =
        (if skip (q @ [c]) then if info = DirNode then Inl SkipDir else Inr acc
         else fold_res g acc (tree n f skip (q @ [c])), v\<lparr>ticks := t\<rparr>)"
    and n: "n \<noteq> 0" and g: "\<And>acc x. g acc x \<noteq> Inl SkipDir"
    and q: "on_dirs f q" "fs_get f q = Some DirNode"
    and cs: "\<forall>c \<in> set cs. plain c \<and> CHR 0x00 \<notin> set c \<and> fs_get f (q @ [c]) \<noteq> None"
  shows "files v = f \<Longrightarrow> calm v \<Longrightarrow> \<exists>t. walk_names n fn (rooted q) cs acc v =
    (fold_res g acc (concat (map (\<lambda>c. tree n f skip (q @ [c])) cs)), v\<lparr>ticks := t\<rparr>)"
  using IH cs
proof (induction cs arbitrary: acc v)
  case Nil
  show ?case by (rule exI [of _ "ticks v"]) (simp add: os_return_def)
next
  case (Cons c cs)
  let ?v = "v\<lparr>ticks := Suc (ticks v)\<rparr>"
  have c: "plain c" "CHR 0x00 \<notin> set c" using Cons.prems(4) by auto
  obtain info where i: "fs_get f (q @ [c]) = Some info" using Cons.prems(4) by auto
  have j: "path_join [rooted q, c] = rooted (q @ [c])"
    using c q(1) by (simp add: path_join_rooted on_dirs_def descend_plain)
  have st: "os_lstat (rooted (q @ [c])) v = (Inr info, ?v)"
    using os_lstat_child [of v q c info] Cons.prems(1,2) q i c by simp
  have v': "files ?v = f" "calm ?v" using Cons.prems(1,2) by (auto simp: calm_def)
  obtain t where t: "walk_entry n fn (rooted (q @ [c])) info acc ?v =
      (if skip (q @ [c]) then if info = DirNode then Inl SkipDir else Inr acc
       else fold_res g acc (tree n f skip (q @ [c])), ?v\<lparr>ticks := t\<rparr>)"
    using Cons.prems(3) [OF _ v' i, of acc] by auto
  let ?u = "v\<lparr>ticks := t\<rparr>"
  have u: "files ?u = f" "calm ?u" using Cons.prems(1,2) by (auto simp: calm_def)
  have rest: "\<exists>t. walk_names n fn (rooted q) cs acc' ?u =
    (fold_res g acc' (concat (map (\<lambda>c. tree n f skip (q @ [c])) cs)), ?u\<lparr>ticks := t\<rparr>)" for acc'
    by (rule Cons.IH [OF u]) (use Cons.prems(3,4) in auto)
  have sk: "skip (q @ [c]) \<Longrightarrow> tree n f skip (q @ [c]) = []"
    using n i by (cases n) (auto simp: tree.simps)
  consider "skip (q @ [c])" | e where "\<not> skip (q @ [c])" "fold_res g acc (tree n f skip (q @ [c])) = Inl e" "e \<noteq> SkipDir"
    | acc' where "\<not> skip (q @ [c])" "fold_res g acc (tree n f skip (q @ [c])) = Inr acc'"
    using fold_res_Inl [of g SkipDir, OF g] by (metis sum.exhaust)
  then show ?case
  proof cases
    case 1
    with sk st t j rest [of acc] show ?thesis
      by (auto simp: os_attempt_def fold_res_append split: if_splits)
  next
    case 2
    with st t j show ?thesis by (auto simp: os_attempt_def os_throw_def fold_res_append)
  next
    case 3
    with st t j rest [of acc'] show ?thesis by (auto simp: os_attempt_def fold_res_append)
  qed
qed

lemma walk_children_tree:
  assumes IH: "\<And>c info acc v. files v = f \<Longrightarrow> calm v \<Longrightarrow> on_dirs f (q @ [c]) \<Longrightarrow> fs_get f (q @ [c]) = Some info \<Longrightarrow>
      deep f (q @ [c]) n \<Longrightarrow> \<exists>t. walk_entry n fn (rooted (q @ [c])) info acc v =
        (if skip (q @ [c]) then if info = DirNode then Inl SkipDir else Inr acc
         else fold_res g acc (tree n f skip (q @ [c])), v\<lparr>ticks := t\<rparr>)"
    and g: "\<And>acc x. g acc x \<noteq> Inl SkipDir" and wf: "wf_names f"
    and q: "on_dirs f q" "fs_get f q = Some DirNode" "deep f q (Suc n)" and v: "files v = f" "calm v"
  shows "\<exists>t. walk_names n fn (rooted q) (fs_children f q) acc v =
    (fold_res g acc (concat (map (\<lambda>c. tree n f skip (q @ [c])) (fs_children f q))), v\<lparr>ticks := t\<rparr>)"
proof (cases "fs_children f q = []")
  case True
  have "v\<lparr>ticks := ticks v\<rparr> = v" by simp
  then show ?thesis using True by (intro exI [of _ "ticks v"]) (cases n; simp add: os_return_def)
next
  case False
  have ch: "\<forall>c \<in> set (fs_children f q). plain c \<and> CHR 0x00 \<notin> set c \<and> fs_get f (q @ [c]) \<noteq> None"
    using wf_namesD [OF wf] by (fastforce simp: fs_children_iff nul_rooted)
  then obtain c where "fs_get f (q @ [c]) \<noteq> None" using False by (metis last_in_set)
  then have n: "n \<noteq> 0" using q(3) by (auto simp: deep_def dest!: spec [of _ "q @ [c]"])
  show ?thesis
    by (rule walk_names_tree [OF _ n g q(1,2) ch v])
      (use IH on_dirs_child [OF q(1,2)] ch deep_child [OF q(3)] in blast)
qed

lemma walk_entry_tree:
  assumes "visits f fn skip g" "wf_names f"
  shows "files v = f \<Longrightarrow> calm v \<Longrightarrow> on_dirs f q \<Longrightarrow> fs_get f q = Some info \<Longrightarrow> deep f q n \<Longrightarrow>
    \<exists>t. walk_entry n fn (rooted q) info acc v =
      (if skip q then if info = DirNode then Inl SkipDir else Inr acc
       else fold_res g acc (tree n f skip q), v\<lparr>ticks := t\<rparr>)"
proof (induction n arbitrary: v q info acc)
  case 0
  then show ?case by (auto simp: deep_def)
next
  case (Suc n)
  show ?case
  proof (cases "info = DirNode")
    case False
    obtain t where t: "fn acc (rooted q) (Some info) None v =
        (if skip q then if info = DirNode then Inl SkipDir else Inr acc else g acc (q, info), v\<lparr>ticks := t\<rparr>)"
      by (rule visitsD [OF assms(1) Suc.prems(2,1,3,4)])
    then show ?thesis using False Suc.prems(4)
      by (auto simp: tree.simps split: sum.split)
  next
    case True
    let ?v = "v\<lparr>ticks := Suc (ticks v)\<rparr>"
    have rd: "os_read_dir (rooted q) v = (Inr (fs_entries f q), ?v)"
      using Suc.prems True by (auto simp: os_read_dir_def os_call_calm locate_on_dirs)
    have v': "files ?v = f" "calm ?v" using Suc.prems(1,2) by (auto simp: calm_def)
    obtain t where t: "fn acc (rooted q) (Some info) None ?v =
        (if skip q then if info = DirNode then Inl SkipDir else Inr acc else g acc (q, info), ?v\<lparr>ticks := t\<rparr>)"
      by (rule visitsD [OF assms(1) v'(2,1) Suc.prems(3,4)])
    let ?u = "v\<lparr>ticks := t\<rparr>"
    have u: "files ?u = f" "calm ?u" using Suc.prems(1,2) by (auto simp: calm_def)
    have g: "g acc x \<noteq> Inl SkipDir" for acc x using assms(1) unfolding visits_def by blast
    have names: "\<exists>t. walk_names n fn (rooted q) (fs_children f q) acc' ?u =
      (fold_res g acc' (concat (map (\<lambda>c. tree n f skip (q @ [c])) (fs_children f q))), ?u\<lparr>ticks := t\<rparr>)" for acc'
      by (rule walk_children_tree [OF Suc.IH g assms(2) Suc.prems(3) _ Suc.prems(5) u]) (use Suc.prems(4) True in simp_all)
    show ?thesis
    proof (cases "skip q")
      case False
      with True rd t names Suc.prems(4) show ?thesis
        by (auto simp: os_attempt_def os_bind_def fs_entries_names tree.simps split: sum.split)
    qed (use True rd t in \<open>auto simp: os_attempt_def os_bind_def\<close>)
  qed
qed

lemma filepath_Walk_tree:
  assumes "visits f fn skip g" "wf_names f" "files v = f" "calm v" "on_dirs f q" "fs_get f q \<noteq> None"
    "deep f q n"
  obtains t where "filepath_Walk n (rooted q) fn acc v =
    (if skip q then Inr acc else fold_res g acc (tree n f skip q), v\<lparr>ticks := t\<rparr>)"
proof -
  obtain info where i: "fs_get f q = Some info" using assms(6) by auto
  let ?v = "v\<lparr>ticks := Suc (ticks v)\<rparr>"
  have st: "os_lstat (rooted q) v = (Inr info, ?v)"
    using assms(3,4,5) i by (simp add: os_lstat_def os_call_calm fs_info_def locate_on_dirs)
  have v': "files ?v = f" "calm ?v" using assms(3,4) by (auto simp: calm_def)
  obtain t where t: "walk_entry n fn (rooted q) info acc ?v =
      (if skip q then if info = DirNode then Inl SkipDir else Inr acc
       else fold_res g acc (tree n f skip q), ?v\<lparr>ticks := t\<rparr>)"
    using walk_entry_tree [OF assms(1,2) v' assms(5) i assms(7)] by blast
  have "g acc x \<noteq> Inl SkipDir" for acc x using assms(1) unfolding visits_def by blast
  then have "fold_res g acc (tree n f skip q) \<noteq> Inl SkipDir" by (rule fold_res_Inl)
  then show ?thesis using st t
    by (intro that [of t]) (auto simp: filepath_Walk_def os_attempt_def os_return_def os_throw_def split: sum.split)
qed

end
