(* ===== verification/GoArchive.thy ===== *)
theory GoArchive
  imports GoWalk "HOL-Library.Word" "HOL-Library.Countable"
begin

text \<open>
  What the worker sees of packages \<open>archive/tar\<close>, \<open>compress/gzip\<close> and \<open>archive/zip\<close>: a reader delivers a
  list of entries and then either the end of the archive or an error; a writer turns a list of items into
  the bytes of a file. The byte formats are the functions of a \<open>codec\<close>, a parameter of every operation
  that reads or writes an archive. Sizes are 64-bit words as in Go.
\<close>

datatype tar_type = TypeReg | TypeDir | TypeLink | TypeOther

record tar_header =
  th_Name :: string
  th_Typeflag :: tar_type
  th_Size :: "64 word"
  th_Body :: string
  th_BodyError :: "go_error option"

text \<open>The entries in order, and how the reader stops: \<open>IoEOF\<close> at the end of the archive.\<close>

type_synonym tar_stream = "tar_header list \<times> go_error"

record zip_entry =
  ze_Name :: string
  ze_IsSymlink :: bool
  ze_IsDir :: bool
  ze_UncompressedSize64 :: "64 word"
  ze_OpenError :: "go_error option"
  ze_Body :: string
  ze_BodyError :: "go_error option"

type_synonym tar_item = "string \<times> tar_type \<times> string"
type_synonym zip_item = "string \<times> bool \<times> string"

record codec =
  gzip_tar_read :: "string \<Rightarrow> go_error + tar_stream"
  gzip_tar_write :: "tar_item list \<Rightarrow> string"
  zip_read :: "string \<Rightarrow> go_error + zip_entry list"
  zip_write :: "zip_item list \<Rightarrow> string"

text \<open>\<open>tar.FileInfoHeader\<close>: the type of an entry.\<close>

definition node_type :: "node \<Rightarrow> tar_type" where
  "node_type n = (case n of DirNode \<Rightarrow> TypeDir | FileNode _ \<Rightarrow> TypeReg | LinkNode _ \<Rightarrow> TypeLink
     | SpecialNode \<Rightarrow> TypeOther)"

definition header_of :: "tar_item \<Rightarrow> tar_header" where
  "header_of i = (case i of (nm, ty, data) \<Rightarrow>
     \<lparr>th_Name = nm, th_Typeflag = ty, th_Size = of_nat (length data), th_Body = data, th_BodyError = None\<rparr>)"

text \<open>Reading back what was written, as the packages document it.\<close>

definition tar_reads_back :: "codec \<Rightarrow> bool" where
  "tar_reads_back c \<longleftrightarrow> (\<forall>items. gzip_tar_read c (gzip_tar_write c items) = Inr (map header_of items, IoEOF))"

instance tar_type :: countable
  by countable_datatype

definition unary_codec :: codec where
  "unary_codec = \<lparr>
     gzip_tar_read = (\<lambda>s. Inr (map header_of (from_nat (length s)), IoEOF)),
     gzip_tar_write = (\<lambda>items. replicate (to_nat items) CHR ''x''),
     zip_read = (\<lambda>_. Inr []), zip_write = (\<lambda>_. [])\<rparr>"

lemma unary_codec_reads_back: "tar_reads_back unary_codec"
  by (simp add: tar_reads_back_def unary_codec_def)

end
