(* ===== verification/Archive.thy ===== *)
theory Archive
  imports GoArchive Files
begin

text \<open>
  Archives of a cell, \<open>internal/files/archive.go\<close>: creating zip and gzipped tar archives from paths of the
  cell, extracting them, and the disk limit both check. Sizes are 64-bit words, added up with wrap-around
  as the code does. \<open>fuel\<close> bounds the depth of the directory walks.
\<close>

record ArchiveCreateRequest =
  acr_Paths :: "string list"
  acr_Destination :: string
  acr_Format :: string

record ArchiveExtractRequest =
  aer_Path :: string
  aer_Destination :: string
  aer_Overwrite :: bool

section \<open>Path checks\<close>

definition safePath :: "getwd \<Rightarrow> string \<Rightarrow> string \<Rightarrow> go_error + string" where
  "safePath d root relative0 =
     (case path_abs d root of
        Inl e \<Rightarrow> Inl e
      | Inr rootAbs \<Rightarrow>
          (let relative = TrimSpace relative0
           in if is_abs relative then Inl (ErrorString ''absolute paths are not allowed'')
              else let full = path_clean (path_join [rootAbs, relative])
                   in case path_rel rootAbs full of
                        Inl e \<Rightarrow> Inl e
                      | Inr rel \<Rightarrow>
                          if rel_escapes rel then Inl (ErrorString ''path escapes the Cell root'')
                          else Inr full))"

definition safeArchiveTarget :: "getwd \<Rightarrow> string \<Rightarrow> string \<Rightarrow> go_error + string" where
  "safeArchiveTarget d destination nm =
     (let cleanName = path_clean nm
      in if cleanName = ''.'' \<or> cleanName = [] then Inl (ErrorString ''archive contains an invalid path'')
         else if is_abs cleanName then Inl (ErrorString ''archive contains an absolute path'')
         else let target = path_join [destination, cleanName]
              in case path_abs d destination of
                   Inl e \<Rightarrow> Inl e
                 | Inr destinationAbs \<Rightarrow>
                     (case path_abs d target of
                        Inl e \<Rightarrow> Inl e
                      | Inr targetAbs \<Rightarrow>
                          (case path_rel destinationAbs targetAbs of
                             Inl e \<Rightarrow> Inl e
                           | Inr relative \<Rightarrow>
                               if rel_escapes relative
                               then Inl (ErrorString ''archive entry escapes the extraction directory'')
                               else Inr targetAbs)))"

section \<open>The disk limit\<close>

text \<open>The visitor of \<open>pathSize\<close>.\<close>

definition size_visitor :: "(64 word) visitor" where
  "size_visitor acc p info walkErr =
     (case walkErr of
        Some e \<Rightarrow> os_throw e
      | None \<Rightarrow>
          (case info of
             Some (FileNode data) \<Rightarrow> os_return (acc + of_nat (length data))
           | _ \<Rightarrow> os_return acc))"

definition pathSize :: "nat \<Rightarrow> string \<Rightarrow> (64 word) os" where
  "pathSize fuel p = filepath_Walk fuel p size_visitor 0"

definition ensureDiskCapacity :: "nat \<Rightarrow> string \<Rightarrow> 64 word \<Rightarrow> 64 word \<Rightarrow> unit os" where
  "ensureDiskCapacity fuel root limitBytes additionalBytes =
     (if limitBytes \<le>s 0 then os_return ()
      else os_bind (pathSize fuel root) (\<lambda>currentBytes.
        if limitBytes - currentBytes <s additionalBytes
        then os_throw (ErrorString ''operation would exceed the Cell disk limit'')
        else os_return ()))"

fun zip_total :: "64 word \<Rightarrow> zip_entry list \<Rightarrow> go_error + 64 word" where
  "zip_total acc [] = Inr acc"
| "zip_total acc (e # es) =
     (if ze_IsSymlink e then Inl (ErrorString ''archive contains unsupported symlink'')
      else zip_total (if ze_IsDir e then acc else acc + ze_UncompressedSize64 e) es)"

fun tar_total :: "64 word \<Rightarrow> tar_header list \<Rightarrow> go_error \<Rightarrow> go_error + 64 word" where
  "tar_total acc [] stop = (if errors_is stop IoEOF then Inr acc else Inl stop)"
| "tar_total acc (h # hs) stop =
     (case th_Typeflag h of
        TypeDir \<Rightarrow> tar_total acc hs stop
      | TypeReg \<Rightarrow> tar_total (acc + th_Size h) hs stop
      | TypeLink \<Rightarrow> Inl (ErrorString ''archive contains unsupported link'')
      | TypeOther \<Rightarrow> Inl (ErrorString ''archive contains unsupported entry''))"

definition is_zip_name :: "string \<Rightarrow> bool" where
  "is_zip_name lower \<longleftrightarrow> HasSuffix lower ''.zip''"

definition is_tgz_name :: "string \<Rightarrow> bool" where
  "is_tgz_name lower \<longleftrightarrow> HasSuffix lower ''.tar.gz'' \<or> HasSuffix lower ''.tgz''"

definition archiveExpandedBytes :: "codec \<Rightarrow> string \<Rightarrow> string \<Rightarrow> (64 word) os" where
  "archiveExpandedBytes cd archivePath nm =
     (let lower = ToLower nm
      in if is_zip_name lower
         then os_bind (os_read_file archivePath) (\<lambda>bytes.
              os_bind (os_lift (zip_read cd bytes)) (\<lambda>es. os_lift (zip_total 0 es)))
         else if is_tgz_name lower
         then os_bind (os_read_file archivePath) (\<lambda>bytes.
              os_bind (os_lift (gzip_tar_read cd bytes)) (\<lambda>(hs, stop). os_lift (tar_total 0 hs stop)))
         else os_throw (ErrorString ''only .zip, .tar.gz and .tgz archives are supported''))"

section \<open>Extraction\<close>

definition prepareExtractTarget :: "string \<Rightarrow> bool \<Rightarrow> unit os" where
  "prepareExtractTarget target overwrite =
     os_attempt (os_lstat target) (\<lambda>r.
     if not_exist r then os_return ()
     else case r of
       Inl e \<Rightarrow> os_throw e
     | Inr _ \<Rightarrow>
         if \<not> overwrite then os_throw (ErrorString ''destination already exists'')
         else os_bind (os_lstat target) (\<lambda>info.
              if is_dir info then os_throw (ErrorString ''cannot overwrite directory with file'')
              else os_remove target))"

text \<open>Open for writing, copy, close: what was read before an error stays in the file.\<close>

definition copy_into :: "string \<Rightarrow> string \<Rightarrow> go_error option \<Rightarrow> unit os" where
  "copy_into target data err =
     os_seq (os_write_file target data) (case err of None \<Rightarrow> os_return () | Some e \<Rightarrow> os_throw e)"

definition extract_file :: "string \<Rightarrow> bool \<Rightarrow> go_error option \<Rightarrow> string \<Rightarrow> go_error option \<Rightarrow> unit os" where
  "extract_file target overwrite openError data err =
     os_seq (prepareExtractTarget target overwrite)
    (os_seq (os_mkdir_all (path_dir target))
    (case openError of Some e \<Rightarrow> os_throw e | None \<Rightarrow> copy_into target data err))"

fun extract_zip_entries :: "string \<Rightarrow> bool \<Rightarrow> zip_entry list \<Rightarrow> unit os" where
  "extract_zip_entries destination overwrite [] = os_return ()"
| "extract_zip_entries destination overwrite (e # es) =
     with_path (\<lambda>d. safeArchiveTarget d destination (ze_Name e)) (\<lambda>target.
       if ze_IsSymlink e then os_throw (ErrorString ''archive contains unsupported symlink'')
       else os_seq
         (if ze_IsDir e then os_mkdir_all target
          else extract_file target overwrite (ze_OpenError e) (ze_Body e) (ze_BodyError e))
         (extract_zip_entries destination overwrite es))"

definition extractZip :: "codec \<Rightarrow> string \<Rightarrow> string \<Rightarrow> bool \<Rightarrow> unit os" where
  "extractZip cd destination archivePath overwrite =
     os_bind (os_read_file archivePath) (\<lambda>bytes.
     os_bind (os_lift (zip_read cd bytes)) (\<lambda>es. extract_zip_entries destination overwrite es))"

fun extract_tar_entries :: "string \<Rightarrow> bool \<Rightarrow> tar_header list \<Rightarrow> go_error \<Rightarrow> unit os" where
  "extract_tar_entries destination overwrite [] stop =
     (if errors_is stop IoEOF then os_return () else os_throw stop)"
| "extract_tar_entries destination overwrite (h # hs) stop =
     with_path (\<lambda>d. safeArchiveTarget d destination (th_Name h)) (\<lambda>target.
       os_seq
         (case th_Typeflag h of
            TypeDir \<Rightarrow> os_mkdir_all target
          | TypeReg \<Rightarrow> extract_file target overwrite None (th_Body h) (th_BodyError h)
          | TypeLink \<Rightarrow> os_throw (ErrorString ''archive contains unsupported link'')
          | TypeOther \<Rightarrow> os_throw (ErrorString ''archive contains unsupported entry''))
         (extract_tar_entries destination overwrite hs stop))"

definition extractTarGz :: "codec \<Rightarrow> string \<Rightarrow> string \<Rightarrow> bool \<Rightarrow> unit os" where
  "extractTarGz cd destination archivePath overwrite =
     os_bind (os_read_file archivePath) (\<lambda>bytes.
     os_bind (os_lift (gzip_tar_read cd bytes)) (\<lambda>(hs, stop).
       extract_tar_entries destination overwrite hs stop))"

definition extract_destination :: "ArchiveExtractRequest \<Rightarrow> string" where
  "extract_destination request =
     (let destination = TrimSpace (aer_Destination request)
      in if destination = []
         then (let d = path_dir (aer_Path request) in if d = ''.'' then [] else d)
         else destination)"

definition ExtractArchive :: "codec \<Rightarrow> nat \<Rightarrow> string \<Rightarrow> ArchiveExtractRequest \<Rightarrow> 64 word \<Rightarrow> unit os" where
  "ExtractArchive cd fuel root request diskLimitBytes =
     with_path (\<lambda>d. safePath d root (aer_Path request)) (\<lambda>archivePath.
     with_path (\<lambda>d. safePath d root (extract_destination request)) (\<lambda>destinationPath.
       os_seq (os_mkdir_all destinationPath)
      (os_bind (archiveExpandedBytes cd archivePath (aer_Path request)) (\<lambda>expandedBytes.
       os_seq (ensureDiskCapacity fuel root diskLimitBytes expandedBytes)
      (let lower = ToLower (aer_Path request)
       in if is_zip_name lower then extractZip cd destinationPath archivePath (aer_Overwrite request)
          else if is_tgz_name lower then extractTarGz cd destinationPath archivePath (aer_Overwrite request)
          else os_throw (ErrorString ''only .zip, .tar.gz and .tgz archives are supported''))))))"

section \<open>Creation\<close>

definition zip_visitor :: "string \<Rightarrow> zip_item list visitor" where
  "zip_visitor root acc p info walkErr =
     (case walkErr of
        Some e \<Rightarrow> os_throw e
      | None \<Rightarrow>
          (case info of
             None \<Rightarrow> os_return acc
           | Some n \<Rightarrow>
               if is_link n then os_throw (ErrorString ''symlinks are not supported in archives'')
               else os_bind (os_lift (path_rel root p)) (\<lambda>relative.
                 if is_dir n then os_return (acc @ [(relative @ ''/'', True, [])])
                 else os_bind (os_read_file p) (\<lambda>data. os_return (acc @ [(relative, False, data)])))))"

definition tar_visitor :: "string \<Rightarrow> tar_item list visitor" where
  "tar_visitor root acc p info walkErr =
     (case walkErr of
        Some e \<Rightarrow> os_throw e
      | None \<Rightarrow>
          (case info of
             None \<Rightarrow> os_return acc
           | Some n \<Rightarrow>
               if is_link n then os_throw (ErrorString ''symlinks are not supported in archives'')
               else os_bind (os_lift (path_rel root p)) (\<lambda>relative.
                 if is_dir n then os_return (acc @ [(relative, TypeDir, [])])
                 else os_bind (os_read_file p) (\<lambda>data. os_return (acc @ [(relative, node_type n, data)])))))"

fun walk_sources :: "nat \<Rightarrow> 'a visitor \<Rightarrow> string list \<Rightarrow> 'a \<Rightarrow> 'a os" where
  "walk_sources fuel fn [] acc = os_return acc"
| "walk_sources fuel fn (s # ss) acc = os_bind (filepath_Walk fuel s fn acc) (walk_sources fuel fn ss)"

text \<open>
  Both writers create the file exclusively, walk the sources, and remove the file again when anything
  fails; the bytes of the archive are written as one call when the walk is over.
\<close>

definition write_archive :: "string \<Rightarrow> 'a os \<Rightarrow> ('a \<Rightarrow> string) \<Rightarrow> unit os" where
  "write_archive destination collect encode =
     os_seq (os_create_excl destination)
    (os_attempt (os_bind collect (\<lambda>items. os_write_file destination (encode items))) (\<lambda>r. case r of
        Inl e \<Rightarrow> os_ignore (os_remove destination) (os_throw e)
      | Inr _ \<Rightarrow> os_return ()))"

definition createZip :: "codec \<Rightarrow> nat \<Rightarrow> string \<Rightarrow> string \<Rightarrow> string list \<Rightarrow> unit os" where
  "createZip cd fuel root destination sources =
     write_archive destination (walk_sources fuel (zip_visitor root) sources []) (zip_write cd)"

definition createTarGz :: "codec \<Rightarrow> nat \<Rightarrow> string \<Rightarrow> string \<Rightarrow> string list \<Rightarrow> unit os" where
  "createTarGz cd fuel root destination sources =
     write_archive destination (walk_sources fuel (tar_visitor root) sources []) (gzip_tar_write cd)"

fun archive_sources ::
  "nat \<Rightarrow> string \<Rightarrow> string list \<Rightarrow> string list \<Rightarrow> 64 word \<Rightarrow> (string list \<times> 64 word) os" where
  "archive_sources fuel root [] sources sourceBytes = os_return (sources, sourceBytes)"
| "archive_sources fuel root (relative # rest) sources sourceBytes =
     with_path (\<lambda>d. safePath d root relative) (\<lambda>source.
     os_bind (os_wrap ''source is unavailable'' (os_lstat source)) (\<lambda>_.
     os_bind (pathSize fuel source) (\<lambda>size1.
       archive_sources fuel root rest (sources @ [source]) (sourceBytes + size1))))"

definition CreateArchive :: "codec \<Rightarrow> nat \<Rightarrow> string \<Rightarrow> ArchiveCreateRequest \<Rightarrow> 64 word \<Rightarrow> unit os" where
  "CreateArchive cd fuel root request diskLimitBytes =
     (if acr_Paths request = [] then os_throw (ErrorString ''at least one source path is required'')
      else with_path (\<lambda>d. safePath d root (acr_Destination request)) (\<lambda>destination.
        os_attempt (os_stat destination) (\<lambda>r. case r of
            Inr _ \<Rightarrow> os_throw (ErrorString ''destination archive already exists'')
          | Inl e \<Rightarrow>
              if \<not> os_is_not_exist e then os_throw e
              else os_seq (os_mkdir_all (path_dir destination))
                (os_bind (archive_sources fuel root (acr_Paths request) [] 0) (\<lambda>(sources, sourceBytes).
                 os_seq (ensureDiskCapacity fuel root diskLimitBytes sourceBytes)
                (let format = ToLower (TrimSpace (acr_Format request))
                 in if format = ''zip'' then createZip cd fuel root destination sources
                    else if format = ''tar.gz'' \<or> format = ''tgz''
                    then createTarGz cd fuel root destination sources
                    else os_throw (ErrorString ''unsupported archive format'')))))))"

section \<open>Containment\<close>

lemma safePath_rooted:
  assumes "plains bs"
  shows "safePath d (rooted bs) req =
    (if is_abs (TrimSpace req) then Inl (ErrorString ''absolute paths are not allowed'')
     else let cs = descend bs (TrimSpace req)
          in if prefix bs cs then Inr (rooted cs) else Inl (ErrorString ''path escapes the Cell root''))"
proof -
  let ?cs = "descend bs (TrimSpace req)"
  have cs: "plains ?cs" using assms by simp
  obtain r where r: "path_rel (rooted bs) (rooted ?cs) = Inr r"
    using path_rel_rooted [OF assms cs] by blast
  show ?thesis
    using rel_escapes_iff [OF assms cs r] r cs assms
    by (simp add: safePath_def Let_def path_join_rooted)
qed

lemma safePath_inside:
  assumes "plains bs" "safePath d (rooted bs) req = Inr p"
  shows "\<exists>cs. plains cs \<and> prefix bs cs \<and> p = rooted cs"
proof -
  have "prefix bs (descend bs (TrimSpace req))" "p = rooted (descend bs (TrimSpace req))"
    using assms(2) unfolding safePath_rooted [OF assms(1)] by (simp_all add: Let_def split: if_splits)
  with assms(1) show ?thesis by (metis plains_descend)
qed

lemma safeArchiveTarget_inside:
  assumes "plains bs" "safeArchiveTarget d (rooted bs) nm = Inr p"
  shows "\<exists>cs. plains cs \<and> prefix bs cs \<and> p = rooted cs"
proof -
  let ?cs = "descend bs (path_clean nm)"
  have cs: "plains ?cs" using assms(1) by simp
  obtain r where r: "path_rel (rooted bs) (rooted ?cs) = Inr r"
    using path_rel_rooted [OF assms(1) cs] by blast
  have "\<not> rel_escapes r \<and> p = rooted ?cs"
    using assms r cs by (auto simp: safeArchiveTarget_def Let_def path_join_rooted split: if_splits)
  with rel_escapes_iff [OF assms(1) cs r] cs show ?thesis by auto
qed

interpretation archive_path: path_guard safePath
  by unfold_locales (rule safePath_inside)

interpretation archive_entry: path_guard safeArchiveTarget
  by unfold_locales (rule safeArchiveTarget_inside)

lemma confined_prepareExtractTarget [confined_intros]:
  assumes "plains cs" "prefix root cs"
  shows "confined root (prepareExtractTarget (rooted cs) overwrite)"
proof (cases "cs = root")
  case False
  then show ?thesis
    using assms by (auto simp: prepareExtractTarget_def intro!: confined_intros split: sum.split)
next
  case True
  text \<open>the root of the extraction is a directory, so it is never removed\<close>
  have r: "prepareExtractTarget (rooted root) overwrite =
    os_attempt (os_lstat (rooted root)) (\<lambda>r. if not_exist r then os_return () else case r of
       Inl e \<Rightarrow> os_throw e
     | Inr _ \<Rightarrow> if \<not> overwrite then os_throw (ErrorString ''destination already exists'')
         else os_bind (os_lstat (rooted root)) (\<lambda>info.
              if is_dir info then os_throw (ErrorString ''cannot overwrite directory with file'')
              else os_remove (rooted root)))"
    by (simp add: prepareExtractTarget_def)
  have "files (snd (prepareExtractTarget (rooted root) overwrite w)) = files w
      \<and> wd (snd (prepareExtractTarget (rooted root) overwrite w)) = wd w" if s: "solid (files w) root" for w :: world
  proof -
    have reads: "files (snd (os_lstat p w)) = files w \<and> wd (snd (os_lstat p w)) = wd w" for p and w :: world
      by (simp add: os_lstat_def os_call_def split: option.split)
    have dir: "fst (os_lstat (rooted root) w) = Inr n \<Longrightarrow> n = DirNode" if "solid (files w) root" for n and w :: world
      using that fs_info_solid(1) [OF that] assms(1) True
      by (auto simp: os_lstat_def os_call_def solid_def split: option.splits)
    obtain r1 w1 where 1: "os_lstat (rooted root) w = (r1, w1)" by fastforce
    obtain r2 w2 where 2: "os_lstat (rooted root) w1 = (r2, w2)" by fastforce
    have f: "files w1 = files w" "wd w1 = wd w" "files w2 = files w" "wd w2 = wd w"
      using reads [of "rooted root" w] reads [of "rooted root" w1] 1 2 by auto
    have "r2 = Inr n \<Longrightarrow> n = DirNode" for n using dir [of w1 n] s f 2 by auto
    then show ?thesis
      using f 1 2 by (auto simp: r os_attempt_def os_bind_def os_return_def os_throw_def is_dir_def split: sum.split)
  qed
  then show ?thesis unfolding True confined_def by auto
qed

lemma confined_copy_into [confined_intros]:
  "plains cs \<Longrightarrow> prefix root cs \<Longrightarrow> confined root (copy_into (rooted cs) data err)"
  unfolding copy_into_def by (auto intro!: confined_intros split: option.split)

lemma confined_extract_file [confined_intros]:
  "plains cs \<Longrightarrow> prefix root cs \<Longrightarrow> confined root (extract_file (rooted cs) overwrite oe data err)"
  unfolding extract_file_def by (auto intro!: confined_intros split: option.split)

lemma confined_extract_zip_entries [confined_intros]:
  assumes "plains bs" "prefix root bs"
  shows "confined root (extract_zip_entries (rooted bs) overwrite es)"
  by (induction es) (auto intro!: archive_entry.confined_guarded_below [OF assms] confined_intros)

lemma confined_extract_tar_entries [confined_intros]:
  assumes "plains bs" "prefix root bs"
  shows "confined root (extract_tar_entries (rooted bs) overwrite hs stop)"
  by (induction hs)
    (auto intro!: archive_entry.confined_guarded_below [OF assms] confined_intros split: tar_type.split)

lemma confined_archiveExpandedBytes [confined_intros]: "confined root (archiveExpandedBytes cd p nm)"
  unfolding archiveExpandedBytes_def Let_def by (auto intro!: confined_intros split: prod.split)

lemma confined_size_visitor: "confined root (size_visitor acc p i e)"
  unfolding size_visitor_def by (auto intro!: confined_intros split: option.split node.split)

lemma confined_ensureDiskCapacity [confined_intros]: "confined root (ensureDiskCapacity fuel r l a)"
  unfolding ensureDiskCapacity_def pathSize_def
  by (intro confined_if confined_bind confined_return confined_throw confined_filepath_Walk confined_size_visitor)

text \<open>
  Extracting an archive never changes a file outside the cell, whatever entry names the archive
  holds (absolute, with \<open>..\<close>, or links, which are refused), whatever destination was asked for and
  whichever calls fail, as long as the cell's directory holds no link.
\<close>

theorem ExtractArchive_confined:
  "confined (clean_abs dir) (ExtractArchive cd fuel (rooted (clean_abs dir)) request limit)"
  unfolding ExtractArchive_def extractZip_def extractTarGz_def Let_def
  by (intro archive_path.confined_guarded [OF plains_clean_abs] confined_if confined_throw confined_bind
      confined_reads confined_lift confined_ensureDiskCapacity confined_archiveExpandedBytes
      confined_mkdir_all confined_extract_zip_entries)
    (auto intro: confined_extract_tar_entries)

lemma confined_zip_visitor: "confined root (zip_visitor r acc p i e)"
  unfolding zip_visitor_def by (auto intro!: confined_intros split: option.split)

lemma confined_tar_visitor: "confined root (tar_visitor r acc p i e)"
  unfolding tar_visitor_def by (auto intro!: confined_intros split: option.split)

lemma confined_walk_sources:
  "(\<And>acc p i e. confined root (fn acc p i e)) \<Longrightarrow> confined root (walk_sources fuel fn ss acc)"
  by (induction ss arbitrary: acc) (auto intro!: confined_intros confined_filepath_Walk)

lemma confined_archive_sources:
  assumes "plains bs"
  shows "confined bs (archive_sources fuel (rooted bs) rs ss n)"
  by (induction rs arbitrary: ss n)
    (auto intro!: archive_path.confined_guarded [OF assms] confined_intros confined_filepath_Walk
      confined_size_visitor simp: pathSize_def)

lemma write_archive_root:
  fixes w :: world
  assumes "plains root" "solid (files w) root"
  shows "files (snd (write_archive (rooted root) collect enc w)) = files w
    \<and> wd (snd (write_archive (rooted root) collect enc w)) = wd w"
proof -
  have "\<exists>e v. os_create_excl (rooted root) w = (Inl e, v) \<and> files v = files w \<and> wd v = wd w"
  proof -
    have "fs_get (files w) root = Some DirNode" using assms(2) by (simp add: solid_def)
    then show ?thesis
      using locate_solid [OF assms(2,1) prefix_order.order_refl]
      by (cases "locate False (wd w) (files w) (rooted root)"; cases "faults w (ticks w)")
        (auto simp: os_create_excl_def os_call_def)
  qed
  then show ?thesis by (auto simp: write_archive_def os_bind_def)
qed

lemma confined_write_archive:
  assumes "plains cs" "prefix root cs" "confined root collect"
  shows "confined root (write_archive (rooted cs) collect enc)"
proof (cases "cs = root")
  case True
  then show ?thesis using write_archive_root assms(1) by (auto simp: confined_def)
next
  case False
  then show ?thesis
    using assms by (auto simp: write_archive_def intro!: confined_intros split: sum.split)
qed

text \<open>
  Creating an archive, too, only changes files inside the cell, on success and on every failure,
  including the removal of the half-written archive.
\<close>

theorem CreateArchive_confined:
  "confined (clean_abs dir) (CreateArchive cd fuel (rooted (clean_abs dir)) request limit)"
  unfolding CreateArchive_def createZip_def createTarGz_def Let_def
  by (auto intro!: archive_path.confined_guarded [OF plains_clean_abs] confined_intros
      confined_archive_sources confined_write_archive confined_walk_sources confined_zip_visitor
      confined_tar_visitor simp: split_def split: sum.split)

section \<open>Extraction without overwriting\<close>

definition reach :: "fsys \<Rightarrow> fpath \<Rightarrow> bool" where
  "reach f p \<longleftrightarrow> (\<forall>ds. strict_prefix ds p \<longrightarrow> fs_get f ds = Some DirNode) \<and> fs_get f p \<noteq> None"

definition extends :: "fsys \<Rightarrow> fsys \<Rightarrow> bool" where
  "extends f g \<longleftrightarrow> (\<forall>p. reach f p \<longrightarrow> fs_get g p = fs_get f p)"

lemma extends_refl [simp]: "extends f f"
  by (simp add: extends_def)

lemma extends_reach:
  assumes "extends f g" "reach f p"
  shows "reach g p"
proof -
  have "fs_get g ds = Some DirNode" if "strict_prefix ds p" for ds
  proof -
    have "reach f ds"
      using assms(2) that prefix_order.less_trans unfolding reach_def by (metis option.distinct(1))
    then show ?thesis using assms that by (simp add: extends_def reach_def)
  qed
  then show ?thesis using assms by (simp add: extends_def reach_def)
qed

lemma extends_trans: "extends f g \<Longrightarrow> extends g h \<Longrightarrow> extends f h"
  using extends_reach unfolding extends_def by metis

definition keeps :: "fpath \<Rightarrow> 'a os \<Rightarrow> bool" where
  "keeps root m \<longleftrightarrow> confined root m \<and> (\<forall>w. solid (files w) root \<longrightarrow> extends (files w) (files (snd (m w))))"

named_theorems keeps_intros \<open>existing entries are kept\<close>

lemma keeps_reads: "confined root m \<Longrightarrow> reads_only m \<Longrightarrow> keeps root m"
  by (simp add: keeps_def reads_only_def)

lemma keeps_basic [keeps_intros]:
  "keeps root (os_return x)" "keeps root (os_throw e)" "keeps root (os_lift r)"
  "keeps root (os_stat p)" "keeps root (os_lstat p)" "keeps root (os_read_file p)" "keeps root (os_read_dir p)"
  by (simp_all add: keeps_reads reads_intros confined_return confined_throw confined_lift confined_reads)

lemma keeps_attempt [keeps_intros]:
  assumes "keeps root m" "\<And>r. keeps root (k r)"
  shows "keeps root (os_attempt m k)"
  unfolding keeps_def
proof (intro conjI allI impI)
  show "confined root (os_attempt m k)" using assms by (auto simp: keeps_def intro!: confined_intros)
  fix w :: world assume s: "solid (files w) root"
  obtain r w1 where m: "m w = (r, w1)" by fastforce
  have "solid (files w1) root" "extends (files w) (files w1)"
    using assms(1) s m confinedD(2) [of root m w r w1] by (auto simp: keeps_def)
  moreover from this have "extends (files w1) (files (snd (k r w1)))" using assms(2) by (simp add: keeps_def)
  ultimately show "extends (files w) (files (snd (os_attempt m k w)))"
    using m by (auto simp: os_attempt_def intro: extends_trans)
qed

lemma keeps_bind [keeps_intros]:
  assumes "keeps root m" "\<And>x. keeps root (k x)"
  shows "keeps root (os_bind m k)"
  unfolding os_bind_attempt using assms by (auto intro!: keeps_intros split: sum.split)

lemma keeps_with_path:
  assumes "\<And>d p. g d = Inr p \<Longrightarrow> keeps root (k p)"
  shows "keeps root (with_path g k)"
  unfolding keeps_def
proof (intro conjI allI impI)
  show "confined root (with_path g k)" by (rule confined_with_path) (use assms in \<open>auto simp: keeps_def\<close>)
  fix w :: world assume "solid (files w) root"
  then show "extends (files w) (files (snd (with_path g k w)))"
    using assms [of "wd w"] by (auto simp: with_path_def keeps_def split: sum.split)
qed

lemma fs_mkdir_extends: "fs_mkdir q0 f = (r, g) \<Longrightarrow> fs_get f q \<noteq> None \<Longrightarrow> fs_get g q = fs_get f q"
  by (cases "q0 = []") (auto simp: fs_mkdir_def split: if_splits)

lemma mkdirs_extends: "mkdirs s pfx cs f = (r, g) \<Longrightarrow> fs_get f q \<noteq> None \<Longrightarrow> fs_get g q = fs_get f q"
proof (induction cs arbitrary: pfx f)
  case (Cons c cs)
  have made: "fs_get g q = fs_get f q"
    if "fs_mkdir q0 f = (x, f')" "mkdirs s (pfx @ [c]) cs f' = (r, g)" for q0 x f'
    using fs_mkdir_extends [OF that(1) Cons.prems(2)] Cons.IH [OF that(2)] Cons.prems(2) by simp
  show ?case
    using Cons.prems made Cons.IH [of "pfx @ [c]" f] fs_mkdir_extends [of _ f "Inl _" g q]
    by (auto simp: Let_def split: sum.splits option.splits node.splits prod.splits)
qed simp

lemma keeps_mkdir_all [keeps_intros]:
  assumes "plains p" "prefix root p \<or> prefix p root"
  shows "keeps root (os_mkdir_all (rooted p))"
  unfolding keeps_def
proof (intro conjI allI impI)
  show "confined root (os_mkdir_all (rooted p))" using assms by (rule confined_mkdir_all)
  fix w :: world
  show "extends (files w) (files (snd (os_mkdir_all (rooted p) w)))"
    using mkdirs_extends [of "[]" "[]" p "files w"] assms(1)
    by (auto simp: os_mkdir_all_def os_call_def extends_def reach_def split: option.split prod.split)
qed

lemma prepare_free:
  assumes "prepareExtractTarget (rooted cs) False w = (Inr (), w1)" "plains cs"
  shows "files w1 = files w \<and> \<not> reach (files w) cs"
proof -
  obtain r where r: "os_lstat (rooted cs) w = (r, w1)" "not_exist r"
    using assms(1)
    by (auto simp: prepareExtractTarget_def os_attempt_def os_return_def os_throw_def
        split: prod.splits if_splits sum.splits)
  have f: "files w1 = files w" by (rule reads_onlyD [OF reads_basic(6) r(1)])
  have "r = Inl SysNotExist" using r(2) by (cases r) auto
  then have i: "fs_info False (rooted cs) (wd w) (files w) = Inl SysNotExist"
    using r(1) by (auto simp: os_lstat_def os_call_def split: option.splits)
  have "\<not> reach (files w) cs"
  proof
    assume "reach (files w) cs"
    then obtain n where n: "fs_get (files w) cs = Some n" "\<forall>ds. strict_prefix ds cs \<longrightarrow> fs_get (files w) ds = Some DirNode"
      by (auto simp: reach_def)
    show False
    proof (cases "CHR 0x00 \<in> set (rooted cs)")
      case True
      then show False using i by (simp add: fs_info_def locate_def)
    next
      case False
      then have "on_dirs (files w) cs" using n(2) assms(2) by (simp add: on_dirs_def)
      then show False using i n(1) by (simp add: fs_info_def locate_on_dirs)
    qed
  qed
  with f show ?thesis by simp
qed

lemma copy_into_extends:
  assumes "solid (files w) root" "plains cs" "prefix root cs" "extends f (files w)" "\<not> reach f cs"
  shows "extends f (files (snd (copy_into (rooted cs) data err w)))"
proof -
  have "files (snd (copy_into (rooted cs) data err w)) = files w
    \<or> cs \<noteq> [] \<and> files (snd (copy_into (rooted cs) data err w)) = fs_put cs (FileNode data) (files w)"
  proof (cases "locate True (wd w) (files w) (rooted cs)")
    case (Inr q)
    then have "q = cs" using locate_solid [OF assms(1,2,3)] by simp
    with Inr show ?thesis
      by (cases "faults w (ticks w)"; cases "cs = []")
        (auto simp: copy_into_def os_bind_def os_write_file_def os_call_def os_throw_def os_return_def
          split: option.splits node.splits)
  qed (auto simp: copy_into_def os_bind_def os_write_file_def os_call_def split: option.split)
  then show ?thesis
    using assms(4,5) by (auto simp: extends_def)
qed

lemma keeps_extract_file [keeps_intros]:
  assumes "plains cs" "prefix root cs"
  shows "keeps root (extract_file (rooted cs) False oe data err)"
  unfolding keeps_def
proof (intro conjI allI impI)
  show "confined root (extract_file (rooted cs) False oe data err)"
    using assms by (rule confined_extract_file)
  fix w :: world assume s: "solid (files w) root"
  obtain r1 w1 where 1: "prepareExtractTarget (rooted cs) False w = (r1, w1)" by fastforce
  obtain r2 w2 where 2: "os_mkdir_all (path_dir (rooted cs)) w1 = (r2, w2)" by fastforce
  note s1 = confinedD(2) [OF confined_prepareExtractTarget [OF assms] s 1]
  have "reads_only (prepareExtractTarget (rooted cs) False)"
    unfolding prepareExtractTarget_def by (auto intro!: reads_intros split: sum.split)
  then have prep: "files w1 = files w" using 1 by (rule reads_onlyD)
  have km: "keeps root (os_mkdir_all (path_dir (rooted cs)))"
    unfolding path_dir_plains [OF assms(1)]
    by (rule keeps_mkdir_all) (use assms plains_butlast prefix_butlast in auto)
  have e2: "extends (files w) (files w2)" "solid (files w2) root"
  proof -
    have c: "confined root (os_mkdir_all (path_dir (rooted cs)))"
      and "extends (files w1) (files (snd (os_mkdir_all (path_dir (rooted cs)) w1)))"
      using km s1 by (simp_all add: keeps_def)
    then show "extends (files w) (files w2)" using 2 prep by simp
    show "solid (files w2) root" by (rule confinedD(2) [OF c s1 2])
  qed
  show "extends (files w) (files (snd (extract_file (rooted cs) False oe data err w)))"
  proof (cases "r1 = Inr () \<and> r2 = Inr () \<and> oe = None")
    case True
    then have free: "\<not> reach (files w) cs" using prepare_free 1 assms(1) by auto
    from copy_into_extends [OF e2(2) assms e2(1) this] True 1 2
    show ?thesis by (simp add: extract_file_def os_bind_def)
  next
    case False
    then show ?thesis
      using 1 2 e2(1) prep
      by (cases r1; cases r2; cases oe) (auto simp: extract_file_def os_bind_def os_throw_def)
  qed
qed

lemma keeps_extract_zip_entries [keeps_intros]:
  assumes "plains bs" "prefix root bs"
  shows "keeps root (extract_zip_entries (rooted bs) False es)"
proof (induction es)
  case (Cons e es)
  have "keeps root (if ze_IsSymlink e then os_throw (ErrorString ''archive contains unsupported symlink'')
       else os_seq (if ze_IsDir e then os_mkdir_all p
          else extract_file p False (ze_OpenError e) (ze_Body e) (ze_BodyError e))
         (extract_zip_entries (rooted bs) False es))"
    if g: "safeArchiveTarget d (rooted bs) (ze_Name e) = Inr p" for d p
  proof -
    obtain cs where "plains cs" "prefix bs cs" "p = rooted cs"
      using safeArchiveTarget_inside [OF assms(1) g] by blast
    with assms(2) Cons show ?thesis by (auto intro!: keeps_intros intro: prefix_order.trans)
  qed
  then show ?case by (auto intro: keeps_with_path)
qed (simp add: keeps_intros)

lemma keeps_extract_tar_entries [keeps_intros]:
  assumes "plains bs" "prefix root bs"
  shows "keeps root (extract_tar_entries (rooted bs) False hs stop)"
proof (induction hs)
  case (Cons h hs)
  have "keeps root (os_seq (case th_Typeflag h of
            TypeDir \<Rightarrow> os_mkdir_all p
          | TypeReg \<Rightarrow> extract_file p False None (th_Body h) (th_BodyError h)
          | TypeLink \<Rightarrow> os_throw (ErrorString ''archive contains unsupported link'')
          | TypeOther \<Rightarrow> os_throw (ErrorString ''archive contains unsupported entry''))
         (extract_tar_entries (rooted bs) False hs stop))"
    if g: "safeArchiveTarget d (rooted bs) (th_Name h) = Inr p" for d p
  proof -
    obtain cs where "plains cs" "prefix bs cs" "p = rooted cs"
      using safeArchiveTarget_inside [OF assms(1) g] by blast
    with assms(2) Cons show ?thesis
      by (auto intro!: keeps_intros intro: prefix_order.trans split: tar_type.split)
  qed
  then show ?case by (auto intro: keeps_with_path)
qed (auto intro!: keeps_intros)

lemma reads_ensureDiskCapacity: "reads_only (ensureDiskCapacity fuel r l a)"
  unfolding ensureDiskCapacity_def pathSize_def
  by (auto intro!: reads_intros reads_filepath_Walk simp: size_visitor_def split: option.split node.split)

lemma keeps_ensureDiskCapacity [keeps_intros]: "keeps root (ensureDiskCapacity fuel r l a)"
  by (intro keeps_reads confined_ensureDiskCapacity reads_ensureDiskCapacity)

lemma keeps_archiveExpandedBytes [keeps_intros]: "keeps root (archiveExpandedBytes cd p nm)"
  by (intro keeps_reads confined_archiveExpandedBytes)
    (auto intro!: reads_intros simp: archiveExpandedBytes_def Let_def split: prod.split)

lemma keeps_ExtractArchive:
  assumes "plains bs" "\<not> aer_Overwrite request"
  shows "keeps bs (ExtractArchive cd fuel (rooted bs) request limit)"
  unfolding ExtractArchive_def extractZip_def extractTarGz_def Let_def
proof (intro keeps_with_path)
  fix d1 p1 d2 p2
  assume "safePath d2 (rooted bs) (extract_destination request) = Inr p2"
  then obtain cs where "plains cs" "prefix bs cs" "p2 = rooted cs" using safePath_inside [OF assms(1)] by blast
  with assms(2) show "keeps bs (os_seq (os_mkdir_all p2)
      (os_bind (archiveExpandedBytes cd p1 (aer_Path request)) (\<lambda>expandedBytes.
       os_seq (ensureDiskCapacity fuel (rooted bs) limit expandedBytes)
       (if is_zip_name (ToLower (aer_Path request))
          then os_bind (os_read_file p1) (\<lambda>bytes. os_bind (os_lift (zip_read cd bytes))
            (extract_zip_entries p2 (aer_Overwrite request)))
          else if is_tgz_name (ToLower (aer_Path request))
          then os_bind (os_read_file p1) (\<lambda>bytes. os_bind (os_lift (gzip_tar_read cd bytes))
            (\<lambda>(hs, stop). extract_tar_entries p2 (aer_Overwrite request) hs stop))
          else os_throw (ErrorString ''only .zip, .tar.gz and .tgz archives are supported'')))))"
    by (auto intro!: keeps_intros split: prod.split)
qed

text \<open>
  C40. Extraction without \<open>overwrite\<close> never loses anything: every file, directory or other entry that
  could be reached before is there with the same contents afterwards, on success and on every error.
\<close>

theorem ExtractArchive_keeps_existing:
  assumes "\<not> aer_Overwrite request" "solid (files w) (clean_abs dir)"
  shows "extends (files w) (files (snd (ExtractArchive cd fuel (rooted (clean_abs dir)) request limit w)))"
  using keeps_ExtractArchive [OF plains_clean_abs assms(1)] assms(2) by (simp add: keeps_def)

definition keep_files :: fsys where
  "keep_files = [([''c''], DirNode), ([''c'', ''a.zip''], FileNode []), ([''c'', ''f''], FileNode ''old'')]"

definition keep_codec :: codec where
  "keep_codec = unary_codec\<lparr>zip_read := \<lambda>_. Inr [\<lparr>ze_Name = ''f'', ze_IsSymlink = False, ze_IsDir = False,
     ze_UncompressedSize64 = 3, ze_OpenError = None, ze_Body = ''new'', ze_BodyError = None\<rparr>]\<rparr>"

theorem ExtractArchive_keeps_existing_witness:
  "fs_get (files (snd (ExtractArchive keep_codec 9 (rooted (clean_abs ''/c''))
     \<lparr>aer_Path = ''a.zip'', aer_Destination = [], aer_Overwrite = False\<rparr> 0 (calm_world keep_files)))) [''c'', ''f'']
   = Some (FileNode ''old'')"
proof -
  have c: "clean_abs ''/c'' = [''c'']" by code_simp
  have s: "solid (files (calm_world keep_files)) (clean_abs ''/c'')"
    unfolding c by (rule solid_check) (simp_all add: keep_files_def fs_get_def is_link_def)
  have "reach (files (calm_world keep_files)) [''c'', ''f'']"
    by (auto simp: reach_def keep_files_def fs_get_def strict_prefix_def prefix_Cons)
  with ExtractArchive_keeps_existing [OF _ s, of "\<lparr>aer_Path = ''a.zip'', aer_Destination = [], aer_Overwrite = False\<rparr>"
      keep_codec 9 0]
  show ?thesis by (auto simp: extends_def keep_files_def fs_get_def)
qed

end
