(* ===== verification/ArchiveProps.thy ===== *)
theory ArchiveProps
  imports Archive
begin

text \<open>
  The disk limit of the archive operations: what \<open>ensureDiskCapacity\<close> decides, and where the 64-bit sum
  of the sizes an archive declares wraps around.
\<close>

definition node_bytes :: "fpath \<times> node \<Rightarrow> nat" where
  "node_bytes x = (case snd x of FileNode data \<Rightarrow> length data | _ \<Rightarrow> 0)"

definition tree_bytes :: "nat \<Rightarrow> fsys \<Rightarrow> fpath \<Rightarrow> nat" where
  "tree_bytes n f q = sum_list (map node_bytes (tree n f (\<lambda>_. False) q))"

lemma fold_res_bytes:
  "fold_res (\<lambda>acc x. Inr (acc + of_nat (node_bytes x))) (a :: 64 word) xs
    = Inr (a + of_nat (sum_list (map node_bytes xs)))"
  by (induction xs arbitrary: a) (auto simp: add.assoc)

lemma size_visitor_visits:
  "visits f size_visitor (\<lambda>_. False) (\<lambda>acc x. Inr (acc + of_nat (node_bytes x)))"
  unfolding visits_def
proof (intro conjI allI impI)
  fix v :: world and q info and acc :: "64 word"
  show "\<exists>t. size_visitor acc (rooted q) (Some info) None v =
      (if False then if info = DirNode then Inl SkipDir else Inr acc
       else Inr (acc + of_nat (node_bytes (q, info))), v\<lparr>ticks := t\<rparr>)"
    by (rule exI [of _ "ticks v"])
      (simp add: size_visitor_def os_return_def node_bytes_def split: node.split)
qed simp

text \<open>The size of a directory, modulo the width of the counter.\<close>

lemma pathSize_tree:
  assumes "calm w" "wf_names (files w)" "on_dirs (files w) q" "fs_get (files w) q \<noteq> None" "deep (files w) q fuel"
  obtains t where "pathSize fuel (rooted q) w = (Inr (of_nat (tree_bytes fuel (files w) q)), w\<lparr>ticks := t\<rparr>)"
proof -
  obtain t where "filepath_Walk fuel (rooted q) size_visitor 0 w =
    (fold_res (\<lambda>acc x. Inr (acc + of_nat (node_bytes x))) 0 (tree fuel (files w) (\<lambda>_. False) q), w\<lparr>ticks := t\<rparr>)"
    using filepath_Walk_tree [OF size_visitor_visits assms(2) refl assms(1,3,4,5), of 0] by auto
  then show ?thesis
    by (intro that [of t]) (simp add: pathSize_def fold_res_bytes tree_bytes_def)
qed

lemma sint_small: "n < 2 ^ 63 \<Longrightarrow> sint (of_nat n :: 64 word) = int n"
  by (simp add: signed_of_nat signed_take_bit_int_eq_self)

lemma sint_diff_small:
  fixes a b :: "64 word"
  assumes "0 \<le> sint a" "0 \<le> sint b"
  shows "sint (a - b) = sint a - sint b"
proof -
  have "sint a < 2 ^ 63" "sint b < 2 ^ 63" using sint_lt [of a] sint_lt [of b] by auto
  with assms show ?thesis by (simp add: sint_word_ariths signed_take_bit_int_eq_self)
qed

text \<open>
  The disk limit is decided exactly when the sizes fit 63 bits: with a positive limit an operation
  that adds \<open>n\<close> bytes passes if and only if the regular files of the cell (links not followed) plus
  \<open>n\<close> stay within it.
\<close>

theorem ensureDiskCapacity_exact:
  assumes "calm w" "wf_names (files w)" "on_dirs (files w) q" "fs_get (files w) q \<noteq> None"
    "deep (files w) q fuel" "0 < sint limit" "0 \<le> sint n" "tree_bytes fuel (files w) q < 2 ^ 63"
  shows "fst (ensureDiskCapacity fuel (rooted q) limit n w) = Inr ()
    \<longleftrightarrow> int (tree_bytes fuel (files w) q) + sint n \<le> sint limit"
proof -
  obtain t where t: "pathSize fuel (rooted q) w = (Inr (of_nat (tree_bytes fuel (files w) q)), w\<lparr>ticks := t\<rparr>)"
    by (rule pathSize_tree [OF assms(1-5)])
  have "sint (limit - of_nat (tree_bytes fuel (files w) q)) = sint limit - int (tree_bytes fuel (files w) q)"
    using assms(6,8) by (simp add: sint_diff_small sint_small)
  then show ?thesis
    using t assms(6) by (auto simp: ensureDiskCapacity_def os_bind_def os_return_def os_throw_def
        word_sle_eq word_sless_alt)
qed

theorem ensureDiskCapacity_exact_witness:
  "fst (ensureDiskCapacity 5 (rooted [''c'']) 100 40 (calm_world keep_files)) = Inr ()
   \<and> fst (ensureDiskCapacity 5 (rooted [''c'']) 100 98 (calm_world keep_files)) \<noteq> Inr ()"
proof -
  have w: "wf_names (files (calm_world keep_files))"
    by (rule wf_names_check) (simp add: keep_files_def plain_def rooted_def)
  have o: "on_dirs (files (calm_world keep_files)) [''c'']"
    by (rule on_dirs_check) (simp_all add: keep_files_def fs_get_def plain_def rooted_def)
  have g: "fs_get (files (calm_world keep_files)) [''c''] \<noteq> None" by (simp add: keep_files_def fs_get_def)
  have d: "deep (files (calm_world keep_files)) [''c''] 5"
    by (auto simp: deep_def keep_files_def fs_get_def split: if_splits)
  have b: "tree_bytes 5 (files (calm_world keep_files)) [''c''] = 3"
    by code_simp
  show ?thesis
    using ensureDiskCapacity_exact [OF _ w o g d, of 100 40] ensureDiskCapacity_exact [OF _ w o g d, of 100 98] b
    by simp
qed

text \<open>
  The sizes a zip archive declares are added with wrap-around, so for every archive there is one more
  entry (a few bytes long, of a suitable declared size) that brings the total to zero: the disk limit then
  sees an empty archive, whatever the other entries really hold.
\<close>

theorem zip_total_can_be_cancelled:
  "zip_total 0 (es @ [\<lparr>ze_Name = nm, ze_IsSymlink = False, ze_IsDir = False,
       ze_UncompressedSize64 = - sum_list (map ze_UncompressedSize64 (filter (\<lambda>e. \<not> ze_IsDir e) es)),
       ze_OpenError = oe, ze_Body = data, ze_BodyError = be\<rparr>])
   = (if list_ex ze_IsSymlink es then Inl (ErrorString ''archive contains unsupported symlink'') else Inr 0)"
proof -
  have "zip_total a (es @ [e]) = (if list_ex ze_IsSymlink es then Inl (ErrorString ''archive contains unsupported symlink'')
      else zip_total (a + sum_list (map ze_UncompressedSize64 (filter (\<lambda>e. \<not> ze_IsDir e) es))) [e])" for a e
    by (induction es arbitrary: a) (auto simp: add.assoc)
  then show ?thesis by simp
qed

end
