(* ===== verification/Backup.thy ===== *)
theory Backup
  imports GoArchive RecycleBin
begin

text \<open>
  The backup manager, \<open>internal/backup/manager.go\<close>: gzipped tar archives of cell directories under
  \<open><backupsDir>/<cellID>/<backupID>.tar.gz\<close>, made, listed, restored and read. The archive format is the
  \<open>codec\<close>, SHA-256 the function \<open>sha256\<close>, modification times the function \<open>mtime\<close> of a path; \<open>fuel\<close> bounds
  the depth of the walk over the source. Permission bits and \<open>Chtimes\<close> are outside the file system model.
\<close>

definition backupExtension :: string where "backupExtension = ''.tar.gz''"

record Backup =
  bk_ID :: string
  bk_Name :: string
  bk_ArchiveName :: string
  bk_Path :: string
  bk_Size :: int
  bk_Checksum :: string
  bk_ChecksumAlgorithm :: string
  bk_CreatedAt :: string
  bk_CompletedAt :: string

record BackupFileEntry =
  bf_Name :: string
  bf_Path :: string
  bf_IsDir :: bool
  bf_Size :: "64 word"

record BackupManager =
  bm_backupsDir :: string

definition NewBackupManager :: "string \<Rightarrow> BackupManager" where
  "NewBackupManager backupsDir = \<lparr>bm_backupsDir = backupsDir\<rparr>"

section \<open>Identifiers and paths\<close>

definition ident_char :: "char \<Rightarrow> bool" where
  "ident_char c \<longleftrightarrow>
     (let n = of_char c :: nat
      in 97 \<le> n \<and> n \<le> 122 \<or> 65 \<le> n \<and> n \<le> 90 \<or> 48 \<le> n \<and> n \<le> 57 \<or> c = CHR ''-'' \<or> c = CHR ''_'')"

definition validateIdentifier :: "string \<Rightarrow> go_error + unit" where
  "validateIdentifier v =
     (let value = TrimSpace v
      in if value = [] then Inl (ErrorString ''identifier is required'')
         else if length value > 128 then Inl (ErrorString ''identifier is too long'')
         else if value = ''.'' \<or> value = ''..'' then Inl (ErrorString ''invalid identifier'')
         else if list_all ident_char value then Inr ()
         else Inl (ErrorString ''identifier contains invalid characters''))"

definition ensurePathWithinBase :: "getwd \<Rightarrow> string \<Rightarrow> string \<Rightarrow> go_error + unit" where
  "ensurePathWithinBase d basePath targetPath =
     (case path_abs d basePath of
        Inl e \<Rightarrow> Inl e
      | Inr absBase \<Rightarrow>
          (case path_abs d targetPath of
             Inl e \<Rightarrow> Inl e
           | Inr absTarget \<Rightarrow>
               (case path_rel absBase absTarget of
                  Inl e \<Rightarrow> Inl e
                | Inr relative \<Rightarrow> if rel_escapes relative then Inl ErrInvalidBackupPath else Inr ())))"

definition cellBackupDirectory :: "BackupManager \<Rightarrow> string \<Rightarrow> go_error + string" where
  "cellBackupDirectory m cellID =
     (case validateIdentifier cellID of
        Inl e \<Rightarrow> Inl e
      | Inr _ \<Rightarrow> Inr (path_join [bm_backupsDir m, cellID]))"

text \<open>The checks of \<open>SafeBackupPath\<close> that need no file system, then the \<open>Stat\<close>.\<close>

definition backup_path :: "BackupManager \<Rightarrow> getwd \<Rightarrow> string \<Rightarrow> string \<Rightarrow> go_error + string" where
  "backup_path m d cellID backupID =
     (case validateIdentifier cellID of
        Inl e \<Rightarrow> Inl (WrapError ''invalid cell id'' e)
      | Inr _ \<Rightarrow>
          (case validateIdentifier backupID of
             Inl e \<Rightarrow> Inl ErrInvalidBackupID
           | Inr _ \<Rightarrow>
               (case cellBackupDirectory m cellID of
                  Inl e \<Rightarrow> Inl e
                | Inr baseDir \<Rightarrow>
                    (let fullPath = path_join [baseDir, backupID @ backupExtension]
                     in case ensurePathWithinBase d baseDir fullPath of
                          Inl e \<Rightarrow> Inl ErrInvalidBackupPath
                        | Inr _ \<Rightarrow> Inr fullPath))))"

definition SafeBackupPath :: "BackupManager \<Rightarrow> string \<Rightarrow> string \<Rightarrow> string os" where
  "SafeBackupPath m cellID backupID =
     with_path (\<lambda>d. backup_path m d cellID backupID) (\<lambda>fullPath.
     os_attempt (os_stat fullPath) (\<lambda>r. case r of
         Inl e \<Rightarrow> os_throw (if os_is_not_exist e then ErrBackupNotFound else e)
       | Inr info \<Rightarrow> if is_dir info then os_throw ErrBackupNotFound else os_return fullPath))"

definition backup_DownloadPath :: "BackupManager \<Rightarrow> string \<Rightarrow> string \<Rightarrow> string os" where
  "backup_DownloadPath m cellID backupID = SafeBackupPath m cellID backupID"

section \<open>Archive paths and ignored files\<close>

definition cleanArchivePath :: "string \<Rightarrow> go_error + string" where
  "cleanArchivePath p0 =
     (let p1 = ReplaceAll p0 [backslash] ''/'';
          p2 = TrimPrefix p1 ''/'';
          p3 = TrimSuffix p2 ''/'';
          p = path_clean p3
      in if p = ''.'' \<or> p = [] \<or> p = ''..'' \<or> HasPrefix p ''../'' \<or> Contains p [CHR 0x00]
         then Inl (ErrorString ''invalid file path in backup'') else Inr p)"

definition cleanRequestedArchivePath :: "string \<Rightarrow> go_error + string" where
  "cleanRequestedArchivePath p0 =
     (let p = TrimSpace p0
      in if p = [] then Inl (ErrorString ''backup path is required'') else cleanArchivePath p)"

definition normalise_ignored :: "string \<Rightarrow> string" where
  "normalise_ignored p = Trim (path_clean (TrimSpace (ReplaceAll p [backslash] ''/''))) ''/''"

definition keep_ignored :: "string \<Rightarrow> bool" where
  "keep_ignored p \<longleftrightarrow> \<not> (p = [] \<or> p = ''.'' \<or> p = ''..'' \<or> HasPrefix p ''../'')"

text \<open>The loop with its \<open>seen\<close> set keeps the first of equal paths; then they are sorted.\<close>

definition normaliseIgnoredFiles :: "string list \<Rightarrow> string list" where
  "normaliseIgnoredFiles ignoredFiles =
     sort (remdups (filter keep_ignored (map normalise_ignored ignoredFiles)))"

definition isIgnoredPath :: "string \<Rightarrow> string list \<Rightarrow> bool" where
  "isIgnoredPath p0 ignoredFiles =
     (let p = Trim (path_clean p0) ''/''
      in list_ex (\<lambda>ignoredPath. p = ignoredPath \<or> HasPrefix p (ignoredPath @ ''/'')) ignoredFiles)"

section \<open>Writing an archive\<close>

definition backup_visitor :: "string \<Rightarrow> string list \<Rightarrow> tar_item list visitor" where
  "backup_visitor sourceDirAbs ignoredFiles acc p info walkErr =
     (case walkErr of
        Some e \<Rightarrow> os_throw e
      | None \<Rightarrow>
          (case info of
             None \<Rightarrow> os_return acc
           | Some n \<Rightarrow>
               if p = sourceDirAbs then os_return acc
               else os_bind (os_lift (path_rel sourceDirAbs p)) (\<lambda>rel0.
                 let relativePath = path_clean rel0
                 in if isIgnoredPath relativePath ignoredFiles
                    then (if is_dir n then os_throw SkipDir else os_return acc)
                    else if is_link n then os_return acc
                    else if is_dir n
                    then os_return (acc @ [(if HasSuffix relativePath ''/'' then relativePath
                                            else relativePath @ ''/'', TypeDir, [])])
                    else (case n of
                        FileNode _ \<Rightarrow> os_bind (os_read_file p) (\<lambda>data.
                          os_return (acc @ [(relativePath, TypeReg, data)]))
                      | _ \<Rightarrow> os_return (acc @ [(relativePath, node_type n, [])])))))"

text \<open>The file is created exclusively first; its bytes are written as one call when the walk is over.\<close>

definition tarGzipFolder :: "codec \<Rightarrow> nat \<Rightarrow> string \<Rightarrow> string \<Rightarrow> string list \<Rightarrow> unit os" where
  "tarGzipFolder cd fuel sourceDir targetPath ignoredFiles =
     os_seq (os_create_excl targetPath)
    (os_bind (os_abs sourceDir) (\<lambda>sourceDirAbs.
     os_bind (filepath_Walk fuel sourceDirAbs (backup_visitor sourceDirAbs ignoredFiles) []) (\<lambda>items.
       os_write_file targetPath (gzip_tar_write cd items))))"

definition remove_and_fail :: "string \<Rightarrow> string \<Rightarrow> 'a os \<Rightarrow> 'a os" where
  "remove_and_fail targetPath msg m =
     os_attempt m (\<lambda>r. case r of
         Inl e \<Rightarrow> os_ignore (os_remove targetPath) (os_throw (WrapError msg e))
       | Inr x \<Rightarrow> os_return x)"

definition backup_Create ::
  "codec \<Rightarrow> (string \<Rightarrow> string) \<Rightarrow> (string \<Rightarrow> string) \<Rightarrow> nat \<Rightarrow> BackupManager \<Rightarrow> string \<Rightarrow> string \<Rightarrow> string
     \<Rightarrow> string \<Rightarrow> string list \<Rightarrow> Backup os" where
  "backup_Create cd sha256 mtime fuel m cellID backupID displayName sourceDir ignoredFiles =
     (case validateIdentifier cellID of
        Inl e \<Rightarrow> os_throw (WrapError ''invalid cell id'' e)
      | Inr _ \<Rightarrow>
     (case validateIdentifier backupID of
        Inl e \<Rightarrow> os_throw ErrInvalidBackupID
      | Inr _ \<Rightarrow>
     os_bind (os_wrap ''failed to inspect backup source'' (os_stat sourceDir)) (\<lambda>sourceInfo.
     if \<not> is_dir sourceInfo then os_throw (ErrorString ''backup source is not a directory'')
     else os_bind (os_lift (cellBackupDirectory m cellID)) (\<lambda>cellBackupDir.
     os_seq (os_wrap ''failed to create backup directory'' (os_mkdir_all cellBackupDir))
    (let archiveName = backupID @ backupExtension;
         targetPath = path_join [cellBackupDir, archiveName]
     in os_attempt (os_stat targetPath) (\<lambda>r. case r of
          Inr _ \<Rightarrow> os_throw (ErrorString ''backup archive already exists'')
        | Inl e \<Rightarrow>
            if \<not> os_is_not_exist e then os_throw e
            else os_seq (remove_and_fail targetPath ''failed to create backup archive''
                (tarGzipFolder cd fuel sourceDir targetPath (normaliseIgnoredFiles ignoredFiles)))
              (os_bind (remove_and_fail targetPath ''failed to inspect created backup''
                (os_stat targetPath)) (\<lambda>info.
               os_bind (remove_and_fail targetPath ''failed to calculate backup checksum''
                (os_read_file targetPath)) (\<lambda>bytes.
               os_return \<lparr>bk_ID = backupID, bk_Name = displayName, bk_ArchiveName = archiveName,
                 bk_Path = path_join [cellID, archiveName], bk_Size = node_size info,
                 bk_Checksum = sha256 bytes, bk_ChecksumAlgorithm = ''sha256'',
                 bk_CreatedAt = mtime targetPath, bk_CompletedAt = mtime targetPath\<rparr>)))))))))"

section \<open>Listing and deleting\<close>

fun list_backups ::
  "(string \<Rightarrow> string) \<Rightarrow> string \<Rightarrow> string \<Rightarrow> (string \<times> node) list \<Rightarrow> Backup list os" where
  "list_backups mtime cellBackupDir cellID [] = os_return []"
| "list_backups mtime cellBackupDir cellID ((c, n) # es) =
     (if is_dir n \<or> \<not> HasSuffix c backupExtension then list_backups mtime cellBackupDir cellID es
      else os_attempt (os_lstat (path_join [cellBackupDir, c])) (\<lambda>r. case r of
          Inl _ \<Rightarrow> list_backups mtime cellBackupDir cellID es
        | Inr info \<Rightarrow> os_bind (list_backups mtime cellBackupDir cellID es) (\<lambda>rest.
            let stamp = mtime (path_join [cellBackupDir, c])
            in os_return (\<lparr>bk_ID = TrimSuffix c backupExtension, bk_Name = TrimSuffix c backupExtension,
                 bk_ArchiveName = c, bk_Path = path_join [cellID, c], bk_Size = node_size info,
                 bk_Checksum = [], bk_ChecksumAlgorithm = [], bk_CreatedAt = stamp,
                 bk_CompletedAt = stamp\<rparr> # rest))))"

fun insert_backup :: "Backup \<Rightarrow> Backup list \<Rightarrow> Backup list" where
  "insert_backup x [] = [x]"
| "insert_backup x (y # ys) = (if bk_CreatedAt y > bk_CreatedAt x then y # insert_backup x ys else x # y # ys)"

definition sort_backups :: "Backup list \<Rightarrow> Backup list" where
  "sort_backups xs = foldr insert_backup xs []"

definition backup_List :: "(string \<Rightarrow> string) \<Rightarrow> BackupManager \<Rightarrow> string \<Rightarrow> Backup list os" where
  "backup_List mtime m cellID =
     os_bind (os_lift (cellBackupDirectory m cellID)) (\<lambda>cellBackupDir.
     os_attempt (os_read_dir cellBackupDir) (\<lambda>r.
       if not_exist r then os_return []
       else case r of
         Inl e \<Rightarrow> os_throw e
       | Inr entries \<Rightarrow> os_bind (list_backups mtime cellBackupDir cellID entries) (\<lambda>bs.
           os_return (sort_backups bs))))"

definition backup_Delete :: "BackupManager \<Rightarrow> string \<Rightarrow> string \<Rightarrow> unit os" where
  "backup_Delete m cellID backupID =
     os_bind (SafeBackupPath m cellID backupID) (\<lambda>p.
     os_attempt (os_remove p) (\<lambda>r. case r of
         Inl e \<Rightarrow> os_throw (if os_is_not_exist e then ErrBackupNotFound else e)
       | Inr _ \<Rightarrow> os_return ()))"

section \<open>Reading an archive\<close>

definition openTarGzip :: "codec \<Rightarrow> string \<Rightarrow> tar_stream os" where
  "openTarGzip cd archivePath =
     os_bind (os_read_file archivePath) (\<lambda>bytes. os_lift (gzip_tar_read cd bytes))"

definition extractTarEntry :: "tar_header \<Rightarrow> string \<Rightarrow> unit os" where
  "extractTarEntry h targetPath =
     (case th_Typeflag h of
        TypeDir \<Rightarrow> os_mkdir_all targetPath
      | TypeReg \<Rightarrow>
          os_seq (os_mkdir_all (path_dir targetPath))
         (os_seq (os_write_file targetPath (th_Body h))
         (case th_BodyError h of None \<Rightarrow> os_return () | Some e \<Rightarrow> os_throw e))
      | TypeLink \<Rightarrow> os_throw (ErrorString ''backup contains a symbolic or hard link'')
      | TypeOther \<Rightarrow> os_return ())"

definition archive_target :: "getwd \<Rightarrow> string \<Rightarrow> string \<Rightarrow> go_error + string" where
  "archive_target d targetAbs archivePath =
     (let targetPath = path_join [targetAbs, archivePath]
      in case ensurePathWithinBase d targetAbs targetPath of
           Inl e \<Rightarrow> Inl (ErrorString ''invalid file path in backup'')
         | Inr _ \<Rightarrow> Inr targetPath)"

fun extract_entries :: "string \<Rightarrow> tar_header list \<Rightarrow> go_error \<Rightarrow> unit os" where
  "extract_entries targetAbs [] stop = (if errors_is stop IoEOF then os_return () else os_throw stop)"
| "extract_entries targetAbs (h # hs) stop =
     os_bind (os_lift (cleanArchivePath (th_Name h))) (\<lambda>archiveEntryPath.
     with_path (\<lambda>d. archive_target d targetAbs archiveEntryPath) (\<lambda>targetPath.
       os_seq (extractTarEntry h targetPath) (extract_entries targetAbs hs stop)))"

definition extractTarGzip :: "codec \<Rightarrow> string \<Rightarrow> string \<Rightarrow> unit os" where
  "extractTarGzip cd archivePath targetDir =
     os_bind (os_abs targetDir) (\<lambda>targetAbs.
     os_bind (openTarGzip cd archivePath) (\<lambda>(hs, stop). extract_entries targetAbs hs stop))"

definition backup_Restore :: "codec \<Rightarrow> BackupManager \<Rightarrow> string \<Rightarrow> string \<Rightarrow> string \<Rightarrow> unit os" where
  "backup_Restore cd m cellID backupID targetDir =
     os_bind (SafeBackupPath m cellID backupID) (\<lambda>backupPath.
     os_seq (os_wrap ''failed to clear restore directory'' (os_remove_all targetDir))
    (os_seq (os_wrap ''failed to create restore directory'' (os_mkdir_all targetDir))
    (os_wrap ''failed to restore backup'' (extractTarGzip cd backupPath targetDir))))"

text \<open>An entry whose name does not clean is left out of the listing.\<close>

fun list_headers :: "tar_header list \<Rightarrow> go_error \<Rightarrow> go_error + BackupFileEntry list" where
  "list_headers [] stop = (if errors_is stop IoEOF then Inr [] else Inl stop)"
| "list_headers (h # hs) stop =
     (case list_headers hs stop of
        Inl e \<Rightarrow> Inl e
      | Inr rest \<Rightarrow>
          (case cleanArchivePath (th_Name h) of
             Inl _ \<Rightarrow> Inr rest
           | Inr cleanPath \<Rightarrow> Inr (\<lparr>bf_Name = path_base cleanPath, bf_Path = cleanPath,
               bf_IsDir = (th_Typeflag h = TypeDir), bf_Size = th_Size h\<rparr> # rest)))"

definition ListFiles :: "codec \<Rightarrow> BackupManager \<Rightarrow> string \<Rightarrow> string \<Rightarrow> BackupFileEntry list os" where
  "ListFiles cd m cellID backupID =
     os_bind (SafeBackupPath m cellID backupID) (\<lambda>backupPath.
     os_bind (openTarGzip cd backupPath) (\<lambda>(hs, stop). os_lift (list_headers hs stop)))"

fun find_file :: "string \<Rightarrow> tar_header list \<Rightarrow> go_error \<Rightarrow> go_error + string" where
  "find_file requestedPath [] stop =
     (if errors_is stop IoEOF then Inl (ErrorString ''file not found in backup'') else Inl stop)"
| "find_file requestedPath (h # hs) stop =
     (if cleanArchivePath (th_Name h) \<noteq> Inr requestedPath then find_file requestedPath hs stop
      else if th_Typeflag h = TypeDir then Inl (ErrorString ''cannot read a folder'')
      else if th_Typeflag h \<noteq> TypeReg then Inl (ErrorString ''cannot read this archive entry type'')
      else case th_BodyError h of Some e \<Rightarrow> Inl e | None \<Rightarrow> Inr (th_Body h))"

definition backup_ReadFile :: "codec \<Rightarrow> BackupManager \<Rightarrow> string \<Rightarrow> string \<Rightarrow> string \<Rightarrow> string os" where
  "backup_ReadFile cd m cellID backupID requested0 =
     os_bind (SafeBackupPath m cellID backupID) (\<lambda>backupPath.
     os_bind (os_lift (cleanRequestedArchivePath requested0)) (\<lambda>requestedPath.
     os_bind (openTarGzip cd backupPath) (\<lambda>(hs, stop). os_lift (find_file requestedPath hs stop))))"

fun extract_matching :: "string \<Rightarrow> string \<Rightarrow> bool \<Rightarrow> tar_header list \<Rightarrow> go_error \<Rightarrow> unit os" where
  "extract_matching targetAbs requestedPath found [] stop =
     (if \<not> errors_is stop IoEOF then os_throw stop
      else if \<not> found then os_throw (ErrorString ''path not found in backup'') else os_return ())"
| "extract_matching targetAbs requestedPath found (h # hs) stop =
     os_bind (os_lift (cleanArchivePath (th_Name h))) (\<lambda>archivePath.
     if archivePath \<noteq> requestedPath \<and> \<not> HasPrefix archivePath (requestedPath @ ''/'')
     then extract_matching targetAbs requestedPath found hs stop
     else with_path (\<lambda>d. archive_target d targetAbs archivePath) (\<lambda>targetPath.
       os_seq (extractTarEntry h targetPath) (extract_matching targetAbs requestedPath True hs stop)))"

definition ExtractPath :: "codec \<Rightarrow> BackupManager \<Rightarrow> string \<Rightarrow> string \<Rightarrow> string \<Rightarrow> string \<Rightarrow> unit os" where
  "ExtractPath cd m cellID backupID requested0 targetDir =
     os_bind (SafeBackupPath m cellID backupID) (\<lambda>backupPath.
     os_bind (os_lift (cleanRequestedArchivePath requested0)) (\<lambda>requestedPath.
     os_bind (os_abs targetDir) (\<lambda>targetAbs.
     os_bind (openTarGzip cd backupPath) (\<lambda>(hs, stop).
       extract_matching targetAbs requestedPath False hs stop))))"

section \<open>Identifiers and containment\<close>

lemma ident_char_props: "ident_char c \<Longrightarrow> c \<noteq> slash \<and> c \<noteq> CHR 0x00 \<and> c \<noteq> CHR ''.'' \<and> c \<noteq> backslash"
  by (auto simp: ident_char_def Let_def)

lemma validateIdentifier_iff:
  "validateIdentifier v = Inr () \<longleftrightarrow>
     1 \<le> length (TrimSpace v) \<and> length (TrimSpace v) \<le> 128 \<and> list_all ident_char (TrimSpace v)"
  by (auto simp: validateIdentifier_def Let_def ident_char_def Suc_le_eq)

lemma validateIdentifier_plain:
  assumes "validateIdentifier v = Inr ()"
  shows "plain v" "CHR 0x00 \<notin> set v"
proof -
  have t: "TrimSpace v \<noteq> []" "list_all ident_char (TrimSpace v)"
    using assms unfolding validateIdentifier_iff by auto
  then have "slash \<notin> set (TrimSpace v)" "CHR 0x00 \<notin> set (TrimSpace v)"
    using ident_char_props by (auto simp: list_all_iff)
  then have n: "slash \<notin> set v" "CHR 0x00 \<notin> set v"
    using TrimSpace_dropped [of v] space_bytes by blast+
  then show "CHR 0x00 \<notin> set v" by simp
  have "hd (TrimSpace v) \<noteq> CHR ''.''" "hd (TrimSpace v) \<in> set v"
    using t ident_char_props set_TrimSpace [of v] by (cases "TrimSpace v"; auto)+
  then have "v \<noteq> []" "v \<noteq> ''.''" "v \<noteq> ''..''" by auto
  with n show "plain v" by (auto intro: plainI)
qed

text \<open>
  An identifier is accepted exactly when, spaces at its ends aside, it is 1 to 128 characters of
  letters, digits, \<open>-\<close> and \<open>_\<close>; and an accepted identifier, used as it was given, is a single path
  component, neither \<open>.\<close> nor \<open>..\<close>, without slash or NUL byte.
\<close>

theorem validateIdentifier_correct:
  "(validateIdentifier v = Inr () \<longleftrightarrow>
     1 \<le> length (TrimSpace v) \<and> length (TrimSpace v) \<le> 128 \<and> list_all ident_char (TrimSpace v))
   \<and> (if validateIdentifier v = Inr () then plain v \<and> CHR 0x00 \<notin> set v else True)"
  using validateIdentifier_iff validateIdentifier_plain by simp

lemma ensurePathWithinBase_rooted:
  assumes "plains bs" "plains cs"
  shows "ensurePathWithinBase d (rooted bs) (rooted cs) = (if prefix bs cs then Inr () else Inl ErrInvalidBackupPath)"
proof -
  obtain r where r: "path_rel (rooted bs) (rooted cs) = Inr r" using path_rel_rooted [OF assms] by blast
  then show ?thesis
    using rel_escapes_iff [OF assms r] assms by (simp add: ensurePathWithinBase_def)
qed

lemma archive_target_rooted:
  assumes "plains bs"
  shows "archive_target d (rooted bs) p =
    (if prefix bs (descend bs p) then Inr (rooted (descend bs p))
     else Inl (ErrorString ''invalid file path in backup''))"
  using assms by (simp add: archive_target_def Let_def path_join_rooted ensurePathWithinBase_rooted)

interpretation backup_entry: path_guard archive_target
proof unfold_locales
  fix bs d req p
  assume "plains bs" "archive_target d (rooted bs) req = Inr p"
  then have "prefix bs (descend bs req) \<and> p = rooted (descend bs req) \<and> plains (descend bs req)"
    by (simp add: archive_target_rooted split: if_splits)
  then show "\<exists>cs. plains cs \<and> prefix bs cs \<and> p = rooted cs" by blast
qed

lemma plain_backup_name: "validateIdentifier v = Inr () \<Longrightarrow> plain (v @ backupExtension)"
  using validateIdentifier_plain [of v] by (auto simp: plain_def backupExtension_def append_eq_Cons_conv)

lemma backup_path_valid:
  assumes "bm_backupsDir m = rooted bs" "plains bs" "validateIdentifier cellID = Inr ()"
    "validateIdentifier backupID = Inr ()"
  shows "backup_path m d cellID backupID = Inr (rooted (bs @ [cellID, backupID @ backupExtension]))"
proof -
  have p: "plain cellID" "plain (backupID @ backupExtension)"
    using validateIdentifier_plain(1) [OF assms(3)] plain_backup_name [OF assms(4)] by auto
  have j: "path_join [rooted bs, cellID] = rooted (bs @ [cellID])"
    using assms(2) p by (simp add: path_join_rooted descend_plain)
  have "path_join [rooted (bs @ [cellID]), backupID @ backupExtension]
      = rooted (bs @ [cellID, backupID @ backupExtension])"
    using assms(2) p by (simp add: path_join_rooted descend_plain)
  with j show ?thesis
    using assms p by (simp add: backup_path_def cellBackupDirectory_def Let_def ensurePathWithinBase_rooted)
qed

text \<open>
  Whatever cell and backup identifiers a request carries, a path that \<open>SafeBackupPath\<close> computes is the
  file \<open><backupID>.tar.gz\<close> in the directory of that cell below the backups directory.
\<close>

theorem backup_path_inside:
  "case backup_path (NewBackupManager (rooted (clean_abs base))) d cellID backupID of
     Inl e \<Rightarrow> [validateIdentifier cellID, validateIdentifier backupID] \<noteq> [Inr (), Inr ()]
   | Inr p \<Rightarrow> p = rooted (clean_abs base @ [cellID, backupID @ backupExtension])
       \<and> within (rooted (clean_abs base)) p"
proof (cases "validateIdentifier cellID = Inr () \<and> validateIdentifier backupID = Inr ()")
  case True
  then have "plain cellID" "plain (backupID @ backupExtension)"
    using validateIdentifier_plain(1) plain_backup_name by auto
  with True show ?thesis
    using backup_path_valid [of "NewBackupManager (rooted (clean_abs base))" "clean_abs base" cellID backupID d]
    by (simp add: NewBackupManager_def)
next
  case False
  then show ?thesis
    by (cases "validateIdentifier cellID"; cases "validateIdentifier backupID") (auto simp: backup_path_def)
qed

lemma confined_extractTarEntry [confined_intros]:
  "plains cs \<Longrightarrow> prefix root cs \<Longrightarrow> confined root (extractTarEntry h (rooted cs))"
  unfolding extractTarEntry_def by (auto intro!: confined_intros split: tar_type.split option.split)

lemma confined_extract_entries [confined_intros]:
  "plains bs \<Longrightarrow> confined bs (extract_entries (rooted bs) hs stop)"
  by (induction hs) (auto intro!: backup_entry.confined_guarded confined_intros)

lemma confined_extract_matching [confined_intros]:
  "plains bs \<Longrightarrow> confined bs (extract_matching (rooted bs) p found hs stop)"
  by (induction hs arbitrary: found) (auto intro!: backup_entry.confined_guarded confined_intros)

lemma confined_openTarGzip [confined_intros]: "confined root (openTarGzip cd p)"
  unfolding openTarGzip_def by (intro confined_intros)

lemma confined_SafeBackupPath [confined_intros]: "confined root (SafeBackupPath m c b)"
  unfolding SafeBackupPath_def by (intro confined_with_path) (auto intro!: confined_intros split: sum.split)

lemma confined_extractTarGzip [confined_intros]:
  "plains bs \<Longrightarrow> confined bs (extractTarGzip cd p (rooted bs))"
  unfolding extractTarGzip_def by (auto intro!: confined_abs_bind confined_intros split: prod.split)

lemma confined_ExtractPath:
  "plains bs \<Longrightarrow> confined bs (ExtractPath cd m c b p (rooted bs))"
  unfolding ExtractPath_def
  by (intro confined_bind confined_SafeBackupPath confined_lift confined_abs_bind)
    (auto intro!: confined_intros split: prod.split)

end
