(* ===== verification/BackupProps.thy ===== *)
theory BackupProps
  imports Backup
begin

text \<open>
  Restoring and making backups: what a restore touches, what is lost when the archive cannot be read, and
  that restoring a backup gives back the files it was made from.
\<close>

section \<open>Clearing the directory of a cell\<close>

lemma remove_all_root:
  assumes "dir_at (files w) root" "plains root" "root \<noteq> []" "os_remove_all (rooted root) w = (Inr (), w1)"
  shows "files w1 = fs_cut root (files w) \<and> wd w1 = wd w"
proof -
  have "faults w (ticks w) = None" using assms(4) by (auto simp: os_remove_all_def os_call_def split: option.splits)
  moreover have "CHR 0x00 \<notin> set (rooted root)"
    using assms(4) calculation by (auto simp: os_remove_all_def os_call_def locate_def split: if_splits)
  ultimately show ?thesis
    using assms locate_solid_root [OF assms(1,2)] by (auto simp: os_remove_all_def os_call_def)
qed

lemma remove_all_fails:
  assumes "os_remove_all (rooted root) w = (Inl e, w1)" "root \<noteq> []" "dir_at (files w) root" "plains root"
  shows "files w1 = files w"
  using assms locate_solid_root [OF assms(3,4)]
  by (cases "CHR 0x00 \<in> set (rooted root)")
    (auto simp: os_remove_all_def os_call_def locate_def split: option.splits sum.splits if_splits)

text \<open>Once cleared, the directory can only be made again, empty.\<close>

definition cleared :: "fpath \<Rightarrow> fsys \<Rightarrow> fsys \<Rightarrow> bool" where
  "cleared root f g \<longleftrightarrow> agree_outside root f g \<and> (\<forall>r. r \<noteq> [] \<longrightarrow> fs_get g (root @ r) = None)"

lemma mkdir_after_clear:
  assumes "dir_at f root" "plains root" "root \<noteq> []" "files w = fs_cut root f"
    "os_mkdir_all (rooted root) w = (r, w1)"
  shows "wd w1 = wd w \<and> agree_outside root f (files w1)
    \<and> (r = Inr () \<longrightarrow> solid (files w1) root \<and> cleared root f (files w1))"
proof (cases "faults w (ticks w) = None \<and> CHR 0x00 \<notin> set (rooted root)")
  case True
  have cut: "fs_get (fs_cut root f) q = (if prefix root q then None else fs_get f q)" for q
    using assms(3) by simp
  obtain g where g: "mkdirs [] [] root (files w) = (Inr (), g)" "with_dirs root (files w) g"
  proof -
    have "fs_get (files w) ds = None \<or> fs_get (files w) ds = Some DirNode" if "prefix ds root" for ds
      using that assms(1,4) cut by (auto simp: dir_at_def)
    then show ?thesis using mkdirs_creates [of "[]" root "files w"] assms(2) that by auto
  qed
  have "os_mkdir_all (rooted root) w = (Inr (), w\<lparr>files := g, ticks := Suc (ticks w)\<rparr>)"
    using g(1) True assms(2) by (simp add: os_mkdir_all_def os_call_def)
  then have w1: "r = Inr ()" "files w1 = g" "wd w1 = wd w" using assms(5) by auto
  have get: "fs_get g q = (if prefix q root then Some DirNode else if prefix root q then None else fs_get f q)" for q
    using g(2) assms(4) cut by (auto simp: with_dirs_def)
  have "solid g root"
    using get by (auto simp: solid_def)
  moreover have "agree_outside root f g"
    using get assms(1) by (auto simp: agree_outside_def dir_at_def)
  moreover have "fs_get g (root @ r) = None" if "r \<noteq> []" for r
    using get [of "root @ r"] that by auto
  ultimately show ?thesis using w1 by (simp add: cleared_def)
next
  case False
  then have "files w1 = files w \<and> wd w1 = wd w \<and> r \<noteq> Inr ()"
    using assms(5) by (auto simp: os_mkdir_all_def os_call_def split: option.splits)
  moreover have "agree_outside root f (fs_cut root f)"
    using assms(3) by (simp add: agree_outside_cut)
  ultimately show ?thesis using assms(4) by simp
qed

lemma reads_SafeBackupPath: "reads_only (SafeBackupPath m c b)"
  unfolding SafeBackupPath_def by (auto intro!: reads_intros split: sum.split)

lemma confined_outside:
  assumes "confined root m" "solid (files w) root" "m w = (r, w1)"
  shows "agree_outside root (files w) (files w1)"
  using confinedD(1) [OF assms] .

text \<open>
  C9. Restoring a backup changes nothing outside the directory of the cell, whatever the archive holds and
  whichever calls fail, even when links have been put into that directory: it is removed and made again
  first. Only the path to the directory itself has to run through directories.
\<close>

theorem Restore_confined:
  assumes "dir_at (files w) (clean_abs dir)"
  shows "agree_outside (clean_abs dir) (files w)
    (files (snd (backup_Restore cd m cellID backupID (rooted (clean_abs dir)) w)))"
proof (cases "clean_abs dir = []")
  case True
  then show ?thesis by (simp add: agree_outside_def)
next
  case False
  let ?bs = "clean_abs dir"
  obtain r0 w0 where 0: "SafeBackupPath m cellID backupID w = (r0, w0)" by fastforce
  have f0: "files w0 = files w" by (rule reads_onlyD [OF reads_SafeBackupPath 0])
  obtain r1 w1 where 1: "os_remove_all (rooted ?bs) w0 = (r1, w1)" by fastforce
  obtain r2 w2 where 2: "os_mkdir_all (rooted ?bs) w1 = (r2, w2)" by fastforce
  have s0: "dir_at (files w0) ?bs" using assms f0 by simp
  have c1: "r1 = Inr () \<Longrightarrow> files w1 = fs_cut ?bs (files w0)"
    using remove_all_root [OF s0 plains_clean_abs False] 1 by simp
  have e1: "r1 = Inl e \<Longrightarrow> files w1 = files w0" for e
    using remove_all_fails [OF _ False s0 plains_clean_abs] 1 by simp
  show ?thesis
  proof (cases "r1 = Inr ()")
    case r1: True
    have m2: "agree_outside ?bs (files w0) (files w2) \<and> (r2 = Inr () \<longrightarrow> solid (files w2) ?bs)"
      using mkdir_after_clear [OF s0 plains_clean_abs False c1 [OF r1] 2] by simp
    have ext: "r2 = Inr () \<Longrightarrow> agree_outside ?bs (files w2) (files (snd (extractTarGzip cd p (rooted ?bs) w2)))" for p
      using confined_extractTarGzip [OF plains_clean_abs] m2 by (simp add: confined_def)
    show ?thesis
      using 0 1 2 r1 f0 m2 ext
      by (cases r0; cases r2)
        (auto simp: backup_Restore_def os_bind_def os_wrap_def split: prod.splits sum.splits
          intro: agree_outside_trans, (metis agree_outside_trans snd_conv)+)
  next
    case r1: False
    then obtain e where "r1 = Inl e" by (cases r1) auto
    then show ?thesis using 0 1 f0 e1
      by (cases r0) (auto simp: backup_Restore_def os_bind_def os_wrap_def)
  qed
qed

section \<open>What a backup holds\<close>

definition rel_of :: "fpath \<Rightarrow> fpath \<Rightarrow> string" where
  "rel_of root q = (case path_rel (rooted root) (rooted q) of Inl _ \<Rightarrow> [] | Inr r \<Rightarrow> path_clean r)"

definition skipped :: "fpath \<Rightarrow> string list \<Rightarrow> fpath \<Rightarrow> bool" where
  "skipped root ig q \<longleftrightarrow> q \<noteq> root \<and> isIgnoredPath (rel_of root q) ig"

definition entry_items :: "fpath \<Rightarrow> fpath \<times> node \<Rightarrow> tar_item list" where
  "entry_items root x = (case x of (q, n) \<Rightarrow>
     if q = root \<or> is_link n then []
     else if n = DirNode
     then [(if HasSuffix (rel_of root q) ''/'' then rel_of root q else rel_of root q @ ''/'', TypeDir, [])]
     else case n of FileNode data \<Rightarrow> [(rel_of root q, TypeReg, data)] | _ \<Rightarrow> [(rel_of root q, node_type n, [])])"

definition backup_items :: "nat \<Rightarrow> fsys \<Rightarrow> fpath \<Rightarrow> string list \<Rightarrow> tar_item list" where
  "backup_items fuel f root ig = concat (map (entry_items root) (tree fuel f (skipped root ig) root))"

lemma os_read_file_on_dirs:
  assumes "calm v" "on_dirs (files v) q" "fs_get (files v) q = Some (FileNode data)"
  shows "os_read_file (rooted q) v = (Inr data, v\<lparr>ticks := Suc (ticks v)\<rparr>)"
  using assms by (simp add: os_read_file_def os_call_calm fs_info_on_dirs)

lemma backup_visitor_visits:
  assumes "plains root"
  shows "visits f (backup_visitor (rooted root) ig) (skipped root ig) (\<lambda>acc x. Inr (acc @ entry_items root x))"
  unfolding visits_def
proof (intro conjI allI impI)
  fix v :: world and q info and acc :: "tar_item list"
  assume v: "calm v" "files v = f" "on_dirs f q" "fs_get f q = Some info"
  have q: "plains q" using v(3) by (simp add: on_dirs_def)
  obtain r where r: "path_rel (rooted root) (rooted q) = Inr r" using path_rel_rooted [OF assms q] by blast
  have rq: "rooted q = rooted root \<longleftrightarrow> q = root" using rooted_inject [OF q assms] .
  have rel: "path_clean r = rel_of root q" using r by (simp add: rel_of_def)
  have read: "info = FileNode data \<Longrightarrow> os_read_file (rooted q) v = (Inr data, v\<lparr>ticks := Suc (ticks v)\<rparr>)" for data
    using os_read_file_on_dirs v by auto
  have tick: "v\<lparr>ticks := ticks v\<rparr> = v" by simp
  note simps = backup_visitor_def os_bind_def os_lift_def os_return_def os_throw_def skipped_def
    entry_items_def is_dir_def is_link_def Let_def r rq rel tick node_type_def
  show "\<exists>t. backup_visitor (rooted root) ig acc (rooted q) (Some info) None v =
      (if skipped root ig q then if info = DirNode then Inl SkipDir else Inr acc
       else Inr (acc @ entry_items root (q, info)), v\<lparr>ticks := t\<rparr>)"
  proof (cases info)
    case (FileNode data)
    then show ?thesis
      using r rq rel read [OF FileNode] tick
      by (cases "q = root"; cases "isIgnoredPath (rel_of root q) ig")
        (auto simp: backup_visitor_def os_bind_def os_lift_def os_return_def skipped_def entry_items_def is_dir_def is_link_def
          intro: exI [of _ "ticks v"])
  next
    case DirNode
    show ?thesis
      by (rule exI [of _ "ticks v"]) (simp add: simps DirNode)
  next
    case (LinkNode t)
    show ?thesis
      by (rule exI [of _ "ticks v"]) (simp add: simps LinkNode)
  next
    case SpecialNode
    show ?thesis
      by (rule exI [of _ "ticks v"]) (simp add: simps SpecialNode)
  qed
qed simp

lemma fold_res_concat: "fold_res (\<lambda>acc x. Inr (acc @ h x)) a xs = Inr (a @ concat (map h xs))"
  by (induction xs arbitrary: a) auto

lemma backup_walk:
  assumes "calm v" "wf_names (files v)" "on_dirs (files v) root" "fs_get (files v) root \<noteq> None"
    "deep (files v) root fuel"
  obtains t where "filepath_Walk fuel (rooted root) (backup_visitor (rooted root) ig) [] v
    = (Inr (backup_items fuel (files v) root ig), v\<lparr>ticks := t\<rparr>)"
proof -
  have p: "plains root" using assms(3) by (simp add: on_dirs_def)
  obtain t where "filepath_Walk fuel (rooted root) (backup_visitor (rooted root) ig) [] v =
      (if skipped root ig root then Inr [] else fold_res (\<lambda>acc x. Inr (acc @ entry_items root x)) []
        (tree fuel (files v) (skipped root ig) root), v\<lparr>ticks := t\<rparr>)"
    by (rule filepath_Walk_tree [OF backup_visitor_visits [OF p] assms(2) refl assms(1,3,4,5)])
  then show ?thesis
    by (intro that [of t]) (simp add: skipped_def fold_res_concat backup_items_def)
qed

section \<open>Extracting what a backup holds\<close>

text \<open>
  \<open>holds E root h\<close>: below \<open>root\<close> the files \<open>h\<close> hold only entries of \<open>E\<close>, and no links.
  \<open>E\<close> is a tree: a function from paths to directories and files, closed under parents.
\<close>

definition is_tree :: "(fpath \<times> node) set \<Rightarrow> bool" where
  "is_tree E \<longleftrightarrow> (\<forall>p n n'. (p, n) \<in> E \<longrightarrow> (p, n') \<in> E \<longrightarrow> n = n')
     \<and> (\<forall>p n q. (p, n) \<in> E \<longrightarrow> q \<noteq> [] \<longrightarrow> strict_prefix q p \<longrightarrow> (q, DirNode) \<in> E)
     \<and> (\<forall>p n. (p, n) \<in> E \<longrightarrow> p \<noteq> [] \<and> plains p \<and> CHR 0x00 \<notin> set (rooted p) \<and> \<not> is_link n)"

definition holds :: "(fpath \<times> node) set \<Rightarrow> fpath \<Rightarrow> fsys \<Rightarrow> bool" where
  "holds E root h \<longleftrightarrow> solid h root \<and> (\<forall>p n. p \<noteq> [] \<longrightarrow> fs_get h (root @ p) = Some n \<longrightarrow> (p, n) \<in> E)"

lemma tree_fun: "is_tree E \<Longrightarrow> (p, n) \<in> E \<Longrightarrow> (p, n') \<in> E \<Longrightarrow> n = n'"
  unfolding is_tree_def by blast

lemma tree_parent: "is_tree E \<Longrightarrow> (p, n) \<in> E \<Longrightarrow> q \<noteq> [] \<Longrightarrow> strict_prefix q p \<Longrightarrow> (q, DirNode) \<in> E"
  unfolding is_tree_def by blast

lemma tree_entry: "is_tree E \<Longrightarrow> (p, n) \<in> E \<Longrightarrow> p \<noteq> [] \<and> plains p \<and> CHR 0x00 \<notin> set (rooted p) \<and> \<not> is_link n"
  unfolding is_tree_def by blast

lemma holdsD: "holds E root h \<Longrightarrow> p \<noteq> [] \<Longrightarrow> fs_get h (root @ p) = Some n \<Longrightarrow> (p, n) \<in> E"
  by (simp add: holds_def)

lemma holds_open:
  assumes "holds E root h" "is_tree E" "(p, DirNode) \<in> E" "plains root" "CHR 0x00 \<notin> set (rooted root)"
  shows "open_path h (root @ p)"
  unfolding open_path_def
proof (intro conjI allI impI)
  show "plains (root @ p)" "CHR 0x00 \<notin> set (rooted (root @ p))"
    using assms(2-5) by (auto simp: is_tree_def nul_rooted)
  fix ds assume ds: "prefix ds (root @ p)"
  show "fs_get h ds = None \<or> fs_get h ds = Some DirNode"
  proof (cases "prefix ds root")
    case True
    then show ?thesis using assms(1) by (simp add: holds_def solid_def)
  next
    case False
    with ds obtain us where us: "ds = root @ us" "prefix us p" "us \<noteq> []"
      unfolding prefix_append by auto
    have "(us, DirNode) \<in> E"
      using assms(2,3) us(2,3) unfolding is_tree_def strict_prefix_def by blast
    moreover have "fs_get h ds = Some n \<Longrightarrow> (us, n) \<in> E" for n
      using assms(1) us by (simp add: holds_def)
    ultimately show ?thesis using tree_fun [OF assms(2)] by (cases "fs_get h ds") auto
  qed
qed

lemma holds_with_dirs:
  assumes "holds E root h" "is_tree E" "p = [] \<or> (p, DirNode) \<in> E" "with_dirs (root @ p) h g"
  shows "holds E root g" "\<And>q n. q \<noteq> [] \<Longrightarrow> fs_get h (root @ q) = Some n \<Longrightarrow> fs_get g (root @ q) = Some n"
    "\<And>ds. prefix ds (root @ p) \<Longrightarrow> fs_get g ds = Some DirNode"
proof -
  have get: "fs_get g q = (if prefix q (root @ p) then Some DirNode else fs_get h q)" for q
    using assms(4) by (simp add: with_dirs_def)
  have inE: "(q, DirNode) \<in> E" if "prefix (root @ q) (root @ p)" "q \<noteq> []" for q
  proof (cases "q = p")
    case True
    with that(2) assms(3) show ?thesis by auto
  next
    case False
    with that(1) have "strict_prefix q p" by (simp add: strict_prefix_def)
    moreover from this have "(p, DirNode) \<in> E" using assms(3) by auto
    ultimately show ?thesis using assms(2) that(2) unfolding is_tree_def by blast
  qed
  have sol: "solid g root"
    using assms(1) get by (auto simp: holds_def solid_def)
  show "holds E root g"
    using assms(1) sol get inE by (auto simp: holds_def split: if_splits)
  show "fs_get g (root @ q) = Some n" if "q \<noteq> []" "fs_get h (root @ q) = Some n" for q n
  proof (cases "prefix (root @ q) (root @ p)")
    case True
    then have "n = DirNode"
      using tree_fun [OF assms(2) holdsD [OF assms(1) that]] inE that(1) by blast
    with True get show ?thesis by simp
  qed (use that(2) get in simp)
  show "fs_get g ds = Some DirNode" if "prefix ds (root @ p)" for ds using that get by simp
qed

text \<open>One entry of the archive.\<close>

definition header_for :: "fpath \<times> node \<Rightarrow> tar_header \<Rightarrow> bool" where
  "header_for x h \<longleftrightarrow> cleanArchivePath (th_Name h) = Inr (JoinWith slash (fst x)) \<and> th_BodyError h = None
     \<and> (case snd x of DirNode \<Rightarrow> th_Typeflag h = TypeDir
        | FileNode data \<Rightarrow> th_Typeflag h = TypeReg \<and> th_Body h = data
        | _ \<Rightarrow> th_Typeflag h = TypeOther)"

lemma with_dirs_inside:
  assumes "with_dirs (root @ p) f g" "holds E root f"
  shows "agree_outside root f g"
  using assms unfolding agree_outside_def with_dirs_def holds_def solid_def
  by (metis prefix_append prefix_def)

lemma entry_parent:
  assumes "is_tree E" "(p, n) \<in> E"
  shows "butlast p = [] \<or> (butlast p, DirNode) \<in> E"
proof -
  have "p \<noteq> []" using tree_entry [OF assms] by blast
  then have "strict_prefix (butlast p) p"
    by (metis append_butlast_last_id prefixI strict_prefixI' strict_prefix_def append_self_conv list.distinct(1))
  then show ?thesis using assms unfolding is_tree_def by blast
qed

lemma entry_parent_open:
  assumes "is_tree E" "(p, n) \<in> E" "holds E root h" "plains root" "CHR 0x00 \<notin> set (rooted root)"
  shows "open_path h (root @ butlast p)"
proof (cases "butlast p = []")
  case True
  then show ?thesis using assms(3-5) by (auto simp: open_path_def holds_def solid_def)
next
  case False
  then show ?thesis using holds_open [OF assms(3,1) _ assms(4,5)] entry_parent [OF assms(1,2)] by blast
qed

lemma on_dirs_entry_below:
  assumes "\<And>ds. prefix ds (root @ butlast p) \<Longrightarrow> fs_get g ds = Some DirNode" "p \<noteq> []" "plains (root @ p)"
    "CHR 0x00 \<notin> set (rooted (root @ p))"
  shows "on_dirs g (root @ p)"
  unfolding on_dirs_def
proof (intro conjI allI impI)
  fix ds assume "strict_prefix ds (root @ p)"
  moreover have "root @ p = (root @ butlast p) @ [last p]" using assms(2) by simp
  ultimately have "prefix ds (root @ butlast p)" by (metis prefix_snoc strict_prefix_def)
  then show "fs_get g ds = Some DirNode" by (rule assms(1))
qed (rule assms(3,4))+

text \<open>A regular file: its parents are made, then it is written.\<close>

lemma extract_regular:
  assumes "calm v" "holds E root (files v)" "is_tree E" "plains root" "CHR 0x00 \<notin> set (rooted root)"
    "header_for (p, FileNode data) h" "(p, FileNode data) \<in> E"
  obtains v' where "extractTarEntry h (rooted (root @ p)) v = (Inr (), v')" "calm v'" "wd v' = wd v"
    "holds E root (files v')" "agree_outside root (files v) (files v')"
    "\<And>q m. q \<noteq> [] \<Longrightarrow> fs_get (files v) (root @ q) = Some m \<Longrightarrow> fs_get (files v') (root @ q) = Some m"
    "fs_get (files v') (root @ p) = Some (FileNode data)"
proof -
  have p: "p \<noteq> []" "plains p" "CHR 0x00 \<notin> set (rooted p)" using tree_entry [OF assms(3,7)] by auto
  obtain g where g: "os_mkdir_all (rooted (root @ butlast p)) v = (Inr (), v\<lparr>files := g, ticks := Suc (ticks v)\<rparr>)"
    "with_dirs (root @ butlast p) (files v) g"
    by (rule os_mkdir_all_creates [OF assms(1) entry_parent_open [OF assms(3,7,2,4,5)]])
  note h = holds_with_dirs [OF assms(2,3) entry_parent [OF assms(3,7)] g(2)]
  let ?v = "v\<lparr>files := g, ticks := Suc (ticks v)\<rparr>" and ?q = "root @ p"
  have same: "m = FileNode data" if "(p, m) \<in> E" for m using tree_fun [OF assms(3) that assms(7)] .
  then have old: "fs_get g ?q = None \<or> fs_get g ?q = Some (FileNode data)"
    using holdsD [OF h(1) p(1)] by (cases "fs_get g ?q") auto
  have od: "on_dirs g ?q"
    by (rule on_dirs_entry_below [OF h(3) p(1)]) (use p assms(4,5) in \<open>auto simp: nul_rooted\<close>)
  have dir: "path_dir (rooted ?q) = rooted (root @ butlast p)"
    using p assms(4) by (simp add: path_dir_plains butlast_append)
  let ?g = "fs_put ?q (FileNode data) g"
  have ne: "?q \<noteq> []" using p(1) by simp
  have "os_write_file (rooted ?q) data ?v = (Inr (), ?v\<lparr>files := ?g, ticks := Suc (ticks ?v)\<rparr>)"
    using assms(1) od old by (auto simp: os_write_file_def os_call_calm locate_on_dirs)
  then have "extractTarEntry h (rooted ?q) v = (Inr (), ?v\<lparr>files := ?g, ticks := Suc (ticks ?v)\<rparr>)"
    using g(1) dir assms(6) by (simp add: header_for_def extractTarEntry_def os_bind_def os_return_def)
  moreover have "holds E root ?g" using h(1) assms(7) ne p(1) by (auto simp: holds_def solid_def)
  moreover have "agree_outside root (files v) ?g"
    using with_dirs_inside [OF g(2) assms(2)] ne by (auto simp: agree_outside_def)
  moreover have "fs_get ?g (root @ q) = Some m" if "q \<noteq> []" "fs_get (files v) (root @ q) = Some m" for q m
    using that same holdsD [OF assms(2) that] h(2) [OF that] ne by (cases "q = p") auto
  ultimately show ?thesis
    using ne assms(1) by (intro that [of "?v\<lparr>files := ?g, ticks := Suc (ticks ?v)\<rparr>"]) auto
qed

lemma extract_one:
  assumes "calm v" "holds E root (files v)" "is_tree E" "plains root" "CHR 0x00 \<notin> set (rooted root)"
    "header_for (p, n) h" "snd (p, n) = SpecialNode \<or> (p, n) \<in> E"
  obtains v' where "extractTarEntry h (rooted (root @ p)) v = (Inr (), v')" "calm v'" "wd v' = wd v"
    "holds E root (files v')" "agree_outside root (files v) (files v')"
    "\<And>q m. q \<noteq> [] \<Longrightarrow> fs_get (files v) (root @ q) = Some m \<Longrightarrow> fs_get (files v') (root @ q) = Some m"
    "n \<noteq> SpecialNode \<Longrightarrow> fs_get (files v') (root @ p) = Some n"
proof (cases n)
  case SpecialNode
  then have "extractTarEntry h (rooted (root @ p)) v = (Inr (), v)"
    using assms(6) by (simp add: header_for_def extractTarEntry_def os_return_def)
  with SpecialNode assms(1,2) show ?thesis by (intro that [of v]) auto
next
  case DirNode
  then have E: "(p, DirNode) \<in> E" using assms(7) by simp
  obtain g where g: "os_mkdir_all (rooted (root @ p)) v = (Inr (), v\<lparr>files := g, ticks := Suc (ticks v)\<rparr>)"
    "with_dirs (root @ p) (files v) g"
    by (rule os_mkdir_all_creates [OF assms(1) holds_open [OF assms(2,3) E assms(4,5)]])
  note h = holds_with_dirs [OF assms(2,3) disjI2 [OF E] g(2)]
  have "extractTarEntry h (rooted (root @ p)) v = (Inr (), v\<lparr>files := g, ticks := Suc (ticks v)\<rparr>)"
    using g(1) assms(6) DirNode by (simp add: header_for_def extractTarEntry_def)
  then show ?thesis
    using h(1,2) h(3) [of "root @ p"] with_dirs_inside [OF g(2) assms(2)] DirNode assms(1)
    by (intro that [of "v\<lparr>files := g, ticks := Suc (ticks v)\<rparr>"]) auto
next
  case (LinkNode t)
  then have "(p, LinkNode t) \<in> E" using assms(7) by simp
  then show ?thesis using tree_entry [OF assms(3)] by (force simp: is_link_def)
next
  case (FileNode data)
  then have "(p, FileNode data) \<in> E" "header_for (p, FileNode data) h" using assms(6,7) by auto
  then show ?thesis using extract_regular [OF assms(1-5)] that FileNode by metis
qed

lemma extract_all:
  assumes "is_tree E" "plains root" "CHR 0x00 \<notin> set (rooted root)" "list_all2 header_for xs hs"
    "\<forall>x \<in> set xs. (snd x = SpecialNode \<or> x \<in> E) \<and> plains (fst x)"
  shows "calm v \<Longrightarrow> holds E root (files v) \<Longrightarrow> \<exists>v'. extract_entries (rooted root) hs IoEOF v = (Inr (), v')
    \<and> holds E root (files v') \<and> agree_outside root (files v) (files v')
    \<and> (\<forall>q m. q \<noteq> [] \<longrightarrow> fs_get (files v) (root @ q) = Some m \<longrightarrow> fs_get (files v') (root @ q) = Some m)
    \<and> (\<forall>x \<in> set xs. snd x \<noteq> SpecialNode \<longrightarrow> fs_get (files v') (root @ fst x) = Some (snd x))"
  using assms(4,5)
proof (induction xs hs arbitrary: v rule: list_all2_induct)
  case Nil
  then show ?case by (simp add: os_return_def)
next
  case (Cons x xs h hs)
  obtain p n where x: "x = (p, n)" by fastforce
  have hx: "header_for (p, n) h" "snd (p, n) = SpecialNode \<or> (p, n) \<in> E" "plains p" using Cons x by auto
  obtain v1 where v1: "extractTarEntry h (rooted (root @ p)) v = (Inr (), v1)" "calm v1" "wd v1 = wd v"
    "holds E root (files v1)" "agree_outside root (files v) (files v1)"
    "\<And>q m. q \<noteq> [] \<Longrightarrow> fs_get (files v) (root @ q) = Some m \<Longrightarrow> fs_get (files v1) (root @ q) = Some m"
    "n \<noteq> SpecialNode \<Longrightarrow> fs_get (files v1) (root @ p) = Some n"
    by (rule extract_one [OF Cons.prems(1,2) assms(1,2,3) hx(1,2)]) blast
  obtain v2 where v2: "extract_entries (rooted root) hs IoEOF v1 = (Inr (), v2)"
    "holds E root (files v2)" "agree_outside root (files v1) (files v2)"
    "\<forall>q m. q \<noteq> [] \<longrightarrow> fs_get (files v1) (root @ q) = Some m \<longrightarrow> fs_get (files v2) (root @ q) = Some m"
    "\<forall>x \<in> set xs. snd x \<noteq> SpecialNode \<longrightarrow> fs_get (files v2) (root @ fst x) = Some (snd x)"
    using Cons.IH [OF v1(2,4)] Cons.prems(3) by auto
  have t: "archive_target d (rooted root) (JoinWith slash p) = Inr (rooted (root @ p))" for d
    using assms(2) hx(3) by (simp add: archive_target_rooted descend_JoinWith)
  have "extract_entries (rooted root) (h # hs) IoEOF v = (Inr (), v2)"
    using hx(1) t v1(1) v2(1) by (simp add: header_for_def os_bind_def os_lift_def)
  moreover have "n \<noteq> SpecialNode \<Longrightarrow> p \<noteq> []" using hx(2) assms(1) by (auto simp: is_tree_def)
  ultimately show ?case
    using v1 v2 x agree_outside_trans [OF v1(5) v2(3)] by auto
qed

section \<open>The names in an archive\<close>

lemma rel_of_below: "plains root \<Longrightarrow> plains p \<Longrightarrow> p \<noteq> [] \<Longrightarrow> rel_of root (root @ p) = JoinWith slash p"
  using strip_common_append [of root "[]" p]
  by (simp add: rel_of_def path_rel_rooted path_clean_plains)

lemma JoinWith_no_slash_end:
  assumes "plains p" "p \<noteq> []"
  shows "\<not> HasSuffix (JoinWith slash p) ''/''"
proof -
  obtain ps c where p: "p = ps @ [c]" using assms(2) by (cases p rule: rev_cases) auto
  then have c: "c \<noteq> []" "slash \<notin> set c" using assms(1) by (auto dest: plain_props)
  then have l: "last c \<noteq> slash" by (metis last_in_set)
  have "last (JoinWith slash p) = last c"
    using c unfolding p by (cases "ps = []") (auto simp: JoinWith_append)
  moreover have "JoinWith slash p \<noteq> []"
    using c unfolding p by (cases "ps = []") (auto simp: JoinWith_append)
  ultimately show ?thesis using l by (auto simp: HasSuffix_def suffix_def)
qed

lemma cleanArchivePath_join:
  assumes "plains p" "p \<noteq> []" "CHR 0x00 \<notin> set (rooted p)" "\<forall>c \<in> set p. backslash \<notin> set c"
  shows "cleanArchivePath (JoinWith slash p) = Inr (JoinWith slash p)"
    "cleanArchivePath (JoinWith slash p @ ''/'') = Inr (JoinWith slash p)"
proof -
  let ?j = "JoinWith slash p"
  have s: "safeRelativePath ?j = Inr ?j" using assms(1,2) by (rule safeRelativePath_plains)
  have cl: "path_clean ?j = ?j" using assms(1,2) by (rule path_clean_plains)
  have tp: "TrimPrefix ?j ''/'' = ?j" "?j \<noteq> []" "?j \<noteq> ''.''" "?j \<noteq> ''..''" "\<not> HasPrefix ?j ''../''"
    using s cl by (auto simp: safeRelativePath_def Let_def split: if_splits)
  have bs: "backslash \<notin> set ?j" using assms(4) set_JoinWith [of slash p] by auto
  have nul: "CHR 0x00 \<notin> set ?j" using assms(3) by (simp add: rooted_def)
  have ct: "\<not> Contains ?j [CHR 0x00]"
  proof
    assume "Contains ?j [CHR 0x00]"
    then obtain a b where "?j = a @ [CHR 0x00] @ b" by (auto simp: Contains_iff)
    then have "CHR 0x00 \<in> set ?j" by simp
    with nul show False by simp
  qed
  have ts: "TrimSuffix ?j ''/'' = ?j"
    using JoinWith_no_slash_end [OF assms(1,2)] by (simp add: TrimSuffix_def HasSuffix_def)
  show "cleanArchivePath ?j = Inr ?j"
    using tp cl ts ct ReplaceAll_absent [OF bs] by (simp add: cleanArchivePath_def Let_def)
  have "\<not> HasPrefix ?j ''/''"
    using tp(1,2) by (cases ?j) (auto simp: TrimPrefix_def HasPrefix_def split: if_splits)
  then have tp2: "TrimPrefix (?j @ ''/'') ''/'' = ?j @ ''/''"
    using tp(2) by (cases ?j) (auto simp: TrimPrefix_def HasPrefix_def)
  have bs2: "backslash \<notin> set (?j @ ''/'')" using bs by simp
  show "cleanArchivePath (?j @ ''/'') = Inr ?j"
    using tp cl ts ct tp2 TrimSuffix_append [of ?j "''/''"] ReplaceAll_absent [OF bs2]
    by (simp add: cleanArchivePath_def Let_def)
qed

lemma entry_items_headers:
  assumes "plains root" "\<forall>(q, n) \<in> set xs. prefix root q \<and> plains q \<and> CHR 0x00 \<notin> set (rooted q)
      \<and> (\<forall>c \<in> set (drop (length root) q). backslash \<notin> set c)"
  shows "list_all2 header_for
    (map (\<lambda>(q, n). (drop (length root) q, n)) (filter (\<lambda>(q, n). q \<noteq> root \<and> \<not> is_link n) xs))
    (map header_of (concat (map (entry_items root) xs)))"
  using assms(2)
proof (induction xs)
  case (Cons x xs)
  obtain q n where x: "x = (q, n)" by fastforce
  then obtain p where p: "q = root @ p" using Cons.prems by (auto simp: prefix_def)
  have q: "plains p" "CHR 0x00 \<notin> set (rooted p)" "\<forall>c \<in> set p. backslash \<notin> set c"
    using Cons.prems x p by (auto simp: nul_rooted)
  have IH: "list_all2 header_for
    (map (\<lambda>(q, n). (drop (length root) q, n)) (filter (\<lambda>(q, n). q \<noteq> root \<and> \<not> is_link n) xs))
    (map header_of (concat (map (entry_items root) xs)))" using Cons by auto
  show ?case
  proof (cases "p = [] \<or> is_link n")
    case True
    then have "entry_items root x = []" using x p by (simp add: entry_items_def)
    then show ?thesis using IH x p True by auto
  next
    case False
    then have rel: "rel_of root q = JoinWith slash p" using rel_of_below assms(1) q(1) p by simp
    have ns: "\<not> HasSuffix (JoinWith slash p) ''/''" using JoinWith_no_slash_end q(1) False by simp
    note cl = cleanArchivePath_join [OF q(1) _ q(2,3)]
    have "\<exists>i. entry_items root x = [i] \<and> header_for (p, n) (header_of i)"
      using False x p rel ns cl
      by (cases n) (auto simp: entry_items_def header_for_def header_of_def node_type_def is_link_def)
    then show ?thesis using IH x p False by auto
  qed
qed simp

section \<open>Making a backup and restoring it\<close>

lemma tree_cong:
  "(\<And>q. prefix r q \<Longrightarrow> fs_get f q = fs_get g q) \<Longrightarrow> tree n f skip r = tree n g skip r"
proof (induction n arbitrary: r)
  case (Suc n)
  have "set (fs_children f r) = set (fs_children g r)" using Suc.prems by (auto simp: fs_children_iff)
  moreover have "sorted (fs_children h r) \<and> distinct (fs_children h r)" for h by (simp add: fs_children_def)
  ultimately have ch: "fs_children f r = fs_children g r" using sorted_distinct_set_unique by blast
  have "tree n f skip (r @ [c]) = tree n g skip (r @ [c])" for c
    by (rule Suc.IH) (use Suc.prems append_prefixD in blast)
  then show ?case using Suc.prems [of r] ch by (auto simp: tree.simps split: option.split)
qed (simp add: tree.simps)

definition backup_at :: "fpath \<Rightarrow> string \<Rightarrow> string \<Rightarrow> fpath" where
  "backup_at bd cellID backupID = bd @ [cellID, backupID @ backupExtension]"

text \<open>The situation of a new backup: a readable cell directory, a place for the archive outside of it.\<close>

definition backup_ready ::
  "fsys \<Rightarrow> fpath \<Rightarrow> nat \<Rightarrow> BackupManager \<Rightarrow> fpath \<Rightarrow> string \<Rightarrow> string \<Rightarrow> bool" where
  "backup_ready f root fuel m bd cellID backupID \<longleftrightarrow>
     wf_names f \<and> dir_at f root \<and> plains root \<and> CHR 0x00 \<notin> set (rooted root) \<and> root \<noteq> [] \<and> deep f root fuel
     \<and> bm_backupsDir m = rooted bd \<and> validateIdentifier cellID = Inr () \<and> validateIdentifier backupID = Inr ()
     \<and> open_path f (bd @ [cellID]) \<and> fs_get f (backup_at bd cellID backupID) = None
     \<and> \<not> prefix root (bd @ [cellID])"

definition archived :: "codec \<Rightarrow> tar_item list \<Rightarrow> fpath \<Rightarrow> string \<Rightarrow> string \<Rightarrow> fsys \<Rightarrow> fsys \<Rightarrow> bool" where
  "archived cd items bd cellID backupID f g \<longleftrightarrow>
     (\<forall>q. fs_get g q = (if q = backup_at bd cellID backupID then Some (FileNode (gzip_tar_write cd items))
        else if prefix q (bd @ [cellID]) then Some DirNode else fs_get f q))"

lemma backup_at_props:
  assumes "backup_ready f root fuel m bd cellID backupID"
  shows "plains (backup_at bd cellID backupID)" "CHR 0x00 \<notin> set (rooted (backup_at bd cellID backupID))"
    "\<not> prefix root (backup_at bd cellID backupID)"
    "\<And>d. backup_path m d cellID backupID = Inr (rooted (backup_at bd cellID backupID))"
    "cellBackupDirectory m cellID = Inr (rooted (bd @ [cellID]))"
    "path_join [rooted (bd @ [cellID]), backupID @ backupExtension] = rooted (backup_at bd cellID backupID)"
proof -
  have v: "validateIdentifier cellID = Inr ()" "validateIdentifier backupID = Inr ()"
    and m: "bm_backupsDir m = rooted bd" and bd: "plains (bd @ [cellID])" "CHR 0x00 \<notin> set (rooted (bd @ [cellID]))"
    using assms by (auto simp: backup_ready_def open_path_def)
  have p: "plain cellID" "plain (backupID @ backupExtension)" using bd plain_backup_name [OF v(2)] by auto
  show "plains (backup_at bd cellID backupID)" using bd p by (simp add: backup_at_def)
  show "CHR 0x00 \<notin> set (rooted (backup_at bd cellID backupID))"
    using bd(2) validateIdentifier_plain(2) [OF v(2)]
    by (auto simp: backup_at_def nul_rooted backupExtension_def)
  have "backup_at bd cellID backupID = (bd @ [cellID]) @ [backupID @ backupExtension]" by (simp add: backup_at_def)
  then have "prefix root (backup_at bd cellID backupID) \<longleftrightarrow> root = backup_at bd cellID backupID \<or> prefix root (bd @ [cellID])"
    by (metis prefix_snoc)
  moreover have "root \<noteq> backup_at bd cellID backupID"
    using assms by (auto simp: backup_ready_def dir_at_def)
  ultimately show "\<not> prefix root (backup_at bd cellID backupID)"
    using assms by (auto simp: backup_ready_def)
  show "backup_path m d cellID backupID = Inr (rooted (backup_at bd cellID backupID))" for d
    unfolding backup_at_def using backup_path_valid [OF m] bd v by simp
  show "cellBackupDirectory m cellID = Inr (rooted (bd @ [cellID]))"
    using v m bd p by (simp add: cellBackupDirectory_def path_join_rooted descend_plain)
  show "path_join [rooted (bd @ [cellID]), backupID @ backupExtension] = rooted (backup_at bd cellID backupID)"
    using bd p by (simp add: backup_at_def path_join_rooted descend_plain)
qed

lemma on_dirs_sub:
  assumes "open_path f p" "with_dirs p f g" "plain c" "CHR 0x00 \<notin> set c"
  shows "on_dirs g (p @ [c])"
  using assms by (auto simp: on_dirs_def open_path_def with_dirs_def nul_rooted strict_prefix_def)

text \<open>Making directories outside of a tree, and one file, leaves a well-formed file system and the tree.\<close>

lemma wf_with_dirs:
  assumes "wf_names f" "open_path f d" "with_dirs d f g"
  shows "wf_names g"
  unfolding wf_names_def
proof (intro allI impI)
  fix q assume q: "fs_get g q \<noteq> None"
  show "plains q \<and> CHR 0x00 \<notin> set (rooted q)"
  proof (cases "prefix q d")
    case True
    then have "plains q" "set q \<subseteq> set d"
      using assms(2) plains_prefix set_mono_prefix unfolding open_path_def by blast+
    then show ?thesis using assms(2) unfolding open_path_def nul_rooted by blast
  next
    case False
    then have "fs_get f q \<noteq> None" using q assms(3) by (simp add: with_dirs_def)
    then show ?thesis using wf_namesD [OF assms(1)] by blast
  qed
qed

lemma wf_put_file:
  assumes "wf_names g" "plains p" "CHR 0x00 \<notin> set (rooted p)" "p \<noteq> []"
  shows "wf_names (fs_put p n g)"
  using assms by (auto simp: wf_names_def split: if_splits)

text \<open>The archive: an empty file that the walk does not meet, then its text.\<close>

lemma tarGzipFolder_writes:
  fixes v :: world
  assumes "calm v" "files v = g" "wf_names g" "dir_at g root" "plains root" "CHR 0x00 \<notin> set (rooted root)" "deep g root fuel"
    "on_dirs g p" "p \<noteq> []" "fs_get g p = None" "\<not> prefix root p"
  obtains t where "tarGzipFolder cd fuel (rooted root) (rooted p) ig v = (Inr (), v\<lparr>files :=
    fs_put p (FileNode (gzip_tar_write cd (backup_items fuel g root ig))) (fs_put p (FileNode []) g), ticks := t\<rparr>)"
proof -
  let ?g1 = "fs_put p (FileNode []) g" and ?t = "\<lambda>f n. v\<lparr>files := f, ticks := n\<rparr>"
  let ?data = "gzip_tar_write cd (backup_items fuel g root ig)"
  have below: "fs_get ?g1 q = fs_get g q" if "q \<noteq> p" for q using that assms(9) by simp
  have apart: "q \<noteq> p" if "prefix root q" for q using that assms(11) by blast
  have wf1: "wf_names ?g1" using wf_put_file [OF assms(3)] assms(8,9) by (simp add: on_dirs_def)
  have dirs: "fs_get ?g1 q = Some DirNode" if "prefix q root" for q
    using that assms(4,9,10) by (auto simp: dir_at_def)
  then have od1: "on_dirs ?g1 root" using assms(5,6) by (auto simp: on_dirs_def strict_prefix_def)
  have deep1: "deep ?g1 root fuel" using assms(7) below apart by (simp add: deep_def)
  have items: "backup_items fuel ?g1 root ig = backup_items fuel g root ig"
    unfolding backup_items_def using tree_cong [of root ?g1 g] below apart by simp
  obtain t where walk: "filepath_Walk fuel (rooted root) (backup_visitor (rooted root) ig) [] (?t ?g1 (Suc (ticks v)))
      = (Inr (backup_items fuel g root ig), ?t ?g1 t)"
    using backup_walk [of "?t ?g1 (Suc (ticks v))" root fuel ig] assms(1) wf1 od1 dirs deep1 items by auto
  have make: "os_create_excl (rooted p) v = (Inr (), ?t ?g1 (Suc (ticks v)))"
    using assms(1,2,8,10) by (simp add: os_create_excl_def os_call_calm locate_on_dirs)
  have "on_dirs ?g1 p" using assms(8,9) by (auto simp: on_dirs_def strict_prefix_def)
  then have "os_write_file (rooted p) ?data (?t ?g1 t) = (Inr (), ?t (fs_put p (FileNode ?data) ?g1) (Suc t))"
    using assms(1,9) by (simp add: os_write_file_def os_call_calm locate_on_dirs)
  with make walk assms(5) show ?thesis
    by (intro that [of "Suc t"]) (simp add: tarGzipFolder_def os_bind_def os_abs_def)
qed

lemma backup_Create_archives:
  fixes w :: world
  assumes "calm w" "backup_ready (files w) root fuel m bd cellID backupID"
  obtains w1 b where
    "backup_Create cd digest mtime fuel m cellID backupID nm (rooted root) ig w = (Inr b, w1)"
    "calm w1" "wd w1 = wd w"
    "archived cd (backup_items fuel (files w) root (normaliseIgnoredFiles ig)) bd cellID backupID (files w) (files w1)"
proof -
  let ?f = "files w" and ?at = "backup_at bd cellID backupID" and ?d = "bd @ [cellID]" and ?ig = "normaliseIgnoredFiles ig"
  note at = backup_at_props [OF assms(2)]
  have r: "wf_names ?f" "dir_at ?f root" "plains root" "CHR 0x00 \<notin> set (rooted root)" "deep ?f root fuel"
    "validateIdentifier cellID = Inr ()" "validateIdentifier backupID = Inr ()" "open_path ?f ?d"
    "fs_get ?f ?at = None" "\<not> prefix root ?d"
    using assms(2) by (auto simp: backup_ready_def)
  let ?t = "\<lambda>f n. w\<lparr>files := f, ticks := n\<rparr>" and ?data = "gzip_tar_write cd (backup_items fuel ?f root ?ig)"
  have calm: "calm (?t f n)" for f n using assms(1) by simp
  have s1: "os_stat (rooted root) w = (Inr DirNode, ?t ?f (Suc (ticks w)))"
    using os_stat_on_dirs [OF assms(1) dir_at_on_dirs [OF r(2-4)]] r(2) by (simp add: dir_at_def)
  obtain g where g: "os_mkdir_all (rooted ?d) (?t ?f (Suc (ticks w))) = (Inr (), ?t g (Suc (Suc (ticks w))))"
    "with_dirs ?d ?f g"
    using os_mkdir_all_creates [OF calm, of "Suc (ticks w)" ?f ?d] r(8) by auto
  have get: "fs_get g q = (if prefix q ?d then Some DirNode else fs_get ?f q)" for q
    using g(2) by (simp add: with_dirs_def)
  have at_snoc: "?at = ?d @ [backupID @ backupExtension]" and ne: "?at \<noteq> []" by (simp_all add: backup_at_def)
  have og: "on_dirs g ?at"
    unfolding at_snoc by (rule on_dirs_sub [OF r(8) g(2)]) (use at(1,2) in \<open>auto simp: at_snoc nul_rooted\<close>)
  have free: "fs_get g ?at = None" using get r(9) prefix_length_le [of ?at ?d] by (auto simp: backup_at_def)
  have below: "fs_get g q = fs_get ?f q" if "prefix root q" for q
  proof -
    have "\<not> prefix q ?d" using r(10) prefix_order.trans [OF that] by blast
    then show ?thesis by (simp add: get)
  qed
  have tree: "deep g root fuel" "dir_at g root" "backup_items fuel g root ?ig = backup_items fuel ?f root ?ig"
    using r(2,5) below get tree_cong [of root g ?f] by (auto simp: deep_def dir_at_def backup_items_def)
  obtain t where tar: "tarGzipFolder cd fuel (rooted root) (rooted ?at) ?ig (?t g (Suc (Suc (Suc (ticks w)))))
      = (Inr (), ?t (fs_put ?at (FileNode ?data) (fs_put ?at (FileNode []) g)) t)"
    using tarGzipFolder_writes [OF calm, of _ g g root fuel ?at cd ?ig] wf_with_dirs [OF r(1,8) g(2)] tree r(3,4) og ne free at(3)
    by auto
  let ?g2 = "fs_put ?at (FileNode ?data) (fs_put ?at (FileNode []) g)"
  have s2: "os_stat (rooted ?at) (?t g (Suc (Suc (ticks w)))) = (Inl SysNotExist, ?t g (Suc (Suc (Suc (ticks w)))))"
    using os_stat_on_dirs [OF calm, of _ g ?at] og free by simp
  have o2: "on_dirs ?g2 ?at" using og ne by (auto simp: on_dirs_def strict_prefix_def)
  have s4: "os_stat (rooted ?at) (?t ?g2 t) = (Inr (FileNode ?data), ?t ?g2 (Suc t))"
    using os_stat_on_dirs [OF calm, of t ?g2 ?at] o2 ne by simp
  have s5: "os_read_file (rooted ?at) (?t ?g2 (Suc t)) = (Inr ?data, ?t ?g2 (Suc (Suc t)))"
    using os_read_file_on_dirs [OF calm, of "Suc t" ?g2 ?at] o2 ne by simp
  have "\<exists>b. backup_Create cd digest mtime fuel m cellID backupID nm (rooted root) ig w = (Inr b, ?t ?g2 (Suc (Suc t)))"
    using r(6,7) s1 at(5,6) g(1) s2 tar s4 s5
    by (simp add: backup_Create_def os_bind_def os_wrap_def os_lift_def os_attempt_def os_is_not_exist_def
        remove_and_fail_def os_return_def is_dir_def Let_def)
  moreover have "archived cd (backup_items fuel ?f root ?ig) bd cellID backupID ?f ?g2"
    using get ne unfolding archived_def by simp
  ultimately show ?thesis using calm that by auto
qed

text \<open>What a restore should give back: the directories and regular files no ignored path covers.\<close>

definition kept :: "string list \<Rightarrow> fpath \<Rightarrow> bool" where
  "kept ig p \<longleftrightarrow> list_all (\<lambda>q. q = [] \<or> \<not> isIgnoredPath (JoinWith slash q) (normaliseIgnoredFiles ig)) (prefixes p)"

definition restorable :: "node option \<Rightarrow> node option" where
  "restorable n = (case n of Some DirNode \<Rightarrow> Some DirNode | Some (FileNode d) \<Rightarrow> Some (FileNode d) | _ \<Rightarrow> None)"

definition saved_entries :: "nat \<Rightarrow> fsys \<Rightarrow> fpath \<Rightarrow> string list \<Rightarrow> (fpath \<times> node) set" where
  "saved_entries fuel f root ig = {(p, n). p \<noteq> [] \<and> n \<noteq> SpecialNode \<and> \<not> is_link n
     \<and> (root @ p, n) \<in> set (tree fuel f (skipped root ig) root)}"

lemma skipped_below:
  "plains root \<Longrightarrow> plains p \<Longrightarrow> skipped root ig (root @ p) \<longleftrightarrow> p \<noteq> [] \<and> isIgnoredPath (JoinWith slash p) ig"
  by (cases "p = []") (auto simp: skipped_def rel_of_below)

lemma saved_entries_tree:
  assumes "plains root" "wf_names f"
  shows "is_tree (saved_entries fuel f root ig)"
  unfolding is_tree_def
proof (intro conjI allI impI)
  fix p n n' assume "(p, n) \<in> saved_entries fuel f root ig" "(p, n') \<in> saved_entries fuel f root ig"
  then show "n = n'" by (auto simp: saved_entries_def tree_iff [OF assms(2)])
next
  fix p n q assume E: "(p, n) \<in> saved_entries fuel f root ig" and q: "q \<noteq> []" "strict_prefix q p"
  have t: "length (root @ p) < length root + fuel"
      "\<And>r. prefix root r \<Longrightarrow> prefix r (root @ p) \<Longrightarrow> \<not> skipped root ig r \<and> (r = root @ p \<or> fs_get f r = Some DirNode)"
    using E by (auto simp: saved_entries_def tree_iff [OF assms(2)])
  have qp: "prefix (root @ q) (root @ p)" "root @ q \<noteq> root @ p" "length q < length p"
    using q(2) prefix_length_less by (auto simp: strict_prefix_def)
  then have d: "fs_get f (root @ q) = Some DirNode" using t(2) [of "root @ q"] by simp
  moreover have "\<not> skipped root ig r \<and> (r = root @ q \<or> fs_get f r = Some DirNode)"
    if "prefix root r" "prefix r (root @ q)" for r
  proof -
    have "prefix r (root @ p)" using that(2) qp(1) prefix_order.trans by blast
    moreover have "r \<noteq> root @ p" using prefix_length_le [OF that(2)] qp(3) by auto
    ultimately show ?thesis using t(2) [OF that(1)] by blast
  qed
  ultimately show "(q, DirNode) \<in> saved_entries fuel f root ig"
    using t(1) qp(3) q(1) by (auto simp: saved_entries_def tree_iff [OF assms(2)] is_link_def)
next
  fix p n assume E: "(p, n) \<in> saved_entries fuel f root ig"
  then have "fs_get f (root @ p) \<noteq> None" by (auto simp: saved_entries_def tree_iff [OF assms(2)])
  from wf_namesD [OF assms(2) this] show "plains p" "CHR 0x00 \<notin> set (rooted p)" by (auto simp: nul_rooted)
  show "p \<noteq> []" "\<not> is_link n" using E by (auto simp: saved_entries_def)
qed

lemma saved_entries_iff:
  assumes "plains root" "wf_names f" "connected f" "dir_at f root" "deep f root fuel" "p \<noteq> []"
  shows "(p, n) \<in> saved_entries fuel f root (normaliseIgnoredFiles ig) \<longleftrightarrow>
    kept ig p \<and> restorable (fs_get f (root @ p)) = Some n"
proof -
  let ?ig = "normaliseIgnoredFiles ig"
  have r: "restorable (fs_get f (root @ p)) = Some n \<longleftrightarrow>
      fs_get f (root @ p) = Some n \<and> n \<noteq> SpecialNode \<and> \<not> is_link n"
    by (auto simp: restorable_def is_link_def split: option.splits node.splits)
  have "(\<forall>r. prefix root r \<longrightarrow> prefix r (root @ p) \<longrightarrow> \<not> skipped root ?ig r \<and> (r = root @ p \<or> fs_get f r = Some DirNode))
      \<longleftrightarrow> kept ig p" if n: "fs_get f (root @ p) = Some n"
  proof -
    have pl: "plains p" using wf_namesD [OF assms(2), of "root @ p"] n by simp
    have dir: "fs_get f (root @ q) = Some DirNode" if "prefix q p" "q \<noteq> p" for q
      using connected_parents [OF assms(3), of "root @ p" "root @ q"] n that by (simp add: strict_prefix_def)
    have "(\<forall>r. prefix root r \<longrightarrow> prefix r (root @ p) \<longrightarrow> \<not> skipped root ?ig r \<and> (r = root @ p \<or> fs_get f r = Some DirNode))
        \<longleftrightarrow> (\<forall>q. prefix q p \<longrightarrow> \<not> skipped root ?ig (root @ q))"
      using dir by (fastforce simp: prefix_def)
    also have "\<dots> \<longleftrightarrow> kept ig p"
      using skipped_below [OF assms(1)] plains_prefix pl
      by (auto simp: kept_def list_all_iff) 
    finally show ?thesis .
  qed
  moreover have "length (root @ p) < length root + fuel" if "fs_get f (root @ p) = Some n"
    using assms(5) that unfolding deep_def by (metis option.distinct(1) prefixI)
  ultimately show ?thesis
    unfolding r using assms(6) by (auto simp: saved_entries_def tree_iff [OF assms(2)])
qed

lemma Restore_reaches_archive:
  fixes w :: world
  assumes "calm w" "plains root" "root \<noteq> []" "dir_at (files w) root" "CHR 0x00 \<notin> set (rooted root)"
    "on_dirs (files w) p" "fs_get (files w) p = Some (FileNode bytes)" "\<not> prefix root p"
    "\<And>d. backup_path m d cellID backupID = Inr (rooted p)"
  obtains v where "backup_Restore cd m cellID backupID (rooted root) w =
      os_wrap ''failed to restore backup''
        (os_bind (os_lift (gzip_tar_read cd bytes)) (\<lambda>(hs, stop). extract_entries (rooted root) hs stop)) v"
    "calm v" "solid (files v) root" "cleared root (files w) (files v)"
proof -
  let ?t = "\<lambda>f n. w\<lparr>files := f, ticks := n\<rparr>"
  have calm: "calm (?t f n)" for f n using assms(1) by simp
  have s1: "os_stat (rooted p) w = (Inr (FileNode bytes), ?t (files w) (Suc (ticks w)))"
    using os_stat_on_dirs [OF assms(1,6)] assms(7) by simp
  have safe: "SafeBackupPath m cellID backupID w = (Inr (rooted p), ?t (files w) (Suc (ticks w)))"
    using s1 by (simp add: SafeBackupPath_def assms(9) os_attempt_def os_return_def is_dir_def)
  have loc: "locate fl d (files w) (rooted root) = Inr root" for fl d
    by (rule locate_solid_root [OF assms(4,2,5)])
  let ?c = "fs_cut root (files w)"
  have rm: "os_remove_all (rooted root) (?t (files w) n) = (Inr (), ?t ?c (Suc n))" for n
    using loc assms(1,3) by (simp add: os_remove_all_def os_call_def calm_def)
  have od: "open_path (files (?t ?c n)) root" for n
    using assms(2,3,4,5) by (auto simp: open_path_def dir_at_def)
  obtain n where n: "n = Suc (Suc (ticks w))" by blast
  obtain g where g: "os_mkdir_all (rooted root) (?t ?c n) = (Inr (), ?t g (Suc n))"
    using os_mkdir_all_creates [OF calm od [of n]] by auto
  have cl: "solid g root" "cleared root (files w) g"
    using mkdir_after_clear [OF assms(4,2,3) _ g] by simp_all
  have out: "fs_get g q = fs_get (files w) q" if "\<not> prefix root q" for q
    using cl(2) that by (simp add: cleared_def agree_outside_def)
  have np: "\<not> prefix root ds" if "strict_prefix ds p" for ds
    using that assms(8) prefix_order.trans by (auto simp: strict_prefix_def)
  have gp: "fs_get g p = Some (FileNode bytes)" "on_dirs g p"
    using out assms(6,7,8) np by (auto simp: on_dirs_def)
  have rd: "os_read_file (rooted p) (?t g (Suc n)) = (Inr bytes, ?t g (Suc (Suc n)))"
    using os_read_file_on_dirs [OF calm, of "Suc n" g p] gp by simp
  have "backup_Restore cd m cellID backupID (rooted root) w =
      os_wrap ''failed to restore backup''
        (os_bind (os_lift (gzip_tar_read cd bytes)) (\<lambda>(hs, stop). extract_entries (rooted root) hs stop))
        (?t g (Suc (Suc n)))"
    using safe rm [of "Suc (ticks w)"] g n rd assms(2)
    by (simp add: backup_Restore_def extractTarGzip_def openTarGzip_def os_bind_def os_abs_def os_wrap_def os_lift_def)
  then show ?thesis using calm cl by (intro that [of "?t g (Suc (Suc n))"]) auto
qed

text \<open>
  A restore whose archive turns out to be unreadable fails after the cell's directory was cleared: the
  archive is opened only then. The directory is left empty, and nothing outside of it changed.
\<close>

theorem Restore_unreadable_clears:
  fixes w :: world
  assumes "calm w" "plains root" "root \<noteq> []" "dir_at (files w) root" "CHR 0x00 \<notin> set (rooted root)"
    "on_dirs (files w) p" "fs_get (files w) p = Some (FileNode bytes)" "\<not> prefix root p"
    "\<And>d. backup_path m d cellID backupID = Inr (rooted p)" "gzip_tar_read cd bytes = Inl e"
  shows "\<exists>w'. backup_Restore cd m cellID backupID (rooted root) w = (Inl (WrapError ''failed to restore backup'' e), w')
    \<and> cleared root (files w) (files w')"
proof -
  obtain v where v: "backup_Restore cd m cellID backupID (rooted root) w =
      os_wrap ''failed to restore backup''
        (os_bind (os_lift (gzip_tar_read cd bytes)) (\<lambda>(hs, stop). extract_entries (rooted root) hs stop)) v"
    "calm v" "solid (files v) root" "cleared root (files w) (files v)"
    by (rule Restore_reaches_archive [OF assms(1-9)])
  then show ?thesis by (simp add: assms(10) os_wrap_def os_bind_def os_lift_def)
qed

text \<open>Extracting the items of a backup into an empty directory gives its entries and nothing else.\<close>

lemma extract_backup:
  fixes v :: world
  assumes "wf_names f" "plains root" "CHR 0x00 \<notin> set (rooted root)" "calm v" "solid (files v) root" "cleared root f1 (files v)"
    "\<And>q c. fs_get f (root @ q) \<noteq> None \<Longrightarrow> c \<in> set q \<Longrightarrow> backslash \<notin> set c"
  obtains v2 where "extract_entries (rooted root) (map header_of (backup_items fuel f root ig)) IoEOF v = (Inr (), v2)"
    "\<And>p n. p \<noteq> [] \<Longrightarrow> fs_get (files v2) (root @ p) = Some n \<longleftrightarrow> (p, n) \<in> saved_entries fuel f root ig"
proof -
  let ?E = "saved_entries fuel f root ig" and ?t = "tree fuel f (skipped root ig) root"
  let ?xs = "map (\<lambda>(q, n). (drop (length root) q, n)) (filter (\<lambda>(q, n). q \<noteq> root \<and> \<not> is_link n) ?t)"
  have tree: "is_tree ?E" by (rule saved_entries_tree [OF assms(2,1)])
  have start: "holds ?E root (files v)" using assms(5,6) by (auto simp: holds_def cleared_def)
  have tr: "prefix root q \<and> fs_get f q = Some n" if "(q, n) \<in> set ?t" for q n
    using that by (simp add: tree_iff [OF assms(1)])
  have hd: "list_all2 header_for ?xs (map header_of (backup_items fuel f root ig))"
    unfolding backup_items_def
  proof (rule entry_items_headers [OF assms(2)], clarify)
    fix q n assume "(q, n) \<in> set ?t"
    from tr [OF this] obtain p where p: "q = root @ p" "fs_get f q = Some n" by (auto simp: prefix_def)
    then show "prefix root q \<and> plains q \<and> CHR 0x00 \<notin> set (rooted q) \<and> (\<forall>c \<in> set (drop (length root) q). backslash \<notin> set c)"
      using wf_namesD [OF assms(1), of q] assms(7) [of p] by auto
  qed
  have xs: "snd x = SpecialNode \<or> x \<in> ?E" "plains (fst x)" if "x \<in> set ?xs" for x
  proof -
    from that obtain q n where q: "(q, n) \<in> set ?t" "q \<noteq> root" "\<not> is_link n" "x = (drop (length root) q, n)" by auto
    from tr [OF q(1)] obtain p where p: "q = root @ p" by (auto simp: prefix_def)
    with q show "snd x = SpecialNode \<or> x \<in> ?E" by (auto simp: saved_entries_def)
    show "plains (fst x)" using wf_namesD [OF assms(1), of q] tr [OF q(1)] q(4) p by auto
  qed
  obtain v2 where v2: "extract_entries (rooted root) (map header_of (backup_items fuel f root ig)) IoEOF v = (Inr (), v2)"
    "holds ?E root (files v2)" "\<forall>x \<in> set ?xs. snd x \<noteq> SpecialNode \<longrightarrow> fs_get (files v2) (root @ fst x) = Some (snd x)"
    using extract_all [OF tree assms(2,3) hd _ assms(4) start] xs by blast
  have "(p, n) \<in> set ?xs \<and> n \<noteq> SpecialNode" if "(p, n) \<in> ?E" for p n
    using that by (force simp: saved_entries_def image_iff)
  then have "fs_get (files v2) (root @ p) = Some n \<longleftrightarrow> (p, n) \<in> ?E" if "p \<noteq> []" for p n
    using holdsD [OF v2(2) that] v2(3) by fastforce
  then show ?thesis using v2(1) that by blast
qed


section \<open>Witnesses\<close>

definition rt_files :: fsys where
  "rt_files = [([''c''], DirNode), ([''c'', ''f''], FileNode ''x''), ([''c'', ''logs''], DirNode),
     ([''c'', ''logs'', ''l''], FileNode ''y''), ([''c'', ''ln''], LinkNode ''/etc''), ([''b''], DirNode)]"

lemma rt_get:
  "fs_get rt_files q = (if q = [] \<or> q = [''c''] \<or> q = [''c'', ''logs''] \<or> q = [''b''] then Some DirNode
     else if q = [''c'', ''f''] then Some (FileNode ''x'') else if q = [''c'', ''logs'', ''l''] then Some (FileNode ''y'')
     else if q = [''c'', ''ln''] then Some (LinkNode ''/etc'') else None)"
  by (auto simp: rt_files_def fs_get_def)

lemma rt_idents:
  "validateIdentifier ''s1'' = Inr ()" "validateIdentifier ''b1'' = Inr ()"
  by code_simp+

lemma rt_ready: "backup_ready rt_files [''c''] 5 (NewBackupManager ''/b'') [''b''] ''s1'' ''b1''"
  unfolding backup_ready_def
proof (intro conjI)
  show "wf_names rt_files" by (rule wf_names_check) (simp add: rt_files_def plain_def rooted_def)
  show "dir_at rt_files [''c'']" by (rule dir_at_check) (simp add: rt_get)
  show "deep rt_files [''c''] 5" by (auto simp: deep_def rt_get split: if_splits)
  show "open_path rt_files ([''b''] @ [''s1''])"
    by (rule open_path_check) (simp_all add: rt_get plain_def rooted_def)
qed (simp_all add: rt_idents plain_def rooted_def NewBackupManager_def backup_at_def rt_get)

lemma rt_connected: "connected rt_files"
  by (simp add: connected_def rt_get) (simp add: rt_files_def)


theorem Restore_confined_witness:
  "agree_outside (clean_abs ''/c'') (files (calm_world rt_files))
     (files (snd (backup_Restore unary_codec (NewBackupManager ''/b'') ''s1'' ''b1'' (rooted (clean_abs ''/c'')) (calm_world rt_files))))"
proof -
  have c: "clean_abs ''/c'' = [''c'']" by code_simp
  have "dir_at (files (calm_world rt_files)) (clean_abs ''/c'')"
    unfolding c by (rule dir_at_check) (simp add: rt_get)
  from Restore_confined [OF this] show ?thesis .
qed

definition torn_codec :: codec where
  "torn_codec = unary_codec\<lparr>gzip_tar_read := \<lambda>_. Inl (ErrorString ''gzip: invalid header'')\<rparr>"

definition torn_files :: fsys where
  "torn_files = rt_files @ [([''b'', ''s1''], DirNode), ([''b'', ''s1'', ''b1.tar.gz''], FileNode ''?'')]"

theorem Restore_unreadable_clears_witness:
  "\<exists>w'. fst (backup_Restore torn_codec (NewBackupManager ''/b'') ''s1'' ''b1'' (rooted [''c'']) (calm_world torn_files)) \<noteq> Inr ()
    \<and> snd (backup_Restore torn_codec (NewBackupManager ''/b'') ''s1'' ''b1'' (rooted [''c'']) (calm_world torn_files)) = w'
    \<and> fs_get (files w') [''c'', ''f''] = None"
proof -
  have get: "fs_get torn_files q = (if q = [''b'', ''s1''] then Some DirNode
      else if q = [''b'', ''s1'', ''b1.tar.gz''] then Some (FileNode ''?'') else fs_get rt_files q)" for q
    by (auto simp: torn_files_def rt_files_def fs_get_def)
  have d: "dir_at (files (calm_world torn_files)) [''c'']" by (rule dir_at_check) (simp add: get rt_get)
  have o: "on_dirs (files (calm_world torn_files)) [''b'', ''s1'', ''b1.tar.gz'']"
    by (rule on_dirs_check) (simp_all add: get rt_get plain_def rooted_def)
  have p: "backup_path (NewBackupManager ''/b'') d ''s1'' ''b1'' = Inr (rooted [''b'', ''s1'', ''b1.tar.gz''])" for d
    using backup_path_valid [of "NewBackupManager ''/b''" "[''b'']" "''s1''" "''b1''" d] rt_idents
    by (simp add: NewBackupManager_def plain_def rooted_def backupExtension_def)
  obtain w' where w': "backup_Restore torn_codec (NewBackupManager ''/b'') ''s1'' ''b1'' (rooted [''c'']) (calm_world torn_files)
      = (Inl (WrapError ''failed to restore backup'' (ErrorString ''gzip: invalid header'')), w')"
    "cleared [''c''] (files (calm_world torn_files)) (files w')"
    using Restore_unreadable_clears [OF _ _ _ d _ o _ _ p, where bytes = "''?''" and cd = torn_codec and e = "ErrorString ''gzip: invalid header''"]
    by (auto simp: get rt_get torn_codec_def plain_def rooted_def)
  have "fs_get (files w') ([''c''] @ [''f'']) = None" using w'(2) unfolding cleared_def by blast
  with w'(1) show ?thesis by simp
qed

section \<open>A linked cell directory\<close>

definition count_codec :: codec where
  "count_codec = unary_codec\<lparr>gzip_tar_write := \<lambda>items. replicate (length items) CHR ''x''\<rparr>"

definition linked_files :: fsys where
  "linked_files = [([''c''], LinkNode ''/d''), ([''d''], DirNode), ([''d'', ''f''], FileNode ''x''), ([''b''], DirNode)]"

definition archived_bytes :: "string \<Rightarrow> node option" where
  "archived_bytes dir = fs_get (files (snd (backup_Create count_codec (\<lambda>s. s) (\<lambda>s. s) 5 (NewBackupManager ''/b'')
     ''s1'' ''b1'' ''n'' dir [] (calm_world linked_files)))) [''b'', ''s1'', ''b1.tar.gz'']"

text \<open>
  \<open>Create\<close> inspects the source with \<open>Stat\<close>, which follows links, but walks it with \<open>Walk\<close>, which does
  not: when the directory of the cell is itself a symbolic link to the data, the backup is reported as made
  and holds no entry at all, while a backup of the link's target holds its file.
\<close>

theorem backup_of_linked_directory_is_empty:
  "archived_bytes ''/c'' = Some (FileNode []) \<and> archived_bytes ''/d'' = Some (FileNode ''x'')"
  by code_simp

end
