(* ===== verification/MountService.thy ===== *)
theory MountService
  imports Backup
begin

text \<open>
  Mounted backups, \<open>internal/backup/mount_service.go\<close>: an archive is unpacked into
  \<open><mountsRoot>/<cellID>/<mountID>\<close> by way of a temporary directory, looked at, copied back into the cell
  path by path, and removed. The temporary names of \<open>os.CreateTemp\<close> end in the numbers of the argument \<open>rnd\<close>;
  \<open>fuel\<close> bounds the depth of a restored directory.
\<close>

definition primaryBackupExtension :: string where "primaryBackupExtension = ''.tgz''"

definition supportedBackupExtensions :: "string list" where
  "supportedBackupExtensions = [primaryBackupExtension, ''.tar.gz'']"

record MountService =
  backupsRoot :: string
  mountsRoot :: string

record MountResult =
  mr_Path :: string
  mr_ExtractedSize :: "64 word"

definition NewMountService :: "string \<Rightarrow> string \<Rightarrow> MountService os" where
  "NewMountService backupsRoot0 mountsRoot0 =
     (if TrimSpace backupsRoot0 = [] then os_throw (ErrorString ''backups root cannot be empty'')
      else if TrimSpace mountsRoot0 = [] then os_throw (ErrorString ''backup mounts root cannot be empty'')
      else os_bind (os_wrap ''resolve backups root'' (os_abs backupsRoot0)) (\<lambda>absoluteBackupsRoot.
        os_bind (os_wrap ''resolve backup mounts root'' (os_abs mountsRoot0)) (\<lambda>absoluteMountsRoot.
        os_seq (os_wrap ''create backups root'' (os_mkdir_all absoluteBackupsRoot))
       (os_seq (os_wrap ''create backup mounts root'' (os_mkdir_all absoluteMountsRoot))
       (os_return \<lparr>backupsRoot = absoluteBackupsRoot, mountsRoot = absoluteMountsRoot\<rparr>)))))"

section \<open>Identifiers and paths\<close>

definition isSafeIdentifier :: "string \<Rightarrow> bool" where
  "isSafeIdentifier v =
     (let value = TrimSpace v
      in if value = [] \<or> length value > 128 then False else list_all ident_char value)"

definition resolveMountPath :: "MountService \<Rightarrow> string \<Rightarrow> string \<Rightarrow> go_error + string" where
  "resolveMountPath s cellID mountID =
     (let cellMountRoot = path_join [mountsRoot s, cellID];
          mountPath = path_join [cellMountRoot, mountID];
          cleanRoot = path_clean cellMountRoot;
          cleanMountPath = path_clean mountPath
      in if cleanMountPath = cleanRoot then Inl ErrInvalidMountID
         else if \<not> HasPrefix cleanMountPath (cleanRoot @ ''/'') then Inl ErrInvalidMountID
         else Inr cleanMountPath)"

text \<open>The first supported extension under which a file is found.\<close>

fun find_archive :: "string \<Rightarrow> string \<Rightarrow> string list \<Rightarrow> string os" where
  "find_archive cellBackupRoot backupID [] = os_throw ErrBackupNotFound"
| "find_archive cellBackupRoot backupID (extension # rest) =
     (let archivePath = path_join [cellBackupRoot, backupID @ extension]
      in os_attempt (os_stat archivePath) (\<lambda>r. case r of
          Inr info \<Rightarrow> if is_dir info then find_archive cellBackupRoot backupID rest else os_return archivePath
        | Inl e \<Rightarrow> if \<not> errors_is e SysNotExist then os_throw (WrapError ''inspect backup archive'' e)
                  else find_archive cellBackupRoot backupID rest))"

definition resolveBackupArchive :: "MountService \<Rightarrow> string \<Rightarrow> string \<Rightarrow> string os" where
  "resolveBackupArchive s cellID backupID =
     (if \<not> isSafeIdentifier cellID then os_throw ErrInvalidBackupID
      else if \<not> isSafeIdentifier backupID then os_throw ErrInvalidBackupID
      else find_archive (path_join [backupsRoot s, cellID]) backupID supportedBackupExtensions)"

definition mount_path :: "MountService \<Rightarrow> string \<Rightarrow> string \<Rightarrow> go_error + string" where
  "mount_path s cellID mountID =
     (if \<not> isSafeIdentifier cellID then Inl (WrapError ''cell id'' ErrInvalidMountID)
      else if \<not> isSafeIdentifier mountID then Inl ErrInvalidMountID
      else resolveMountPath s cellID mountID)"

definition MountPath :: "MountService \<Rightarrow> string \<Rightarrow> string \<Rightarrow> string os" where
  "MountPath s cellID mountID =
     with_path (\<lambda>_. mount_path s cellID mountID) (\<lambda>mountPath.
     os_attempt (os_stat mountPath) (\<lambda>r. case r of
         Inl e \<Rightarrow> os_throw (if errors_is e SysNotExist then SysNotExist else WrapError ''inspect backup mount'' e)
       | Inr info \<Rightarrow> if \<not> is_dir info then os_throw (ErrorString ''backup mount path is not a directory'')
                    else os_return mountPath))"

section \<open>Unpacking\<close>

definition secureArchiveDestination :: "string \<Rightarrow> string \<Rightarrow> go_error + string" where
  "secureArchiveDestination destinationRoot entryName0 =
     (let entryName = path_clean (TrimPrefix (ReplaceAll entryName0 [backslash] ''/'') ''/'')
      in if entryName = ''.'' \<or> entryName = [] then Inr destinationRoot
         else if is_abs entryName then Inl (WrapError [] ErrUnsafeArchivePath)
         else if entryName = ''..'' \<or> HasPrefix entryName ''../'' then Inl (WrapError [] ErrUnsafeArchivePath)
         else let cleanDestination = path_clean (path_join [destinationRoot, entryName])
              in if cleanDestination \<noteq> destinationRoot
                   \<and> \<not> HasPrefix cleanDestination (destinationRoot @ ''/'')
                 then Inl (WrapError [] ErrUnsafeArchivePath) else Inr cleanDestination)"

text \<open>
  \<open>io.CopyN\<close> of the announced size: what arrives is written; a short body or a read error removes the file.
\<close>

definition extractRegularFile :: "tar_header \<Rightarrow> string \<Rightarrow> (64 word) os" where
  "extractRegularFile h destination =
     os_seq (os_write_file destination (take (unat (th_Size h)) (th_Body h)))
    (let short = length (th_Body h) < unat (th_Size h);
         copyErr = (if \<not> short then None else Some (case th_BodyError h of Some e \<Rightarrow> e | None \<Rightarrow> IoEOF))
     in case copyErr of
          Some e \<Rightarrow> os_ignore (os_remove destination) (os_throw e)
        | None \<Rightarrow> os_return (th_Size h))"

fun extract_securely :: "string \<Rightarrow> tar_header list \<Rightarrow> go_error \<Rightarrow> 64 word \<Rightarrow> (64 word) os" where
  "extract_securely root [] stop extractedSize =
     (if errors_is stop IoEOF then os_return extractedSize else os_throw (WrapError ''read archive entry'' stop))"
| "extract_securely root (h # hs) stop extractedSize =
     with_path (\<lambda>_. secureArchiveDestination root (th_Name h)) (\<lambda>entryPath.
       case th_Typeflag h of
         TypeDir \<Rightarrow>
           os_seq (os_wrap ''create archive directory'' (os_mkdir_all entryPath))
             (extract_securely root hs stop extractedSize)
       | TypeReg \<Rightarrow>
           if th_Size h <s 0 then os_throw (ErrorString ''archive entry has a negative size'')
           else os_seq (os_wrap ''create parent directory'' (os_mkdir_all (path_dir entryPath)))
             (os_bind (os_wrap ''extract archive file'' (extractRegularFile h entryPath)) (\<lambda>written.
               extract_securely root hs stop (extractedSize + written)))
       | TypeLink \<Rightarrow> os_throw (WrapError ''link'' ErrUnsupportedEntry)
       | TypeOther \<Rightarrow> os_throw (WrapError ''type'' ErrUnsupportedEntry))"

definition extractTarGzipSecurely :: "codec \<Rightarrow> string \<Rightarrow> string \<Rightarrow> (64 word) os" where
  "extractTarGzipSecurely cd archivePath destinationRoot =
     os_bind (os_wrap ''open archive'' (os_read_file archivePath)) (\<lambda>bytes.
     os_bind (os_wrap ''open gzip stream'' (os_lift (gzip_tar_read cd bytes))) (\<lambda>(hs, stop).
     os_bind (os_wrap ''resolve destination directory'' (os_abs destinationRoot)) (\<lambda>root.
       extract_securely root hs stop 0)))"

section \<open>Mounting and unmounting\<close>

definition or_remove_all :: "string \<Rightarrow> string \<Rightarrow> 'a os \<Rightarrow> 'a os" where
  "or_remove_all p msg m =
     os_attempt m (\<lambda>r. case r of
         Inl e \<Rightarrow> os_ignore (os_remove_all p) (os_throw (WrapError msg e))
       | Inr x \<Rightarrow> os_return x)"

definition mounting :: "string \<Rightarrow> string" where
  "mounting mountPath = mountPath @ ''.mounting''"

definition Mount :: "codec \<Rightarrow> MountService \<Rightarrow> string \<Rightarrow> string \<Rightarrow> string \<Rightarrow> MountResult os" where
  "Mount cd s cellID backupID mountID =
     (if \<not> isSafeIdentifier cellID then os_throw (WrapError ''cell id'' ErrInvalidMountID)
      else if \<not> isSafeIdentifier backupID then os_throw ErrInvalidBackupID
      else if \<not> isSafeIdentifier mountID then os_throw ErrInvalidMountID
      else os_bind (resolveBackupArchive s cellID backupID) (\<lambda>archivePath.
        with_path (\<lambda>_. resolveMountPath s cellID mountID) (\<lambda>mountPath.
        os_attempt (os_stat mountPath) (\<lambda>r. case r of
            Inr _ \<Rightarrow> os_throw ErrMountAlreadyExists
          | Inl e \<Rightarrow>
              if \<not> errors_is e SysNotExist then os_throw (WrapError ''inspect mount directory'' e)
              else os_seq (os_wrap ''create cell mount directory'' (os_mkdir_all (path_dir mountPath)))
             (os_seq (os_wrap ''remove stale temporary mount directory'' (os_remove_all (mounting mountPath)))
             (os_seq (os_wrap ''create temporary mount directory'' (os_mkdir_all (mounting mountPath)))
             (os_bind (or_remove_all (mounting mountPath) ''extract backup archive''
                (extractTarGzipSecurely cd archivePath (mounting mountPath))) (\<lambda>extractedSize.
              os_seq (or_remove_all (mounting mountPath) ''finalise backup mount directory''
                (os_rename (mounting mountPath) mountPath))
             (os_return \<lparr>mr_Path = mountPath, mr_ExtractedSize = extractedSize\<rparr>)))))))))"

definition Unmount :: "MountService \<Rightarrow> string \<Rightarrow> string \<Rightarrow> unit os" where
  "Unmount s cellID mountID =
     with_path (\<lambda>_. mount_path s cellID mountID) (\<lambda>mountPath.
       os_seq (os_wrap ''remove backup mount'' (os_remove_all mountPath))
              (os_wrap ''remove temporary backup mount'' (os_remove_all (mounting mountPath))))"

section \<open>Restoring a path of a mount\<close>

text \<open>\<open>utf8.ValidString\<close>: the length of the first rune, 0 when the bytes do not start one.\<close>

definition rune_len :: "nat \<Rightarrow> nat list \<Rightarrow> nat" where
  "rune_len b bs =
     (let at = (\<lambda>i lo hi. i < length bs \<and> lo \<le> bs ! i \<and> bs ! i \<le> hi)
      in if b < 128 then 1
         else if 194 \<le> b \<and> b \<le> 223 then (if at 0 128 191 then 2 else 0)
         else if b = 224 then (if at 0 160 191 \<and> at 1 128 191 then 3 else 0)
         else if b = 237 then (if at 0 128 159 \<and> at 1 128 191 then 3 else 0)
         else if 225 \<le> b \<and> b \<le> 239 then (if at 0 128 191 \<and> at 1 128 191 then 3 else 0)
         else if b = 240 then (if at 0 144 191 \<and> at 1 128 191 \<and> at 2 128 191 then 4 else 0)
         else if 241 \<le> b \<and> b \<le> 243 then (if at 0 128 191 \<and> at 1 128 191 \<and> at 2 128 191 then 4 else 0)
         else if b = 244 then (if at 0 128 143 \<and> at 1 128 191 \<and> at 2 128 191 then 4 else 0)
         else 0)"

function valid_utf8 :: "nat list \<Rightarrow> bool" where
  "valid_utf8 [] = True"
| "valid_utf8 (b # bs) = (rune_len b bs > 0 \<and> valid_utf8 (drop (rune_len b bs - 1) bs))"
  by pat_completeness auto
termination by (relation "measure length") auto

text \<open>\<open>fs.ValidPath\<close>.\<close>

definition ValidPath :: "string \<Rightarrow> bool" where
  "ValidPath nm \<longleftrightarrow> valid_utf8 (map of_char nm)
     \<and> (nm = ''.'' \<or> list_all (\<lambda>e. e \<noteq> [] \<and> e \<noteq> ''.'' \<and> e \<noteq> ''..'') (Split slash nm))"

definition cleanRestorePath :: "string \<Rightarrow> go_error + string" where
  "cleanRestorePath v =
     (let value = Trim (ReplaceAll (TrimSpace v) [backslash] ''/'') ''/''
      in if value = [] then Inl ErrUnsafeArchivePath
         else if CHR 0x00 \<in> set value then Inl ErrUnsafeArchivePath
         else if \<not> ValidPath value then Inl ErrUnsafeArchivePath
         else if value = ''.'' then Inl ErrUnsafeArchivePath
         else Inr value)"

definition secureRestoreJoin :: "getwd \<Rightarrow> string \<Rightarrow> string \<Rightarrow> go_error + string" where
  "secureRestoreJoin d root0 relativePath =
     (case path_abs d root0 of
        Inl e \<Rightarrow> Inl (WrapError ''resolve root path'' e)
      | Inr root \<Rightarrow>
          (case path_abs d (path_join [root, relativePath]) of
             Inl e \<Rightarrow> Inl (WrapError ''resolve target path'' e)
           | Inr target \<Rightarrow>
               (case path_rel root target of
                  Inl e \<Rightarrow> Inl (WrapError ''validate target path'' e)
                | Inr relative \<Rightarrow> if rel_escapes relative then Inl ErrUnsafeArchivePath else Inr target)))"

text \<open>
  The loop of \<open>ensureSafeRestoreParent\<close> climbs from the parent to the root; every round shortens the path,
  so its length is fuel enough.
\<close>

fun parent_loop :: "nat \<Rightarrow> string \<Rightarrow> string \<Rightarrow> unit os" where
  "parent_loop 0 current root = os_throw OutOfFuel"
| "parent_loop (Suc n) current root =
     os_bind (os_wrap ''inspect restore directory'' (os_lstat current)) (\<lambda>info.
       if is_link info then os_throw ErrUnsupportedEntry
       else if current = root then os_return ()
       else let next = path_dir current
            in if next = current then os_throw ErrUnsafeArchivePath else parent_loop n next root)"

definition ensureSafeRestoreParent :: "string \<Rightarrow> string \<Rightarrow> unit os" where
  "ensureSafeRestoreParent target root0 =
     os_bind (os_wrap ''resolve restore root'' (os_abs root0)) (\<lambda>root.
       let parent = path_dir target
       in os_seq (os_wrap ''create restore parent directory'' (os_mkdir_all parent))
                 (parent_loop (Suc (length parent)) parent root))"

text \<open>
  \<open>os.CreateTemp\<close>: the first name drawn that is not taken. \<open>Sync\<close>, \<open>Chmod\<close> and \<open>Close\<close> change nothing in
  the model but may fail.
\<close>

definition restore_name :: "nat \<Rightarrow> string" where
  "restore_name r = ''.restore-'' @ nat_digits r"

fun create_temp :: "string \<Rightarrow> nat list \<Rightarrow> string os" where
  "create_temp parent [] = os_throw SysExist"
| "create_temp parent (r # rs) =
     (let p = path_join [parent, restore_name r]
      in os_attempt (os_create_excl p) (\<lambda>x. case x of
          Inr _ \<Rightarrow> os_return p
        | Inl e \<Rightarrow> if e = SysExist then create_temp parent rs else os_throw e))"

definition os_flush :: "unit os" where
  "os_flush = os_call (\<lambda>d f. (Inr (), f))"

definition copy_temp :: "string \<Rightarrow> string \<Rightarrow> string \<Rightarrow> unit os" where
  "copy_temp tempPath target data =
     os_attempt
      (os_seq (os_wrap ''copy mounted backup file'' (os_write_file tempPath data))
      (os_seq (os_wrap ''sync restored file'' os_flush)
      (os_seq (os_wrap ''apply restored file permissions'' os_flush)
      (os_seq (os_wrap ''close restored file'' os_flush)
      (os_wrap ''replace target file'' (os_rename tempPath target))))))
      (\<lambda>r. case r of Inr _ \<Rightarrow> os_return () | Inl e \<Rightarrow> os_ignore (os_remove tempPath) (os_throw e))"

definition replace_file :: "nat list \<Rightarrow> string \<Rightarrow> string \<Rightarrow> unit os" where
  "replace_file rnd target data =
     os_bind (os_wrap ''create temporary restore file'' (create_temp (path_dir target) rnd)) (\<lambda>tempPath.
       copy_temp tempPath target data)"

definition is_regular :: "node \<Rightarrow> bool" where
  "is_regular n \<longleftrightarrow> (case n of FileNode _ \<Rightarrow> True | _ \<Rightarrow> False)"

definition restoreMountedFile :: "nat list \<Rightarrow> string \<Rightarrow> string \<Rightarrow> string \<Rightarrow> unit os" where
  "restoreMountedFile rnd source target targetRoot =
     os_bind (os_lstat source) (\<lambda>sourceInfo.
     if is_link sourceInfo then os_throw ErrUnsupportedEntry
     else if \<not> is_regular sourceInfo then os_throw ErrUnsupportedEntry
     else os_seq (ensureSafeRestoreParent target targetRoot)
    (os_seq
      (os_attempt (os_lstat target) (\<lambda>r. case r of
          Inr targetInfo \<Rightarrow>
            if is_link targetInfo then os_throw ErrUnsupportedEntry
            else if is_dir targetInfo then os_wrap ''remove existing target directory'' (os_remove_all target)
            else os_return ()
        | Inl e \<Rightarrow> if \<not> errors_is e SysNotExist then os_throw (WrapError ''stat target path'' e) else os_return ()))
    (os_bind (os_wrap ''open mounted backup file'' (os_read_file source)) (\<lambda>data.
     replace_file rnd target data))))"

fun restoreMountedDirectory :: "nat \<Rightarrow> nat list \<Rightarrow> string \<Rightarrow> string \<Rightarrow> string \<Rightarrow> unit os"
  and restore_entries :: "nat \<Rightarrow> nat list \<Rightarrow> string \<Rightarrow> string \<Rightarrow> string \<Rightarrow> string list \<Rightarrow> unit os" where
  "restoreMountedDirectory 0 rnd source target targetRoot = os_throw OutOfFuel"
| "restoreMountedDirectory (Suc n) rnd source target targetRoot =
     os_bind (os_lstat source) (\<lambda>sourceInfo.
     if is_link sourceInfo then os_throw ErrUnsupportedEntry
     else if \<not> is_dir sourceInfo then os_throw (ErrorString ''source path is not a directory'')
     else os_seq (ensureSafeRestoreParent target targetRoot)
    (os_seq
      (os_attempt (os_lstat target) (\<lambda>r. case r of
          Inr targetInfo \<Rightarrow>
            if is_link targetInfo then os_throw ErrUnsupportedEntry
            else if \<not> is_dir targetInfo then os_wrap ''remove existing target file'' (os_remove target)
            else os_return ()
        | Inl e \<Rightarrow> if \<not> errors_is e SysNotExist then os_throw (WrapError ''stat target directory'' e) else os_return ()))
    (os_seq (os_wrap ''create target directory'' (os_mkdir_all target))
    (os_bind (os_wrap ''read mounted backup directory'' (os_read_dir source)) (\<lambda>entries.
       restore_entries n rnd source target targetRoot (map fst entries))))))"
| "restore_entries n rnd source target targetRoot [] = os_return ()"
| "restore_entries n rnd source target targetRoot (c # cs) =
     (let sourceChild = path_join [source, c]; targetChild = path_join [target, c]
      in os_bind (os_wrap ''stat mounted backup entry'' (os_lstat sourceChild)) (\<lambda>info.
         if is_link info then os_throw ErrUnsupportedEntry
         else if is_dir info
         then os_seq (restoreMountedDirectory n rnd sourceChild targetChild targetRoot)
                     (restore_entries n rnd source target targetRoot cs)
         else if \<not> is_regular info then os_throw ErrUnsupportedEntry
         else os_seq (restoreMountedFile rnd sourceChild targetChild targetRoot)
                     (restore_entries n rnd source target targetRoot cs)))"

definition RestorePath ::
  "nat \<Rightarrow> nat list \<Rightarrow> MountService \<Rightarrow> string \<Rightarrow> string \<Rightarrow> string \<Rightarrow> string \<Rightarrow> unit os" where
  "RestorePath fuel rnd s cellID0 mountID0 p targetRoot0 =
     (let cellID = TrimSpace cellID0; mountID = TrimSpace mountID0
      in if cellID = [] then os_throw (ErrorString ''cell id is required'')
         else if mountID = [] then os_throw ErrInvalidMountID
         else os_bind (os_lift (cleanRestorePath p)) (\<lambda>relativePath.
           os_bind (MountPath s cellID mountID) (\<lambda>mountRoot.
           let targetRoot = TrimSpace targetRoot0
           in if targetRoot = [] then os_throw (ErrorString ''target cell directory is unavailable'')
              else with_path (\<lambda>d. secureRestoreJoin d mountRoot relativePath) (\<lambda>sourcePath.
                with_path (\<lambda>d. secureRestoreJoin d targetRoot relativePath) (\<lambda>targetPath.
                os_attempt (os_lstat sourcePath) (\<lambda>r. case r of
                    Inl e \<Rightarrow> os_throw (if errors_is e SysNotExist then SysNotExist
                                      else WrapError ''stat mounted backup path'' e)
                  | Inr sourceInfo \<Rightarrow>
                      if is_link sourceInfo then os_throw ErrUnsupportedEntry
                      else if \<not> is_regular sourceInfo \<and> \<not> is_dir sourceInfo then os_throw ErrUnsupportedEntry
                      else if is_dir sourceInfo
                      then restoreMountedDirectory fuel rnd sourcePath targetPath targetRoot
                      else restoreMountedFile rnd sourcePath targetPath targetRoot))))))"


section \<open>Where the paths lead\<close>


lemma HasPrefix_below:
  assumes "plains bs" "plains cs"
  shows "HasPrefix (rooted cs) (rooted bs @ ''/'') \<longleftrightarrow> bs \<noteq> [] \<and> strict_prefix bs cs"
proof
  assume "HasPrefix (rooted cs) (rooted bs @ ''/'')"
  then obtain t where t: "rooted cs = rooted bs @ slash # t" by (auto simp: HasPrefix_def prefix_def)
  have "[] # (if cs = [] then [[]] else cs) = ([] # (if bs = [] then [[]] else bs)) @ Split slash t"
    using arg_cong [OF t, of "Split slash"] assms by (simp add: Split_append Split_rooted)
  then show "bs \<noteq> [] \<and> strict_prefix bs cs"
    using plains_notmem(1) [OF assms(2)] Split_nonempty [of slash t]
    by (cases "bs = []"; cases "cs = []") (auto simp: strict_prefix_def append_eq_Cons_conv Cons_eq_append_conv plains_nonempty)
next
  assume b: "bs \<noteq> [] \<and> strict_prefix bs cs"
  then obtain us where "cs = bs @ us" "us \<noteq> []" by (auto simp: strict_prefix_def prefix_def)
  with b show "HasPrefix (rooted cs) (rooted bs @ ''/'')" by (simp add: rooted_append HasPrefix_def)
qed

lemma secureArchiveDestination_inside:
  assumes "plains bs" "secureArchiveDestination (rooted bs) req = Inr p"
  shows "\<exists>cs. plains cs \<and> prefix bs cs \<and> p = rooted cs"
proof -
  define e where "e = path_clean (TrimPrefix (ReplaceAll req [backslash] ''/'') ''/'')"
  show ?thesis
  proof (cases "e = ''.'' \<or> e = []")
    case True
    then have "p = rooted bs" using assms(2) by (simp add: secureArchiveDestination_def e_def)
    with assms(1) show ?thesis by blast
  next
    case False
    let ?cs = "descend bs e"
    have j: "path_clean (path_join [rooted bs, e]) = rooted ?cs" using assms(1) by (simp add: path_join_rooted)
    have "p = rooted ?cs \<and> (rooted ?cs = rooted bs \<or> HasPrefix (rooted ?cs) (rooted bs @ ''/''))"
      using assms(2) False j by (auto simp: secureArchiveDestination_def e_def [symmetric] Let_def split: if_splits)
    then have "p = rooted ?cs \<and> prefix bs ?cs"
      using assms(1) by (auto simp: HasPrefix_below rooted_inject strict_prefix_def)
    with assms(1) show ?thesis using plains_descend by blast
  qed
qed

interpretation mount_entry: path_guard "\<lambda>d. secureArchiveDestination"
  by unfold_locales (rule secureArchiveDestination_inside)

text \<open>The identifiers of the mount service and of the backup manager obey the same rule.\<close>

lemma isSafeIdentifier_iff: "isSafeIdentifier v \<longleftrightarrow> validateIdentifier v = Inr ()"
  by (auto simp: isSafeIdentifier_def validateIdentifier_iff Let_def Suc_le_eq)

lemma isSafeIdentifier_plain: "isSafeIdentifier v \<Longrightarrow> plain v \<and> CHR 0x00 \<notin> set v"
  by (simp add: isSafeIdentifier_iff validateIdentifier_plain)

lemma resolveMountPath_safe:
  assumes "mountsRoot s = rooted bs" "plains bs" "isSafeIdentifier cellID" "isSafeIdentifier mountID"
  shows "resolveMountPath s cellID mountID = Inr (rooted (bs @ [cellID, mountID]))"
proof -
  have p: "plain cellID" "plain mountID" using isSafeIdentifier_plain assms(3,4) by auto
  have j: "path_join [rooted bs, cellID] = rooted (bs @ [cellID])"
    "path_join [rooted (bs @ [cellID]), mountID] = rooted (bs @ [cellID, mountID])"
    using assms(2) p by (simp_all add: path_join_rooted descend_plain)
  show ?thesis
    using assms(1,2) p by (simp add: resolveMountPath_def j Let_def rooted_inject HasPrefix_below strict_prefix_def)
qed


lemma rooted_snoc_append: "rooted (ps @ [c]) @ x = rooted (ps @ [c @ x])"
  by (cases "ps = []") (simp_all add: rooted_def JoinWith_append)

lemma strict_prefix_butlast: "strict_prefix root cs \<Longrightarrow> prefix root (butlast cs) \<and> cs \<noteq> root"
  by (auto simp: strict_prefix_def prefix_def butlast_append)

lemma plain_append: "plain c \<Longrightarrow> length x > 2 \<Longrightarrow> slash \<notin> set x \<Longrightarrow> plain (c @ x)"
  by (auto simp: plain_def append_eq_Cons_conv Cons_eq_append_conv)

lemma mounting_rooted:
  "plain m \<Longrightarrow> mounting (rooted (ps @ [c, m])) = rooted (ps @ [c, m @ ''.mounting''])
    \<and> plain (m @ ''.mounting'')"
  using rooted_snoc_append [of "ps @ [c]" m "''.mounting''"] plain_append [of m "''.mounting''"]
  by (simp add: mounting_def)

section \<open>Mounts stay below the mounts root\<close>

lemma confined_find_archive [confined_intros]: "confined root (find_archive d b exts)"
  by (induction exts) (auto intro!: confined_intros split: sum.split simp: Let_def)

lemma confined_resolveBackupArchive [confined_intros]: "confined root (resolveBackupArchive s c b)"
  unfolding resolveBackupArchive_def by (intro confined_intros)

lemma confined_extractRegularFile [confined_intros]:
  "plains cs \<Longrightarrow> prefix root cs \<Longrightarrow> cs \<noteq> root \<Longrightarrow> confined root (extractRegularFile h (rooted cs))"
  unfolding extractRegularFile_def Let_def by (auto intro!: confined_intros split: option.split)

lemma confined_extract_securely:
  "plains bs \<Longrightarrow> strict_prefix root bs \<Longrightarrow> confined root (extract_securely (rooted bs) hs stop n)"
proof (induction hs arbitrary: n)
  case (Cons h hs)
  show ?case
    unfolding extract_securely.simps
  proof (rule mount_entry.confined_guarded_below [OF Cons.prems(1)])
    fix d cs assume cs: "secureArchiveDestination (rooted bs) (th_Name h) = Inr (rooted cs)"
      "plains cs" "prefix root cs"
    have "strict_prefix root cs"
    proof -
      from secureArchiveDestination_inside [OF Cons.prems(1) cs(1)] cs(2)
      have "prefix bs cs" by (auto simp: rooted_inject)
      with Cons.prems(2) show ?thesis using prefix_order.less_le_trans by blast
    qed
    then have "prefix root (butlast cs)" "cs \<noteq> root" using strict_prefix_butlast by auto
    with cs show "confined root (case th_Typeflag h of
         TypeDir \<Rightarrow>
           os_seq (os_wrap ''create archive directory'' (os_mkdir_all (rooted cs)))
             (extract_securely (rooted bs) hs stop n)
       | TypeReg \<Rightarrow>
           if th_Size h <s 0 then os_throw (ErrorString ''archive entry has a negative size'')
           else os_seq (os_wrap ''create parent directory'' (os_mkdir_all (path_dir (rooted cs))))
             (os_bind (os_wrap ''extract archive file'' (extractRegularFile h (rooted cs))) (\<lambda>written.
               extract_securely (rooted bs) hs stop (n + written)))
       | TypeLink \<Rightarrow> os_throw (WrapError ''link'' ErrUnsupportedEntry)
       | TypeOther \<Rightarrow> os_throw (WrapError ''type'' ErrUnsupportedEntry))"
      using Cons
      by (auto intro!: confined_intros simp: path_dir_plains plains_butlast split: tar_type.split)
  qed (use Cons.prems in auto)
qed (auto intro!: confined_intros)


lemma os_abs_rooted [simp]:
  "plains bs \<Longrightarrow> os_bind (os_wrap msg (os_abs (rooted bs))) k = k (rooted bs)"
  by (simp add: fun_eq_iff os_bind_def os_wrap_def os_abs_def)

lemma confined_extractTarGzipSecurely:
  "plains bs \<Longrightarrow> strict_prefix root bs \<Longrightarrow> confined root (extractTarGzipSecurely cd p (rooted bs))"
  unfolding extractTarGzipSecurely_def
  by (auto intro!: confined_intros confined_extract_securely split: prod.split)

lemma confined_or_remove_all [confined_intros]:
  "confined root m \<Longrightarrow> plains bs \<Longrightarrow> strict_prefix root bs \<Longrightarrow> confined root (or_remove_all (rooted bs) msg m)"
  unfolding or_remove_all_def by (auto intro!: confined_intros split: sum.split simp: strict_prefix_def)

text \<open>
  C10. Whatever a request names and whatever the archive holds, mounting and unmounting change nothing outside
  the mounts directory: the entries of an archive, the temporary directory and the removals all stay below it,
  as long as that directory holds no symbolic link, and none appears.
\<close>

theorem mounts_confined:
  assumes "mountsRoot s = rooted bs" "plains bs"
  shows "confined bs (Mount cd s cellID backupID mountID) \<and> confined bs (Unmount s cellID mountID)"
proof
  show "confined bs (Mount cd s cellID backupID mountID)"
  proof (cases "isSafeIdentifier cellID \<and> isSafeIdentifier mountID")
    case True
    then have r: "resolveMountPath s cellID mountID = Inr (rooted (bs @ [cellID, mountID]))"
      using resolveMountPath_safe assms by blast
    have p: "plain cellID" "plain mountID" using True isSafeIdentifier_plain by auto
    note m = mounting_rooted [OF p(2), of bs cellID]
    have d: "path_dir (rooted (bs @ [cellID, mountID])) = rooted (bs @ [cellID])"
      using path_dir_rooted [of "bs @ [cellID]" mountID] p assms(2) by simp
    have s: "strict_prefix bs (bs @ [x, y])" for x y by (simp add: strict_prefix_def)
    show ?thesis
      using True assms p m unfolding Mount_def r with_path_const
      by (auto intro!: confined_intros confined_extractTarGzipSecurely s simp: d split: sum.split)
  qed (auto simp: Mount_def intro!: confined_intros)
  show "confined bs (Unmount s cellID mountID)"
  proof (cases "isSafeIdentifier cellID \<and> isSafeIdentifier mountID")
    case True
    then have r: "mount_path s cellID mountID = Inr (rooted (bs @ [cellID, mountID]))"
      using resolveMountPath_safe assms by (simp add: mount_path_def)
    have p: "plain cellID" "plain mountID" using True isSafeIdentifier_plain by auto
    show ?thesis
      using assms p mounting_rooted [OF p(2), of bs cellID] unfolding Unmount_def r with_path_const
      by (auto intro!: confined_intros)
  qed (auto simp: Unmount_def mount_path_def intro!: confined_intros)
qed


definition mounts_example :: MountService where
  "mounts_example = \<lparr>backupsRoot = ''/data/backups'', mountsRoot = ''/data/mounts''\<rparr>"

lemma mounts_example_root: "mountsRoot mounts_example = rooted [''data'', ''mounts'']"
  by (simp add: mounts_example_def rooted_def)

theorem mounts_confined_witness:
  "confined [''data'', ''mounts''] (Mount unary_codec mounts_example ''../c'' ''b'' ''..'')
   \<and> confined [''data'', ''mounts''] (Unmount mounts_example ''c'' ''../../etc'')"
  using mounts_confined [OF mounts_example_root] by (simp add: plain_def plains_def)

section \<open>Restored paths stay in the cell\<close>

lemma gives_read_dir: "os_gives (os_read_dir p) (\<lambda>es. \<forall>(c, n) \<in> set es. plain c)"
  by (auto simp: os_gives_def os_read_dir_def os_call_def fs_entries_def fs_children_iff
      split: option.splits sum.splits node.splits)

lemma gives_wrap [intro]: "os_gives m P \<Longrightarrow> os_gives (os_wrap msg m) P"
  by (fastforce simp: os_gives_def os_wrap_def split: prod.splits sum.splits)

lemma reads_parent_loop: "reads_only (parent_loop n p r)"
  by (induction n arbitrary: p) (auto intro!: reads_intros simp: Let_def)

lemma confined_parent_loop [confined_intros]: "confined root (parent_loop n p r)"
  by (induction n arbitrary: p) (auto intro!: confined_intros simp: Let_def)

lemma confined_ensureSafeRestoreParent [confined_intros]:
  "plains bs \<Longrightarrow> plains cs \<Longrightarrow> prefix root cs
    \<Longrightarrow> confined root (ensureSafeRestoreParent (rooted cs) (rooted bs))"
  unfolding ensureSafeRestoreParent_def Let_def
  using prefix_butlast [of root cs] by (auto intro!: confined_intros simp: path_dir_plains plains_butlast simp del: parent_loop.simps)

lemma temp_name:
  assumes "plains ps"
  shows "path_join [rooted ps, restore_name r] = rooted (ps @ [restore_name r])"
    "plain (restore_name r)"
proof -
  show "plain (restore_name r)" by (auto simp: restore_name_def plain_def notin_nat_digits)
  with assms show "path_join [rooted ps, restore_name r] = rooted (ps @ [restore_name r])"
    by (simp add: path_join_rooted descend_plain)
qed

lemma gives_create_temp:
  assumes "plains ps"
  shows "os_gives (create_temp (rooted ps) rnd) (\<lambda>t. \<exists>r. t = rooted (ps @ [restore_name r]))"
proof (induction rnd)
  case (Cons r rs)
  then show ?case
    unfolding create_temp.simps Let_def temp_name(1) [OF assms]
    by (auto simp: os_gives_def os_attempt_def os_return_def os_throw_def split: prod.splits sum.splits if_splits)
qed (simp add: os_gives_def os_throw_def)

lemma confined_create_temp [confined_intros]:
  "plains ps \<Longrightarrow> prefix root ps \<Longrightarrow> confined root (create_temp (rooted ps) rnd)"
  by (induction rnd) (auto intro!: confined_intros simp: Let_def temp_name split: sum.split)

lemma confined_flush [confined_intros]: "confined root os_flush"
  unfolding os_flush_def by (rule confined_call) simp

lemma confined_copy_temp:
  "plains cs \<Longrightarrow> plains ts \<Longrightarrow> prefix root cs \<Longrightarrow> prefix root ts \<Longrightarrow> ts \<noteq> root
    \<Longrightarrow> confined root (copy_temp (rooted ts) (rooted cs) data)"
  unfolding copy_temp_def by (auto intro!: confined_intros split: sum.split)

lemma confined_replace_file [confined_intros]:
  assumes "plains cs" "strict_prefix root cs"
  shows "confined root (replace_file rnd (rooted cs) data)"
proof -
  have b: "prefix root (butlast cs)" "plains (butlast cs)" "prefix root cs"
    using assms strict_prefix_butlast [OF assms(2)] by (auto simp: plains_butlast)
  show ?thesis
    unfolding replace_file_def path_dir_plains [OF assms(1)]
  proof (rule confined_bind_gives [OF _ gives_wrap [OF gives_create_temp [OF b(2)]]])
    show "confined root (os_wrap ''create temporary restore file'' (create_temp (rooted (butlast cs)) rnd))"
      using b by (auto intro!: confined_intros)
    fix x assume "\<exists>r. x = rooted (butlast cs @ [restore_name r])"
    then show "confined root (copy_temp x (rooted cs) data)"
      using b assms(1) temp_name(2) [OF b(2)] prefix_length_le [OF b(1)]
      by (auto intro!: confined_copy_temp)
  qed
qed

lemma confined_restoreMountedFile [confined_intros]:
  assumes "plains bs" "plains cs" "strict_prefix bs cs"
  shows "confined bs (restoreMountedFile rnd src (rooted cs) (rooted bs))"
  unfolding restoreMountedFile_def using assms
  by (auto intro!: confined_intros split: sum.split simp: strict_prefix_def)

lemma confined_restoreMountedDirectory:
  "plains bs \<Longrightarrow> plains cs \<Longrightarrow> strict_prefix bs cs
    \<Longrightarrow> confined bs (restoreMountedDirectory n rnd src (rooted cs) (rooted bs))"
  "plains bs \<Longrightarrow> plains cs \<Longrightarrow> strict_prefix bs cs \<Longrightarrow> \<forall>c \<in> set es. plain c
    \<Longrightarrow> confined bs (restore_entries n rnd src (rooted cs) (rooted bs) es)"
proof (induction n rnd src "rooted cs" "rooted bs" and n rnd src "rooted cs" "rooted bs" es
    arbitrary: cs and cs rule: restoreMountedDirectory_restore_entries.induct)
  case (2 n rnd src)
  have p: "prefix bs cs" "cs \<noteq> bs" using "2.prems" by (auto simp: strict_prefix_def)
  have dn: "\<not> is_link DirNode" "is_dir DirNode" by (simp_all add: is_link_def is_dir_def)
  have rd: "confined bs (os_bind (os_wrap ''read mounted backup directory'' (os_read_dir src))
      (\<lambda>entries. restore_entries n rnd src (rooted cs) (rooted bs) (map fst entries)))"
    by (rule confined_bind_gives [OF _ gives_wrap [OF gives_read_dir]])
      (use 2 dn in \<open>fastforce intro!: confined_intros\<close>)+
  show ?case
    unfolding restoreMountedDirectory.simps using p "2.prems"
    by (auto intro!: confined_attempt confined_throw confined_wrap confined_remove confined_return
        confined_mkdir_all confined_ensureSafeRestoreParent confined_reads rd
        confined_bind [of _ "os_lstat src"] confined_bind [of _ "ensureSafeRestoreParent _ _"]
        confined_bind [of _ "os_attempt _ _"] confined_bind [of _ "os_wrap ''create target directory'' _"]
        split: sum.split)
next
  case (4 n rnd src c es)
  have c: "plain c" "plains (cs @ [c])" "strict_prefix bs (cs @ [c])"
    "path_join [rooted cs, c] = rooted (cs @ [c])"
    using "4.prems" by (auto simp: path_join_rooted descend_plain intro: prefix_order.less_le_trans)
  show ?case
    unfolding restore_entries.simps Let_def c(4)
    using "4.prems" c 4
    by (intro confined_intros) (auto simp: c(4) intro!: confined_intros)
qed (auto intro!: confined_intros)


lemma cleanRestorePath_components:
  assumes "cleanRestorePath v = Inr r"
  shows "\<exists>us. us \<noteq> [] \<and> plains us \<and> CHR 0x00 \<notin> set r \<and> r = JoinWith slash us"
proof -
  have r: "r \<noteq> []" "ValidPath r" "r \<noteq> ''.''" "CHR 0x00 \<notin> set r"
    using assms by (auto simp: cleanRestorePath_def Let_def split: if_splits)
  then have "list_all (\<lambda>e. e \<noteq> [] \<and> e \<noteq> ''.'' \<and> e \<noteq> ''..'') (Split slash r)"
    by (simp add: ValidPath_def)
  then have "plains (Split slash r)" by (auto simp: plains_def list_all_iff plain_def dest: Split_mem_nosep)
  with r show ?thesis by (intro exI [of _ "Split slash r"]) simp
qed

lemma secureRestoreJoin_rooted:
  assumes "plains bs"
  shows "secureRestoreJoin d (rooted bs) r =
    (if prefix bs (descend bs r) then Inr (rooted (descend bs r)) else Inl ErrUnsafeArchivePath)"
proof -
  have j: "path_join [rooted bs, r] = rooted (descend bs r)" using assms by (simp add: path_join_rooted)
  obtain x where x: "path_rel (rooted bs) (rooted (descend bs r)) = Inr x"
    using path_rel_rooted [OF assms plains_descend [OF assms]] by blast
  show ?thesis
    using assms rel_escapes_iff [OF assms plains_descend [OF assms] x]
    by (simp add: secureRestoreJoin_def j x)
qed

interpretation restore_join: path_guard secureRestoreJoin
proof unfold_locales
  fix bs d req p
  assume bs: "plains bs" "secureRestoreJoin d (rooted bs) req = Inr p"
  then have "p = rooted (descend bs req) \<and> prefix bs (descend bs req)"
    by (simp add: secureRestoreJoin_rooted split: if_splits)
  with bs show "\<exists>cs. plains cs \<and> prefix bs cs \<and> p = rooted cs" using plains_descend by blast
qed




section \<open>The check of the parents\<close>

lemma os_lstat_keeps: "os_lstat p w = (r, w') \<Longrightarrow> files w' = files w \<and> wd w' = wd w"
  by (auto simp: os_lstat_def os_call_def split: option.splits)

lemma os_lstat_Inr: "os_lstat p w = (Inr n, w') \<Longrightarrow> fs_info False p (wd w) (files w) = Inr n \<and> files w' = files w \<and> wd w' = wd w"
  by (auto simp: os_lstat_def os_call_def split: option.splits)

lemma length_rooted: "length cs \<le> length (rooted cs)"
  by (induction cs rule: JoinWith.induct [of _ slash]) (auto simp: rooted_def)

lemma parent_loop_correct:
  assumes "plains (bs @ us)" "parent_loop n (rooted (bs @ us)) (rooted bs) w = (r, w')" "length us < n"
  shows "files w' = files w \<and> wd w' = wd w \<and> r \<noteq> Inl OutOfFuel \<and> (r = Inr () \<longrightarrow> (\<forall>vs. prefix vs us \<longrightarrow>
     (\<exists>i. fs_info False (rooted (bs @ vs)) (wd w) (files w) = Inr i \<and> \<not> is_link i)))"
  using assms
proof (induction n arbitrary: us w)
  case (Suc n)
  obtain x w1 where l: "os_lstat (rooted (bs @ us)) w = (x, w1)" by fastforce
  show ?case
  proof (cases x)
    case (Inl e)
    with l Suc.prems(2) os_lstat_keeps [OF l] show ?thesis by (auto simp: os_bind_def os_wrap_def)
  next
    case (Inr i)
    note i = os_lstat_Inr [OF l [unfolded Inr]]
    show ?thesis
    proof (cases us rule: rev_cases)
      case Nil
      with l Inr i Suc.prems os_lstat_keeps [OF l] show ?thesis
        by (auto simp: os_bind_def os_wrap_def os_throw_def os_return_def split: if_splits)
    next
      case (snoc vs v)
      have d: "path_dir (rooted (bs @ us)) = rooted (bs @ vs)"
        using Suc.prems(1) snoc path_dir_rooted [of "bs @ vs" v] by simp
      have ne: "rooted (bs @ us) \<noteq> rooted bs" "rooted (bs @ vs) \<noteq> rooted (bs @ us)"
        using Suc.prems(1) snoc by (auto simp: rooted_inject)
      show ?thesis
      proof (cases "is_link i")
        case True
        with l Inr Suc.prems(2) os_lstat_keeps [OF l] show ?thesis by (auto simp: os_bind_def os_wrap_def os_throw_def)
      next
        case False
        then have "parent_loop n (rooted (bs @ vs)) (rooted bs) w1 = (r, w')"
          using l Inr Suc.prems(2) d ne by (simp add: os_bind_def os_wrap_def)
        from Suc.IH [OF _ this] Suc.prems(1,3) snoc i False show ?thesis
          by (auto simp: prefix_snoc)
      qed
    qed
  qed
qed simp

text \<open>
  The check of the parents of a restored path always returns, however deep the path; and when it accepts,
  every directory from the root of the cell to the parent exists and is itself no symbolic link.
\<close>

theorem ensureSafeRestoreParent_correct:
  assumes "plains (bs @ us @ [c])"
  shows "case ensureSafeRestoreParent (rooted (bs @ us @ [c])) (rooted bs) w of (r, w') \<Rightarrow>
    r \<noteq> Inl OutOfFuel \<and> (r = Inr () \<longrightarrow> (\<forall>vs. prefix vs us \<longrightarrow>
      (\<exists>i. fs_info False (rooted (bs @ vs)) (wd w') (files w') = Inr i \<and> \<not> is_link i)))"
proof -
  have p: "plains bs" "plains (bs @ us)" using assms by auto
  have d: "path_dir (rooted (bs @ us @ [c])) = rooted (bs @ us)"
    using path_dir_rooted [of "bs @ us" c] assms by simp
  obtain x w1 where m: "os_mkdir_all (rooted (bs @ us)) w = (x, w1)" by fastforce
  obtain r w2 where l: "parent_loop (Suc (length (rooted (bs @ us)))) (rooted (bs @ us)) (rooted bs) w1 = (r, w2)"
    by fastforce
  have len: "length us < Suc (length (rooted (bs @ us)))"
    using length_rooted [of "bs @ us"] by simp
  have e: "ensureSafeRestoreParent (rooted (bs @ us @ [c])) (rooted bs) w =
      (case x of Inl e \<Rightarrow> (Inl (WrapError ''create restore parent directory'' e), w1) | Inr _ \<Rightarrow> (r, w2))"
    unfolding ensureSafeRestoreParent_def d os_abs_rooted [OF p(1)] Let_def
    using m l by (simp add: os_bind_def os_wrap_def split: sum.split del: parent_loop.simps)
  show ?thesis
    using parent_loop_correct [OF p(2) l len] unfolding e by (simp split: sum.split)
qed


theorem ensureSafeRestoreParent_correct_witness:
  "case ensureSafeRestoreParent ''/cells/a/x/y/f'' ''/cells/a''
       (calm_world [([''cells''], DirNode), ([''cells'', ''a''], DirNode)]) of (r, w') \<Rightarrow>
    r \<noteq> Inl OutOfFuel \<and> (r = Inr () \<longrightarrow> (\<forall>vs. prefix vs [''x'', ''y''] \<longrightarrow>
      (\<exists>i. fs_info False (rooted ([''cells'', ''a''] @ vs)) (wd w') (files w') = Inr i \<and> \<not> is_link i)))"
  using ensureSafeRestoreParent_correct [of "[''cells'', ''a'']" "[''x'', ''y'']" "''f''"]
  by (simp add: rooted_def plains_def plain_def)

text \<open>A cell in which \<open>l\<close> is a link to \<open>/etc\<close>, and a mount that holds \<open>l/d/f\<close>.\<close>

definition linked_cell :: fsys where
  "linked_cell =
     [([''etc''], DirNode), ([''cells''], DirNode), ([''cells'', ''a''], DirNode),
      ([''cells'', ''a'', ''l''], LinkNode ''/etc''),
      ([''data''], DirNode), ([''data'', ''mounts''], DirNode), ([''data'', ''mounts'', ''c''], DirNode),
      ([''data'', ''mounts'', ''c'', ''m''], DirNode), ([''data'', ''mounts'', ''c'', ''m'', ''l''], DirNode),
      ([''data'', ''mounts'', ''c'', ''m'', ''l'', ''d''], DirNode),
      ([''data'', ''mounts'', ''c'', ''m'', ''l'', ''d'', ''f''], FileNode ''x'')]"

text \<open>
  But the check comes after the directories have been made: when a directory of the cell is a symbolic link,
  restoring a path below that link is refused as unsafe, and yet it has created directories where the link
  points, outside the cell.
\<close>

theorem RestorePath_creates_before_check:
  "case RestorePath 5 [1] mounts_example ''c'' ''m'' ''l/d/f'' ''/cells/a'' (calm_world linked_cell) of (r, w') \<Rightarrow>
     r = Inl ErrUnsupportedEntry
     \<and> fs_get linked_cell [''etc'', ''d''] = None \<and> fs_get (files w') [''etc'', ''d''] = Some DirNode"
  by code_simp

end
