(* ===== verification/Sftp.thy ===== *)
theory Sftp
  imports PathGuard "HOL-Library.Word"
begin

text \<open>
  The SFTP server's view of a cell, \<open>internal/sftp/filesystem.go\<close>: paths are resolved inside the cell's
  directory, every component is checked for symbolic links, and each operation needs its permission. The
  fields of a request that the operations read are those of \<open>pkg/sftp\<close>'s \<open>Request\<close>; a file that
  \<open>Fileread\<close> and \<open>Filewrite\<close> open is given by its path.
\<close>

section \<open>Three more calls of package os\<close>

text \<open>\<open>os.OpenFile\<close> for writing with any of \<open>O_CREATE\<close>, \<open>O_TRUNC\<close>, \<open>O_EXCL\<close>.\<close>

definition os_open_write :: "bool \<Rightarrow> bool \<Rightarrow> bool \<Rightarrow> string \<Rightarrow> unit os" where
  "os_open_write creat trunc excl p = os_call (\<lambda>d f.
     case locate (\<not> (creat \<and> excl)) d f p of
       Inl e \<Rightarrow> (Inl e, f)
     | Inr q \<Rightarrow>
         (case fs_get f q of
            None \<Rightarrow> if creat then (Inr (), fs_put q (FileNode []) f) else (Inl SysNotExist, f)
          | Some n \<Rightarrow>
              if creat \<and> excl then (Inl SysExist, f)
              else (case n of
                  DirNode \<Rightarrow> (Inl SysIsDir, f)
                | FileNode _ \<Rightarrow> (Inr (), if trunc then fs_put q (FileNode []) f else f)
                | _ \<Rightarrow> (Inr (), f))))"

text \<open>\<open>os.Truncate\<close> to a signed size; a file that grows is filled with NUL bytes.\<close>

definition resize :: "nat \<Rightarrow> string \<Rightarrow> string" where
  "resize n s = take n (s @ replicate (n - length s) (CHR 0x00))"

definition os_truncate :: "string \<Rightarrow> 64 word \<Rightarrow> unit os" where
  "os_truncate p sz = os_call (\<lambda>d f.
     if sz <s 0 then (Inl SysInvalid, f)
     else case locate True d f p of
       Inl e \<Rightarrow> (Inl e, f)
     | Inr q \<Rightarrow>
         (case fs_get f q of
            None \<Rightarrow> (Inl SysNotExist, f)
          | Some (FileNode s) \<Rightarrow> (Inr (), fs_put q (FileNode (resize (unat sz) s)) f)
          | Some DirNode \<Rightarrow> (Inl SysIsDir, f)
          | Some _ \<Rightarrow> (Inl SysInvalid, f)))"

text \<open>\<open>os.Chmod\<close> and \<open>os.Chtimes\<close>: modes and times are not part of the model, a missing file is.\<close>

definition os_touch :: "string \<Rightarrow> unit os" where
  "os_touch p = os_call (\<lambda>d f. (case fs_info True p d f of Inl e \<Rightarrow> Inl e | Inr _ \<Rightarrow> Inr (), f))"

section \<open>The jail\<close>

record SFTPPermissions =
  perm_Read :: bool
  perm_Write :: bool
  perm_Create :: bool
  perm_Rename :: bool
  perm_Delete :: bool

record jailedFilesystem =
  jail_root :: string
  permissions :: SFTPPermissions

record open_flags =
  fl_Creat :: bool
  fl_Trunc :: bool
  fl_Excl :: bool

record attributes =
  at_Size :: "64 word"
  at_hasSize :: bool
  at_hasPermissions :: bool
  at_hasAcmodtime :: bool

record sftp_request =
  rq_Method :: string
  rq_Filepath :: string
  rq_Target :: string
  rq_Pflags :: open_flags
  rq_Attributes :: "attributes option"

definition jail_Create :: "string \<Rightarrow> SFTPPermissions \<Rightarrow> jailedFilesystem os" where
  "jail_Create root perms =
     os_bind (os_wrap ''resolve SFTP root'' (os_abs root)) (\<lambda>absoluteRoot.
     os_bind (os_wrap ''inspect SFTP root'' (os_stat absoluteRoot)) (\<lambda>rootInfo.
     if rootInfo \<noteq> DirNode then os_throw (ErrorString ''SFTP root is not a directory'')
     else os_return \<lparr>jail_root = path_clean absoluteRoot, permissions = perms\<rparr>))"

definition isRoot :: "jailedFilesystem \<Rightarrow> string \<Rightarrow> bool" where
  "isRoot j resolved \<longleftrightarrow> path_clean resolved = jail_root j"

definition ensureInsideRoot :: "jailedFilesystem \<Rightarrow> string \<Rightarrow> go_error + unit" where
  "ensureInsideRoot j resolved =
     (case path_rel (jail_root j) resolved of
        Inl e \<Rightarrow> Inl (WrapError ''validate SFTP path'' e)
      | Inr relative \<Rightarrow> if rel_escapes relative then Inl ErrPermissionDenied else Inr ())"

definition resolveVirtualPath :: "jailedFilesystem \<Rightarrow> string \<Rightarrow> go_error + string" where
  "resolveVirtualPath j virtualPath0 =
     (let v = TrimSpace virtualPath0;
          virtualPath = (if v = [] then ''/'' else v);
          cleaned = path_clean (''/'' @ TrimPrefix virtualPath ''/'');
          relative = TrimPrefix cleaned ''/'';
          resolved = path_clean (path_join [jail_root j, relative])
      in case ensureInsideRoot j resolved of Inl e \<Rightarrow> Inl e | Inr _ \<Rightarrow> Inr resolved)"

fun reject_loop :: "bool \<Rightarrow> string \<Rightarrow> string list \<Rightarrow> unit os" where
  "reject_loop includeFinal current [] = os_return ()"
| "reject_loop includeFinal current (component # rest) =
     (if component = [] \<or> component = ''.'' then reject_loop includeFinal current rest
      else let current' = path_join [current, component]
           in if \<not> includeFinal \<and> rest = [] then os_return ()
              else os_bind (os_lstat current') (\<lambda>info.
                if is_link info then os_throw ErrLinksUnsupported
                else reject_loop includeFinal current' rest))"

definition rejectSymlinkComponents :: "jailedFilesystem \<Rightarrow> string \<Rightarrow> bool \<Rightarrow> unit os" where
  "rejectSymlinkComponents j resolved includeFinal =
     os_seq (os_lift (ensureInsideRoot j resolved))
    (os_bind (os_lift (path_rel (jail_root j) resolved)) (\<lambda>relative.
     if relative = ''.'' then os_return ()
     else reject_loop includeFinal (jail_root j) (Split slash relative)))"

definition resolveExisting :: "jailedFilesystem \<Rightarrow> string \<Rightarrow> string os" where
  "resolveExisting j virtualPath =
     os_bind (os_lift (resolveVirtualPath j virtualPath)) (\<lambda>resolved.
     os_seq (rejectSymlinkComponents j resolved True) (os_return resolved))"

definition resolveForWrite :: "jailedFilesystem \<Rightarrow> string \<Rightarrow> string os" where
  "resolveForWrite j virtualPath =
     os_bind (os_lift (resolveVirtualPath j virtualPath)) (\<lambda>resolved.
     if isRoot j resolved then os_throw ErrPermissionDenied
     else os_seq (rejectSymlinkComponents j (path_dir resolved) True)
    (os_attempt (os_lstat resolved) (\<lambda>r. case r of
        Inr info \<Rightarrow> if is_link info then os_throw ErrLinksUnsupported else os_return resolved
      | Inl e \<Rightarrow> if \<not> os_is_not_exist e then os_throw e else os_return resolved)))"

section \<open>The operations\<close>

definition Fileread :: "jailedFilesystem \<Rightarrow> sftp_request \<Rightarrow> string os" where
  "Fileread j request =
     (if \<not> perm_Read (permissions j) then os_throw ErrPermissionDenied
      else os_bind (resolveExisting j (rq_Filepath request)) (\<lambda>resolved.
           os_bind (os_lstat resolved) (\<lambda>info.
           if is_link info then os_throw ErrLinksUnsupported
           else if info = DirNode then os_throw (ErrorString ''cannot read a directory'')
           else os_read_file resolved)))"

definition Filewrite :: "jailedFilesystem \<Rightarrow> sftp_request \<Rightarrow> string os" where
  "Filewrite j request =
     (let flags = rq_Pflags request
      in if \<not> perm_Write (permissions j) then os_throw ErrPermissionDenied
         else if fl_Creat flags \<and> \<not> perm_Create (permissions j) then os_throw ErrPermissionDenied
         else os_bind (resolveForWrite j (rq_Filepath request)) (\<lambda>resolved.
              os_seq (os_open_write (fl_Creat flags) (fl_Trunc flags) (fl_Excl flags) resolved)
                     (os_return resolved)))"

definition sftp_mkdir :: "jailedFilesystem \<Rightarrow> sftp_request \<Rightarrow> unit os" where
  "sftp_mkdir j request =
     (if \<not> perm_Create (permissions j) then os_throw ErrPermissionDenied
      else os_bind (resolveForWrite j (rq_Filepath request)) os_mkdir)"

definition sftp_rmdir :: "jailedFilesystem \<Rightarrow> sftp_request \<Rightarrow> unit os" where
  "sftp_rmdir j request =
     (if \<not> perm_Delete (permissions j) then os_throw ErrPermissionDenied
      else os_bind (resolveExisting j (rq_Filepath request)) (\<lambda>resolved.
           if isRoot j resolved then os_throw ErrPermissionDenied
           else os_bind (os_lstat resolved) (\<lambda>info.
                if is_link info then os_throw ErrLinksUnsupported
                else if info \<noteq> DirNode then os_throw (ErrorString ''not a directory'')
                else os_remove resolved)))"

definition sftp_remove :: "jailedFilesystem \<Rightarrow> sftp_request \<Rightarrow> unit os" where
  "sftp_remove j request =
     (if \<not> perm_Delete (permissions j) then os_throw ErrPermissionDenied
      else os_bind (resolveExisting j (rq_Filepath request)) (\<lambda>resolved.
           if isRoot j resolved then os_throw ErrPermissionDenied
           else os_bind (os_lstat resolved) (\<lambda>info.
                if is_link info then os_throw ErrLinksUnsupported
                else if info = DirNode then os_throw (ErrorString ''path is a directory'')
                else os_remove resolved)))"

definition sftp_rename :: "jailedFilesystem \<Rightarrow> sftp_request \<Rightarrow> unit os" where
  "sftp_rename j request =
     (if \<not> perm_Rename (permissions j) then os_throw ErrPermissionDenied
      else os_bind (resolveExisting j (rq_Filepath request)) (\<lambda>source.
           os_bind (resolveForWrite j (rq_Target request)) (\<lambda>target.
           if isRoot j source \<or> isRoot j target then os_throw ErrPermissionDenied
           else os_bind (os_lstat source) (\<lambda>sourceInfo.
                if is_link sourceInfo then os_throw ErrLinksUnsupported
                else os_attempt (os_lstat target) (\<lambda>r. case r of
                    Inr targetInfo \<Rightarrow>
                      if is_link targetInfo then os_throw ErrLinksUnsupported else os_rename source target
                  | Inl e \<Rightarrow> if \<not> os_is_not_exist e then os_throw e else os_rename source target)))))"

definition sftp_setstat :: "jailedFilesystem \<Rightarrow> sftp_request \<Rightarrow> unit os" where
  "sftp_setstat j request =
     (if \<not> perm_Write (permissions j) then os_throw ErrPermissionDenied
      else os_bind (resolveExisting j (rq_Filepath request)) (\<lambda>resolved.
           os_bind (os_lstat resolved) (\<lambda>info.
           if is_link info then os_throw ErrLinksUnsupported
           else case rq_Attributes request of
               None \<Rightarrow> os_return ()
             | Some a \<Rightarrow>
                 os_seq
                   (if \<not> at_hasSize a then os_return ()
                    else if info = DirNode then os_throw (ErrorString ''cannot truncate a directory'')
                    else os_truncate resolved (at_Size a))
                (os_seq (if at_hasPermissions a then os_touch resolved else os_return ())
                        (if at_hasAcmodtime a then os_touch resolved else os_return ())))))"

definition Filecmd :: "jailedFilesystem \<Rightarrow> sftp_request \<Rightarrow> unit os" where
  "Filecmd j request =
     (let cmd = rq_Method request
      in if cmd = ''Mkdir'' then sftp_mkdir j request
         else if cmd = ''Rmdir'' then sftp_rmdir j request
         else if cmd = ''Remove'' then sftp_remove j request
         else if cmd = ''Rename'' \<or> cmd = ''PosixRename'' then sftp_rename j request
         else if cmd = ''Setstat'' then sftp_setstat j request
         else if cmd = ''Symlink'' \<or> cmd = ''Link'' then os_throw ErrLinksUnsupported
         else os_throw (ErrorString (''unsupported SFTP command: '' @ cmd)))"

text \<open>\<open>entry.Info()\<close> looks each entry up again; links are left out.\<close>

fun list_infos :: "string \<Rightarrow> (string \<times> node) list \<Rightarrow> (string \<times> node) list os" where
  "list_infos dir [] = os_return []"
| "list_infos dir ((c, _) # rest) =
     os_bind (os_lstat (path_join [dir, c])) (\<lambda>entryInfo.
     os_bind (list_infos dir rest) (\<lambda>infos.
     os_return (if is_link entryInfo then infos else (c, entryInfo) # infos)))"

definition listDirectory :: "jailedFilesystem \<Rightarrow> string \<Rightarrow> (string \<times> node) list os" where
  "listDirectory j virtualPath =
     os_bind (resolveExisting j virtualPath) (\<lambda>resolved.
     os_bind (os_lstat resolved) (\<lambda>info.
     if is_link info then os_throw ErrLinksUnsupported
     else if info \<noteq> DirNode then os_throw (ErrorString ''not a directory'')
     else os_bind (os_read_dir resolved) (\<lambda>entries. list_infos resolved entries)))"

definition statPath :: "jailedFilesystem \<Rightarrow> string \<Rightarrow> (string \<times> node) list os" where
  "statPath j virtualPath =
     os_bind (resolveExisting j virtualPath) (\<lambda>resolved.
     os_bind (os_lstat resolved) (\<lambda>info.
     if is_link info then os_throw ErrLinksUnsupported
     else os_return [(path_base resolved, info)]))"

definition Filelist :: "jailedFilesystem \<Rightarrow> sftp_request \<Rightarrow> (string \<times> node) list os" where
  "Filelist j request =
     (if \<not> perm_Read (permissions j) then os_throw ErrPermissionDenied
      else if rq_Method request = ''List'' then listDirectory j (rq_Filepath request)
      else if rq_Method request = ''Stat'' then statPath j (rq_Filepath request)
      else if rq_Method request = ''Readlink'' then os_throw ErrLinksUnsupported
      else os_throw (ErrorString (''unsupported SFTP list operation: '' @ rq_Method request)))"

text \<open>
  \<open>ListAt\<close> fills a buffer of \<open>room\<close> entries from an offset: the entries copied, and \<open>io.EOF\<close> once the end
  is reached.
\<close>

definition ListAt :: "'a list \<Rightarrow> nat \<Rightarrow> int \<Rightarrow> 'a list \<times> go_error option" where
  "ListAt entries room offset =
     (if offset < 0 then ([], Some (ErrorString ''invalid list offset''))
      else if offset \<ge> int (length entries) then ([], Some IoEOF)
      else let copied = take room (drop (nat offset) entries)
           in if offset + int (length copied) \<ge> int (length entries) then (copied, Some IoEOF)
              else (copied, None))"


section \<open>Where virtual paths lead\<close>

text \<open>The components a virtual path names inside the jail.\<close>

definition virtual :: "string \<Rightarrow> string list" where
  "virtual v = clean_abs (''/'' @ TrimPrefix (TrimSpace v) ''/'')"

lemma plains_virtual [simp]: "plains (virtual v)"
  by (simp add: virtual_def)

lemma ensureInsideRoot_rooted:
  assumes "jail_root j = rooted bs" "plains bs" "plains cs"
  shows "ensureInsideRoot j (rooted cs) = (if prefix bs cs then Inr () else Inl ErrPermissionDenied)"
proof -
  obtain r where r: "path_rel (rooted bs) (rooted cs) = Inr r" using path_rel_rooted [OF assms(2,3)] by blast
  then show ?thesis using rel_escapes_iff [OF assms(2,3) r] assms(1) by (simp add: ensureInsideRoot_def)
qed

text \<open>Resolution is total: a path with too many \<open>..\<close> ends at the root of the jail, it is never refused.\<close>

lemma resolveVirtualPath_rooted:
  assumes "jail_root j = rooted bs" "plains bs"
  shows "resolveVirtualPath j v = Inr (rooted (bs @ virtual v))"
proof -
  have r: "TrimPrefix (rooted cs) ''/'' = JoinWith slash cs" for cs
    using TrimPrefix_append [of "''/''" "JoinWith slash cs"] by (simp add: rooted_def)
  have t: "TrimPrefix (if x = [] then ''/'' else x) ''/'' = TrimPrefix x ''/''" for x
    by (simp add: TrimPrefix_def)
  have c: "path_clean (''/'' @ TrimPrefix (if TrimSpace v = [] then ''/'' else TrimSpace v) ''/'') = rooted (virtual v)"
    unfolding t virtual_def by (rule path_clean_abs) simp
  have j: "path_clean (path_join [rooted bs, JoinWith slash (virtual v)]) = rooted (bs @ virtual v)"
    using assms(2) by (simp add: path_join_rooted descend_JoinWith)
  show ?thesis
    using assms by (simp add: resolveVirtualPath_def Let_def c r j ensureInsideRoot_rooted [OF assms] del: append_Cons)
qed

interpretation jail: path_guard "\<lambda>d base. resolveVirtualPath \<lparr>jail_root = base, permissions = perms\<rparr>" for perms
proof unfold_locales
  fix bs d req p
  assume "plains bs" "resolveVirtualPath \<lparr>jail_root = rooted bs, permissions = perms\<rparr> req = Inr p"
  then have "p = rooted (bs @ virtual req) \<and> plains (bs @ virtual req) \<and> prefix bs (bs @ virtual req)"
    by (simp add: resolveVirtualPath_rooted)
  then show "\<exists>cs. plains cs \<and> prefix bs cs \<and> p = rooted cs" by blast
qed

section \<open>Operations that keep to the jail\<close>

definition linkfree :: "fsys \<Rightarrow> fpath \<Rightarrow> bool" where
  "linkfree f p \<longleftrightarrow> (\<forall>ds t. ds \<noteq> [] \<longrightarrow> prefix ds p \<longrightarrow> fs_get f ds \<noteq> Some (LinkNode t))"

lemma locate_linkfree:
  assumes "locate fl d f (rooted p) = Inr q" "plains p" "linkfree f p"
  shows "q = p"
proof -
  have "namei max_links f fl [] p = Inr q"
    using assms(1,2) by (auto simp: locate_def split: if_splits)
  from namei_plain [OF this assms(2)] assms(3) show ?thesis by (simp add: linkfree_def)
qed

lemma linkfree_root: "dir_at f root \<Longrightarrow> linkfree f root"
  by (auto simp: dir_at_def linkfree_def)

text \<open>
  \<open>jailed Q root m\<close>: run where the path to \<open>root\<close> is sound and \<open>Q\<close> holds of the files, \<open>m\<close> changes only
  what lies below \<open>root\<close> and leaves the root alone. Links below \<open>root\<close> are allowed.
\<close>

definition jailed :: "(fsys \<Rightarrow> bool) \<Rightarrow> fpath \<Rightarrow> 'a os \<Rightarrow> bool" where
  "jailed Q root m \<longleftrightarrow> (\<forall>w. dir_at (files w) root \<longrightarrow> Q (files w) \<longrightarrow>
     agree_outside root (files w) (files (snd (m w))) \<and> dir_at (files (snd (m w))) root)"

text \<open>\<open>m\<close> only reads, and what it returns satisfies \<open>P\<close> of the files.\<close>

definition finds :: "(fsys \<Rightarrow> bool) \<Rightarrow> 'a os \<Rightarrow> ('a \<Rightarrow> fsys \<Rightarrow> bool) \<Rightarrow> bool" where
  "finds Q m P \<longleftrightarrow> reads_only m \<and> (\<forall>w x w'. Q (files w) \<longrightarrow> m w = (Inr x, w') \<longrightarrow> P x (files w))"

named_theorems jailed_intros \<open>jailed computations\<close>

lemma jailed_reads [jailed_intros]: "reads_only m \<Longrightarrow> jailed Q root m"
  by (simp add: jailed_def reads_only_def)

lemma jailed_if [jailed_intros]:
  "(b \<Longrightarrow> jailed Q root m) \<Longrightarrow> (\<not> b \<Longrightarrow> jailed Q root n) \<Longrightarrow> jailed Q root (if b then m else n)"
  by simp

lemma jailed_bind:
  assumes "finds (\<lambda>f. dir_at f root \<and> Q f) m P" "\<And>x. jailed (\<lambda>f. Q f \<and> P x f) root (k x)"
  shows "jailed Q root (os_bind m k)"
  unfolding jailed_def
proof (intro allI impI)
  fix w :: world assume w: "dir_at (files w) root" "Q (files w)"
  obtain r w1 where m: "m w = (r, w1)" by fastforce
  have f: "files w1 = files w" using assms(1) m by (auto simp: finds_def dest: reads_onlyD)
  show "agree_outside root (files w) (files (snd (os_bind m k w))) \<and> dir_at (files (snd (os_bind m k w))) root"
  proof (cases r)
    case (Inr x)
    then have "P x (files w)" using assms(1) m w by (auto simp: finds_def)
    with w f have "dir_at (files w1) root" "Q (files w1) \<and> P x (files w1)" by simp_all
    with assms(2) [of x, unfolded jailed_def, rule_format, of w1] f m Inr show ?thesis
      by (simp add: os_bind_def)
  qed (use m w f in \<open>simp add: os_bind_def\<close>)
qed

lemma jailed_attempt:
  assumes "reads_only m" "\<And>r. jailed Q root (k r)"
  shows "jailed Q root (os_attempt m k)"
  unfolding jailed_def
proof (intro allI impI)
  fix w :: world assume w: "dir_at (files w) root" "Q (files w)"
  obtain r w1 where m: "m w = (r, w1)" by fastforce
  have f: "files w1 = files w" using assms(1) m by (auto dest: reads_onlyD)
  with w have "dir_at (files w1) root" "Q (files w1)" by simp_all
  with assms(2) [of r, unfolded jailed_def, rule_format, of w1] f m show "agree_outside root (files w) (files (snd (os_attempt m k w)))
      \<and> dir_at (files (snd (os_attempt m k w))) root"
    by (simp add: os_attempt_def)
qed

lemma finds_reads: "reads_only m \<Longrightarrow> finds Q m (\<lambda>_ _. True)"
  by (simp add: finds_def)


section \<open>The symbolic link check\<close>

lemma namei_nofollow:
  assumes "namei n f False cur cs = Inr q" "plains cs"
    "\<And>ds t. ds \<noteq> [] \<Longrightarrow> strict_prefix ds cs \<Longrightarrow> fs_get f (cur @ ds) \<noteq> Some (LinkNode t)"
  shows "q = cur @ cs"
  using assms
proof (induction cs arbitrary: cur)
  case (Cons c cs)
  have c: "plain c" "plains cs" using Cons.prems(2) by auto
  show ?case
  proof (cases "cs = []")
    case True
    then show ?thesis using Cons.prems(1) c(1) by (auto simp: plain_props split: option.splits node.splits)
  next
    case False
    then have nolink: "fs_get f (cur @ [c]) \<noteq> Some (LinkNode t)" for t
      using Cons.prems(3) [of "[c]"] by (simp add: strict_prefix_def)
    have "namei n f False (cur @ [c]) cs = Inr q"
      using Cons.prems(1) c(1) nolink False by (auto simp: plain_props split: option.splits node.splits)
    then have "q = (cur @ [c]) @ cs"
      by (rule Cons.IH [OF _ c(2)]) (use Cons.prems(3) [of "c # _"] in \<open>auto simp: strict_prefix_def\<close>)
    then show ?thesis by simp
  qed
qed simp

lemma lstat_linkfree:
  assumes "os_lstat (rooted (p @ [c])) w = (Inr i, w')" "plains (p @ [c])" "linkfree (files w) p"
  shows "fs_get (files w) (p @ [c]) = Some i" "files w' = files w"
proof -
  from assms(1) show "files w' = files w" by (auto simp: os_lstat_def os_call_def split: option.splits)
  have "fs_info False (rooted (p @ [c])) (wd w) (files w) = Inr i"
    using assms(1) by (auto simp: os_lstat_def os_call_def split: option.splits)
  then obtain q where q: "locate False (wd w) (files w) (rooted (p @ [c])) = Inr q" "fs_get (files w) q = Some i"
    by (auto simp: fs_info_def split: sum.splits option.splits)
  have "namei max_links (files w) False [] (p @ [c]) = Inr q"
    using q(1) assms(2) by (auto simp: locate_def split: if_splits)
  from namei_nofollow [OF this assms(2)] assms(3) have "q = p @ [c]"
    by (auto simp: linkfree_def strict_prefix_def)
  with q(2) show "fs_get (files w) (p @ [c]) = Some i" by simp
qed

text \<open>Every component is there and is no link.\<close>

definition present :: "fsys \<Rightarrow> fpath \<Rightarrow> bool" where
  "present f p \<longleftrightarrow> (\<forall>ds. ds \<noteq> [] \<longrightarrow> prefix ds p \<longrightarrow> (\<exists>i. fs_get f ds = Some i \<and> \<not> is_link i))"

lemma present_linkfree: "present f p \<Longrightarrow> linkfree f p"
  by (fastforce simp: present_def linkfree_def is_link_def)

lemma present_root: "dir_at f root \<Longrightarrow> present f root"
  by (auto simp: dir_at_def present_def is_link_def)

lemma present_snoc:
  "present f p \<Longrightarrow> fs_get f (p @ [c]) = Some i \<Longrightarrow> \<not> is_link i \<Longrightarrow> present f (p @ [c])"
  by (auto simp: present_def prefix_snoc)

lemma linkfree_snoc:
  "linkfree f p \<Longrightarrow> \<forall>t. fs_get f (p @ [c]) \<noteq> Some (LinkNode t) \<Longrightarrow> linkfree f (p @ [c])"
  by (auto simp: linkfree_def prefix_snoc)

lemma namei_present:
  "\<forall>ds. ds \<noteq> [] \<longrightarrow> prefix ds us \<longrightarrow> (\<exists>i. fs_get f (cur @ ds) = Some i \<and> \<not> is_link i) \<Longrightarrow> plains (us @ [c])
    \<Longrightarrow> namei n f False cur (us @ [c]) \<noteq> Inl SysNotExist"
proof (induction us arbitrary: cur)
  case Nil
  then show ?case by (auto simp: plain_props split: option.split node.split)
next
  case (Cons u us)
  obtain i where i: "fs_get f (cur @ [u]) = Some i" "\<not> is_link i"
    using Cons.prems(1) [rule_format, of "[u]"] by auto
  have "namei n f False (cur @ [u]) (us @ [c]) \<noteq> Inl SysNotExist"
  proof (rule Cons.IH)
    show "\<forall>ds. ds \<noteq> [] \<longrightarrow> prefix ds us \<longrightarrow> (\<exists>i. fs_get f ((cur @ [u]) @ ds) = Some i \<and> \<not> is_link i)"
      using Cons.prems(1) [rule_format, of "u # _"] by auto
  qed (use Cons.prems in simp)
  with i Cons.prems(2) show ?case by (auto simp: plain_props is_link_def split: node.splits)
qed

lemma lstat_not_exist:
  assumes "os_lstat (rooted (p @ [c])) w = (Inl SysNotExist, w')" "plains (p @ [c])" "present (files w) p"
  shows "fs_get (files w) (p @ [c]) = None"
proof -
  have i: "fs_info False (rooted (p @ [c])) (wd w) (files w) = Inl SysNotExist"
    using assms(1) by (auto simp: os_lstat_def os_call_def split: option.splits)
  have "namei max_links (files w) False [] (p @ [c]) \<noteq> Inl SysNotExist"
    by (rule namei_present) (use assms(2,3) in \<open>simp_all add: present_def\<close>)
  then obtain q where q: "locate False (wd w) (files w) (rooted (p @ [c])) = Inr q" "fs_get (files w) q = None"
    using i assms(2) by (auto simp: fs_info_def locate_def split: sum.splits option.splits if_splits)
  have "namei max_links (files w) False [] (p @ [c]) = Inr q"
    using q(1) assms(2) by (auto simp: locate_def split: if_splits)
  from namei_nofollow [OF this assms(2)] present_linkfree [OF assms(3)] have "q = p @ [c]"
    by (auto simp: linkfree_def strict_prefix_def)
  with q(2) show ?thesis by simp
qed

lemma reads_reject_loop [reads_intros]: "reads_only (reject_loop b p cs)"
  by (induction cs arbitrary: p) (auto intro!: reads_intros simp: Let_def)

lemma reject_loop_present:
  "reject_loop True (rooted p) us w = (Inr (), w') \<Longrightarrow> plains (p @ us) \<Longrightarrow> present (files w) p
    \<Longrightarrow> present (files w) (p @ us)"
proof (induction us arbitrary: p w)
  case (Cons c us)
  have c: "plain c" "plains p" "plains (p @ [c])" using Cons.prems(2) by auto
  have j: "path_join [rooted p, c] = rooted (p @ [c])" using c by (simp add: path_join_rooted descend_plain)
  obtain i w1 where l: "os_lstat (rooted (p @ [c])) w = (Inr i, w1)"
    and i: "\<not> is_link i" and k: "reject_loop True (rooted (p @ [c])) us w1 = (Inr (), w')"
    using Cons.prems(1) c(1) j
    by (auto simp: plain_props os_bind_def os_throw_def Let_def split: prod.splits sum.splits if_splits)
  note l1 = lstat_linkfree [OF l c(3) present_linkfree [OF Cons.prems(3)]]
  have "present (files w1) ((p @ [c]) @ us)"
    by (rule Cons.IH [OF k]) (use Cons.prems l1 i present_snoc in auto)
  with l1(2) show ?case by simp
qed simp

lemma reads_rejectSymlinkComponents [reads_intros]: "reads_only (rejectSymlinkComponents j p b)"
  unfolding rejectSymlinkComponents_def by (intro reads_intros)

lemma rejectSymlinkComponents_present:
  assumes "jail_root j = rooted bs" "plains (bs @ us)"
    "rejectSymlinkComponents j (rooted (bs @ us)) True w = (Inr (), w')" "dir_at (files w) bs"
  shows "present (files w) (bs @ us)"
proof (cases "us = []")
  case True
  then show ?thesis using present_root [OF assms(4)] by simp
next
  case False
  have p: "plains bs" "plains us" using assms(2) by auto
  have r: "path_rel (rooted bs) (rooted (bs @ us)) = Inr (JoinWith slash us)"
    using path_rel_rooted [OF p(1) assms(2)] strip_common_append [of bs "[]" us] False by simp
  have "JoinWith slash us \<noteq> ''.''" 
  proof
    assume "JoinWith slash us = ''.''"
    then have "us = [''.'']" using Split_plains [OF p(2) False] by (simp add: Split_nosep)
    with p(2) show False by (simp add: plain_def)
  qed
  then have "reject_loop True (rooted bs) us w = (Inr (), w')"
    using assms(3) r p False
    by (simp add: rejectSymlinkComponents_def assms(1) ensureInsideRoot_rooted [OF assms(1) p(1) assms(2)]
        os_bind_def os_lift_def Split_plains)
  from reject_loop_present [OF this assms(2) present_root [OF assms(4)]] show ?thesis .
qed


lemma finds_resolveExisting:
  assumes "jail_root j = rooted bs" "plains bs"
  shows "finds (\<lambda>f. dir_at f bs \<and> Q f) (resolveExisting j v)
    (\<lambda>p f. p = rooted (bs @ virtual v) \<and> linkfree f (bs @ virtual v))"
  unfolding finds_def
proof (intro conjI allI impI)
  show "reads_only (resolveExisting j v)" unfolding resolveExisting_def by (intro reads_intros)
  fix w :: world and x w' assume "dir_at (files w) bs \<and> Q (files w)" "resolveExisting j v w = (Inr x, w')"
  then show "x = rooted (bs @ virtual v)" "linkfree (files w) (bs @ virtual v)"
    using present_linkfree [OF rejectSymlinkComponents_present [OF assms(1), of "virtual v" w]] assms
    by (auto simp: resolveExisting_def resolveVirtualPath_rooted os_bind_def os_lift_def os_return_def
        split: prod.splits sum.splits)
qed

lemma isRoot_rooted: "jail_root j = rooted bs \<Longrightarrow> plains bs \<Longrightarrow> plains cs \<Longrightarrow> isRoot j (rooted cs) \<longleftrightarrow> cs = bs"
  by (auto simp: isRoot_def rooted_inject)

lemma finds_resolveForWrite:
  assumes "jail_root j = rooted bs" "plains bs"
  shows "finds (\<lambda>f. dir_at f bs \<and> Q f) (resolveForWrite j v)
    (\<lambda>p f. p = rooted (bs @ virtual v) \<and> virtual v \<noteq> [] \<and> linkfree f (bs @ virtual v))"
  unfolding finds_def
proof (intro conjI allI impI)
  show "reads_only (resolveForWrite j v)"
    unfolding resolveForWrite_def by (auto intro!: reads_intros reads_attempt split: sum.split)
  fix w :: world and x w' assume d: "dir_at (files w) bs \<and> Q (files w)" and r: "resolveForWrite j v w = (Inr x, w')"
  show ne: "virtual v \<noteq> []"
    using r assms by (auto simp: resolveForWrite_def resolveVirtualPath_rooted isRoot_rooted os_bind_def os_lift_def os_throw_def)
  then obtain us c where us: "virtual v = us @ [c]" by (metis rev_exhaust)
  have pl: "plains (us @ [c])" using plains_virtual [of v] us by simp
  have pd: "path_dir (rooted (bs @ us @ [c])) = rooted (bs @ us)"
    using path_dir_rooted [of "bs @ us" c] pl assms(2) by simp
  have nr: "\<not> isRoot j (rooted (bs @ us @ [c]))" using isRoot_rooted [OF assms, of "bs @ us @ [c]"] pl assms(2) by simp
  obtain w1 where k: "rejectSymlinkComponents j (rooted (bs @ us)) True w = (Inr (), w1)"
      and a: "os_attempt (os_lstat (rooted (bs @ us @ [c]))) (\<lambda>r. case r of
        Inr info \<Rightarrow> if is_link info then os_throw ErrLinksUnsupported else os_return (rooted (bs @ us @ [c]))
      | Inl e \<Rightarrow> if \<not> os_is_not_exist e then os_throw e else os_return (rooted (bs @ us @ [c]))) w1 = (Inr x, w')"
    using r assms nr us pd
    by (auto simp: resolveForWrite_def resolveVirtualPath_rooted os_bind_def os_lift_def split: prod.splits sum.splits)
  have f1: "files w1 = files w" by (rule reads_onlyD [OF reads_rejectSymlinkComponents k])
  have pr: "present (files w) (bs @ us)"
    using rejectSymlinkComponents_present [OF assms(1) _ k] d pl assms(2) by simp
  obtain y w2 where l: "os_lstat (rooted ((bs @ us) @ [c])) w1 = (y, w2)" by fastforce
  show "x = rooted (bs @ virtual v)"
    using a us by (auto simp: os_attempt_def os_throw_def os_return_def split: prod.splits sum.splits if_splits)
  have pl': "plains ((bs @ us) @ [c])" using pl assms(2) by simp
  have pr1: "present (files w1) (bs @ us)" using pr f1 by simp
  have "\<not> is_link i" if i: "fs_get (files w) ((bs @ us) @ [c]) = Some i" for i
  proof (cases y)
    case (Inl e)
    then have "e = SysNotExist"
      using a l by (auto simp: os_attempt_def os_throw_def os_is_not_exist_def split: if_splits)
    with lstat_not_exist [OF _ pl' pr1] l Inl i f1 show ?thesis by simp
  next
    case (Inr k)
    have "fs_get (files w1) ((bs @ us) @ [c]) = Some k"
      by (rule lstat_linkfree(1) [OF _ pl' present_linkfree [OF pr1]]) (use l Inr in simp)
    then show ?thesis
      using a l Inr i f1 by (auto simp: os_attempt_def os_throw_def split: if_splits)
  qed
  then show "linkfree (files w) (bs @ virtual v)"
    unfolding us append_assoc [symmetric]
    by (intro linkfree_snoc present_linkfree [OF pr]) (auto simp: is_link_def)
qed


section \<open>Confinement in the presence of links\<close>

lemma jailed_call:
  assumes "\<And>d f r g. m d f = (r, g) \<Longrightarrow> dir_at f root \<Longrightarrow> Q f \<Longrightarrow> agree_outside root f g \<and> dir_at g root"
  shows "jailed Q root (os_call m)"
  unfolding jailed_def
proof (intro allI impI)
  fix w :: world assume w: "dir_at (files w) root" "Q (files w)"
  obtain r g where m: "m (wd w) (files w) = (r, g)" by fastforce
  from assms [OF this w] w m show "agree_outside root (files w) (files (snd (os_call m w)))
      \<and> dir_at (files (snd (os_call m w))) root"
    by (auto simp: os_call_def split: option.split)
qed

lemma strict_prefix_ne: "strict_prefix root p \<Longrightarrow> p \<noteq> []"
  by (auto simp: strict_prefix_def)

lemma jail_put:
  assumes "dir_at f root" "strict_prefix root p"
  shows "agree_outside root f (fs_put p n f) \<and> dir_at (fs_put p n f) root"
  using assms strict_prefix_ne [OF assms(2)] prefix_order.antisym [of p root]
  by (auto simp: dir_at_def strict_prefix_def)

lemma jail_del:
  assumes "dir_at f root" "strict_prefix root p"
  shows "agree_outside root f (fs_del p f) \<and> dir_at (fs_del p f) root"
  using assms strict_prefix_ne [OF assms(2)] prefix_order.antisym [of p root]
    agree_outside_del [of p root f]
  by (auto simp: dir_at_def strict_prefix_def)

text \<open>Where the operations act: below the root, on a path on which there is no link.\<close>

definition acts_on :: "(fsys \<Rightarrow> bool) \<Rightarrow> fpath \<Rightarrow> fpath \<Rightarrow> bool" where
  "acts_on Q root p \<longleftrightarrow> plains p \<and> strict_prefix root p \<and> (\<forall>f. Q f \<longrightarrow> linkfree f p)"

lemma acts_onD: "locate fl d f (rooted p) = Inr q \<Longrightarrow> acts_on Q root p \<Longrightarrow> Q f \<Longrightarrow> q = p"
  using locate_linkfree by (auto simp: acts_on_def)

lemma acts_on_below: "acts_on Q root p \<Longrightarrow> strict_prefix root p"
  by (simp add: acts_on_def)

lemma jailed_mkdir [jailed_intros]: "acts_on Q root p \<Longrightarrow> jailed Q root (os_mkdir (rooted p))"
  unfolding os_mkdir_def
  by (rule jailed_call) (auto simp: fs_mkdir_def acts_on_below jail_put split: sum.splits if_splits dest!: acts_onD)

lemma jailed_open_write [jailed_intros]: "acts_on Q root p \<Longrightarrow> jailed Q root (os_open_write c t x (rooted p))"
  unfolding os_open_write_def
  by (rule jailed_call)
    (auto simp: acts_on_below jail_put split: sum.splits if_splits option.splits node.splits dest!: acts_onD)

lemma jailed_truncate [jailed_intros]: "acts_on Q root p \<Longrightarrow> jailed Q root (os_truncate (rooted p) n)"
  unfolding os_truncate_def
  by (rule jailed_call)
    (auto simp: acts_on_below jail_put split: sum.splits if_splits option.splits node.splits dest!: acts_onD)

lemma jailed_remove [jailed_intros]: "acts_on Q root p \<Longrightarrow> jailed Q root (os_remove (rooted p))"
  unfolding os_remove_def
  by (rule jailed_call)
    (auto simp: acts_on_below jail_del split: sum.splits if_splits option.splits node.splits dest!: acts_onD)

lemma jailed_rename [jailed_intros]:
  assumes "acts_on Q root a" "acts_on Q root b"
  shows "jailed Q root (os_rename (rooted a) (rooted b))"
  unfolding os_rename_def
proof (rule jailed_call)
  fix d f r g
  assume e: "(case locate False d f (rooted a) of Inl e \<Rightarrow> (Inl e, f)
     | Inr q \<Rightarrow> (case locate False d f (rooted b) of Inl e \<Rightarrow> (Inl e, f)
          | Inr b' \<Rightarrow> fs_rename (rooted a = rooted b) q b' f)) = (r, g)"
    and s: "dir_at f root" and q: "Q f"
  show "agree_outside root f g \<and> dir_at g root"
  proof (cases "g = f")
    case False
    with e have m: "fs_rename (rooted a = rooted b) a b f = (r, g)" and l: "locate False d f (rooted a) = Inr a"
      using assms q by (auto split: sum.splits dest!: acts_onD)
    from m False have g: "g = fs_move a b f" and pre: "\<not> prefix a b" and nd: "fs_get f b \<noteq> Some DirNode"
      by (auto simp: fs_rename_def split: option.splits if_splits)
    have ab: "strict_prefix root a" "strict_prefix root b" "plains a" "linkfree f a" "a \<noteq> []" "b \<noteq> []"
      using assms q acts_on_below strict_prefix_ne by (auto simp: acts_on_def)
    have nba: "\<not> prefix b a"
    proof
      assume "prefix b a"
      with pre have sb: "strict_prefix b a" by (auto simp: strict_prefix_def)
      have "namei max_links f False [] a = Inr a" using l ab(3) by (auto simp: locate_def split: if_splits)
      from namei_passes_dirs [OF this ab(3) _ ab(6) sb] ab(4) nd show False by (simp add: linkfree_def)
    qed
    note get = fs_get_move [OF ab(5,6) pre nba, of f]
    have "fs_get g q = fs_get f q" if "\<not> prefix root q" for q
      using that ab(1,2) prefix_order.trans by (auto simp: g get strict_prefix_def)
    moreover have "fs_get g q = Some DirNode" if "prefix q root" for q
    proof -
      have "\<not> prefix b q" "\<not> prefix a q"
        using that ab(1,2) prefix_order.trans prefix_order.antisym unfolding strict_prefix_def by metis+
      then show ?thesis using s that by (simp add: g get dir_at_def)
    qed
    ultimately show ?thesis by (simp add: agree_outside_def dir_at_def)
  qed (use s in simp)
qed

lemma reads_touch [reads_intros]: "reads_only (os_touch p)"
  by (simp add: reads_only_def os_touch_def os_call_def split: option.split)


lemma jailed_resolve:
  assumes "finds (\<lambda>f. dir_at f root \<and> Q f) m (\<lambda>p f. p = c \<and> R f)" "jailed (\<lambda>f. Q f \<and> R f) root (k c)"
  shows "jailed Q root (os_bind m k)"
proof (rule jailed_bind [OF assms(1)])
  show "jailed (\<lambda>f. Q f \<and> x = c \<and> R f) root (k x)" for x
    using assms(2) by (cases "x = c") (simp_all add: jailed_def)
qed

lemma jailed_bind_reads [jailed_intros]:
  "reads_only m \<Longrightarrow> (\<And>x. jailed Q root (k x)) \<Longrightarrow> jailed Q root (os_bind m k)"
  by (rule jailed_bind [OF finds_reads]) simp_all

lemma jailed_then_reads:
  assumes "jailed Q root m" "\<And>x. reads_only (k x)"
  shows "jailed Q root (os_bind m k)"
  unfolding jailed_def
proof (intro allI impI)
  fix w :: world assume w: "dir_at (files w) root" "Q (files w)"
  obtain r w1 where m: "m w = (r, w1)" by fastforce
  have 1: "agree_outside root (files w) (files w1) \<and> dir_at (files w1) root"
    using assms(1) [unfolded jailed_def, rule_format, OF w] m by simp
  have "files (snd (os_bind m k w)) = files w1"
    using m assms(2) by (cases r) (auto simp: os_bind_def reads_only_def)
  with 1 show "agree_outside root (files w) (files (snd (os_bind m k w))) \<and> dir_at (files (snd (os_bind m k w))) root"
    by simp
qed

lemma jailed_throw: "jailed Q root (os_throw e)"
  by (intro jailed_reads reads_intros)

lemma jailed_return: "jailed Q root (os_return x)"
  by (intro jailed_reads reads_intros)

lemma acts_on_virtual:
  "plains bs \<Longrightarrow> virtual v \<noteq> [] \<Longrightarrow> (\<And>f. Q f \<Longrightarrow> linkfree f (bs @ virtual v)) \<Longrightarrow> acts_on Q bs (bs @ virtual v)"
  by (simp add: acts_on_def strict_prefix_def)

text \<open>Below a path that \<open>resolveExisting\<close> or \<open>resolveForWrite\<close> has accepted.\<close>

lemma jailed_existing:
  assumes "jail_root j = rooted bs" "plains bs"
    "jailed (\<lambda>f. Q f \<and> linkfree f (bs @ virtual v)) bs (k (rooted (bs @ virtual v)))"
  shows "jailed Q bs (os_bind (resolveExisting j v) k)"
  by (rule jailed_resolve [where k = k and c = "rooted (bs @ virtual v)" and Q = Q and R = "\<lambda>f. linkfree f (bs @ virtual v)",
        OF finds_resolveExisting [OF assms(1,2), of Q v] assms(3)])

lemma jailed_for_write:
  assumes "jail_root j = rooted bs" "plains bs"
    "jailed (\<lambda>f. Q f \<and> virtual v \<noteq> [] \<and> linkfree f (bs @ virtual v)) bs (k (rooted (bs @ virtual v)))"
  shows "jailed Q bs (os_bind (resolveForWrite j v) k)"
  by (rule jailed_resolve [where k = k and c = "rooted (bs @ virtual v)" and Q = Q and R = "\<lambda>f. virtual v \<noteq> [] \<and> linkfree f (bs @ virtual v)",
        OF finds_resolveForWrite [OF assms(1,2), of Q v] assms(3)])

lemma jailed_no: "(\<And>f. \<not> Q f) \<Longrightarrow> jailed Q root m"
  by (simp add: jailed_def)

lemma jailed_write:
  assumes "jail_root j = rooted bs" "plains bs"
    "acts_on (\<lambda>f. Q f \<and> virtual v \<noteq> [] \<and> linkfree f (bs @ virtual v)) bs (bs @ virtual v)
      \<Longrightarrow> jailed (\<lambda>f. Q f \<and> virtual v \<noteq> [] \<and> linkfree f (bs @ virtual v)) bs (k (rooted (bs @ virtual v)))"
  shows "jailed Q bs (os_bind (resolveForWrite j v) k)"
proof (rule jailed_for_write [OF assms(1,2)], cases "virtual v = []")
  case False
  then show "jailed (\<lambda>f. Q f \<and> virtual v \<noteq> [] \<and> linkfree f (bs @ virtual v)) bs (k (rooted (bs @ virtual v)))"
    by (intro assms(3) acts_on_virtual assms(2)) auto
qed (simp add: jailed_no)

lemma jailed_Filewrite:
  assumes "jail_root j = rooted bs" "plains bs"
  shows "jailed Q bs (Filewrite j request)"
  unfolding Filewrite_def Let_def
  by (intro jailed_if jailed_throw jailed_write [OF assms] jailed_then_reads jailed_open_write reads_intros)

lemma jailed_sftp_mkdir:
  assumes "jail_root j = rooted bs" "plains bs"
  shows "jailed Q bs (sftp_mkdir j request)"
  unfolding sftp_mkdir_def by (intro jailed_if jailed_throw jailed_write [OF assms] jailed_mkdir)

lemma acts_on_existing:
  assumes "jail_root j = rooted bs" "plains bs" "\<not> isRoot j (rooted (bs @ virtual v))"
  shows "acts_on (\<lambda>f. Q f \<and> linkfree f (bs @ virtual v)) bs (bs @ virtual v)"
  using assms isRoot_rooted [OF assms(1,2), of "bs @ virtual v"] by (intro acts_on_virtual) auto

lemma jailed_sftp_remove:
  assumes "jail_root j = rooted bs" "plains bs"
  shows "jailed Q bs (sftp_remove j request)" "jailed Q bs (sftp_rmdir j request)"
  unfolding sftp_remove_def sftp_rmdir_def
  by (intro jailed_if jailed_throw jailed_existing [OF assms] jailed_bind_reads jailed_remove
      acts_on_existing [OF assms] reads_intros; assumption?)+


lemma acts_on_mono: "acts_on Q root p \<Longrightarrow> (\<And>f. R f \<Longrightarrow> Q f) \<Longrightarrow> acts_on R root p"
  by (simp add: acts_on_def)

lemma jailed_sftp_rename:
  assumes "jail_root j = rooted bs" "plains bs"
  shows "jailed Q bs (sftp_rename j request)"
proof -
  have rn: "jailed R bs (if isRoot j a \<or> isRoot j b then os_throw ErrPermissionDenied
      else os_bind (os_lstat a) (\<lambda>sourceInfo.
        if is_link sourceInfo then os_throw ErrLinksUnsupported
        else os_attempt (os_lstat b) (\<lambda>r. case r of
            Inr targetInfo \<Rightarrow> if is_link targetInfo then os_throw ErrLinksUnsupported else os_rename a b
          | Inl e \<Rightarrow> if \<not> os_is_not_exist e then os_throw e else os_rename a b)))"
    if "\<not> isRoot j a \<Longrightarrow> jailed R bs (os_rename a b)" for R a b
    using that by (auto intro!: jailed_if jailed_throw jailed_bind_reads jailed_attempt reads_intros split: sum.split)
  show ?thesis
    unfolding sftp_rename_def
  proof (rule jailed_if [OF jailed_throw], rule jailed_existing [OF assms], rule jailed_write [OF assms], rule rn)
    let ?a = "bs @ virtual (rq_Filepath request)" and ?b = "bs @ virtual (rq_Target request)"
    let ?R = "\<lambda>f. (Q f \<and> linkfree f ?a) \<and> virtual (rq_Target request) \<noteq> [] \<and> linkfree f ?b"
    assume b: "acts_on ?R bs ?b" and a: "\<not> isRoot j (rooted ?a)"
    have "acts_on ?R bs ?a" by (rule acts_on_mono [OF acts_on_existing [OF assms a, of Q]]) simp
    with b show "jailed ?R bs (os_rename (rooted ?a) (rooted ?b))" by (intro jailed_rename)
  qed
qed

lemma dir_root_is_dir: "dir_at f root \<Longrightarrow> fs_get f root = Some DirNode"
  by (simp add: dir_at_def)

lemma jailed_truncate_below:
  assumes "plains p" "prefix root p" "\<And>f. Q f \<Longrightarrow> linkfree f p"
  shows "jailed Q root (os_truncate (rooted p) n)"
proof (cases "p = root")
  case True
  have q: "q = root" if "locate True d f (rooted root) = Inr q" "Q f" for d f q
    using locate_linkfree [OF that(1)] assms(1) assms(3) [OF that(2)] True by simp
  show ?thesis
    unfolding True os_truncate_def
    by (rule jailed_call) (auto dest!: q simp: dir_root_is_dir split: sum.splits if_splits option.splits node.splits)
next
  case False
  then show ?thesis using assms by (intro jailed_truncate) (simp add: acts_on_def strict_prefix_def)
qed

lemma jailed_sftp_setstat:
  assumes "jail_root j = rooted bs" "plains bs"
  shows "jailed Q bs (sftp_setstat j request)"
  unfolding sftp_setstat_def
proof (intro jailed_if jailed_throw jailed_existing [OF assms] jailed_bind_reads reads_basic)
  let ?p = "bs @ virtual (rq_Filepath request)"
  fix info
  have t: "jailed (\<lambda>f. Q f \<and> linkfree f ?p) bs (os_truncate (rooted ?p) n)" for n
    using assms(2) by (intro jailed_truncate_below) auto
  show "jailed (\<lambda>f. Q f \<and> linkfree f ?p) bs
      (case rq_Attributes request of None \<Rightarrow> os_return ()
       | Some a \<Rightarrow>
           os_seq (if \<not> at_hasSize a then os_return ()
               else if info = DirNode then os_throw (ErrorString ''cannot truncate a directory'')
               else os_truncate (rooted ?p) (at_Size a))
          (os_seq (if at_hasPermissions a then os_touch (rooted ?p) else os_return ())
                  (if at_hasAcmodtime a then os_touch (rooted ?p) else os_return ())))"
    by (auto intro!: jailed_then_reads jailed_if t jailed_throw jailed_return reads_intros split: option.split)
qed

lemma jailed_Filecmd:
  assumes "jail_root j = rooted bs" "plains bs"
  shows "jailed Q bs (Filecmd j request)"
  unfolding Filecmd_def Let_def
  by (intro jailed_if jailed_throw jailed_sftp_mkdir jailed_sftp_remove jailed_sftp_rename jailed_sftp_setstat assms)

lemma reads_list_infos [reads_intros]: "reads_only (list_infos p es)"
  by (induction es) (auto intro!: reads_intros)

lemma reads_resolveExisting [reads_intros]: "reads_only (resolveExisting j v)"
  unfolding resolveExisting_def by (intro reads_intros)

lemma reads_Fileread: "reads_only (Fileread j request)"
  unfolding Fileread_def by (intro reads_intros)

lemma reads_Filelist: "reads_only (Filelist j request)"
  unfolding Filelist_def listDirectory_def statPath_def by (intro reads_intros)

section \<open>Sessions\<close>

datatype sftp_call = Get sftp_request | Put sftp_request | Cmd sftp_request | Ls sftp_request

definition sftp_serve :: "jailedFilesystem \<Rightarrow> sftp_call \<Rightarrow> world \<Rightarrow> world" where
  "sftp_serve j c w =
     (case c of
        Get r \<Rightarrow> snd (Fileread j r w)
      | Put r \<Rightarrow> snd (Filewrite j r w)
      | Cmd r \<Rightarrow> snd (Filecmd j r w)
      | Ls r \<Rightarrow> snd (Filelist j r w))"

lemma sftp_serve_jailed:
  assumes "jail_root j = rooted bs" "plains bs" "dir_at (files w) bs"
  shows "agree_outside bs (files w) (files (sftp_serve j c w)) \<and> dir_at (files (sftp_serve j c w)) bs"
  using assms jailed_Filecmd [OF assms(1,2), of "\<lambda>_. True"] jailed_Filewrite [OF assms(1,2), of "\<lambda>_. True"]
    reads_Fileread [of j] reads_Filelist [of j]
  by (cases c) (auto simp: sftp_serve_def jailed_def reads_only_def)

lemma sftp_serve_run:
  assumes "plains bs" "dir_at (files w) bs"
  shows "agree_outside bs (files w) (files (fold (sftp_serve \<lparr>jail_root = rooted bs, permissions = ps\<rparr>) calls w))
    \<and> dir_at (files (fold (sftp_serve \<lparr>jail_root = rooted bs, permissions = ps\<rparr>) calls w)) bs"
  using assms(2)
proof (induction calls arbitrary: w)
  case (Cons c calls)
  let ?j = "\<lparr>jail_root = rooted bs, permissions = ps\<rparr>"
  have 1: "agree_outside bs (files w) (files (sftp_serve ?j c w)) \<and> dir_at (files (sftp_serve ?j c w)) bs"
    by (rule sftp_serve_jailed) (simp_all add: assms(1) Cons.prems)
  with Cons.IH [of "sftp_serve ?j c w"] show ?case by (auto intro: agree_outside_trans)
qed simp


text \<open>
  C5. Whatever requests an SFTP session sends, in whatever order and whichever system calls fail, no file
  outside the directory of its cell changes. Unlike for the file requests of the HTTP interface this holds
  even when the cell contains symbolic links, wherever they lead: only the path to the cell's directory has
  to consist of directories, and it stays that way.
\<close>

theorem sftp_confined:
  assumes "plains bs" "dir_at (files w) bs"
  shows "agree_outside bs (files w) (files (fold (sftp_serve \<lparr>jail_root = rooted bs, permissions = ps\<rparr>) calls w))
    \<and> dir_at (files (fold (sftp_serve \<lparr>jail_root = rooted bs, permissions = ps\<rparr>) calls w)) bs"
  by (rule sftp_serve_run [OF assms])

definition sftp_linked :: fsys where
  "sftp_linked =
     [([''etc''], DirNode), ([''etc'', ''passwd''], FileNode ''root''), ([''c''], DirNode), ([''c'', ''a''], DirNode),
      ([''c'', ''a'', ''l''], LinkNode ''/etc''), ([''c'', ''a'', ''f''], FileNode ''1''), ([''c'', ''a'', ''g''], FileNode ''2''),
      ([''c'', ''a'', ''g ''], FileNode ''3'')]"

definition sftp_req :: "string \<Rightarrow> string \<Rightarrow> string \<Rightarrow> sftp_request" where
  "sftp_req cmd p t = \<lparr>rq_Method = cmd, rq_Filepath = p, rq_Target = t,
     rq_Pflags = \<lparr>fl_Creat = True, fl_Trunc = True, fl_Excl = False\<rparr>, rq_Attributes = None\<rparr>"

definition all_permissions :: SFTPPermissions where
  "all_permissions = \<lparr>perm_Read = True, perm_Write = True, perm_Create = True, perm_Rename = True, perm_Delete = True\<rparr>"

theorem sftp_confined_witness:
  "agree_outside [''c'', ''a''] sftp_linked (files (fold (sftp_serve \<lparr>jail_root = rooted [''c'', ''a''], permissions = all_permissions\<rparr>)
      [Put (sftp_req ''Put'' ''/l/passwd'' []), Cmd (sftp_req ''Rename'' ''/l'' ''/../x''), Cmd (sftp_req ''Remove'' ''f'' [])]
      (calm_world sftp_linked)))
   \<and> dir_at (files (fold (sftp_serve \<lparr>jail_root = rooted [''c'', ''a''], permissions = all_permissions\<rparr>)
      [Put (sftp_req ''Put'' ''/l/passwd'' []), Cmd (sftp_req ''Rename'' ''/l'' ''/../x''), Cmd (sftp_req ''Remove'' ''f'' [])]
      (calm_world sftp_linked))) [''c'', ''a'']"
proof -
  have p: "plains [''c'', ''a'']" by (simp add: plain_def)
  have d: "dir_at (files (calm_world sftp_linked)) [''c'', ''a'']"
    by (rule dir_at_check) (simp add: sftp_linked_def fs_get_def)
  show ?thesis using sftp_confined [OF p d] unfolding calm_world_simps .
qed

text \<open>
  A session without write, create, rename and delete permission changes no file at all, not even inside
  its cell.
\<close>

theorem sftp_read_only_session:
  assumes "\<not> perm_Write ps" "\<not> perm_Create ps" "\<not> perm_Rename ps" "\<not> perm_Delete ps"
  shows "files (fold (sftp_serve \<lparr>jail_root = root, permissions = ps\<rparr>) calls w) = files w"
proof (induction calls arbitrary: w)
  case (Cons c calls)
  let ?j = "\<lparr>jail_root = root, permissions = ps\<rparr>"
  have "reads_only (Filecmd ?j r)" for r
    unfolding Filecmd_def sftp_mkdir_def sftp_rmdir_def sftp_remove_def sftp_rename_def sftp_setstat_def Let_def
    using assms by (auto intro!: reads_intros)
  moreover have "reads_only (Filewrite ?j r)" for r
    unfolding Filewrite_def Let_def using assms by (auto intro!: reads_intros)
  ultimately have "files (sftp_serve ?j c w) = files w"
    using reads_Fileread [of ?j] reads_Filelist [of ?j] by (cases c) (auto simp: sftp_serve_def reads_only_def)
  with Cons show ?case by simp
qed simp

theorem sftp_read_only_session_witness:
  "files (fold (sftp_serve \<lparr>jail_root = ''/c/a'', permissions = \<lparr>perm_Read = True, perm_Write = False,
       perm_Create = False, perm_Rename = False, perm_Delete = False\<rparr>\<rparr>)
     [Cmd (sftp_req ''Remove'' ''f'' []), Put (sftp_req ''Put'' ''f'' [])] (calm_world sftp_linked)) = sftp_linked"
  unfolding sftp_read_only_session [where w = "calm_world sftp_linked", simplified calm_world_simps, of
      "\<lparr>perm_Read = True, perm_Write = False, perm_Create = False, perm_Rename = False, perm_Delete = False\<rparr>", simplified] ..

text \<open>
  The permission to rename is also the permission to destroy: a session that may only rename removes a file
  by renaming another one over it.
\<close>

theorem sftp_rename_destroys:
  "case sftp_rename \<lparr>jail_root = ''/c/a'', permissions = \<lparr>perm_Read = False, perm_Write = False,
       perm_Create = False, perm_Rename = True, perm_Delete = False\<rparr>\<rparr> (sftp_req ''Rename'' ''/f'' ''/g'') (calm_world sftp_linked) of
     (r, w') \<Rightarrow> r = Inr () \<and> fs_get sftp_linked [''c'', ''a'', ''g''] = Some (FileNode ''2'')
       \<and> fs_get (files w') [''c'', ''a'', ''g''] = Some (FileNode ''1'') \<and> fs_get (files w') [''c'', ''a'', ''f''] = None"
  by code_simp

text \<open>
  Virtual paths are trimmed before they are resolved, so a file whose name ends in a space is listed but
  cannot be named: removing it removes the file without the space instead.
\<close>

theorem sftp_remove_wrong_file:
  "case sftp_remove \<lparr>jail_root = ''/c/a'', permissions = all_permissions\<rparr> (sftp_req ''Remove'' ''/g '' []) (calm_world sftp_linked) of
     (r, w') \<Rightarrow> r = Inr () \<and> fs_get (files w') [''c'', ''a'', ''g ''] = Some (FileNode ''3'')
       \<and> fs_get sftp_linked [''c'', ''a'', ''g''] = Some (FileNode ''2'') \<and> fs_get (files w') [''c'', ''a'', ''g''] = None"
  by code_simp

fun read_pieces :: "'a list \<Rightarrow> nat list \<Rightarrow> int \<Rightarrow> 'a list \<times> bool" where
  "read_pieces entries [] offset = ([], False)"
| "read_pieces entries (room # rooms) offset =
     (case ListAt entries room offset of
        (es, Some _) \<Rightarrow> (es, True)
      | (es, None) \<Rightarrow> (case read_pieces entries rooms (offset + int (length es)) of (es', eof) \<Rightarrow> (es @ es', eof)))"

lemma read_pieces_from:
  "read_pieces entries rooms (int k) =
     (take (sum_list rooms) (drop k entries), rooms \<noteq> [] \<and> length entries \<le> k + sum_list rooms)"
proof (induction rooms arbitrary: k)
  case (Cons room rooms)
  show ?case
  proof (cases "k + room < length entries")
    case True
    then have l: "ListAt entries room (int k) = (take room (drop k entries), None)"
      by (simp add: ListAt_def Let_def)
    have o: "int k + int (length (take room (drop k entries))) = int (k + room)" using True by simp
    have "read_pieces entries (room # rooms) (int k) =
        (take room (drop k entries) @ take (sum_list rooms) (drop (k + room) entries),
         rooms \<noteq> [] \<and> length entries \<le> k + room + sum_list rooms)"
      unfolding read_pieces.simps l prod.case option.case o Cons ..
    moreover have "take (sum_list (room # rooms)) (drop k entries) =
        take room (drop k entries) @ take (sum_list rooms) (drop (k + room) entries)"
      by (simp add: take_add add.commute)
    ultimately show ?thesis using True by (cases "rooms = []") (simp_all add: add.assoc del: read_pieces.simps)
  next
    case False
    then have "take n (drop k entries) = drop k entries" if "room \<le> n" for n using that by simp
    with False show ?thesis by (auto simp: ListAt_def Let_def)
  qed
qed simp

text \<open>
  Reading a listing piece by piece, with buffers of any positive sizes, yields its entries in order, each once; the
  end is reported with the last piece, and never before.
\<close>

theorem ListAt_pieces:
  "read_pieces entries rooms 0 =
     (take (sum_list rooms) entries, rooms \<noteq> [] \<and> length entries \<le> sum_list rooms)"
  using read_pieces_from [of entries rooms 0] by simp

end
