(* ===== verification/SftpServer.thy ===== *)
theory SftpServer
  imports Sftp
begin

text \<open>
  Logging in to SFTP: the panel's answer (\<open>internal/panel/sftp_auth.go\<close>), and the server around the jail
  (\<open>internal/sftp/server.go\<close>). JSON, HTTP and SSH are arguments: \<open>net\<close> answers a POST with a status and
  a body, \<open>jd\<close>, \<open>je\<close> and \<open>js\<close> decode the panel's answer and encode and decode the session kept in the SSH
  permissions. Log output is left out.
\<close>

section \<open>Asking the panel\<close>

record SFTPAuthResponse =
  Allowed :: bool
  auth_Message :: string
  auth_CredentialID :: string
  auth_UserID :: string
  auth_CellID :: string
  auth_DaemonID :: string
  auth_Permissions :: SFTPPermissions

record SFTPAuthClient =
  panelURL :: string
  client_nodeID :: string
  client_token :: string

record SFTPAuthRequest =
  ar_Username :: string
  ar_Password :: string

text \<open>The request as it is sent: the URL, the bearer token, the node and the credentials.\<close>

record auth_call =
  call_URL :: string
  call_Token :: string
  call_Node :: string
  call_Body :: SFTPAuthRequest

datatype http_result = BadURL go_error | Unreachable go_error | BadBody go_error | Answer nat string

definition NewSFTPAuthClient :: "string \<Rightarrow> string \<Rightarrow> string \<Rightarrow> SFTPAuthClient" where
  "NewSFTPAuthClient url node token =
     \<lparr>panelURL = TrimRight url ''/'', client_nodeID = node, client_token = token\<rparr>"

text \<open>Durations are nanoseconds in 64 bits, and the product may wrap around.\<close>

definition auth_timeout :: "64 word \<Rightarrow> 64 word" where
  "auth_timeout AuthTimeoutSeconds =
     (let timeout = AuthTimeoutSeconds * 1000000000 in if timeout \<le>s 0 then 10 * 1000000000 else timeout)"

definition no_response :: SFTPAuthResponse where
  "no_response = \<lparr>Allowed = False, auth_Message = [], auth_CredentialID = [], auth_UserID = [], auth_CellID = [],
     auth_DaemonID = [], auth_Permissions = \<lparr>perm_Read = False, perm_Write = False, perm_Create = False,
       perm_Rename = False, perm_Delete = False\<rparr>\<rparr>"

definition failure_message :: "(nat \<Rightarrow> string) \<Rightarrow> SFTPAuthResponse \<Rightarrow> string \<Rightarrow> nat \<Rightarrow> string" where
  "failure_message status_text result body code =
     (let m1 = TrimSpace (auth_Message result);
          m2 = (if m1 = [] then TrimSpace body else m1)
      in if m2 = [] then status_text code else m2)"

definition Authenticate ::
  "(auth_call \<Rightarrow> http_result) \<Rightarrow> (string \<Rightarrow> go_error + SFTPAuthResponse) \<Rightarrow> (nat \<Rightarrow> string) \<Rightarrow> SFTPAuthClient
     \<Rightarrow> string \<Rightarrow> string \<Rightarrow> go_error + SFTPAuthResponse" where
  "Authenticate net jd status_text client username password =
     (if TrimSpace username = [] then Inl ErrSFTPAuthenticationDenied
      else if password = [] then Inl ErrSFTPAuthenticationDenied
      else if panelURL client = [] then Inl (WrapError ''panel URL is empty'' ErrSFTPPanelUnavailable)
      else if client_nodeID client = [] then Inl (WrapError ''node ID is empty'' ErrSFTPPanelUnavailable)
      else if client_token client = [] then Inl (WrapError ''worker token is empty'' ErrSFTPPanelUnavailable)
      else case net \<lparr>call_URL = panelURL client @ ''/api/worker/sftp/auth'', call_Token = client_token client,
                     call_Node = client_nodeID client,
                     call_Body = \<lparr>ar_Username = username, ar_Password = password\<rparr>\<rparr> of
          BadURL e \<Rightarrow> Inl (WrapError ''create SFTP authentication request'' e)
        | Unreachable e \<Rightarrow> Inl (WrapError ''request failed'' ErrSFTPPanelUnavailable)
        | BadBody e \<Rightarrow> Inl (WrapError ''read SFTP authentication response'' e)
        | Answer code body0 \<Rightarrow>
            let body = take 1048576 body0
            in case (if body \<noteq> [] then jd body else Inr no_response) of
                Inl e \<Rightarrow> Inl (WrapError ''decode SFTP authentication response'' e)
              | Inr result \<Rightarrow>
                  if code = 200 then
                    (if \<not> Allowed result then Inl ErrSFTPAuthenticationDenied
                     else if auth_DaemonID result = []
                     then Inl (ErrorString ''panel allowed SFTP login without daemon_id'')
                     else Inr result)
                  else if code = 401 \<or> code = 403 then Inl ErrSFTPAuthenticationDenied
                  else Inl (WrapError (failure_message status_text result body code) ErrSFTPPanelUnavailable))"

section \<open>Sessions\<close>

record authenticatedSession =
  sess_Username :: string
  sess_CredentialID :: string
  sess_UserID :: string
  sess_CellID :: string
  sess_DaemonID :: string
  sess_Root :: string
  sess_Permissions :: SFTPPermissions

definition resolveCellRoot :: "string \<Rightarrow> string \<Rightarrow> string os" where
  "resolveCellRoot instances daemonID0 =
     (let daemonID = TrimSpace daemonID0
      in if daemonID = [] then os_throw (ErrorString ''daemon ID is empty'')
         else if daemonID = ''.'' \<or> daemonID = ''..'' \<or> is_abs daemonID \<or> slash \<in> set daemonID \<or> backslash \<in> set daemonID
         then os_throw (ErrorString ''invalid daemon ID'')
         else os_bind (os_wrap ''resolve instances directory'' (os_abs instances)) (\<lambda>instancesRoot.
           os_bind (os_wrap ''resolve cell directory'' (os_abs (path_join [instancesRoot, daemonID]))) (\<lambda>root.
           os_bind (os_wrap ''validate cell directory'' (os_lift (path_rel instancesRoot root))) (\<lambda>relative.
           if relative = ''.'' \<or> relative = ''..'' \<or> HasPrefix relative ''../''
           then os_throw (ErrorString ''cell directory escapes instances directory'')
           else os_attempt (os_stat root) (\<lambda>r. case r of
               Inl e \<Rightarrow> os_throw (if os_is_not_exist e then ErrorString ''cell directory does not exist''
                                  else WrapError ''inspect cell directory'' e)
             | Inr info \<Rightarrow> if info \<noteq> DirNode then os_throw (ErrorString ''cell root is not a directory'')
                          else os_return root)))))"

definition authenticatePassword ::
  "(string \<Rightarrow> string \<Rightarrow> go_error + SFTPAuthResponse) \<Rightarrow> (authenticatedSession \<Rightarrow> go_error + string) \<Rightarrow> string
     \<Rightarrow> string \<Rightarrow> string \<Rightarrow> string os" where
  "authenticatePassword authenticate je instances user password =
     (let username = TrimSpace user; failed = ErrorString ''authentication failed''
      in if username = [] \<or> password = [] then os_throw failed
         else case authenticate username password of
             Inl e \<Rightarrow> os_throw failed
           | Inr result \<Rightarrow>
               os_attempt (resolveCellRoot instances (auth_DaemonID result)) (\<lambda>r. case r of
                   Inl e \<Rightarrow> os_throw failed
                 | Inr root \<Rightarrow>
                     (case je \<lparr>sess_Username = username, sess_CredentialID = auth_CredentialID result,
                               sess_UserID = auth_UserID result, sess_CellID = auth_CellID result,
                               sess_DaemonID = auth_DaemonID result, sess_Root = root,
                               sess_Permissions = auth_Permissions result\<rparr> of
                        Inl e \<Rightarrow> os_throw failed
                      | Inr encoded \<Rightarrow> os_return encoded)))"

text \<open>The argument is the extension of the SSH permissions; \<open>None\<close> when there are no permissions.\<close>

definition authenticatedSessionFromPermissions ::
  "(string \<Rightarrow> go_error + authenticatedSession) \<Rightarrow> string option \<Rightarrow> go_error + authenticatedSession" where
  "authenticatedSessionFromPermissions js ps =
     (case ps of
        None \<Rightarrow> Inl (ErrorString ''SSH permissions are missing'')
      | Some encoded \<Rightarrow>
          if encoded = [] then Inl (ErrorString ''authenticated session extension is missing'')
          else case js encoded of
              Inl e \<Rightarrow> Inl (WrapError ''decode authenticated session'' e)
            | Inr session \<Rightarrow>
                if sess_Username session = [] \<or> sess_CellID session = [] \<or> sess_DaemonID session = []
                   \<or> sess_Root session = []
                then Inl (ErrorString ''authenticated session is incomplete'') else Inr session)"

section \<open>The requests of a channel\<close>

record ssh_request =
  ssh_Type :: string
  ssh_Subsystem :: "string option"
  reply_ok :: bool

text \<open>
  \<open>ssh_Subsystem\<close> is what the payload unmarshals to, \<open>reply_ok\<close> whether the positive reply could be sent.
\<close>

datatype channel_event = Reply bool | ServeSFTP

fun handleSessionChannel :: "bool \<Rightarrow> ssh_request list \<Rightarrow> channel_event list" where
  "handleSessionChannel started [] = []"
| "handleSessionChannel started (request # requests) =
     (if ssh_Type request = ''subsystem'' then
        (if started then Reply False # handleSessionChannel started requests
         else case ssh_Subsystem request of
             None \<Rightarrow> Reply False # handleSessionChannel started requests
           | Some subsystem \<Rightarrow>
               if subsystem \<noteq> ''sftp'' then Reply False # handleSessionChannel started requests
               else if \<not> reply_ok request then [Reply True]
               else [Reply True, ServeSFTP])
      else Reply False # handleSessionChannel started requests)"

definition serveSFTP :: "authenticatedSession \<Rightarrow> sftp_call list \<Rightarrow> world \<Rightarrow> (go_error + unit) \<times> world" where
  "serveSFTP session calls =
     os_bind (os_wrap ''create jailed SFTP handlers'' (jail_Create (sess_Root session) (sess_Permissions session)))
       (\<lambda>j w. (Inr (), fold (sftp_serve j) calls w))"


section \<open>A login leads to one cell\<close>

lemma single_component:
  assumes "d \<noteq> []" "d \<noteq> ''.''" "d \<noteq> ''..''" "slash \<notin> set d"
  shows "plain d"
  using assms by (simp add: plain_def)

lemma resolveCellRoot_gives:
  assumes "plains is" "resolveCellRoot (rooted is) daemonID w = (Inr root, w1)"
  shows "plain (TrimSpace daemonID) \<and> root = rooted (is @ [TrimSpace daemonID])"
proof -
  let ?d = "TrimSpace daemonID"
  have d: "?d \<noteq> []" "?d \<noteq> ''.''" "?d \<noteq> ''..''" "slash \<notin> set ?d"
    using assms(2) by (auto simp: resolveCellRoot_def Let_def os_throw_def split: if_splits)
  note p = single_component [OF d]
  have j: "path_join [rooted is, ?d] = rooted (is @ [?d])" using assms(1) p by (simp add: path_join_rooted descend_plain)
  have "root = rooted (is @ [?d])"
    using assms p d j
    by (auto simp: resolveCellRoot_def Let_def os_throw_def os_return_def os_bind_def os_wrap_def os_abs_def os_lift_def
        os_attempt_def split: if_splits prod.splits sum.splits)
  with p show ?thesis by simp
qed

lemma jail_Create_gives:
  assumes "plains bs" "jail_Create (rooted bs) ps w = (Inr j, w1)"
  shows "j = \<lparr>jail_root = rooted bs, permissions = ps\<rparr> \<and> files w1 = files w"
proof -
  have "reads_only (jail_Create (rooted bs) ps)" unfolding jail_Create_def by (intro reads_intros)
  with assms(2) have f: "files w1 = files w" by (auto dest: reads_onlyD)
  show ?thesis
    using assms f
    by (auto simp: jail_Create_def os_bind_def os_wrap_def os_abs_def os_throw_def os_return_def
        split: prod.splits sum.splits if_splits)
qed

text \<open>
  C23. A login leads to one cell and stays there: when a password is accepted, the panel has named a daemon id,
  the session is rooted in the directory of that name directly below the instances directory, and whatever the
  session then does changes nothing outside of it. \<open>je\<close> and \<open>js\<close> are the JSON encoder and decoder of
  the session.
\<close>

theorem sftp_login_confined:
  assumes "plains is" "\<And>s e. je s = Inr e \<Longrightarrow> js e = Inr s"
    "authenticatePassword authenticate je (rooted is) user password w = (Inr ext, w1)"
    "authenticatedSessionFromPermissions js (Some ext) = Inr session"
  shows "\<exists>result c. authenticate (TrimSpace user) password = Inr result \<and> plain c
    \<and> c = TrimSpace (auth_DaemonID result) \<and> sess_Root session = rooted (is @ [c])
    \<and> sess_Permissions session = auth_Permissions result
    \<and> (dir_at (files v) (is @ [c]) \<longrightarrow> agree_outside (is @ [c]) (files v) (files (snd (serveSFTP session calls v))))"
proof -
  obtain result where res: "authenticate (TrimSpace user) password = Inr result"
    using assms(3) by (auto simp: authenticatePassword_def Let_def os_throw_def split: if_splits sum.splits)
  let ?c = "TrimSpace (auth_DaemonID result)"
  obtain root w2 where root: "resolveCellRoot (rooted is) (auth_DaemonID result) w = (Inr root, w2)"
    using assms(3) res
    by (auto simp: authenticatePassword_def Let_def os_throw_def os_attempt_def split: if_splits sum.splits prod.splits)
  note r = resolveCellRoot_gives [OF assms(1) root]
  let ?s = "\<lparr>sess_Username = TrimSpace user, sess_CredentialID = auth_CredentialID result,
     sess_UserID = auth_UserID result, sess_CellID = auth_CellID result, sess_DaemonID = auth_DaemonID result,
     sess_Root = root, sess_Permissions = auth_Permissions result\<rparr>"
  have "je ?s = Inr ext"
    using assms(3) res root
    by (auto simp: authenticatePassword_def Let_def os_throw_def os_attempt_def os_return_def split: if_splits sum.splits)
  then have s: "session = ?s"
    using assms(2) assms(4) by (auto simp: authenticatedSessionFromPermissions_def split: if_splits)
  have "agree_outside (is @ [?c]) (files v) (files (snd (serveSFTP session calls v)))"
    if d: "dir_at (files v) (is @ [?c])"
  proof -
    have pl: "plains (is @ [?c])" using assms(1) r by simp
    obtain x v1 where c: "jail_Create (rooted (is @ [?c])) (auth_Permissions result) v = (x, v1)" by fastforce
    have f1: "files v1 = files v"
      using c reads_onlyD [of "jail_Create (rooted (is @ [?c])) (auth_Permissions result)" v x v1]
      unfolding jail_Create_def by (auto intro: reads_intros)
    show ?thesis
    proof (cases x)
      case (Inr j)
      have "j = \<lparr>jail_root = rooted (is @ [?c]), permissions = auth_Permissions result\<rparr>"
        using jail_Create_gives [OF pl] c Inr by blast
      with sftp_serve_run [OF pl, of v1 "auth_Permissions result" calls] d f1 c Inr r s show ?thesis
        by (simp add: serveSFTP_def os_bind_def os_wrap_def)
    qed (use c r s f1 in \<open>simp add: serveSFTP_def os_bind_def os_wrap_def\<close>)
  qed
  with res r s show ?thesis by auto
qed


definition login_result :: SFTPAuthResponse where
  "login_result = no_response\<lparr>Allowed := True, auth_CellID := ''7'', auth_DaemonID := ''a'', auth_Permissions := all_permissions\<rparr>"

definition login_session :: authenticatedSession where
  "login_session = \<lparr>sess_Username = ''u'', sess_CredentialID = [], sess_UserID = [], sess_CellID = ''7'', sess_DaemonID = ''a'',
     sess_Root = ''/c/a'', sess_Permissions = all_permissions\<rparr>"

definition login_je :: "authenticatedSession \<Rightarrow> go_error + string" where
  "login_je s = (if s = login_session then Inr ''{}'' else Inl (ErrorString ''json''))"

lemma login_accepted:
  "fst (authenticatePassword (\<lambda>_ _. Inr login_result) login_je (rooted [''c'']) '' u'' ''pw'' (calm_world sftp_linked)) = Inr ''{}''"
  by code_simp

theorem sftp_login_confined_witness:
  "\<exists>result c. (\<lambda>_ _. Inr login_result) (TrimSpace '' u'') ''pw'' = (Inr result :: go_error + SFTPAuthResponse) \<and> plain c
    \<and> c = TrimSpace (auth_DaemonID result) \<and> sess_Root login_session = rooted ([''c''] @ [c])
    \<and> sess_Permissions login_session = auth_Permissions result
    \<and> (dir_at sftp_linked ([''c''] @ [c]) \<longrightarrow> agree_outside ([''c''] @ [c]) sftp_linked
        (files (snd (serveSFTP login_session [Cmd (sftp_req ''Remove'' ''/l'' [])] (calm_world sftp_linked)))))"
proof -
  obtain w1 where w1: "authenticatePassword (\<lambda>_ _. Inr login_result) login_je (rooted [''c'']) '' u'' ''pw'' (calm_world sftp_linked) = (Inr ''{}'', w1)"
    using login_accepted by (metis fst_conv surj_pair)
  have p: "plains [''c'']" by (simp add: plain_def)
  have rt: "login_je s = Inr e \<Longrightarrow> (\<lambda>_. Inr login_session) e = (Inr s :: go_error + authenticatedSession)" for s e
    by (simp add: login_je_def split: if_splits)
  have ss: "authenticatedSessionFromPermissions (\<lambda>_. Inr login_session) (Some ''{}'') = Inr login_session"
    by (simp add: authenticatedSessionFromPermissions_def login_session_def)
  from sftp_login_confined [OF p rt w1 ss, where v = "calm_world sftp_linked"] show ?thesis unfolding calm_world_simps .
qed

text \<open>The request that starts a session.\<close>

definition starts_sftp :: "ssh_request \<Rightarrow> bool" where
  "starts_sftp r \<longleftrightarrow> ssh_Type r = ''subsystem'' \<and> ssh_Subsystem r = Some ''sftp''"

text \<open>
  On a channel only the \<open>sftp\<close> subsystem is ever served, and at most once: every request before it (shells,
  commands, terminals, environment, other subsystems) is refused, and nothing after it is answered.
\<close>

theorem only_sftp_is_served:
  "handleSessionChannel False requests =
     map (\<lambda>_. Reply False) (takeWhile (\<lambda>r. \<not> starts_sftp r) requests) @
     (case dropWhile (\<lambda>r. \<not> starts_sftp r) requests of
        [] \<Rightarrow> []
      | r # _ \<Rightarrow> if reply_ok r then [Reply True, ServeSFTP] else [Reply True])"
  by (induction requests) (auto simp: starts_sftp_def split: option.split)

section \<open>Connections\<close>

text \<open>
  The accept loop of \<open>ListenAndServe\<close> with its pool of connection slots. \<open>closing\<close> says that \<open>Close\<close> has run;
  \<open>outcome\<close> is what the loop returned, once it has. A step is an accepted connection, one that is turned away,
  a connection that ends, a call of \<open>Close\<close>, or the error that ends the loop.
\<close>

definition maxSSHConnections :: nat where "maxSSHConnections = 128"

record listener =
  active :: nat
  closing :: bool
  closeErr :: "go_error option"
  outcome :: "(go_error + unit) option"

inductive listen_step :: "listener \<Rightarrow> listener \<Rightarrow> bool" where
  accept: "outcome s = None \<Longrightarrow> active s < maxSSHConnections \<Longrightarrow> listen_step s (s\<lparr>active := Suc (active s)\<rparr>)"
| reject: "outcome s = None \<Longrightarrow> \<not> active s < maxSSHConnections \<Longrightarrow> listen_step s s"
| finish: "active s > 0 \<Longrightarrow> listen_step s (s\<lparr>active := active s - 1\<rparr>)"
| close: "\<not> closing s \<Longrightarrow> listen_step s (s\<lparr>closing := True, closeErr := e\<rparr>)"
| close_again: "closing s \<Longrightarrow> listen_step s s"
| stop: "outcome s = None \<Longrightarrow> closing s \<Longrightarrow> listen_step s (s\<lparr>outcome := Some (Inr ())\<rparr>)"
| fail: "outcome s = None \<Longrightarrow> \<not> closing s \<Longrightarrow>
    listen_step s (s\<lparr>outcome := Some (Inl (WrapError ''accept SFTP connection'' e))\<rparr>)"

inductive_cases listen_stepE [elim]: "listen_step s s'"

definition listening :: listener where
  "listening = \<lparr>active = 0, closing = False, closeErr = None, outcome = None\<rparr>"

definition listener_inv :: "listener \<Rightarrow> bool" where
  "listener_inv s \<longleftrightarrow> active s \<le> maxSSHConnections \<and> (outcome s = Some (Inr ()) \<longrightarrow> closing s)"

lemma listener_inv_step [inv_intros]: "listen_step s s' \<Longrightarrow> listener_inv s \<Longrightarrow> listener_inv s'"
  by (auto simp: listener_inv_def)

lemma listener_inv_start: "listener_inv listening"
  by (simp add: listener_inv_def listening_def)

text \<open>
  C37. However connections arrive and end, never more than 128 are served at once, the accept loop ends without an
  error only after \<open>Close\<close>, and once it has ended it stays ended with the same result.
\<close>

theorem listener_reachable:
  "listen_step\<^sup>*\<^sup>* listening s \<Longrightarrow> active s \<le> 128 \<and> (outcome s = Some (Inr ()) \<longrightarrow> closing s)
    \<and> (\<forall>s' r. listen_step\<^sup>*\<^sup>* s s' \<longrightarrow> outcome s = Some r \<longrightarrow> outcome s' = Some r)"
proof (intro conjI allI impI)
  assume "listen_step\<^sup>*\<^sup>* listening s"
  then have "listener_inv s"
    by (induction rule: rtranclp_induct) (auto intro: inv_intros listener_inv_start)
  then show "active s \<le> 128" "outcome s = Some (Inr ()) \<Longrightarrow> closing s"
    by (simp_all add: listener_inv_def maxSSHConnections_def)
next
  fix s' r assume "listen_step\<^sup>*\<^sup>* s s'" "outcome s = Some r"
  then show "outcome s' = Some r" by (induction rule: rtranclp_induct) auto
qed

theorem listener_reachable_witness:
  "listen_step\<^sup>*\<^sup>* listening (listening\<lparr>active := 1\<rparr>) \<and> active (listening\<lparr>active := 1\<rparr>) \<le> 128
    \<and> outcome (listening\<lparr>active := 1\<rparr>) \<noteq> Some (Inr ())"
proof -
  have step: "listen_step listening (listening\<lparr>active := 1\<rparr>)"
    using accept [of listening] by (simp add: listening_def maxSSHConnections_def)
  moreover have "\<not> closing (listening\<lparr>active := 1\<rparr>)" by (simp add: listening_def)
  ultimately show ?thesis using listener_reachable [of "listening\<lparr>active := 1\<rparr>"] by auto
qed

end
