(* ===== verification/Cell.thy ===== *)
theory Cell
  imports Allocation Backup
begin

text \<open>
  The cell manager of \<open>internal/cell\<close>: its state, locks (\<open>lock.go\<close>), console (\<open>console.go\<close>), console
  sessions (\<open>console_sessions.go\<close>) and look-ups (\<open>manager.go\<close>). A cell is a \<open>record\<close>, the maps of the
  manager are association lists with distinct keys, and an operation is a function of the manager and the
  host. JSON is an argument (\<open>cell_codec\<close>), the clock is an \<open>int\<close> of nanoseconds that each operation is given,
  and \<open>running\<close> is what the runtime's \<open>IsRunning\<close> answers.
\<close>

section \<open>Data\<close>

datatype json = JNull | JBool bool | JNumber string | JString string | JArray "json list"
  | JObject "(string \<times> json) list"

record Limits =
  MemoryMB :: int
  OverheadMemoryMB :: int
  SwapMB :: int
  CPUPercent :: int
  CPUPinning :: string
  DiskMB :: int
  IOWeight :: int
  OOMKiller :: bool

record FeatureLimits =
  DatabaseLimit :: "int option"
  AllocationLimit :: "int option"
  BackupLimit :: "int option"
  BackupStorageMB :: "int option"

record CellLock =
  Locked :: bool
  lock_Type :: string
  lock_Reason :: string
  lock_Message :: string
  DisablePower :: bool
  DisableConsole :: bool
  DisableFiles :: bool
  DisableBackups :: bool
  DisableSettings :: bool
  DisableImporter :: bool

text \<open>\<open>console\<close> and \<open>subscribers\<close> are the unexported fields, which JSON does not carry.\<close>

record Cell =
  cell_ID :: string
  cell_Name :: string
  cell_Dir :: string
  cell_CreatedAt :: string
  cell_Status :: string
  cell_Comb :: string
  cell_CombData :: "(string \<times> json) list option"
  cell_Variables :: "(string \<times> string) list"
  cell_Allocation :: Allocation
  cell_AdditionalAllocations :: "Allocation list"
  cell_Limits :: Limits
  cell_FeatureLimits :: FeatureLimits
  cell_DockerImage :: string
  cell_StartupCommand :: string
  cell_Lock :: CellLock
  console :: "string list"
  subscribers :: "nat list"

record InstallStep =
  step_ID :: string
  step_Type :: string
  step_With :: "(string \<times> json) list"
  step_Save :: string

record Comb =
  comb_ID :: string
  comb_Name :: string
  comb_Game :: string
  comb_Startup :: string
  comb_Variables :: "(string \<times> string) list"
  comb_Install :: "InstallStep list"
  comb_Image :: string
  comb_WorkingDir :: string
  comb_Entrypoint :: "string list"
  comb_Environment :: "(string \<times> string) list"

record ConsoleSession =
  session_CellID :: string
  ExpiresAt :: int

text \<open>A Go channel of capacity 100: what it holds, oldest first, and whether it is closed.\<close>

record Channel =
  held :: "string list"
  shut :: bool

text \<open>
  \<open>panicked\<close> records a panic (a send on a closed channel, a channel closed twice), which ends the process.
  Channels are numbered in the order in which they are made.
\<close>

record CellManager =
  cells :: "(string \<times> Cell) list"
  dataDir :: string
  instancesDir :: string
  combs :: "(string \<times> Comb) list"
  allocManager :: Manager
  backupManager :: BackupManager
  consoleSessions :: "(string \<times> ConsoleSession) list"
  channels :: "Channel list"
  panicked :: bool

record cell_codec =
  cell_enc :: "Cell \<Rightarrow> go_error + string"
  cell_dec :: "string \<Rightarrow> go_error + Cell"
  lock_enc :: "CellLock \<Rightarrow> go_error + string"
  lock_dec :: "string \<Rightarrow> go_error + CellLock"
  comb_dec :: "string \<Rightarrow> go_error + Comb"
  comb_of :: "(string \<times> json) list \<Rightarrow> go_error + Comb"

record server =
  mgr :: CellManager
  host :: world

section \<open>Operations on the server\<close>

type_synonym 'a srv = "server \<Rightarrow> (go_error + 'a) \<times> server"

definition sv_return :: "'a \<Rightarrow> 'a srv" where "sv_return x = (\<lambda>s. (Inr x, s))"

definition sv_throw :: "go_error \<Rightarrow> 'a srv" where "sv_throw e = (\<lambda>s. (Inl e, s))"

definition sv_bind :: "'a srv \<Rightarrow> ('a \<Rightarrow> 'b srv) \<Rightarrow> 'b srv" where
  "sv_bind m k = (\<lambda>s. case m s of (Inl e, s') \<Rightarrow> (Inl e, s') | (Inr x, s') \<Rightarrow> k x s')"

definition sv_attempt :: "'a srv \<Rightarrow> (go_error + 'a \<Rightarrow> 'b srv) \<Rightarrow> 'b srv" where
  "sv_attempt m k = (\<lambda>s. case m s of (r, s') \<Rightarrow> k r s')"

abbreviation sv_seq :: "'a srv \<Rightarrow> 'b srv \<Rightarrow> 'b srv" where "sv_seq m k \<equiv> sv_bind m (\<lambda>_. k)"

definition sv_get :: "(CellManager \<Rightarrow> 'a srv) \<Rightarrow> 'a srv" where "sv_get k = (\<lambda>s. k (mgr s) s)"

definition sv_modify :: "(CellManager \<Rightarrow> CellManager) \<Rightarrow> unit srv" where
  "sv_modify f = (\<lambda>s. (Inr (), s\<lparr>mgr := f (mgr s)\<rparr>))"

definition sv_os :: "'a os \<Rightarrow> 'a srv" where
  "sv_os m = (\<lambda>s. case m (host s) of (r, w) \<Rightarrow> (r, s\<lparr>host := w\<rparr>))"

lemmas sv_defs = sv_return_def sv_throw_def sv_bind_def sv_attempt_def sv_get_def sv_modify_def sv_os_def

definition lookup_cell :: "string \<Rightarrow> CellManager \<Rightarrow> Cell option" where
  "lookup_cell cid m = map_of (cells m) cid"

definition put_cell :: "string \<Rightarrow> Cell \<Rightarrow> CellManager \<Rightarrow> CellManager" where
  "put_cell cid c m = m\<lparr>cells := AList.update cid c (cells m)\<rparr>"

text \<open>\<open>gameCell, exists := m.cells[cid]; if !exists { return errors.New("cell not found") }\<close>\<close>

definition with_cell :: "string \<Rightarrow> (Cell \<Rightarrow> 'a srv) \<Rightarrow> 'a srv" where
  "with_cell cid k =
     sv_get (\<lambda>m. case lookup_cell cid m of
        None \<Rightarrow> sv_throw (ErrorString ''cell not found'') | Some c \<Rightarrow> k c)"

section \<open>Locks\<close>

definition no_lock :: CellLock where
  "no_lock = \<lparr>Locked = False, lock_Type = [], lock_Reason = [], lock_Message = [], DisablePower = False,
     DisableConsole = False, DisableFiles = False, DisableBackups = False, DisableSettings = False,
     DisableImporter = False\<rparr>"

definition DefaultLock :: "string \<Rightarrow> string \<Rightarrow> string \<Rightarrow> CellLock" where
  "DefaultLock lockType reason message =
     (let lock = no_lock\<lparr>Locked := True, lock_Type := lockType, lock_Reason := reason, lock_Message := message\<rparr>
      in if lockType = ''importing'' then
           lock\<lparr>DisablePower := True, DisableFiles := True, DisableBackups := True, DisableSettings := True,
             DisableImporter := True\<rparr>
         else if lockType = ''restoring_backup'' then
           lock\<lparr>DisablePower := True, DisableConsole := True, DisableFiles := True, DisableBackups := True,
             DisableSettings := True, DisableImporter := True\<rparr>
         else if lockType = ''creating_backup'' then lock\<lparr>DisableBackups := True, DisableImporter := True\<rparr>
         else if lockType = ''suspended'' \<or> lockType = ''billing_hold'' then
           lock\<lparr>DisablePower := True, DisableConsole := True, DisableFiles := True, DisableBackups := True,
             DisableSettings := True, DisableImporter := True\<rparr>
         else if lockType = ''maintenance'' then lock\<lparr>DisablePower := True, DisableImporter := True\<rparr>
         else if lockType = ''admin_lock'' then
           lock\<lparr>DisablePower := True, DisableConsole := True, DisableFiles := True, DisableBackups := True,
             DisableSettings := True, DisableImporter := True\<rparr>
         else lock\<lparr>DisablePower := True, DisableFiles := True, DisableBackups := True, DisableSettings := True,
             DisableImporter := True\<rparr>)"

definition hivepanelDir :: string where "hivepanelDir = ''.hivepanel''"
definition lockFileName :: string where "lockFileName = ''lock.json''"

definition saveLock :: "cell_codec \<Rightarrow> string \<Rightarrow> CellLock \<Rightarrow> unit os" where
  "saveLock cc cellDir lock =
     (let dir = path_join [cellDir, hivepanelDir]
      in os_seq (os_mkdir_all dir)
        (os_bind (os_lift (lock_enc cc lock)) (\<lambda>bytes.
         os_write_file (path_join [dir, lockFileName]) bytes)))"

definition loadLock :: "cell_codec \<Rightarrow> string \<Rightarrow> CellLock os" where
  "loadLock cc cellDir =
     os_bind (os_read_file (path_join [cellDir, hivepanelDir, lockFileName])) (\<lambda>bytes. os_lift (lock_dec cc bytes))"

definition deleteLock :: "string \<Rightarrow> unit os" where
  "deleteLock cellDir =
     os_attempt (os_remove (path_join [cellDir, hivepanelDir, lockFileName])) (\<lambda>r. case r of
        Inl e \<Rightarrow> if \<not> os_is_not_exist e then os_throw e else os_return ()
      | Inr _ \<Rightarrow> os_return ())"

definition LockCell :: "cell_codec \<Rightarrow> string \<Rightarrow> string \<Rightarrow> string \<Rightarrow> string \<Rightarrow> unit srv" where
  "LockCell cc cid lockType reason message =
     with_cell cid (\<lambda>gameCell.
       let lock = DefaultLock lockType reason message
       in sv_seq (sv_modify (put_cell cid (gameCell\<lparr>cell_Lock := lock\<rparr>)))
                 (sv_os (saveLock cc (cell_Dir gameCell) lock)))"

definition UnlockCell :: "string \<Rightarrow> unit srv" where
  "UnlockCell cid =
     with_cell cid (\<lambda>gameCell.
       sv_seq (sv_modify (put_cell cid (gameCell\<lparr>cell_Lock := no_lock\<rparr>)))
              (sv_os (deleteLock (cell_Dir gameCell))))"

definition LoadCellLock :: "cell_codec \<Rightarrow> string \<Rightarrow> unit srv" where
  "LoadCellLock cc cid =
     with_cell cid (\<lambda>gameCell.
       sv_bind (sv_os (loadLock cc (cell_Dir gameCell))) (\<lambda>lock.
       sv_modify (put_cell cid (gameCell\<lparr>cell_Lock := lock\<rparr>))))"

definition get_lock :: "string \<Rightarrow> CellLock srv" where
  "get_lock cid = with_cell cid (\<lambda>gameCell. sv_return (cell_Lock gameCell))"

definition IsLocked :: "CellManager \<Rightarrow> string \<Rightarrow> bool" where
  "IsLocked m cid = (case lookup_cell cid m of None \<Rightarrow> False | Some c \<Rightarrow> Locked (cell_Lock c))"

definition EnsureNotLocked :: "string \<Rightarrow> unit srv" where
  "EnsureNotLocked cid =
     with_cell cid (\<lambda>gameCell.
       if Locked (cell_Lock gameCell)
       then sv_throw (ErrorString (if lock_Message (cell_Lock gameCell) \<noteq> [] then lock_Message (cell_Lock gameCell)
                                   else ''cell is locked''))
       else sv_return ())"

definition ensureCapabilityAllowed :: "string \<Rightarrow> (CellLock \<Rightarrow> bool) \<Rightarrow> string \<Rightarrow> unit srv" where
  "ensureCapabilityAllowed cid disabled fallback =
     with_cell cid (\<lambda>gameCell.
       let lock = cell_Lock gameCell
       in if \<not> Locked lock then sv_return ()
          else if disabled lock
          then sv_throw (ErrorString (if lock_Message lock \<noteq> [] then lock_Message lock else fallback))
          else sv_return ())"

definition EnsurePowerAllowed :: "string \<Rightarrow> unit srv" where
  "EnsurePowerAllowed cid =
     ensureCapabilityAllowed cid DisablePower ''power controls are disabled while this server is locked''"

definition EnsureConsoleAllowed :: "string \<Rightarrow> unit srv" where
  "EnsureConsoleAllowed cid =
     ensureCapabilityAllowed cid DisableConsole ''console access is disabled while this server is locked''"

definition EnsureFilesAllowed :: "string \<Rightarrow> unit srv" where
  "EnsureFilesAllowed cid =
     ensureCapabilityAllowed cid DisableFiles ''file access is disabled while this server is locked''"

definition EnsureBackupsAllowed :: "string \<Rightarrow> unit srv" where
  "EnsureBackupsAllowed cid =
     ensureCapabilityAllowed cid DisableBackups ''backup actions are disabled while this server is locked''"

definition EnsureSettingsAllowed :: "string \<Rightarrow> unit srv" where
  "EnsureSettingsAllowed cid =
     ensureCapabilityAllowed cid DisableSettings ''settings are disabled while this server is locked''"

definition EnsureImporterAllowed :: "string \<Rightarrow> unit srv" where
  "EnsureImporterAllowed cid =
     ensureCapabilityAllowed cid DisableImporter ''server importer is disabled while this server is locked''"


section \<open>Console\<close>

definition trimConsole :: "string list \<Rightarrow> string list" where
  "trimConsole ls = (let maxLines = 300 in if length ls > maxLines then drop (length ls - maxLines) ls else ls)"

definition channel_capacity :: nat where "channel_capacity = 100"

text \<open>\<open>select { case ch <- line: default: }\<close>\<close>

definition chan_send :: "string \<Rightarrow> nat \<Rightarrow> CellManager \<Rightarrow> CellManager" where
  "chan_send line ch m =
     (if ch < length (channels m)
      then let c = channels m ! ch
           in if shut c then m\<lparr>panicked := True\<rparr>
              else if length (held c) < channel_capacity
              then m\<lparr>channels := (channels m)[ch := c\<lparr>held := held c @ [line]\<rparr>]\<rparr>
              else m
      else m)"

definition broadcast :: "string \<Rightarrow> Cell \<Rightarrow> string \<Rightarrow> CellManager \<Rightarrow> CellManager" where
  "broadcast cid c line m =
     fold (chan_send line) (subscribers c) (put_cell cid (c\<lparr>console := trimConsole (console c @ [line])\<rparr>) m)"

definition broadcastByID :: "string \<Rightarrow> string \<Rightarrow> CellManager \<Rightarrow> CellManager" where
  "broadcastByID cid line m =
     (case lookup_cell cid m of None \<Rightarrow> m | Some c \<Rightarrow> broadcast cid c line m)"

definition Console :: "string \<Rightarrow> string list srv" where
  "Console cid = with_cell cid (\<lambda>c. sv_return (console c))"

definition ClearConsole :: "string \<Rightarrow> unit srv" where
  "ClearConsole cid = with_cell cid (\<lambda>c. sv_modify (put_cell cid (c\<lparr>console := []\<rparr>)))"

text \<open>The history is sent until the channel is full.\<close>

fun send_history :: "string list \<Rightarrow> string list \<Rightarrow> string list" where
  "send_history buffered [] = buffered"
| "send_history buffered (line # rest) =
     (if length buffered < channel_capacity then send_history (buffered @ [line]) rest else buffered)"

definition SubscribeWithHistory :: "string \<Rightarrow> bool \<Rightarrow> nat srv" where
  "SubscribeWithHistory cid includeHistory =
     with_cell cid (\<lambda>c. sv_get (\<lambda>m.
       let ch = length (channels m);
           buffered = (if includeHistory then send_history [] (console c) else [])
       in sv_seq (sv_modify (\<lambda>m.
            (put_cell cid (c\<lparr>subscribers := ch # subscribers c\<rparr>) m)
              \<lparr>channels := channels m @ [\<lparr>held = buffered, shut = False\<rparr>]\<rparr>))
          (sv_return ch)))"

definition Subscribe :: "string \<Rightarrow> nat srv" where
  "Subscribe cid = SubscribeWithHistory cid True"

definition chan_close :: "nat \<Rightarrow> CellManager \<Rightarrow> CellManager" where
  "chan_close ch m =
     (if ch < length (channels m)
      then (if shut (channels m ! ch) then m\<lparr>panicked := True\<rparr>
            else m\<lparr>channels := (channels m)[ch := (channels m ! ch)\<lparr>shut := True\<rparr>]\<rparr>)
      else m)"

definition Unsubscribe :: "string \<Rightarrow> nat \<Rightarrow> CellManager \<Rightarrow> CellManager" where
  "Unsubscribe cid ch m =
     (case lookup_cell cid m of
        None \<Rightarrow> m
      | Some c \<Rightarrow> chan_close ch (put_cell cid (c\<lparr>subscribers := removeAll ch (subscribers c)\<rparr>) m))"

text \<open>A client takes the oldest line from its channel.\<close>

definition chan_receive :: "nat \<Rightarrow> CellManager \<Rightarrow> CellManager" where
  "chan_receive ch m =
     (if ch < length (channels m)
      then m\<lparr>channels := (channels m)[ch := (channels m ! ch)\<lparr>held := tl (held (channels m ! ch))\<rparr>]\<rparr> else m)"

section \<open>Console sessions\<close>

definition session_lifetime :: int where "session_lifetime = 30 * 1000000000"

text \<open>\<open>token\<close> is the result of \<open>uuid.NewString\<close>.\<close>

definition CreateConsoleSession :: "int \<Rightarrow> string \<Rightarrow> string \<Rightarrow> string srv" where
  "CreateConsoleSession now token cellID =
     with_cell cellID (\<lambda>_.
       sv_seq (sv_modify (\<lambda>m. m\<lparr>consoleSessions :=
            AList.update token \<lparr>session_CellID = cellID, ExpiresAt = now + session_lifetime\<rparr> (consoleSessions m)\<rparr>))
         (sv_return token))"

definition ValidateConsoleSession :: "int \<Rightarrow> string \<Rightarrow> string \<Rightarrow> CellManager \<Rightarrow> bool \<times> CellManager" where
  "ValidateConsoleSession now cellID token m =
     (case map_of (consoleSessions m) token of
        None \<Rightarrow> (False, m)
      | Some session \<Rightarrow>
          (let m' = m\<lparr>consoleSessions := AList.delete token (consoleSessions m)\<rparr>
           in if session_CellID session \<noteq> cellID then (False, m')
              else if now > ExpiresAt session then (False, m')
              else (True, m')))"

section \<open>Look-ups\<close>

text \<open>\<open>order\<close> is the order in which Go happens to iterate over the map of cells.\<close>

definition cell_list :: "((string \<times> Cell) list \<Rightarrow> (string \<times> Cell) list) \<Rightarrow> (string \<Rightarrow> bool) \<Rightarrow> CellManager \<Rightarrow> Cell list" where
  "cell_list order running m =
     sort_key cell_CreatedAt
       (map (\<lambda>(_, c). c\<lparr>cell_Status := if running (cell_ID c) then ''running'' else ''offline''\<rparr>) (order (cells m)))"

definition Get :: "CellManager \<Rightarrow> string \<Rightarrow> Cell option" where
  "Get m cid = lookup_cell cid m"

definition Status :: "string \<Rightarrow> Cell srv" where
  "Status cid =
     with_cell cid (\<lambda>c. sv_return (if cell_Status c = [] then c\<lparr>cell_Status := ''offline''\<rparr> else c))"

definition IsRunning :: "(string \<Rightarrow> bool) \<Rightarrow> string \<Rightarrow> bool" where
  "IsRunning running cid0 = (let cid = TrimSpace cid0 in if cid = [] then False else running cid)"

definition CellDir :: "string \<Rightarrow> string srv" where
  "CellDir cid0 =
     (let cid = TrimSpace cid0
      in if cid = [] then sv_throw (ErrorString ''cell id is required'')
         else with_cell cid (\<lambda>c.
           if TrimSpace (cell_Dir c) = [] then sv_throw (ErrorString ''cell directory is unavailable'')
           else sv_return (cell_Dir c)))"

end
