(* ===== verification/CellProps.thy ===== *)
theory CellProps
  imports Cell
begin

text \<open>
  Properties of the cell manager's console, console sessions and locks: what the console remembers, what a
  subscriber receives, that no channel is used after it was closed, that a console token is good for one use, and
  which requests a lock stops.
\<close>

lemma lookup_put [simp]: "lookup_cell i (put_cell j c m) = (if i = j then Some c else lookup_cell i m)"
  by (simp add: lookup_cell_def put_cell_def update_conv')

lemma put_cell_simps [simp]:
  "channels (put_cell j c m) = channels m" "panicked (put_cell j c m) = panicked m"
  "consoleSessions (put_cell j c m) = consoleSessions m" "allocManager (put_cell j c m) = allocManager m"
  "backupManager (put_cell j c m) = backupManager m" "instancesDir (put_cell j c m) = instancesDir m"
  "dataDir (put_cell j c m) = dataDir m" "combs (put_cell j c m) = combs m"
  by (simp_all add: put_cell_def)

lemma lookup_other [simp]:
  "lookup_cell i (m\<lparr>channels := x\<rparr>) = lookup_cell i m" "lookup_cell i (m\<lparr>panicked := b\<rparr>) = lookup_cell i m"
  "lookup_cell i (m\<lparr>consoleSessions := s\<rparr>) = lookup_cell i m" "lookup_cell i (m\<lparr>allocManager := a\<rparr>) = lookup_cell i m"
  by (simp_all add: lookup_cell_def)

section \<open>What the console remembers\<close>

lemma lookup_send [simp]: "lookup_cell i (chan_send line ch m) = lookup_cell i m"
  by (simp add: chan_send_def Let_def)

lemma lookup_sends [simp]: "lookup_cell i (fold (chan_send line) chs m) = lookup_cell i m"
  by (induction chs arbitrary: m) simp_all

definition last_lines :: "nat \<Rightarrow> string list \<Rightarrow> string list" where
  "last_lines n ls = drop (length ls - n) ls"

lemma trimConsole_last: "trimConsole ls = last_lines 300 ls"
  by (simp add: trimConsole_def last_lines_def Let_def)

lemma last_lines_last_lines: "last_lines n (last_lines n ls @ ks) = last_lines n (ls @ ks)"
  by (cases "length ls \<le> n") (auto simp: last_lines_def add.commute)

lemma lookup_broadcast:
  "lookup_cell i (broadcastByID cid line m) =
     (if i = cid then map_option (\<lambda>c. c\<lparr>console := last_lines 300 (console c @ [line])\<rparr>) (lookup_cell cid m)
      else lookup_cell i m)"
  by (simp add: broadcastByID_def broadcast_def trimConsole_last split: option.split)

text \<open>
  The console of a cell is a window on everything ever broadcast to it: after any lines it holds the last 300
  of what it held and those lines, in order, and the consoles of other cells are as they were.
\<close>

theorem console_holds_last_lines:
  "lookup_cell i (fold (broadcastByID cid) lines m) =
     (if i = cid \<and> lines \<noteq> []
      then map_option (\<lambda>c. c\<lparr>console := last_lines 300 (console c @ lines)\<rparr>) (lookup_cell cid m)
      else lookup_cell i m)"
proof (induction lines arbitrary: m)
  case (Cons line lines)
  show ?case
    by (cases "lines = []")
      (auto simp: Cons lookup_broadcast option.map_comp comp_def last_lines_last_lines)
qed simp

section \<open>What a subscriber receives\<close>

lemma send_history_take: "length b \<le> 100 \<Longrightarrow> send_history b ls = take 100 (b @ ls)"
proof (induction ls arbitrary: b)
  case (Cons l ls)
  then show ?case by (cases "length b < 100") (auto simp: channel_capacity_def take_Cons')
qed simp

text \<open>Every channel in use is open, belongs to one connection, and is within its capacity.\<close>

definition subscription :: "CellManager \<Rightarrow> string \<Rightarrow> nat \<Rightarrow> bool" where
  "subscription m cid ch \<longleftrightarrow> (\<exists>c. lookup_cell cid m = Some c \<and> ch \<in> set (subscribers c))"

definition channels_inv :: "nat set \<Rightarrow> CellManager \<Rightarrow> bool" where
  "channels_inv live m \<longleftrightarrow> \<not> panicked m
     \<and> (\<forall>ch \<in> live. ch < length (channels m) \<and> \<not> shut (channels m ! ch))
     \<and> (\<forall>cid ch. subscription m cid ch \<longrightarrow> ch \<in> live)
     \<and> (\<forall>c \<in> set (channels m). length (held c) \<le> channel_capacity)"

lemma channels_inv_send: "channels_inv live m \<Longrightarrow> ch \<in> live \<Longrightarrow> channels_inv live (chan_send line ch m)"
  by (auto simp: channels_inv_def chan_send_def subscription_def Let_def nth_list_update
      dest!: subsetD [OF set_update_subset_insert])

lemma channels_inv_sends:
  "channels_inv live m \<Longrightarrow> set chs \<subseteq> live \<Longrightarrow> channels_inv live (fold (chan_send line) chs m)"
  by (induction chs arbitrary: m) (auto intro: channels_inv_send)

lemma channels_inv_put:
  "channels_inv live m \<Longrightarrow> set (subscribers c) \<subseteq> live \<Longrightarrow> channels_inv live (put_cell cid c m)"
  by (auto simp: channels_inv_def subscription_def)

lemma channels_inv_subscribers: "channels_inv live m \<Longrightarrow> lookup_cell cid m = Some c \<Longrightarrow> set (subscribers c) \<subseteq> live"
  by (auto simp: channels_inv_def subscription_def)

lemma channels_inv_broadcast [inv_intros]: "channels_inv live m \<Longrightarrow> channels_inv live (broadcastByID cid line m)"
  using channels_inv_subscribers [of live m cid]
  by (auto simp: broadcastByID_def broadcast_def split: option.split intro!: channels_inv_sends channels_inv_put)

text \<open>
  What happens to channels: lines are broadcast, clients connect, take a line, disconnect (once, by the deferred
  \<open>Unsubscribe\<close> of their handler), consoles are cleared, cells appear without subscribers and disappear. \<open>live\<close>
  are the channels of the connected clients.
\<close>

inductive console_step :: "nat set \<times> CellManager \<Rightarrow> nat set \<times> CellManager \<Rightarrow> bool" where
  line: "console_step (live, m) (live, broadcastByID cid l m)"
| connect: "SubscribeWithHistory cid history \<lparr>mgr = m, host = w\<rparr> = (Inr ch, \<lparr>mgr = m', host = w'\<rparr>)
    \<Longrightarrow> console_step (live, m) (insert ch live, m')"
| receive: "ch \<in> live \<Longrightarrow> console_step (live, m) (live, chan_receive ch m)"
| disconnect: "ch \<in> live \<Longrightarrow> lookup_cell cid m \<noteq> None \<Longrightarrow> (\<forall>i. subscription m i ch \<longrightarrow> i = cid)
    \<Longrightarrow> console_step (live, m) (live - {ch}, Unsubscribe cid ch m)"
| disconnect_gone: "ch \<in> live \<Longrightarrow> lookup_cell cid m = None \<Longrightarrow> console_step (live, m) (live, Unsubscribe cid ch m)"
| clear: "lookup_cell cid m = Some c \<Longrightarrow> console_step (live, m) (live, put_cell cid (c\<lparr>console := []\<rparr>) m)"
| create: "subscribers c = [] \<Longrightarrow> console_step (live, m) (live, put_cell cid c m)"
| remove: "console_step (live, m) (live, m\<lparr>cells := AList.delete cid (cells m)\<rparr>)"

inductive_cases console_stepE: "console_step (live, m) x"

lemma SubscribeWithHistory_result:
  "SubscribeWithHistory cid history \<lparr>mgr = m, host = w\<rparr> = (Inr ch, \<lparr>mgr = m', host = w'\<rparr>) \<longleftrightarrow>
     (\<exists>c. lookup_cell cid m = Some c \<and> ch = length (channels m) \<and> w' = w
       \<and> m' = (put_cell cid (c\<lparr>subscribers := ch # subscribers c\<rparr>) m)
           \<lparr>channels := channels m @ [\<lparr>held = if history then take 100 (console c) else [], shut = False\<rparr>]\<rparr>)"
  by (auto simp: SubscribeWithHistory_def with_cell_def sv_defs Let_def send_history_take split: option.split)

lemma channels_inv_connect:
  assumes "channels_inv live m" "lookup_cell cid m = Some c" "length h \<le> channel_capacity"
  shows "channels_inv (insert (length (channels m)) live)
    ((put_cell cid (c\<lparr>subscribers := length (channels m) # subscribers c\<rparr>) m)
       \<lparr>channels := channels m @ [\<lparr>held = h, shut = False\<rparr>]\<rparr>)"
  using assms channels_inv_subscribers [OF assms(1,2)]
  by (auto simp: channels_inv_def subscription_def nth_append less_Suc_eq split: if_splits)

lemma channels_inv_receive: "channels_inv live m \<Longrightarrow> channels_inv live (chan_receive ch m)"
  using nth_mem [of ch "channels m"]
  by (fastforce simp: channels_inv_def chan_receive_def subscription_def nth_list_update
      dest!: subsetD [OF set_update_subset_insert])

lemma channels_inv_disconnect:
  assumes "channels_inv live m" "ch \<in> live" "lookup_cell cid m = Some c" "\<forall>i. subscription m i ch \<longrightarrow> i = cid"
  shows "channels_inv (live - {ch}) (Unsubscribe cid ch m)"
  using assms channels_inv_subscribers [OF assms(1,3)] nth_mem [of ch "channels m"]
  by (auto simp: channels_inv_def Unsubscribe_def chan_close_def subscription_def nth_list_update
      dest!: subsetD [OF set_update_subset_insert] split: if_splits)

lemma channels_inv_remove: "channels_inv live m \<Longrightarrow> channels_inv live (m\<lparr>cells := AList.delete cid (cells m)\<rparr>)"
  by (auto simp: channels_inv_def subscription_def lookup_cell_def delete_conv' split: if_splits)

lemma channels_inv_clear:
  "channels_inv live m \<Longrightarrow> lookup_cell cid m = Some c \<Longrightarrow> channels_inv live (put_cell cid (c\<lparr>console := []\<rparr>) m)"
  using channels_inv_subscribers by (intro channels_inv_put) auto

lemma channels_inv_step [inv_intros]:
  assumes "console_step (live, m) (live', m')" "channels_inv live m"
  shows "channels_inv live' m'"
  using assms(1)
proof (cases rule: console_step.cases)
  case connect
  then show ?thesis
    using channels_inv_connect [OF assms(2)] by (auto simp: SubscribeWithHistory_result channel_capacity_def)
next
  case disconnect
  then show ?thesis using channels_inv_disconnect [OF assms(2)] by auto
qed (use assms(2) channels_inv_subscribers [OF assms(2)] in
  \<open>auto intro: channels_inv_broadcast channels_inv_receive channels_inv_remove channels_inv_put channels_inv_clear
     simp: Unsubscribe_def\<close>)


lemma channels_inv_run: "console_step\<^sup>*\<^sup>* x y \<Longrightarrow> channels_inv (fst x) (snd x) \<Longrightarrow> channels_inv (fst y) (snd y)"
proof (induction rule: rtranclp_induct)
  case (step y z)
  then show ?case using channels_inv_step [of "fst y" "snd y" "fst z" "snd z"] by simp
qed simp

definition fresh_manager :: CellManager where
  "fresh_manager = \<lparr>cells = [], dataDir = ''/d'', instancesDir = ''/i'', combs = [], allocManager = NewManager [],
     backupManager = NewBackupManager ''/b'', consoleSessions = [], channels = [], panicked = False\<rparr>"

text \<open>
  C36. However clients connect, read and disconnect while lines are broadcast and cells come and go, no channel is
  ever used after it was closed (that would end the worker), a channel never holds more than 100 lines, and every
  channel a cell still sends to is open and belongs to a connected client.
\<close>

theorem console_never_panics:
  assumes "console_step\<^sup>*\<^sup>* ({}, m0) (live, m)" "cells m0 = []" "channels m0 = []" "\<not> panicked m0"
  shows "\<not> panicked m \<and> (\<forall>c \<in> set (channels m). length (held c) \<le> 100)
    \<and> (\<forall>cid ch. subscription m cid ch \<longrightarrow> ch \<in> live \<and> \<not> shut (channels m ! ch))"
proof -
  have "channels_inv {} m0" using assms(2-4) by (simp add: channels_inv_def subscription_def lookup_cell_def)
  with channels_inv_run [OF assms(1)] have "channels_inv live m" by simp
  then show ?thesis by (auto simp: channels_inv_def channel_capacity_def)
qed


theorem console_never_panics_witness:
  "console_step\<^sup>*\<^sup>* ({}, fresh_manager) ({}, broadcastByID ''a'' ''x'' fresh_manager)
    \<and> \<not> panicked (broadcastByID ''a'' ''x'' fresh_manager)"
proof -
  have "console_step\<^sup>*\<^sup>* ({}, fresh_manager) ({}, broadcastByID ''a'' ''x'' fresh_manager)"
    by (rule r_into_rtranclp, rule line)
  moreover from this have "\<not> panicked (broadcastByID ''a'' ''x'' fresh_manager)"
    using console_never_panics by (simp add: fresh_manager_def)
  ultimately show ?thesis ..
qed

lemma send_other:
  "ch' \<noteq> ch \<Longrightarrow> channels (chan_send l ch' m) ! ch = channels m ! ch"
  "length (channels (chan_send l ch' m)) = length (channels m)"
  by (simp_all add: chan_send_def Let_def)

lemma send_self:
  "channels (chan_send l ch m) ! ch =
     (if ch < length (channels m) \<and> \<not> shut (channels m ! ch) \<and> length (held (channels m ! ch)) < 100
      then (channels m ! ch)\<lparr>held := held (channels m ! ch) @ [l]\<rparr> else channels m ! ch)"
  by (simp add: chan_send_def Let_def channel_capacity_def)

lemma sends_other:
  "ch \<notin> set chs \<Longrightarrow> channels (fold (chan_send l) chs m) ! ch = channels m ! ch"
  "length (channels (fold (chan_send l) chs m)) = length (channels m)"
  by (induction chs arbitrary: m) (simp_all add: send_other)

text \<open>\<open>ch\<close> is an open channel to which the cell sends once per line.\<close>

definition receives :: "CellManager \<Rightarrow> string \<Rightarrow> nat \<Rightarrow> bool" where
  "receives m cid ch \<longleftrightarrow> ch < length (channels m) \<and> \<not> shut (channels m ! ch) \<and> length (held (channels m ! ch)) \<le> 100
     \<and> (\<exists>c chs. lookup_cell cid m = Some c \<and> subscribers c = ch # chs \<and> ch \<notin> set chs)"

lemma broadcast_received:
  assumes "receives m cid ch"
  shows "receives (broadcastByID cid l m) cid ch"
    "held (channels (broadcastByID cid l m) ! ch) = take 100 (held (channels m ! ch) @ [l])"
  using assms
  by (auto simp: receives_def broadcastByID_def broadcast_def sends_other send_other send_self split: if_splits)

lemma broadcasts_received:
  "receives m cid ch \<Longrightarrow> held (channels (fold (broadcastByID cid) ls m) ! ch) = take 100 (held (channels m ! ch) @ ls)"
proof (induction ls arbitrary: m)
  case Nil
  then show ?case by (simp add: receives_def)
next
  case (Cons l ls)
  from Cons.IH [OF broadcast_received(1) [OF Cons.prems]] broadcast_received(2) [OF Cons.prems, of l]
  show ?case by (cases "length (held (channels m ! ch)) < 100") (auto simp: take_Cons')
qed

text \<open>
  A client that connects is sent the oldest lines of the console's history, at most 100, and from then on what
  still fits: while it does not read, its channel holds the first 100 of the history and the later lines. With
  100 lines of history or more, no new line reaches it until it has read some.
\<close>

theorem subscriber_channel:
  assumes "channels_inv live m" "lookup_cell cid m = Some c"
    "SubscribeWithHistory cid True \<lparr>mgr = m, host = w\<rparr> = (Inr ch, \<lparr>mgr = m', host = w'\<rparr>)"
  shows "held (channels (fold (broadcastByID cid) lines m') ! ch) = take 100 (console c @ lines)"
proof -
  have m': "ch = length (channels m)" "m' = (put_cell cid (c\<lparr>subscribers := ch # subscribers c\<rparr>) m)
      \<lparr>channels := channels m @ [\<lparr>held = take 100 (console c), shut = False\<rparr>]\<rparr>"
    using assms(2,3) by (simp_all add: SubscribeWithHistory_result)
  have "ch \<notin> set (subscribers c)"
    using channels_inv_subscribers [OF assms(1,2)] assms(1) m'(1) by (auto simp: channels_inv_def)
  then have "receives m' cid ch" by (simp add: receives_def m' nth_append)
  from broadcasts_received [OF this, of lines] show ?thesis
    by (cases "length (console c) < 100") (simp_all add: m' nth_append)
qed

section \<open>Console sessions\<close>

lemma sessions_put [simp]: "consoleSessions (put_cell i c m) = consoleSessions m" by simp

datatype session_call = Open int string string | Check int string string

fun session_run :: "session_call list \<Rightarrow> server \<Rightarrow> server" where
  "session_run [] s = s"
| "session_run (Open now token cid # ops) s = session_run ops (snd (CreateConsoleSession now token cid s))"
| "session_run (Check now cid token # ops) s =
     session_run ops (s\<lparr>mgr := snd (ValidateConsoleSession now cid token (mgr s))\<rparr>)"

fun opens :: "string \<Rightarrow> session_call \<Rightarrow> bool" where
  "opens token (Open now t cid) = (t = token)"
| "opens token (Check now cid t) = False"

lemma token_gone_run:
  "map_of (consoleSessions (mgr s)) token = None \<Longrightarrow> \<not> list_ex (opens token) ops
    \<Longrightarrow> map_of (consoleSessions (mgr (session_run ops s))) token = None"
proof (induction ops arbitrary: s)
  case (Cons op ops)
  show ?case
  proof (cases op)
    case (Open now t cid)
    with Cons show ?thesis
      by (auto simp: CreateConsoleSession_def with_cell_def sv_defs update_conv' split: option.split)
  next
    case (Check now cid t)
    with Cons show ?thesis
      by (auto simp: ValidateConsoleSession_def delete_conv' Let_def split: option.split)
  qed
qed simp

text \<open>
  C35. A console token opens one connection: once it has been presented, rightly or wrongly, it is never accepted
  again, whatever other tokens are issued and presented in between. A fresh token is accepted for its own cell up
  to 30 seconds after it was issued, and for no other cell and not later.
\<close>

theorem console_token_single_use:
  assumes "\<not> list_ex (opens token) ops"
  shows "\<not> fst (ValidateConsoleSession now' cid' token
      (mgr (session_run ops (s\<lparr>mgr := snd (ValidateConsoleSession now cid token (mgr s))\<rparr>))))
    \<and> (\<forall>t0 owner s'. CreateConsoleSession t0 token owner s = (Inr token, s') \<longrightarrow>
        (fst (ValidateConsoleSession now cid token (mgr s')) \<longleftrightarrow> cid = owner \<and> now \<le> t0 + 30000000000))"
proof (intro conjI allI impI)
  have "map_of (consoleSessions (snd (ValidateConsoleSession now cid token (mgr s)))) token = None"
    by (auto simp: ValidateConsoleSession_def delete_conv' Let_def split: option.split)
  from token_gone_run [of "s\<lparr>mgr := snd (ValidateConsoleSession now cid token (mgr s))\<rparr>", simplified, OF this assms]
  show "\<not> fst (ValidateConsoleSession now' cid' token
      (mgr (session_run ops (s\<lparr>mgr := snd (ValidateConsoleSession now cid token (mgr s))\<rparr>))))"
    by (simp add: ValidateConsoleSession_def)
next
  fix t0 owner s' assume "CreateConsoleSession t0 token owner s = (Inr token, s')"
  then have "map_of (consoleSessions (mgr s')) token =
      Some \<lparr>session_CellID = owner, ExpiresAt = t0 + session_lifetime\<rparr>"
    by (auto simp: CreateConsoleSession_def with_cell_def sv_defs update_conv' split: option.splits)
  then show "fst (ValidateConsoleSession now cid token (mgr s')) \<longleftrightarrow> cid = owner \<and> now \<le> t0 + 30000000000"
    by (simp add: ValidateConsoleSession_def session_lifetime_def Let_def)
qed


definition some_limits :: Limits where
  "some_limits = \<lparr>MemoryMB = 1024, OverheadMemoryMB = 0, SwapMB = 0, CPUPercent = 100, CPUPinning = [], DiskMB = 0,
     IOWeight = 0, OOMKiller = False\<rparr>"

definition no_feature_limits :: FeatureLimits where
  "no_feature_limits = \<lparr>DatabaseLimit = None, AllocationLimit = None, BackupLimit = None, BackupStorageMB = None\<rparr>"

definition plain_cell :: "string \<Rightarrow> Cell" where
  "plain_cell cid =
     \<lparr>cell_ID = cid, cell_Name = ''n'', cell_Dir = ''/i/'' @ cid, cell_CreatedAt = ''2024'', cell_Status = ''offline'',
      cell_Comb = ''c'', cell_CombData = None, cell_Variables = [], cell_Allocation = \<lparr>IP = ''1.2.3.4'', Port = 25565\<rparr>,
      cell_AdditionalAllocations = [], cell_Limits = some_limits, cell_FeatureLimits = no_feature_limits,
      cell_DockerImage = [], cell_StartupCommand = [], cell_Lock = no_lock, console = [], subscribers = []\<rparr>"

definition one_cell :: CellManager where
  "one_cell = fresh_manager\<lparr>cells := [(''a'', (plain_cell ''a'')\<lparr>console := [''l1'', ''l2'']\<rparr>)]\<rparr>"

theorem subscriber_channel_witness:
  "held (channels (fold (broadcastByID ''a'') [''l3''] (mgr (snd (SubscribeWithHistory ''a'' True
      \<lparr>mgr = one_cell, host = calm_world []\<rparr>)))) ! 0) = [''l1'', ''l2'', ''l3'']"
proof -
  let ?r = "SubscribeWithHistory ''a'' True \<lparr>mgr = one_cell, host = calm_world []\<rparr>"
  have inv: "channels_inv {} one_cell"
    by (simp add: channels_inv_def subscription_def one_cell_def fresh_manager_def lookup_cell_def plain_cell_def)
  have l: "lookup_cell ''a'' one_cell = Some ((plain_cell ''a'')\<lparr>console := [''l1'', ''l2'']\<rparr>)"
    by (simp add: one_cell_def fresh_manager_def lookup_cell_def)
  have r: "?r = (Inr 0, \<lparr>mgr = mgr (snd ?r), host = host (snd ?r)\<rparr>)"
    by (simp add: SubscribeWithHistory_def with_cell_def sv_defs l Let_def) (simp add: one_cell_def fresh_manager_def)
  from subscriber_channel [OF inv l r, of "[''l3'']"] show ?thesis by simp
qed

theorem console_token_single_use_witness:
  "\<not> fst (ValidateConsoleSession 9 ''a'' ''t'' (mgr (session_run [Open 2 ''u'' ''a'']
      (\<lparr>mgr = one_cell, host = calm_world []\<rparr>\<lparr>mgr := snd (ValidateConsoleSession 1 ''a'' ''t'' one_cell)\<rparr>))))"
  using console_token_single_use [where token = "''t''" and ops = "[Open 2 ''u'' ''a'']" and now' = 9 and cid' = "''a''"
      and s = "\<lparr>mgr = one_cell, host = calm_world []\<rparr>" and now = 1 and cid = "''a''"]
  by (simp del: session_run.simps)

section \<open>What a lock stops\<close>

datatype capability = Power | ConsoleUse | FilesUse | Backups | Settings | Import

definition ensure :: "capability \<Rightarrow> string \<Rightarrow> unit srv" where
  "ensure k cid = (case k of Power \<Rightarrow> EnsurePowerAllowed cid | ConsoleUse \<Rightarrow> EnsureConsoleAllowed cid
     | FilesUse \<Rightarrow> EnsureFilesAllowed cid | Backups \<Rightarrow> EnsureBackupsAllowed cid
     | Settings \<Rightarrow> EnsureSettingsAllowed cid | Import \<Rightarrow> EnsureImporterAllowed cid)"

text \<open>The intended table: what each kind of lock takes away.\<close>

definition taken_by :: "string \<Rightarrow> capability set" where
  "taken_by lockType =
     (if lockType \<in> {''restoring_backup'', ''suspended'', ''billing_hold'', ''admin_lock''} then UNIV
      else if lockType = ''creating_backup'' then {Backups, Import}
      else if lockType = ''maintenance'' then {Power, Import}
      else - {ConsoleUse})"

text \<open>
  Locking takes effect at once and exactly as its kind says: after \<open>LockCell\<close> an action is refused, with the
  message of the lock, if and only if the kind of the lock takes it away, even when writing the lock to disk
  failed; after \<open>UnlockCell\<close> nothing is refused. Other cells are not concerned.
\<close>

theorem lock_gates_requests:
  assumes "lookup_cell cid (mgr s) = Some c" "message \<noteq> []"
  shows "fst (ensure k cid (snd (LockCell cc cid lockType reason message s))) =
      (if k \<in> taken_by lockType then Inl (ErrorString message) else Inr ())
    \<and> fst (ensure k cid (snd (UnlockCell cid s))) = Inr ()
    \<and> (\<forall>other. other \<noteq> cid \<longrightarrow>
        fst (ensure k other (snd (LockCell cc cid lockType reason message s))) = fst (ensure k other s))"
proof -
  have l: "lookup_cell i (mgr (snd (LockCell cc cid lockType reason message s))) =
      (if i = cid then Some (c\<lparr>cell_Lock := DefaultLock lockType reason message\<rparr>) else lookup_cell i (mgr s))" for i
    using assms(1) by (simp add: LockCell_def with_cell_def sv_defs Let_def split: prod.split)
  have u: "lookup_cell cid (mgr (snd (UnlockCell cid s))) = Some (c\<lparr>cell_Lock := no_lock\<rparr>)"
    using assms(1) by (simp add: UnlockCell_def with_cell_def sv_defs split: prod.split)
  note ensure_defs = EnsurePowerAllowed_def EnsureConsoleAllowed_def EnsureFilesAllowed_def EnsureBackupsAllowed_def
    EnsureSettingsAllowed_def EnsureImporterAllowed_def ensureCapabilityAllowed_def with_cell_def sv_defs Let_def
  show ?thesis
  proof (intro conjI allI impI)
    show "fst (ensure k cid (snd (LockCell cc cid lockType reason message s))) =
        (if k \<in> taken_by lockType then Inl (ErrorString message) else Inr ())"
      using assms(2) by (cases k) (simp_all add: ensure_def ensure_defs l DefaultLock_def no_lock_def taken_by_def)
    show "fst (ensure k cid (snd (UnlockCell cid s))) = Inr ()"
      by (cases k) (simp_all add: ensure_def ensure_defs u no_lock_def)
    show "fst (ensure k other (snd (LockCell cc cid lockType reason message s))) = fst (ensure k other s)"
      if "other \<noteq> cid" for other
      using that by (cases k; cases "lookup_cell other (mgr s)") (simp_all add: ensure_def ensure_defs l)
  qed
qed

text \<open>A codec that knows one cell, one lock and one comb.\<close>

definition sample_codec :: "Cell \<Rightarrow> CellLock \<Rightarrow> Comb \<Rightarrow> cell_codec" where
  "sample_codec c lock cb = \<lparr>cell_enc = (\<lambda>_. Inr ''{}''), cell_dec = (\<lambda>_. Inr c), lock_enc = (\<lambda>_. Inr ''L''),
     lock_dec = (\<lambda>_. Inr lock), comb_dec = (\<lambda>_. Inr cb), comb_of = (\<lambda>_. Inr cb)\<rparr>"

definition some_comb :: Comb where
  "some_comb = \<lparr>comb_ID = ''c'', comb_Name = ''n'', comb_Game = ''g'', comb_Startup = ''run'', comb_Variables = [(''K'', ''v'')], comb_Install = [],
     comb_Image = ''img'', comb_WorkingDir = ''/data'',
     comb_Entrypoint = [], comb_Environment = []\<rparr>"

theorem lock_gates_requests_witness:
  "let s = \<lparr>mgr = one_cell, host = calm_world []\<rparr>; cc = sample_codec (plain_cell ''a'') no_lock some_comb
   in fst (ensure Backups ''a'' (snd (LockCell cc ''a'' ''creating_backup'' ''r'' ''busy'' s))) = Inl (ErrorString ''busy'')
    \<and> fst (ensure Backups ''a'' (snd (UnlockCell ''a'' s))) = Inr ()"
  using lock_gates_requests [where cid = "''a''" and s = "\<lparr>mgr = one_cell, host = calm_world []\<rparr>"
      and c = "(plain_cell ''a'')\<lparr>console := [''l1'', ''l2'']\<rparr>" and message = "''busy''" and k = Backups
      and cc = "sample_codec (plain_cell ''a'') no_lock some_comb" and lockType = "''creating_backup''" and reason = "''r''"]
  by (simp add: Let_def taken_by_def) (simp add: one_cell_def fresh_manager_def lookup_cell_def)

end
