(* ===== verification/CellStore.thy ===== *)
theory CellStore
  imports Cell Files
begin

text \<open>
  Making, saving, changing, deleting and loading cells: \<open>internal/cell/storage.go\<close>, \<open>update.go\<close>, and \<open>Load\<close>
  of \<open>manager.go\<close>; and the comb manager of \<open>internal/comb\<close>. \<open>uuid.NewString\<close>, \<open>uuid.Parse\<close> (the canonical
  form of what it accepts) and the formatted time of creation are arguments.
\<close>

section \<open>Combs\<close>

definition Require :: "CellManager \<Rightarrow> string \<Rightarrow> go_error + Comb" where
  "Require m cid = (case map_of (combs m) cid of None \<Rightarrow> Inl (ErrorString ''comb not found'') | Some c \<Rightarrow> Inr c)"

definition FromMap :: "cell_codec \<Rightarrow> (string \<times> json) list \<Rightarrow> go_error + Comb" where
  "FromMap cc data =
     (case comb_of cc data of
        Inl e \<Rightarrow> Inl e
      | Inr c \<Rightarrow> if comb_ID c = [] then Inl (ErrorString ''comb id is required'') else Inr c)"

text \<open>One file of the directory of combs, read into the table; unreadable files are passed over.\<close>

fun load_combs :: "cell_codec \<Rightarrow> string \<Rightarrow> (string \<times> node) list \<Rightarrow> unit srv" where
  "load_combs cc dir [] = sv_return ()"
| "load_combs cc dir ((name, node) # rest) =
     (if is_dir node \<or> path_ext name \<noteq> ''.json'' then load_combs cc dir rest
      else sv_attempt (sv_os (os_read_file (path_join [dir, name]))) (\<lambda>r. case r of
          Inl _ \<Rightarrow> load_combs cc dir rest
        | Inr bytes \<Rightarrow>
            (case comb_dec cc bytes of
               Inl _ \<Rightarrow> load_combs cc dir rest
             | Inr c \<Rightarrow>
                 sv_seq (if comb_ID c \<noteq> [] then sv_modify (\<lambda>m. m\<lparr>combs := AList.update (comb_ID c) c (combs m)\<rparr>)
                         else sv_return ())
                   (load_combs cc dir rest))))"

definition comb_Load :: "cell_codec \<Rightarrow> string \<Rightarrow> unit srv" where
  "comb_Load cc combDir =
     sv_seq (sv_os (os_mkdir_all combDir))
    (sv_bind (sv_os (os_read_dir combDir)) (\<lambda>files. load_combs cc combDir files))"

section \<open>Requests\<close>

record CreateCellRequest =
  create_ID :: string
  create_Name :: string
  create_Comb :: string
  create_CombData :: "(string \<times> json) list option"
  create_Variables :: "(string \<times> string) list"
  create_Limits :: Limits
  create_FeatureLimits :: FeatureLimits
  create_DockerImage :: string
  create_StartupCommand :: string
  create_Allocation :: Allocation
  create_AdditionalAllocations :: "Allocation list"

record UpdateCellDefinitionRequest =
  update_Name :: string
  update_Comb :: string
  update_CombData :: "(string \<times> json) list option"
  update_Variables :: "(string \<times> string) list option"
  update_Allocation :: Allocation
  update_AdditionalAllocations :: "Allocation list"
  update_Limits :: Limits
  update_FeatureLimits :: FeatureLimits
  update_DockerImage :: string
  update_StartupCommand :: string

definition resolveComb :: "cell_codec \<Rightarrow> CellManager \<Rightarrow> CreateCellRequest \<Rightarrow> go_error + Comb" where
  "resolveComb cc m request =
     (case create_CombData request of Some d \<Rightarrow> FromMap cc d | None \<Rightarrow> Require m (create_Comb request))"

fun normalise_additional :: "string \<Rightarrow> string list \<Rightarrow> Allocation list \<Rightarrow> go_error + Allocation list" where
  "normalise_additional primaryKey seen [] = Inr []"
| "normalise_additional primaryKey seen (item0 # items) =
     (let item = item0\<lparr>IP := TrimSpace (IP item0)\<rparr>; key = allocationKey item
      in if IP item = [] \<or> Port item \<le> 0 then Inl (ErrorString ''additional allocation is invalid'')
         else if key = primaryKey
         then Inl (ErrorString ''primary allocation cannot also be an additional allocation'')
         else if key \<in> set seen then Inl (ErrorString ''duplicate additional allocation'')
         else case normalise_additional primaryKey (key # seen) items of
             Inl e \<Rightarrow> Inl e | Inr result \<Rightarrow> Inr (item # result))"

definition normaliseAdditionalAllocations :: "Allocation \<Rightarrow> Allocation list \<Rightarrow> go_error + Allocation list" where
  "normaliseAdditionalAllocations primary additional =
     (if additional = [] then Inr [] else normalise_additional (allocationKey primary) [] additional)"

text \<open>Assigning the entries of a map one by one.\<close>

definition merge_vars :: "(string \<times> string) list \<Rightarrow> (string \<times> string) list \<Rightarrow> (string \<times> string) list" where
  "merge_vars base over = fold (\<lambda>(k, v). AList.update k v) over base"

section \<open>Files of the manager\<close>

definition cellDataDir :: "CellManager \<Rightarrow> string" where
  "cellDataDir m = path_join [dataDir m, ''cells'']"

definition cellConfigPath :: "CellManager \<Rightarrow> string \<Rightarrow> string" where
  "cellConfigPath m cid = path_join [cellDataDir m, cid @ ''.json'']"

definition save :: "cell_codec \<Rightarrow> CellManager \<Rightarrow> Cell \<Rightarrow> unit os" where
  "save cc m c =
     os_seq (os_mkdir_all (cellDataDir m))
    (os_bind (os_lift (cell_enc cc c)) (\<lambda>bytes. os_write_file (cellConfigPath m (cell_ID c)) bytes))"

definition cellAllocations :: "Cell \<Rightarrow> Allocation list" where
  "cellAllocations c = cell_Allocation c # cell_AdditionalAllocations c"

definition releaseCellAllocations :: "Cell \<Rightarrow> CellManager \<Rightarrow> CellManager" where
  "releaseCellAllocations c m =
     m\<lparr>allocManager := fold (\<lambda>a am. Release am a) (cellAllocations c) (allocManager m)\<rparr>"

definition reserveCellAllocations :: "Cell \<Rightarrow> CellManager \<Rightarrow> CellManager" where
  "reserveCellAllocations c m =
     m\<lparr>allocManager := fold (\<lambda>a am. ReserveExisting am a) (cellAllocations c) (allocManager m)\<rparr>"

section \<open>Creating and deleting\<close>

definition sv_undo :: "unit srv \<Rightarrow> unit srv \<Rightarrow> unit srv" where
  "sv_undo m undo = sv_attempt m (\<lambda>r. case r of Inl e \<Rightarrow> sv_seq undo (sv_throw e) | Inr _ \<Rightarrow> sv_return ())"

text \<open>The struct that \<open>Create\<close> builds; \<open>slots\<close> are the normalised allocations, the primary one first.\<close>

definition new_cell ::
  "string \<Rightarrow> string \<Rightarrow> string \<Rightarrow> CreateCellRequest \<Rightarrow> Comb \<Rightarrow> Allocation list \<Rightarrow> Cell" where
  "new_cell dir cid now request selectedComb slots =
     \<lparr>cell_ID = cid, cell_Name = create_Name request, cell_Dir = dir,
      cell_CreatedAt = now, cell_Status = ''offline'', cell_Comb = comb_ID selectedComb,
      cell_CombData = create_CombData request,
      cell_Variables = merge_vars (merge_vars [] (comb_Variables selectedComb)) (create_Variables request),
      cell_Allocation = hd slots, cell_AdditionalAllocations = tl slots,
      cell_Limits = (if MemoryMB (create_Limits request) \<le> 0 then (create_Limits request)\<lparr>MemoryMB := 1024\<rparr>
                     else create_Limits request),
      cell_FeatureLimits = create_FeatureLimits request, cell_DockerImage = create_DockerImage request,
      cell_StartupCommand = create_StartupCommand request, cell_Lock = no_lock, console = [], subscribers = []\<rparr>"

text \<open>The end of \<open>Create\<close>: the directory, the saved definition, the table of cells.\<close>

definition place_cell :: "cell_codec \<Rightarrow> Cell \<Rightarrow> Cell srv" where
  "place_cell cc gameCell =
     (let dir = cell_Dir gameCell
      in sv_attempt (sv_os (os_stat dir)) (\<lambda>r. case r of
          Inr _ \<Rightarrow> sv_throw (ErrorString ''cell directory already exists'')
        | Inl e \<Rightarrow>
            if \<not> os_is_not_exist e then sv_throw e
            else sv_seq (sv_undo (sv_os (os_mkdir_all dir)) (sv_modify (releaseCellAllocations gameCell)))
                (sv_seq (sv_get (\<lambda>m. sv_undo (sv_os (save cc m gameCell))
                   (sv_seq (sv_attempt (sv_os (os_remove_all dir)) (\<lambda>_. sv_return ()))
                           (sv_modify (releaseCellAllocations gameCell)))))
                (sv_seq (sv_modify (put_cell (cell_ID gameCell) gameCell)) (sv_return gameCell)))))"

definition Create ::
  "cell_codec \<Rightarrow> (string \<Rightarrow> string option) \<Rightarrow> string \<Rightarrow> string \<Rightarrow> CreateCellRequest \<Rightarrow> Cell srv" where
  "Create cc parse_uuid new_uuid now request0 =
     (let request = request0\<lparr>create_ID := TrimSpace (create_ID request0), create_Name := TrimSpace (create_Name request0),
            create_Comb := TrimSpace (create_Comb request0), create_DockerImage := TrimSpace (create_DockerImage request0),
            create_StartupCommand := TrimSpace (create_StartupCommand request0)\<rparr>;
          primary = (create_Allocation request)\<lparr>IP := TrimSpace (IP (create_Allocation request))\<rparr>
      in sv_get (\<lambda>m.
         if create_Name request = [] then sv_throw (ErrorString ''name is required'')
         else if create_Comb request = [] then sv_throw (ErrorString ''comb is required'')
         else case resolveComb cc m request of
             Inl e \<Rightarrow> sv_throw e
           | Inr selectedComb \<Rightarrow>
         if IP primary = [] \<or> Port primary \<le> 0 then sv_throw (ErrorString ''allocation is required'')
         else case normaliseAdditionalAllocations primary (create_AdditionalAllocations request) of
             Inl e \<Rightarrow> sv_throw e
           | Inr additional \<Rightarrow>
         (case (if create_ID request \<noteq> [] then parse_uuid (create_ID request) else Some new_uuid) of
            None \<Rightarrow> sv_throw (ErrorString ''invalid cell id'')
          | Some cid \<Rightarrow>
         if lookup_cell cid m \<noteq> None then sv_throw (ErrorString ''cell already exists'')
         else place_cell cc
                (new_cell (path_join [instancesDir m, cid]) cid now request selectedComb (primary # additional)))))"

definition Delete :: "(string \<Rightarrow> bool) \<Rightarrow> string \<Rightarrow> unit srv" where
  "Delete running cid =
     with_cell cid (\<lambda>gameCell.
       if running cid then sv_throw (ErrorString ''cell must be stopped first'')
       else sv_get (\<lambda>m0.
            sv_seq (sv_modify (\<lambda>m. (releaseCellAllocations gameCell m)\<lparr>cells := AList.delete cid (cells m)\<rparr>))
           (sv_seq (sv_attempt (sv_os (os_remove (cellConfigPath m0 cid))) (\<lambda>_. sv_return ()))
                   (sv_os (os_remove_all (cell_Dir gameCell))))))"

section \<open>Changing the definition of a cell\<close>

definition updated_cell :: "UpdateCellDefinitionRequest \<Rightarrow> Allocation list \<Rightarrow> Cell \<Rightarrow> Cell" where
  "updated_cell request additional c =
     c\<lparr>cell_Name := update_Name request, cell_Comb := update_Comb request, cell_CombData := update_CombData request,
       cell_Variables := (case update_Variables request of None \<Rightarrow> [] | Some vs \<Rightarrow> vs),
       cell_Allocation := update_Allocation request, cell_AdditionalAllocations := additional,
       cell_Limits := update_Limits request, cell_FeatureLimits := update_FeatureLimits request,
       cell_DockerImage := update_DockerImage request, cell_StartupCommand := update_StartupCommand request\<rparr>"

definition replace_reservations :: "Allocation list \<Rightarrow> Allocation list \<Rightarrow> CellManager \<Rightarrow> CellManager" where
  "replace_reservations old new m = m\<lparr>allocManager := ReplaceReservations (allocManager m) old new\<rparr>"

text \<open>The part of \<open>UpdateDefinition\<close> after the cell was found to be stopped.\<close>

definition replace_definition :: "cell_codec \<Rightarrow> string \<Rightarrow> Cell \<Rightarrow> Cell \<Rightarrow> Cell srv" where
  "replace_definition cc cid gameCell gameCell' =
     (let old = cellAllocations gameCell; new = cellAllocations gameCell'
      in sv_seq (sv_modify (replace_reservations old new))
        (sv_seq (sv_modify (put_cell cid gameCell'))
        (sv_get (\<lambda>m.
         sv_seq (sv_undo (sv_os (save cc m gameCell')) (sv_modify (replace_reservations new old)))
                (sv_return gameCell')))))"

definition UpdateDefinition ::
  "cell_codec \<Rightarrow> (string \<Rightarrow> bool) \<Rightarrow> string \<Rightarrow> UpdateCellDefinitionRequest \<Rightarrow> Cell srv" where
  "UpdateDefinition cc running cid0 request0 =
     (let cid = TrimSpace cid0;
          a0 = update_Allocation request0;
          request = request0\<lparr>update_Name := TrimSpace (update_Name request0), update_Comb := TrimSpace (update_Comb request0),
            update_DockerImage := TrimSpace (update_DockerImage request0),
            update_StartupCommand := TrimSpace (update_StartupCommand request0),
            update_Allocation := a0\<lparr>IP := TrimSpace (IP a0)\<rparr>\<rparr>
      in if cid = [] then sv_throw (ErrorString ''cell id is required'')
         else if update_Name request = [] then sv_throw (ErrorString ''cell name is required'')
         else if update_Comb request = [] then sv_throw (ErrorString ''comb is required'')
         else if update_CombData request = None then sv_throw (ErrorString ''comb data is required'')
         else if IP (update_Allocation request) = [] \<or> Port (update_Allocation request) \<le> 0
         then sv_throw (ErrorString ''allocation is required'')
         else case normaliseAdditionalAllocations (update_Allocation request) (update_AdditionalAllocations request) of
             Inl e \<Rightarrow> sv_throw e
           | Inr additional \<Rightarrow>
               with_cell cid (\<lambda>gameCell.
                 if running cid then sv_throw (ErrorString ''cell must be stopped before changing its definition'')
                 else replace_definition cc cid gameCell (updated_cell request additional gameCell)))"

section \<open>Loading\<close>

definition NewCellManager ::
  "string \<Rightarrow> string \<Rightarrow> (string \<times> Comb) list \<Rightarrow> Manager \<Rightarrow> BackupManager \<Rightarrow> CellManager" where
  "NewCellManager data instances cs am bm =
     \<lparr>cells = [], dataDir = data, instancesDir = instances, combs = cs, allocManager = am, backupManager = bm,
      consoleSessions = [], channels = [], panicked = False\<rparr>"

definition load_cell :: "cell_codec \<Rightarrow> Cell \<Rightarrow> unit srv" where
  "load_cell cc c0 =
     (let c = c0\<lparr>console := [], subscribers := []\<rparr>
      in sv_attempt (sv_os (loadLock cc (cell_Dir c))) (\<lambda>r.
           let c' = (case r of Inr lock \<Rightarrow> c\<lparr>cell_Lock := lock\<rparr> | Inl _ \<Rightarrow> c)
           in sv_seq (sv_modify (reserveCellAllocations c')) (sv_modify (put_cell (cell_ID c') c'))))"

fun load_cells :: "cell_codec \<Rightarrow> string \<Rightarrow> (string \<times> node) list \<Rightarrow> unit srv" where
  "load_cells cc dir [] = sv_return ()"
| "load_cells cc dir ((name, node) # rest) =
     (if is_dir node \<or> path_ext name \<noteq> ''.json'' then load_cells cc dir rest
      else sv_attempt (sv_os (os_read_file (path_join [dir, name]))) (\<lambda>r. case r of
          Inl _ \<Rightarrow> load_cells cc dir rest
        | Inr bytes \<Rightarrow>
            (case cell_dec cc bytes of
               Inl _ \<Rightarrow> load_cells cc dir rest
             | Inr c \<Rightarrow> sv_seq (load_cell cc c) (load_cells cc dir rest))))"

definition Load :: "cell_codec \<Rightarrow> unit srv" where
  "Load cc =
     sv_get (\<lambda>m.
       sv_seq (sv_os (os_mkdir_all (cellDataDir m)))
      (sv_seq (sv_os (os_mkdir_all (instancesDir m)))
      (sv_bind (sv_os (os_read_dir (cellDataDir m))) (\<lambda>files.
         load_cells cc (cellDataDir m) files))))"

end
