(* ===== verification/CellStoreProps.thy ===== *)
theory CellStoreProps
  imports CellProps CellStore
begin

text \<open>
  Properties of the life of a cell: what a created, changed or deleted cell is, what is left when an operation fails
  half-way, and what a restarted worker loads.
\<close>

section \<open>Requests\<close>

lemma map_of_merge_vars: "map_of (merge_vars base over) = map_of base ++ map_of (rev over)"
  unfolding merge_vars_def
  by (induction over arbitrary: base) (auto simp: fun_eq_iff map_add_def update_conv' split: option.split)

definition sound_slot :: "Allocation \<Rightarrow> bool" where
  "sound_slot a \<longleftrightarrow> IP a \<noteq> [] \<and> TrimSpace (IP a) = IP a \<and> 0 < Port a"

lemma case_Inr_iff:
  "(case x of Inl e \<Rightarrow> Inl e | Inr r \<Rightarrow> Inr (f r)) = Inr y \<longleftrightarrow> (\<exists>r. x = Inr r \<and> y = f r)"
  by (cases x) auto

lemma normalise_additional_Inr:
  "normalise_additional pk seen items = Inr result \<longleftrightarrow>
     result = map (\<lambda>a. a\<lparr>IP := TrimSpace (IP a)\<rparr>) items \<and> list_all sound_slot result
     \<and> distinct (map allocationKey result) \<and> (\<forall>a \<in> set result. allocationKey a \<noteq> pk \<and> allocationKey a \<notin> set seen)"
proof (induction items arbitrary: seen result)
  case (Cons a items)
  show ?case
    by (simp add: Let_def sound_slot_def case_Inr_iff Cons.IH split: if_splits)
      (auto 4 4 simp: sound_slot_def image_image image_iff dest: bspec sym)
qed auto

lemma normalised_slots:
  "normaliseAdditionalAllocations primary additional = Inr result \<longleftrightarrow>
     result = map (\<lambda>a. a\<lparr>IP := TrimSpace (IP a)\<rparr>) additional \<and> list_all sound_slot result
     \<and> distinct (map allocationKey (primary # result))"
  by (auto simp: normaliseAdditionalAllocations_def normalise_additional_Inr image_image image_iff)

section \<open>Creating\<close>

lemma with_cell_None: "lookup_cell cid (mgr s) = None \<Longrightarrow> with_cell cid k s = (Inl (ErrorString ''cell not found''), s)"
  by (simp add: with_cell_def sv_defs)

lemma with_cell_Some: "lookup_cell cid (mgr s) = Some c \<Longrightarrow> with_cell cid k s = k c s"
  by (simp add: with_cell_def sv_defs)

text \<open>How an operation ends: \<open>ends Q R m\<close> when \<open>Q\<close> holds of its result and \<open>R\<close> of its error, started in a given state.\<close>

definition outcome_of :: "('a \<Rightarrow> server \<Rightarrow> bool) \<Rightarrow> (go_error \<Rightarrow> server \<Rightarrow> bool) \<Rightarrow> (go_error + 'a) \<times> server \<Rightarrow> bool" where
  "outcome_of Q R r = (case r of (Inr x, s) \<Rightarrow> Q x s | (Inl e, s) \<Rightarrow> R e s)"

lemma outcome_simps [simp]: "outcome_of Q R (Inr x, s) = Q x s" "outcome_of Q R (Inl e, s) = R e s"
  by (simp_all add: outcome_of_def)

definition created_from :: "CreateCellRequest \<Rightarrow> Comb \<Rightarrow> CellManager \<Rightarrow> Cell \<Rightarrow> bool" where
  "created_from rq comb m c \<longleftrightarrow>
     cell_Name c = TrimSpace (create_Name rq) \<and> cell_Name c \<noteq> [] \<and> cell_Comb c = comb_ID comb
     \<and> cell_Dir c = path_join [instancesDir m, cell_ID c] \<and> cell_Status c = ''offline'' \<and> cell_Lock c = no_lock
     \<and> map_of (cell_Variables c) = map_of (rev (comb_Variables comb)) ++ map_of (rev (create_Variables rq))
     \<and> list_all sound_slot (cellAllocations c) \<and> distinct (map allocationKey (cellAllocations c))
     \<and> 0 < MemoryMB (cell_Limits c) \<and> console c = [] \<and> subscribers c = []"

lemma place_cell_outcome:
  "outcome_of (\<lambda>c s'. c = g \<and> mgr s' = put_cell (cell_ID g) g (mgr s))
     (\<lambda>e s'. mgr s' = mgr s \<or> mgr s' = releaseCellAllocations g (mgr s)) (place_cell cc g s)"
  by (auto simp: place_cell_def sv_undo_def sv_defs Let_def split: prod.split sum.split)

lemma created_from_new_cell:
  assumes "create_Name request = TrimSpace (create_Name rq)" "create_Name request \<noteq> []"
    "create_Variables request = create_Variables rq" "dir = path_join [instancesDir m, cid]"
    "sound_slot primary" "list_all sound_slot additional" "distinct (map allocationKey (primary # additional))"
  shows "created_from rq comb m (new_cell dir cid now request comb (primary # additional))"
  using assms by (simp add: created_from_def new_cell_def map_of_merge_vars cellAllocations_def)


section \<open>A failed creation gives away the slots of another cell\<close>

abbreviation releaseAll :: "Allocation list \<Rightarrow> Manager \<Rightarrow> Manager" where
  "releaseAll slots am \<equiv> fold (\<lambda>a am. Release am a) slots am"

lemma IsReserved_Release: "IsReserved (Release am b) a \<Longrightarrow> IsReserved am a"
  by (cases "validAllocation (normaliseAllocation b)")
    (simp_all add: IsReserved_def Release_def clear_used_def Let_def split: if_splits)

lemma IsReserved_Release_same: "\<not> IsReserved (Release am a) a"
  by (simp add: IsReserved_def Release_def clear_used_def Let_def)

lemma IsReserved_releaseAll: "IsReserved (releaseAll slots am) a \<Longrightarrow> IsReserved am a"
  by (induction slots arbitrary: am) (auto dest: IsReserved_Release)

text \<open>
  A failed creation gives away a slot that another cell holds: whenever a cell holds a reserved slot and the
  directory of a new cell asking for the same slot cannot be made, the slot is free afterwards, although the cell
  still holds it, and the next allocation may hand it out a second time.
\<close>

theorem failed_Create_frees_held_slots:
  assumes "lookup_cell holder (mgr s) = Some c" "cell_Allocation g = cell_Allocation c"
    "IsReserved (allocManager (mgr s)) (cell_Allocation c)"
    "fst (os_stat (cell_Dir g) (host s)) = Inl SysNotExist"
    "fst (os_mkdir_all (cell_Dir g) (snd (os_stat (cell_Dir g) (host s)))) = Inl e"
  shows "case place_cell cc g s of (r, s') \<Rightarrow>
    r = Inl e \<and> lookup_cell holder (mgr s') = Some c
    \<and> \<not> IsReserved (allocManager (mgr s')) (cell_Allocation c)"
proof -
  have r: "place_cell cc g s = (Inl e, s\<lparr>host := snd (os_mkdir_all (cell_Dir g) (snd (os_stat (cell_Dir g) (host s)))),
      mgr := releaseCellAllocations g (mgr s)\<rparr>)"
    using assms(4,5)
    by (auto simp: place_cell_def sv_undo_def sv_defs Let_def os_is_not_exist_def split: prod.split)
  have "\<not> IsReserved (releaseAll (cellAllocations g) (allocManager (mgr s))) (cell_Allocation c)"
    using IsReserved_releaseAll IsReserved_Release_same by (simp add: cellAllocations_def assms(2)) blast
  then show ?thesis
    using assms(1) by (simp add: r releaseCellAllocations_def)
qed

text \<open>The slot of a cell is in use, and the second call of the host fails.\<close>

definition held_slot :: server where
  "held_slot = \<lparr>mgr = one_cell\<lparr>allocManager := ReserveExisting (NewManager []) (cell_Allocation (plain_cell ''a''))\<rparr>,
     host = (calm_world [([''i''], DirNode)])\<lparr>faults := (\<lambda>n. if n = 1 then Some ''no space'' else None)\<rparr>\<rparr>"

theorem failed_Create_frees_held_slots_witness:
  "let cc = sample_codec (plain_cell ''b'') no_lock some_comb; a = cell_Allocation (plain_cell ''a'') in
   IsReserved (allocManager (mgr held_slot)) a
    \<and> \<not> IsReserved (allocManager (mgr (snd (place_cell cc (plain_cell ''b'') held_slot)))) a"
proof -
  let ?a = "cell_Allocation (plain_cell ''a'')" and ?cc = "sample_codec (plain_cell ''b'') no_lock some_comb"
  have held: "lookup_cell ''a'' (mgr held_slot) = Some ((plain_cell ''a'')\<lparr>console := [''l1'', ''l2'']\<rparr>)"
    by (simp add: held_slot_def one_cell_def fresh_manager_def lookup_cell_def)
  have slot: "cell_Allocation (plain_cell ''b'') = cell_Allocation ((plain_cell ''a'')\<lparr>console := [''l1'', ''l2'']\<rparr>)"
    by (simp add: plain_cell_def)
  have "TrimSpace ''1.2.3.4'' = ''1.2.3.4''" by code_simp
  then have reserved: "IsReserved (allocManager (mgr held_slot)) ?a"
    by (simp add: held_slot_def plain_cell_def IsReserved_def ReserveExisting_def mark_used_def Let_def
        validAllocation_def normaliseAllocation_def)
  have host: "cell_Dir (plain_cell ''b'') = ''/i/b''" "host held_slot = (calm_world [([''i''], DirNode)])
      \<lparr>faults := (\<lambda>n. if n = 1 then Some ''no space'' else None)\<rparr>"
    by (simp_all add: plain_cell_def held_slot_def)
  have stat: "fst (os_stat (cell_Dir (plain_cell ''b'')) (host held_slot)) = Inl SysNotExist"
    unfolding host by code_simp
  have mkdir: "fst (os_mkdir_all (cell_Dir (plain_cell ''b''))
      (snd (os_stat (cell_Dir (plain_cell ''b'')) (host held_slot)))) = Inl (SysFault ''no space'')"
    unfolding host by code_simp
  have "cell_Allocation ((plain_cell ''a'')\<lparr>console := [''l1'', ''l2'']\<rparr>) = ?a" by simp
  with reserved failed_Create_frees_held_slots [OF held slot _ stat mkdir, of ?cc]
  show ?thesis by (simp only: Let_def case_prod_beta simp_thms)
qed

section \<open>Changing a definition\<close>

definition definition_changed ::
  "server \<Rightarrow> (string \<Rightarrow> bool) \<Rightarrow> string \<Rightarrow> UpdateCellDefinitionRequest \<Rightarrow> Cell \<Rightarrow> server \<Rightarrow> bool" where
  "definition_changed s running cid rq c' s' \<longleftrightarrow> (\<exists>c. lookup_cell cid (mgr s) = Some c \<and> \<not> running cid
     \<and> mgr s' = put_cell cid c' (replace_reservations (cellAllocations c) (cellAllocations c') (mgr s))
     \<and> (cell_ID c', cell_Dir c', cell_Lock c', console c', subscribers c', cell_Name c', cell_Comb c', cell_CombData c')
       = (cell_ID c, cell_Dir c, cell_Lock c, console c, subscribers c, TrimSpace (update_Name rq),
          TrimSpace (update_Comb rq), update_CombData rq)
     \<and> list_all sound_slot (cellAllocations c') \<and> distinct (map allocationKey (cellAllocations c')))"

definition change_failed :: "server \<Rightarrow> string \<Rightarrow> UpdateCellDefinitionRequest \<Rightarrow> server \<Rightarrow> bool" where
  "change_failed s cid rq s' \<longleftrightarrow> s' = s \<or> (\<exists>c c'. lookup_cell cid (mgr s) = Some c
     \<and> lookup_cell cid (mgr s') = Some c' \<and> cell_Name c' = TrimSpace (update_Name rq)
     \<and> allocManager (mgr s') = ReplaceReservations
         (ReplaceReservations (allocManager (mgr s)) (cellAllocations c) (cellAllocations c'))
         (cellAllocations c') (cellAllocations c))"

lemma replace_definition_outcome:
  assumes "lookup_cell cid (mgr s) = Some c" "\<not> running cid"
    "update_Name request = TrimSpace (update_Name rq)" "update_Comb request = TrimSpace (update_Comb rq)"
    "update_CombData request = update_CombData rq" "sound_slot (update_Allocation request)"
    "list_all sound_slot additional" "distinct (map allocationKey (update_Allocation request # additional))"
  shows "outcome_of (definition_changed s running cid rq) (\<lambda>e. change_failed s cid rq)
    (replace_definition cc cid c (updated_cell request additional c) s)"
proof -
  let ?c' = "updated_cell request additional c"
  let ?m = "put_cell cid ?c' (replace_reservations (cellAllocations c) (cellAllocations ?c') (mgr s))"
  have slots: "cellAllocations ?c' = update_Allocation request # additional"
    by (simp add: cellAllocations_def updated_cell_def)
  obtain r w where save: "save cc ?m ?c' (host s) = (r, w)" by fastforce
  show ?thesis
  proof (cases r)
    case (Inl e)
    then have "replace_definition cc cid c ?c' s =
        (Inl e, s\<lparr>mgr := replace_reservations (cellAllocations ?c') (cellAllocations c) ?m, host := w\<rparr>)"
      using save by (simp add: replace_definition_def sv_undo_def sv_defs Let_def)
    moreover have "change_failed s cid rq
        (s\<lparr>mgr := replace_reservations (cellAllocations ?c') (cellAllocations c) ?m, host := w\<rparr>)"
      unfolding change_failed_def using assms(1,3)
      by (intro disjI2 exI [of _ c] exI [of _ ?c'])
        (simp add: replace_reservations_def, simp add: updated_cell_def)
    ultimately show ?thesis by simp
  next
    case (Inr u)
    then have "replace_definition cc cid c ?c' s = (Inr ?c', s\<lparr>mgr := ?m, host := w\<rparr>)"
      using save by (simp add: replace_definition_def sv_undo_def sv_defs Let_def)
    moreover have "definition_changed s running cid rq ?c' (s\<lparr>mgr := ?m, host := w\<rparr>)"
      unfolding definition_changed_def slots using assms
      by (intro exI [of _ c]) (simp add: updated_cell_def slots)
    ultimately show ?thesis by simp
  qed
qed


section \<open>Deleting\<close>

lemma on_dirs_del:
  "on_dirs f p \<Longrightarrow> q \<noteq> [] \<Longrightarrow> fs_get f q \<noteq> Some DirNode \<Longrightarrow> on_dirs (fs_del q f) p"
  by (auto simp: on_dirs_def)

text \<open>
  C21. Deleting a stopped cell succeeds and leaves nothing of it: its entry, its reservations, its definition and its
  directory with everything in it are gone, and no other cell and no other file has changed. A running cell is
  refused without any change.
\<close>

theorem Delete_correct:
  assumes "lookup_cell cid (mgr s) = Some c" "calm (host s)"
    "cell_Dir c = rooted d" "on_dirs (files (host s)) d" "d \<noteq> []"
    "cellConfigPath (mgr s) cid = rooted q" "on_dirs (files (host s)) q" "fs_get (files (host s)) q = Some (FileNode x)"
    "\<not> prefix d q"
  shows "case Delete running cid s of (r, s') \<Rightarrow>
    if running cid then r = Inl (ErrorString ''cell must be stopped first'') \<and> s' = s
    else r = Inr ()
      \<and> (\<forall>i. lookup_cell i (mgr s') = (if i = cid then None else lookup_cell i (mgr s)))
      \<and> allocManager (mgr s') = releaseAll (cellAllocations c) (allocManager (mgr s))
      \<and> (\<forall>p. fs_get (files (host s')) p = (if p = q \<or> prefix d p then None else fs_get (files (host s)) p))"
proof (cases "running cid")
  case True
  then show ?thesis using assms(1) by (simp add: Delete_def with_cell_def sv_defs)
next
  case False
  let ?f = "files (host s)"
  have q: "q \<noteq> []" using assms(8) by auto
  have remove: "os_remove (rooted q) (host s) =
      (Inr (), (host s)\<lparr>files := fs_del q ?f, ticks := Suc (ticks (host s))\<rparr>)"
    using assms(2,7,8) by (simp add: os_remove_def os_call_calm locate_on_dirs)
  have "on_dirs (fs_del q ?f) d" using on_dirs_del [OF assms(4) q] assms(8) by simp
  then have remove_all: "os_remove_all (rooted d) ((host s)\<lparr>files := fs_del q ?f, ticks := n\<rparr>) =
      (Inr (), (host s)\<lparr>files := fs_cut d (fs_del q ?f), ticks := Suc n\<rparr>)" for n
    using assms(2,5) by (simp add: os_remove_all_def os_call_calm locate_on_dirs)
  have "Delete running cid s = (Inr (), s\<lparr>mgr := (releaseCellAllocations c (mgr s))\<lparr>cells := AList.delete cid (cells (mgr s))\<rparr>,
      host := (host s)\<lparr>files := fs_cut d (fs_del q ?f), ticks := Suc (Suc (ticks (host s)))\<rparr>\<rparr>)"
    using False assms(1,3,6) by (simp add: Delete_def with_cell_def sv_defs remove remove_all)
  then show ?thesis
    using False q assms(5) by (auto simp: lookup_cell_def releaseCellAllocations_def delete_conv')
qed

definition cell_files :: fsys where
  "cell_files = [([''i''], DirNode), ([''i'', ''a''], DirNode), ([''i'', ''a'', ''world''], FileNode ''w''),
     ([''d''], DirNode), ([''d'', ''cells''], DirNode), ([''d'', ''cells'', ''a.json''], FileNode ''{}'')]"

theorem Delete_correct_witness:
  "let s = \<lparr>mgr = one_cell, host = calm_world cell_files\<rparr>; (r, s') = Delete (\<lambda>_. False) ''a'' s
   in r = Inr () \<and> lookup_cell ''a'' (mgr s') = None \<and> fs_get (files (host s')) [''i'', ''a'', ''world''] = None
    \<and> fs_get (files (host s')) [''d'', ''cells''] = Some DirNode"
proof -
  let ?s = "\<lparr>mgr = one_cell, host = calm_world cell_files\<rparr>"
  have l: "lookup_cell ''a'' (mgr ?s) = Some ((plain_cell ''a'')\<lparr>console := [''l1'', ''l2'']\<rparr>)"
    by (simp add: one_cell_def fresh_manager_def lookup_cell_def)
  have d: "cell_Dir ((plain_cell ''a'')\<lparr>console := [''l1'', ''l2'']\<rparr>) = rooted [''i'', ''a'']"
    by (simp add: plain_cell_def rooted_def)
  have q: "cellConfigPath (mgr ?s) ''a'' = rooted [''d'', ''cells'', ''a.json'']"
    by (simp add: cellConfigPath_def cellDataDir_def one_cell_def fresh_manager_def) code_simp
  have f: "files (host ?s) = cell_files" by simp
  have on: "on_dirs (files (host ?s)) [''i'', ''a'']" unfolding f by (rule on_dirs_check; code_simp)
  have on': "on_dirs (files (host ?s)) [''d'', ''cells'', ''a.json'']" unfolding f by (rule on_dirs_check; code_simp)
  have x: "fs_get (files (host ?s)) [''d'', ''cells'', ''a.json''] = Some (FileNode ''{}'')" unfolding f by code_simp
  have x': "fs_get cell_files [''d'', ''cells''] = Some DirNode" by code_simp
  from Delete_correct [OF l _ d on _ q on' x, of "\<lambda>_. False"] x'
  show ?thesis by (simp add: Let_def split: prod.splits)
qed

section \<open>Restarting\<close>

definition fs_read :: "getwd \<Rightarrow> fsys \<Rightarrow> string \<Rightarrow> go_error + string" where
  "fs_read d f p =
     (case fs_info True p d f of
        Inl e \<Rightarrow> Inl e
      | Inr DirNode \<Rightarrow> Inl SysIsDir
      | Inr (FileNode data) \<Rightarrow> Inr data
      | Inr _ \<Rightarrow> Inl (SysFault ''special file''))"

lemma os_read_file_calm: "calm w \<Longrightarrow> os_read_file p w = (fs_read (wd w) (files w) p, w\<lparr>ticks := Suc (ticks w)\<rparr>)"
  by (simp add: os_read_file_def os_call_calm fs_read_def)

text \<open>What \<open>Load\<close> makes of a decoded definition: an empty console, and the lock of the lock file if there is one.\<close>

definition awoken :: "cell_codec \<Rightarrow> getwd \<Rightarrow> fsys \<Rightarrow> Cell \<Rightarrow> Cell" where
  "awoken cc d f c =
     c\<lparr>console := [], subscribers := [], cell_Lock :=
       (case fs_read d f (path_join [cell_Dir c, hivepanelDir, lockFileName]) of
          Inl e \<Rightarrow> cell_Lock c
        | Inr bytes \<Rightarrow> (case lock_dec cc bytes of Inl e \<Rightarrow> cell_Lock c | Inr lock \<Rightarrow> lock))\<rparr>"

definition stored_cells :: "cell_codec \<Rightarrow> getwd \<Rightarrow> fsys \<Rightarrow> string \<Rightarrow> (string \<times> node) list \<Rightarrow> Cell list" where
  "stored_cells cc d f dir entries =
     List.map_filter (\<lambda>(name, node).
       if is_dir node \<or> path_ext name \<noteq> ''.json'' then None
       else case fs_read d f (path_join [dir, name]) of
           Inl e \<Rightarrow> None
         | Inr bytes \<Rightarrow> (case cell_dec cc bytes of Inl e \<Rightarrow> None | Inr c \<Rightarrow> Some (awoken cc d f c))) entries"

definition admit :: "Cell \<Rightarrow> CellManager \<Rightarrow> CellManager" where
  "admit c m = put_cell (cell_ID c) c (reserveCellAllocations c m)"

lemma stored_cells_simps [simp]:
  "stored_cells cc d f dir [] = []"
  "stored_cells cc d f dir ((name, node) # rest) =
     (if is_dir node \<or> path_ext name \<noteq> ''.json'' then stored_cells cc d f dir rest
      else case fs_read d f (path_join [dir, name]) of
          Inl e \<Rightarrow> stored_cells cc d f dir rest
        | Inr bytes \<Rightarrow> (case cell_dec cc bytes of
             Inl e \<Rightarrow> stored_cells cc d f dir rest
           | Inr c \<Rightarrow> awoken cc d f c # stored_cells cc d f dir rest))"
  by (auto simp: stored_cells_def List.map_filter_def split: sum.split)

lemma calm_ticks [simp]: "calm (w\<lparr>ticks := n\<rparr>) = calm w" "calm (w\<lparr>files := f\<rparr>) = calm w"
  by (simp_all add: calm_def)

lemma load_cell_run:
  assumes "calm (host s)"
  shows "load_cell cc c s = (Inr (), s\<lparr>mgr := admit (awoken cc (wd (host s)) (files (host s)) c) (mgr s),
    host := (host s)\<lparr>ticks := Suc (ticks (host s))\<rparr>\<rparr>)"
  using assms
  by (simp add: load_cell_def loadLock_def os_bind_def os_lift_def os_read_file_calm awoken_def admit_def sv_defs Let_def
      split: sum.split)

lemma load_cells_run:
  "calm (host s) \<Longrightarrow> \<exists>n. load_cells cc dir entries s =
     (Inr (), s\<lparr>mgr := fold admit (stored_cells cc (wd (host s)) (files (host s)) dir entries) (mgr s),
       host := (host s)\<lparr>ticks := n\<rparr>\<rparr>)"
proof (induction entries arbitrary: s)
  case Nil
  have "s = s\<lparr>mgr := mgr s, host := (host s)\<lparr>ticks := ticks (host s)\<rparr>\<rparr>" by simp
  then show ?case unfolding load_cells.simps stored_cells_simps sv_return_def by (metis fold_simps(1))
next
  case (Cons entry entries)
  obtain name node where entry: "entry = (name, node)" by fastforce
  let ?w = "host s"
  let ?w' = "?w\<lparr>ticks := Suc (ticks ?w)\<rparr>"
  have calm: "calm ?w'" using Cons.prems by simp
  show ?case
  proof (cases "is_dir node \<or> path_ext name \<noteq> ''.json''")
    case True
    then show ?thesis using Cons.IH [OF Cons.prems] by (simp add: entry)
  next
    case False
    show ?thesis
    proof (cases "fs_read (wd ?w) (files ?w) (path_join [dir, name])")
      case (Inl e)
      then show ?thesis
        using False Cons.prems Cons.IH [of "s\<lparr>host := ?w'\<rparr>"]
        by (simp add: entry sv_attempt_def sv_os_def os_read_file_calm)
    next
      case (Inr bytes)
      show ?thesis
      proof (cases "cell_dec cc bytes")
        case (Inl e)
        then show ?thesis
          using False Inr Cons.prems Cons.IH [of "s\<lparr>host := ?w'\<rparr>"]
          by (simp add: entry sv_attempt_def sv_os_def os_read_file_calm)
      next
        case c: (Inr c)
        let ?s = "s\<lparr>mgr := admit (awoken cc (wd ?w) (files ?w) c) (mgr s), host := ?w'\<lparr>ticks := Suc (ticks ?w')\<rparr>\<rparr>"
        have "load_cells cc dir (entry # entries) s = load_cells cc dir entries ?s"
          using False Inr c Cons.prems load_cell_run [of "s\<lparr>host := ?w'\<rparr>" cc c] calm
          by (simp add: entry sv_attempt_def sv_os_def os_read_file_calm sv_bind_def)
        then show ?thesis using Cons.IH [of ?s] Cons.prems False Inr c by (simp add: entry)
      qed
    qed
  qed
qed

definition dir_here :: "fsys \<Rightarrow> fpath \<Rightarrow> bool" where
  "dir_here f p \<longleftrightarrow> on_dirs f p \<and> fs_get f p = Some DirNode"

lemma mkdirs_present:
  assumes "plains (pfx @ cs)" "\<And>ds. prefix ds (pfx @ cs) \<Longrightarrow> fs_get f ds = Some DirNode"
  shows "mkdirs [] pfx cs f = (Inr (), f)"
  using assms
proof (induction cs arbitrary: pfx)
  case (Cons c cs)
  let ?pre = "pfx @ [c]"
  have d: "fs_get f ds = Some DirNode" if "prefix ds ?pre" for ds
    using that Cons.prems(2) [of ds] by auto
  have "namei max_links f True [] ?pre = Inr ([] @ ?pre)"
    by (rule namei_dirs) (use Cons.prems(1) d in \<open>auto simp: strict_prefix_def\<close>)
  then have "mkdirs [] pfx (c # cs) f = mkdirs [] ?pre cs f" using d [of ?pre] by (simp add: Let_def)
  also have "\<dots> = (Inr (), f)" by (rule Cons.IH) (use Cons.prems in auto)
  finally show ?case .
qed simp

lemma dir_here_prefix: "dir_here f p \<Longrightarrow> prefix ds p \<Longrightarrow> fs_get f ds = Some DirNode"
  by (cases "ds = p") (auto simp: dir_here_def on_dirs_def strict_prefix_def)

lemma os_mkdir_all_present:
  assumes "calm w" "dir_here (files w) p"
  shows "os_mkdir_all (rooted p) w = (Inr (), w\<lparr>ticks := Suc (ticks w)\<rparr>)"
proof -
  have p: "plains p" "CHR 0x00 \<notin> set (rooted p)" using assms(2) by (simp_all add: dir_here_def on_dirs_def)
  then have "mkdirs [] [] p (files w) = (Inr (), files w)"
    using mkdirs_present [of "[]" p "files w"] dir_here_prefix [OF assms(2)] by simp
  then show ?thesis using assms(1) p by (simp add: os_mkdir_all_def os_call_calm)
qed

lemma os_read_dir_here:
  "calm w \<Longrightarrow> dir_here (files w) p \<Longrightarrow> os_read_dir (rooted p) w = (Inr (fs_entries (files w) p), w\<lparr>ticks := Suc (ticks w)\<rparr>)"
  by (simp add: os_read_dir_def os_call_calm dir_here_def locate_on_dirs)

lemma Load_run:
  assumes "calm (host s)" "cellDataDir (mgr s) = rooted D" "instancesDir (mgr s) = rooted I"
    "dir_here (files (host s)) D" "dir_here (files (host s)) I"
  obtains n where "Load cc s = (Inr (), s\<lparr>mgr := fold admit (stored_cells cc (wd (host s)) (files (host s)) (rooted D)
      (fs_entries (files (host s)) D)) (mgr s), host := (host s)\<lparr>ticks := n\<rparr>\<rparr>)"
proof -
  let ?w = "\<lambda>n. (host s)\<lparr>ticks := n\<rparr>"
  have t: "host s = ?w (ticks (host s))" by simp
  have c: "calm (?w n)" for n using assms(1) by simp
  have "Load cc s = load_cells cc (rooted D) (fs_entries (files (host s)) D)
      (s\<lparr>host := ?w (Suc (Suc (Suc (ticks (host s)))))\<rparr>)"
    using assms c by (simp add: Load_def sv_defs os_mkdir_all_present os_read_dir_here)
  then show ?thesis
    using load_cells_run [of "s\<lparr>host := ?w (Suc (Suc (Suc (ticks (host s)))))\<rparr>" cc "rooted D"] c that by auto
qed

lemma lookup_admit: "lookup_cell i (admit c m) = (if i = cell_ID c then Some c else lookup_cell i m)"
  by (simp add: admit_def) (simp add: lookup_cell_def reserveCellAllocations_def)

lemma lookup_admits:
  "lookup_cell i (fold admit cs m) = (case find (\<lambda>c. cell_ID c = i) (rev cs) of Some c \<Rightarrow> Some c | None \<Rightarrow> lookup_cell i m)"
proof (induction cs arbitrary: m)
  case (Cons c cs)
  have f: "find P (xs @ [x]) = (case find P xs of Some y \<Rightarrow> Some y | None \<Rightarrow> if P x then Some x else None)"
    for P and xs :: "Cell list" and x
    by (induction xs) auto
  show ?case by (simp add: Cons.IH f lookup_admit split: option.split)
qed simp

text \<open>
  A restarted worker knows exactly the cells whose definitions it can read: of those with the same id the last in
  name order, each with an empty console and the lock of its lock file, or the lock saved with its definition when
  there is no readable lock file. Loading changes no file.
\<close>

theorem Load_correct:
  assumes "calm (host s)" "cellDataDir (mgr s) = rooted D" "instancesDir (mgr s) = rooted I" "cells (mgr s) = []"
    "dir_here (files (host s)) D" "dir_here (files (host s)) I"
  shows "let f = files (host s); cs = stored_cells cc (wd (host s)) f (rooted D) (fs_entries f D) in
    case Load cc s of (r, s') \<Rightarrow>
      r = Inr () \<and> files (host s') = f \<and> (\<forall>i. lookup_cell i (mgr s') = find (\<lambda>c. cell_ID c = i) (rev cs))"
proof -
  obtain n where "Load cc s = (Inr (), s\<lparr>mgr := fold admit (stored_cells cc (wd (host s)) (files (host s)) (rooted D)
      (fs_entries (files (host s)) D)) (mgr s), host := (host s)\<lparr>ticks := n\<rparr>\<rparr>)"
    using Load_run [OF assms(1-3,5,6)] .
  moreover have "lookup_cell i (mgr s) = None" for i using assms(4) by (simp add: lookup_cell_def)
  ultimately show ?thesis by (simp add: Let_def lookup_admits split: option.split)
qed

lemma path_ext_json: "path_ext (x @ ''.json'') = ''.json''"
  by (simp add: path_ext_def Let_def)

lemma awoken_forgets [simp]: "awoken cc d f (c\<lparr>console := x, subscribers := y\<rparr>) = awoken cc d f c"
  by (simp add: awoken_def split: sum.split)

lemma awoken_ID [simp]: "cell_ID (awoken cc d f c) = cell_ID c"
  by (simp add: awoken_def)

lemma set_map_filter: "y \<in> set (List.map_filter g xs) \<longleftrightarrow> (\<exists>x \<in> set xs. g x = Some y)"
  unfolding List.map_filter_def by force

lemma set_stored_cells:
  "c \<in> set (stored_cells cc d f dir entries) \<longleftrightarrow>
     (\<exists>name node bytes c0. (name, node) \<in> set entries \<and> \<not> is_dir node \<and> path_ext name = ''.json''
       \<and> fs_read d f (path_join [dir, name]) = Inr bytes \<and> cell_dec cc bytes = Inr c0 \<and> c = awoken cc d f c0)"
proof -
  let ?g = "\<lambda>(name, node). if is_dir node \<or> path_ext name \<noteq> ''.json'' then None
       else case fs_read d f (path_join [dir, name]) of
           Inl e \<Rightarrow> None
         | Inr bytes \<Rightarrow> (case cell_dec cc bytes of Inl e \<Rightarrow> None | Inr c \<Rightarrow> Some (awoken cc d f c))"
  have "?g (name, node) = Some c \<longleftrightarrow> \<not> is_dir node \<and> path_ext name = ''.json'' \<and> (\<exists>bytes c0.
      fs_read d f (path_join [dir, name]) = Inr bytes \<and> cell_dec cc bytes = Inr c0 \<and> c = awoken cc d f c0)"
    for name node
    by (cases "fs_read d f (path_join [dir, name])";
        cases "cell_dec cc (projr (fs_read d f (path_join [dir, name])))") auto
  then show ?thesis unfolding stored_cells_def set_map_filter by (simp add: Bex_def split_paired_Ex)
qed

lemma find_unique:
  assumes "x \<in> set xs" "P x" "\<forall>y \<in> set xs. P y \<longrightarrow> y = x"
  shows "find P xs = Some x"
proof (cases "find P xs")
  case None
  then show ?thesis using assms(1,2) by (metis find_None_iff)
next
  case (Some y)
  then have "P y" "y \<in> set xs" by (auto simp: find_Some_iff)
  with Some assms(3) show ?thesis by auto
qed

text \<open>\<open>claimed\<close>: the file \<open>name\<close> defines the cell, and no other file of the directory claims its id.\<close>

definition claimed :: "cell_codec \<Rightarrow> getwd \<Rightarrow> fsys \<Rightarrow> fpath \<Rightarrow> string \<Rightarrow> string \<Rightarrow> Cell \<Rightarrow> bool" where
  "claimed cc d f D name bytes c \<longleftrightarrow>
     plain name \<and> CHR 0x00 \<notin> set name \<and> path_ext name = ''.json'' \<and> fs_get f (D @ [name]) = Some (FileNode bytes)
     \<and> cell_dec cc bytes = Inr c
     \<and> list_all (\<lambda>(name', _). name' = name \<or>
         (case fs_read d f (path_join [rooted D, name']) of
            Inl e \<Rightarrow> True
          | Inr bytes' \<Rightarrow> (case cell_dec cc bytes' of Inl e \<Rightarrow> True | Inr c' \<Rightarrow> cell_ID c' \<noteq> cell_ID c))) (fs_entries f D)"

lemma on_dirs_entry:
  assumes "dir_here f D" "plain name" "CHR 0x00 \<notin> set name"
  shows "on_dirs f (D @ [name])"
proof -
  have "fs_get f ds = Some DirNode" if "strict_prefix ds (D @ [name])" for ds
    using that dir_here_prefix [OF assms(1)] by (auto simp: strict_prefix_def)
  then show ?thesis using assms by (simp add: dir_here_def on_dirs_def nul_rooted ball_Un)
qed

lemma Load_finds:
  assumes "calm (host s)" "cellDataDir (mgr s) = rooted D" "instancesDir (mgr s) = rooted I"
    "dir_here (files (host s)) D" "dir_here (files (host s)) I"
    "claimed cc (wd (host s)) (files (host s)) D name bytes c"
  obtains s' where "Load cc s = (Inr (), s')" "files (host s') = files (host s)"
    "lookup_cell (cell_ID c) (mgr s') = Some (awoken cc (wd (host s)) (files (host s)) c)"
proof -
  let ?f = "files (host s)" and ?d = "wd (host s)"
  let ?cs = "stored_cells cc ?d ?f (rooted D) (fs_entries ?f D)"
  have name: "plain name" "CHR 0x00 \<notin> set name" "path_ext name = ''.json''" "fs_get ?f (D @ [name]) = Some (FileNode bytes)"
    "cell_dec cc bytes = Inr c" using assms(6) unfolding claimed_def by blast+
  have path: "path_join [rooted D, name] = rooted (D @ [name])"
    using assms(4) name(1) by (simp add: path_join_rooted descend_plain dir_here_def on_dirs_def)
  have own: "fs_read ?d ?f (path_join [rooted D, name]) = Inr bytes"
    using on_dirs_entry [OF assms(4) name(1,2)] name(4) by (simp add: path fs_read_def fs_info_on_dirs)
  have "(name, FileNode bytes) \<in> set (fs_entries ?f D)"
    using name(1,4) by (auto simp: fs_entries_def fs_children_iff intro!: bexI [of _ name])
  then have stored: "awoken cc ?d ?f c \<in> set ?cs"
    unfolding set_stored_cells using own name(3,5)
    by (intro exI [of _ name] exI [of _ "FileNode bytes"] exI [of _ bytes] exI [of _ c]) (simp add: is_dir_def)
  have only: "y = awoken cc ?d ?f c" if mem: "y \<in> set ?cs" and same: "cell_ID y = cell_ID c" for y
  proof -
    obtain name' node b c0 where y: "(name', node) \<in> set (fs_entries ?f D)" "fs_read ?d ?f (path_join [rooted D, name']) = Inr b" "cell_dec cc b = Inr c0"
      "y = awoken cc ?d ?f c0" using mem by (auto simp: set_stored_cells)
    then have "name' = name" using assms(6) same by (auto simp: claimed_def list_all_iff)
    then show ?thesis using y own name(5) by simp
  qed
  have found: "find (\<lambda>y. cell_ID y = cell_ID c) (rev ?cs) = Some (awoken cc ?d ?f c)"
  proof (rule find_unique)
    show "awoken cc ?d ?f c \<in> set (rev ?cs)" unfolding set_rev by (rule stored)
    show "\<forall>y \<in> set (rev ?cs). cell_ID y = cell_ID c \<longrightarrow> y = awoken cc ?d ?f c"
      unfolding set_rev using only by blast
  qed simp
  obtain n where "Load cc s = (Inr (), s\<lparr>mgr := fold admit ?cs (mgr s), host := (host s)\<lparr>ticks := n\<rparr>\<rparr>)"
    using Load_run [OF assms(1-5)] .
  then show ?thesis using found that by (simp add: lookup_admits)
qed

text \<open>
  C18. A cell that was saved is there after a restart, with everything its definition holds, whatever else is in the
  directory, provided no other file there claims its id. The codec is only asked to give back this one cell.
\<close>

theorem save_Load_roundtrip:
  assumes "calm (host s)" "cellDataDir (mgr s) = rooted D" "instancesDir (mgr s) = rooted I"
    "dir_here (files (host s)) D" "dir_here (files (host s)) I"
    "fs_get (files (host s)) (D @ [cell_ID c @ ''.json'']) = None" "cell_enc cc c = Inr bytes"
    "claimed cc (wd (host s)) (fs_put (D @ [cell_ID c @ ''.json'']) (FileNode bytes) (files (host s))) D
       (cell_ID c @ ''.json'') bytes (c\<lparr>console := [], subscribers := []\<rparr>)"
  shows "case save cc (mgr s) c (host s) of (r1, w) \<Rightarrow>
    (case Load cc \<lparr>mgr = (mgr s)\<lparr>cells := []\<rparr>, host = w\<rparr> of (r2, s') \<Rightarrow>
       r1 = Inr () \<and> r2 = Inr () \<and> lookup_cell (cell_ID c) (mgr s') = Some (awoken cc (wd w) (files w) c))"
proof -
  let ?n = "cell_ID c @ ''.json''" and ?w = "host s"
  let ?q = "D @ [?n]"
  let ?f = "fs_put ?q (FileNode bytes) (files ?w)"
  have n: "plain ?n" "CHR 0x00 \<notin> set ?n" using assms(8) unfolding claimed_def by blast+
  have path: "path_join [rooted D, ?n] = rooted ?q"
    using assms(4) n(1) by (simp add: path_join_rooted descend_plain dir_here_def on_dirs_def)
  obtain t where saved: "save cc (mgr s) c ?w = (Inr (), ?w\<lparr>files := ?f, ticks := t\<rparr>)"
    using assms(1,2,4,6,7) on_dirs_entry [OF assms(4) n] path
    by (auto simp: save_def os_bind_def os_lift_def os_mkdir_all_present cellConfigPath_def os_write_file_def
        os_call_calm locate_on_dirs)
  let ?s = "\<lparr>mgr = (mgr s)\<lparr>cells := []\<rparr>, host = ?w\<lparr>files := ?f, ticks := t\<rparr>\<rparr>"
  have here: "dir_here ?f p" if "dir_here (files ?w) p" for p
    using that assms(6) by (auto simp: dir_here_def on_dirs_def)
  have start: "calm (host ?s)" "cellDataDir (mgr ?s) = rooted D" "instancesDir (mgr ?s) = rooted I"
    "dir_here (files (host ?s)) D" "dir_here (files (host ?s)) I"
    "claimed cc (wd (host ?s)) (files (host ?s)) D ?n bytes (c\<lparr>console := [], subscribers := []\<rparr>)"
    using assms here by (auto simp: cellDataDir_def)
  obtain s' where "Load cc ?s = (Inr (), s')"
    "lookup_cell (cell_ID c) (mgr s') = Some (awoken cc (wd (host ?s)) (files (host ?s)) c)"
    using Load_finds [OF start] by auto
  then show ?thesis using saved by simp
qed

lemma UnlockCell_run:
  assumes "calm (host s)" "lookup_cell cid (mgr s) = Some c"
    "path_join [cell_Dir c, hivepanelDir, lockFileName] = rooted q" "on_dirs (files (host s)) q" "q \<noteq> []"
    "case fs_get (files (host s)) q of None \<Rightarrow> True | Some (FileNode _) \<Rightarrow> True | _ \<Rightarrow> False"
  obtains t f where "UnlockCell cid s = (Inr (), \<lparr>mgr = put_cell cid (c\<lparr>cell_Lock := no_lock\<rparr>) (mgr s),
      host = (host s)\<lparr>files := f, ticks := t\<rparr>\<rparr>)"
    "\<And>p. fs_get f p = (if p = q then None else fs_get (files (host s)) p)"
proof (cases "fs_get (files (host s)) q")
  case None
  show ?thesis
    by (rule that [of "Suc (ticks (host s))" "files (host s)"])
      (use assms None in \<open>auto simp: UnlockCell_def with_cell_def sv_defs deleteLock_def os_attempt_def os_remove_def
        os_call_calm locate_on_dirs os_is_not_exist_def os_return_def\<close>)
next
  case (Some n)
  then obtain x where n: "n = FileNode x" using assms(6) by (cases n) auto
  show ?thesis
    by (rule that [of "Suc (ticks (host s))" "fs_del q (files (host s))"])
      (use assms Some n in \<open>auto simp: UnlockCell_def with_cell_def sv_defs deleteLock_def os_attempt_def os_remove_def
        os_call_calm locate_on_dirs os_return_def\<close>)
qed

text \<open>
  A lock can come back after it was lifted: when a definition was saved while its cell was locked (a changed
  definition carries the lock, and changing it is possible under a lock), unlocking succeeds and frees the cell, but
  after a restart the cell is locked again, because only the lock file was removed.
\<close>

theorem unlock_undone_by_restart:
  assumes "calm (host s)" "lookup_cell cid (mgr s) = Some c"
    "path_join [cell_Dir c, hivepanelDir, lockFileName] = rooted q" "on_dirs (files (host s)) q" "q \<noteq> []"
    "case fs_get (files (host s)) q of None \<Rightarrow> True | Some (FileNode _) \<Rightarrow> True | _ \<Rightarrow> False"
    "cellDataDir (mgr s) = rooted D" "instancesDir (mgr s) = rooted I"
    "dir_here (files (host s)) D" "dir_here (files (host s)) I"
    "let w = host (snd (UnlockCell cid s)) in claimed cc (wd w) (files w) D name bytes c0"
    "cell_ID c0 = cid" "cell_Dir c0 = cell_Dir c" "Locked (cell_Lock c0)"
  shows "case UnlockCell cid s of (r, s') \<Rightarrow> r = Inr () \<and> \<not> IsLocked (mgr s') cid
    \<and> IsLocked (mgr (snd (Load cc \<lparr>mgr = (mgr s')\<lparr>cells := []\<rparr>, host = host s'\<rparr>))) cid"
proof -
  obtain t f where unlock: "UnlockCell cid s = (Inr (), \<lparr>mgr = put_cell cid (c\<lparr>cell_Lock := no_lock\<rparr>) (mgr s),
      host = (host s)\<lparr>files := f, ticks := t\<rparr>\<rparr>)"
    and f: "fs_get f p = (if p = q then None else fs_get (files (host s)) p)" for p
    using UnlockCell_run [OF assms(1-6)] by metis
  let ?s = "\<lparr>mgr = (put_cell cid (c\<lparr>cell_Lock := no_lock\<rparr>) (mgr s))\<lparr>cells := []\<rparr>,
      host = (host s)\<lparr>files := f, ticks := t\<rparr>\<rparr>"
  have ne: "fs_get (files (host s)) q \<noteq> Some DirNode" using assms(6) by auto
  have here: "dir_here f p" if "dir_here (files (host s)) p" for p
    using that ne f by (auto simp: dir_here_def on_dirs_def)
  have start: "calm (host ?s)" "cellDataDir (mgr ?s) = rooted D" "instancesDir (mgr ?s) = rooted I"
    "dir_here (files (host ?s)) D" "dir_here (files (host ?s)) I"
    "claimed cc (wd (host ?s)) (files (host ?s)) D name bytes c0"
    using assms(1,7-11) here unlock by (auto simp: cellDataDir_def Let_def)
  have on: "on_dirs f q" using assms(4) ne f by (auto simp: on_dirs_def)
  then have "fs_read d f (rooted q) = Inl SysNotExist" for d
    using f [of q] by (simp add: fs_read_def fs_info_on_dirs)
  then have "cell_Lock (awoken cc (wd (host ?s)) (files (host ?s)) c0) = cell_Lock c0"
    using assms(3,13) by (simp add: awoken_def)
  moreover obtain s' where "Load cc ?s = (Inr (), s')"
    "lookup_cell (cell_ID c0) (mgr s') = Some (awoken cc (wd (host ?s)) (files (host ?s)) c0)"
    using Load_finds [OF start] by auto
  ultimately show ?thesis
    using unlock assms(12,14) by (simp add: IsLocked_def no_lock_def)
qed

section \<open>A small installation\<close>

definition locked_files :: fsys where
  "locked_files = cell_files @ [([''i'', ''a'', ''.hivepanel''], DirNode),
     ([''i'', ''a'', ''.hivepanel'', ''lock.json''], FileNode ''L'')]"

definition locked_cell :: Cell where
  "locked_cell = (plain_cell ''a'')\<lparr>cell_Lock := DefaultLock ''maintenance'' [] []\<rparr>"

definition small_codec :: cell_codec where
  "small_codec = sample_codec locked_cell no_lock some_comb"

definition small_server :: "fsys \<Rightarrow> server" where
  "small_server f = \<lparr>mgr = fresh_manager\<lparr>cells := [(''a'', locked_cell)]\<rparr>, host = calm_world f\<rparr>"

lemma dir_here_check: "list_all (\<lambda>q. fs_get f q = Some DirNode) (prefixes p) \<Longrightarrow> plains p \<Longrightarrow> CHR 0x00 \<notin> set (rooted p) \<Longrightarrow> dir_here f p"
  by (auto simp: dir_here_def on_dirs_def list_all_iff strict_prefix_def)

lemma small_paths:
  "cellDataDir (mgr (small_server f)) = rooted [''d'', ''cells'']" "instancesDir (mgr (small_server f)) = rooted [''i'']"
  "path_join [cell_Dir locked_cell, hivepanelDir, lockFileName] = rooted [''i'', ''a'', ''.hivepanel'', ''lock.json'']"
  by (simp_all add: cellDataDir_def small_server_def fresh_manager_def locked_cell_def plain_cell_def hivepanelDir_def
      lockFileName_def) code_simp+

lemma small_dirs:
  "dir_here cell_files [''d'', ''cells'']" "dir_here cell_files [''i'']"
  "dir_here locked_files [''d'', ''cells'']" "dir_here locked_files [''i'']"
  by (rule dir_here_check; code_simp)+

theorem Load_correct_witness:
  "fst (Load small_codec ((small_server cell_files)\<lparr>mgr := fresh_manager\<rparr>)) = Inr ()"
proof -
  let ?s = "(small_server cell_files)\<lparr>mgr := fresh_manager\<rparr>"
  have "calm (host ?s)" "cellDataDir (mgr ?s) = rooted [''d'', ''cells'']" "instancesDir (mgr ?s) = rooted [''i'']"
    "cells (mgr ?s) = []" "dir_here (files (host ?s)) [''d'', ''cells'']" "dir_here (files (host ?s)) [''i'']"
    using small_paths(1,2) [of cell_files] small_dirs
    by (simp_all add: small_server_def cellDataDir_def fresh_manager_def)
  from Load_correct [OF this, where cc = small_codec] show ?thesis by (simp add: Let_def split: prod.splits)
qed

theorem unlock_undone_by_restart_witness:
  "case UnlockCell ''a'' (small_server locked_files) of (r, s') \<Rightarrow> r = Inr () \<and> \<not> IsLocked (mgr s') ''a''
    \<and> IsLocked (mgr (snd (Load small_codec \<lparr>mgr = (mgr s')\<lparr>cells := []\<rparr>, host = host s'\<rparr>))) ''a''"
proof (rule unlock_undone_by_restart)
  let ?s = "small_server locked_files"
  have f: "files (host ?s) = locked_files" by (simp add: small_server_def)
  show "calm (host ?s)" by (simp add: small_server_def)
  show "lookup_cell ''a'' (mgr ?s) = Some locked_cell" by (simp add: small_server_def lookup_cell_def)
  show "path_join [cell_Dir locked_cell, hivepanelDir, lockFileName] = rooted [''i'', ''a'', ''.hivepanel'', ''lock.json'']"
    by (rule small_paths)
  show "on_dirs (files (host ?s)) [''i'', ''a'', ''.hivepanel'', ''lock.json'']"
    unfolding f by (rule on_dirs_check; code_simp)
  show "case fs_get (files (host ?s)) [''i'', ''a'', ''.hivepanel'', ''lock.json''] of
      None \<Rightarrow> True | Some (FileNode _) \<Rightarrow> True | _ \<Rightarrow> False" unfolding f by code_simp
  show "cellDataDir (mgr ?s) = rooted [''d'', ''cells'']" "instancesDir (mgr ?s) = rooted [''i'']"
    by (rule small_paths)+
  show "dir_here (files (host ?s)) [''d'', ''cells'']" "dir_here (files (host ?s)) [''i'']"
    unfolding f by (rule small_dirs)+
  show "let w = host (snd (UnlockCell ''a'' ?s)) in
      claimed small_codec (wd w) (files w) [''d'', ''cells''] ''a.json'' ''{}'' locked_cell"
    by code_simp
qed (simp_all add: locked_cell_def plain_cell_def DefaultLock_def Let_def)

definition no_definitions :: fsys where
  "no_definitions = [([''i''], DirNode), ([''d''], DirNode), ([''d'', ''cells''], DirNode)]"

theorem save_Load_roundtrip_witness:
  "case save small_codec (mgr (small_server no_definitions)) locked_cell (host (small_server no_definitions)) of (r1, w) \<Rightarrow>
    (case Load small_codec \<lparr>mgr = (mgr (small_server no_definitions))\<lparr>cells := []\<rparr>, host = w\<rparr> of (r2, s') \<Rightarrow>
       r1 = Inr () \<and> r2 = Inr ()
       \<and> lookup_cell (cell_ID locked_cell) (mgr s') = Some (awoken small_codec (wd w) (files w) locked_cell))"
proof (rule save_Load_roundtrip)
  let ?s = "small_server no_definitions"
  have f: "files (host ?s) = no_definitions" "wd (host ?s) = Inr ''/''" by (simp_all add: small_server_def)
  have c: "cell_ID locked_cell = ''a''" by (simp add: locked_cell_def plain_cell_def)
  show "calm (host ?s)" by (simp add: small_server_def)
  show "cellDataDir (mgr ?s) = rooted [''d'', ''cells'']" "instancesDir (mgr ?s) = rooted [''i'']"
    by (rule small_paths)+
  show "dir_here (files (host ?s)) [''d'', ''cells'']" "dir_here (files (host ?s)) [''i'']"
    unfolding f by (rule dir_here_check; code_simp)+
  show "fs_get (files (host ?s)) ([''d'', ''cells''] @ [cell_ID locked_cell @ ''.json'']) = None"
    unfolding f c by code_simp
  show "cell_enc small_codec locked_cell = Inr ''{}''" by (simp add: small_codec_def sample_codec_def)
  have same: "locked_cell\<lparr>console := [], subscribers := []\<rparr> = locked_cell" by (simp add: locked_cell_def plain_cell_def)
  show "claimed small_codec (wd (host ?s))
      (fs_put ([''d'', ''cells''] @ [cell_ID locked_cell @ ''.json'']) (FileNode ''{}'') (files (host ?s)))
      [''d'', ''cells''] (cell_ID locked_cell @ ''.json'') ''{}'' (locked_cell\<lparr>console := [], subscribers := []\<rparr>)"
    unfolding f c same by code_simp
qed

end
