(* ===== verification/Template.thy ===== *)
theory Template
  imports GoPrelude "HOL-Library.Multiset"
begin

text \<open>
  Templates: \<open>renderTemplate\<close> of \<open>internal/cell/template.go\<close>, which replaces \<open>{{key}}\<close> by the value of the key,
  one key after the other in the order in which Go happens to iterate over the map. The map is a list of pairs in
  that order. The specification is simultaneous substitution on a template that was read into tokens.
\<close>

definition placeholder :: "string \<Rightarrow> string" where
  "placeholder key = ''{{'' @ key @ ''}}''"

fun renderTemplate :: "string \<Rightarrow> (string \<times> string) list \<Rightarrow> string" where
  "renderTemplate output [] = output"
| "renderTemplate output ((key, value) # rest) = renderTemplate (ReplaceAll output (placeholder key) value) rest"

section \<open>Tokens\<close>

datatype token = Lit string | Var string

fun show_token :: "token \<Rightarrow> string" where
  "show_token (Lit s) = s"
| "show_token (Var k) = placeholder k"

definition show_tokens :: "token list \<Rightarrow> string" where
  "show_tokens ts = concat (map show_token ts)"

definition braceless :: "string \<Rightarrow> bool" where
  "braceless s \<longleftrightarrow> CHR ''{'' \<notin> set s \<and> CHR ''}'' \<notin> set s"

fun token_ok :: "token \<Rightarrow> bool" where
  "token_ok (Lit s) = braceless s"
| "token_ok (Var k) = braceless k"

fun fill :: "(string \<Rightarrow> string option) \<Rightarrow> token \<Rightarrow> token" where
  "fill vars (Lit s) = Lit s"
| "fill vars (Var k) = (case vars k of None \<Rightarrow> Var k | Some v \<Rightarrow> Lit v)"

lemma ReplaceAll_braceless_append:
  "CHR ''{'' \<notin> set s \<Longrightarrow> ReplaceAll (s @ r) (placeholder k) v = s @ ReplaceAll r (placeholder k) v"
  by (induction s) (auto simp: placeholder_def)

lemma ReplaceAll_hit:
  "ReplaceAll (placeholder k @ r) (placeholder k) v = v @ ReplaceAll r (placeholder k) v"
  by (simp add: placeholder_def)

lemma not_prefix_placeholder:
  assumes "braceless k" "braceless j" "j \<noteq> k"
  shows "\<not> prefix (placeholder k) (placeholder j @ r)"
proof
  assume "prefix (placeholder k) (placeholder j @ r)"
  then obtain r' where e: "k @ CHR ''}'' # CHR ''}'' # r' = j @ CHR ''}'' # CHR ''}'' # r"
    by (auto simp: placeholder_def prefix_def)
  have "takeWhile (\<lambda>c. c \<noteq> CHR ''}'') (k @ CHR ''}'' # CHR ''}'' # r') = k"
    "takeWhile (\<lambda>c. c \<noteq> CHR ''}'') (j @ CHR ''}'' # CHR ''}'' # r) = j"
    using assms(1,2) by (auto simp: braceless_def takeWhile_append2 takeWhile_append intro!: takeWhile_eq_all_conv [THEN iffD2])
  with e assms(3) show False by simp
qed

lemma ReplaceAll_miss:
  assumes "braceless k" "braceless j" "j \<noteq> k"
  shows "ReplaceAll (placeholder j @ r) (placeholder k) v = placeholder j @ ReplaceAll r (placeholder k) v"
proof -
  let ?p = "placeholder k"
  have 1: "\<not> prefix ?p (placeholder j @ r)" by (rule not_prefix_placeholder [OF assms])
  have 2: "\<not> prefix ?p (CHR ''{'' # j @ ''}}'' @ r)"
  proof
    assume "prefix ?p (CHR ''{'' # j @ ''}}'' @ r)"
    then have "prefix (CHR ''{'' # k) (j @ CHR ''}'' # CHR ''}'' # r)" by (auto simp: placeholder_def prefix_def)
    then show False using assms(2) by (cases j) (auto simp: braceless_def)
  qed
  have 3: "ReplaceAll (j @ ''}}'' @ r) ?p v = j @ ''}}'' @ ReplaceAll r ?p v"
    using assms(2) ReplaceAll_braceless_append [of "j @ ''}}''" r k v] by (simp add: braceless_def)
  have "ReplaceAll (placeholder j @ r) ?p v = CHR ''{'' # ReplaceAll (CHR ''{'' # j @ ''}}'' @ r) ?p v"
    using 1 by (simp add: placeholder_def)
  also have "ReplaceAll (CHR ''{'' # j @ ''}}'' @ r) ?p v = CHR ''{'' # ReplaceAll (j @ ''}}'' @ r) ?p v"
    using 2 by simp
  finally show ?thesis using 3 by (simp add: placeholder_def)
qed

lemma ReplaceAll_tokens:
  "braceless k \<Longrightarrow> list_all token_ok ts \<Longrightarrow>
     ReplaceAll (show_tokens ts) (placeholder k) v = show_tokens (map (fill [k \<mapsto> v]) ts)"
proof (induction ts)
  case (Cons t ts)
  then show ?case
    by (cases t)
      (auto simp: show_tokens_def ReplaceAll_braceless_append ReplaceAll_hit ReplaceAll_miss braceless_def)
qed (simp add: show_tokens_def)

lemma renderTemplate_fills:
  assumes "list_all token_ok ts" "list_all (\<lambda>(k, v). braceless k \<and> braceless v) vars" "mset order = mset vars"
    "distinct (map fst vars)"
  shows "renderTemplate (show_tokens ts) order = show_tokens (map (fill (map_of vars)) ts)"
proof -
  have run: "renderTemplate (show_tokens ts) o1 = show_tokens (map (fill (map_of o1)) ts)"
    if "list_all token_ok ts" "list_all (\<lambda>(k, v). braceless k \<and> braceless v) o1" for o1 ts
    using that
  proof (induction o1 arbitrary: ts)
    case Nil
    have "fill Map.empty t = t" for t by (cases t) auto
    then have "fill Map.empty = id" by (simp add: fun_eq_iff)
    then show ?case by simp
  next
    case (Cons kv o1)
    obtain k v where kv: "kv = (k, v)" by fastforce
    have ok: "list_all token_ok (map (fill [k \<mapsto> v]) ts)"
    proof -
      have "token_ok (fill [k \<mapsto> v] t)" if "token_ok t" for t
        using that Cons.prems(2) kv by (cases t) auto
      then show ?thesis using Cons.prems(1) by (auto simp: list_all_iff)
    qed
    have comp: "fill (map_of o1) (fill [k \<mapsto> v] t) = fill (map_of (kv # o1)) t" for t
      by (cases t) (auto simp: kv)
    have "renderTemplate (show_tokens ts) (kv # o1) = renderTemplate (show_tokens (map (fill [k \<mapsto> v]) ts)) o1"
      using Cons.prems by (simp add: kv ReplaceAll_tokens)
    also have "\<dots> = show_tokens (map (fill (map_of o1)) (map (fill [k \<mapsto> v]) ts))"
      by (rule Cons.IH [OF ok]) (use Cons.prems(2) in simp)
    finally show ?case unfolding list.map_comp o_def comp .
  qed
  have "set order = set vars" using assms(3) by (metis set_mset_mset)
  moreover have "mset (map fst order) = mset (map fst vars)" using assms(3) by simp
  then have "distinct (map fst order)" using assms(4) mset_eq_imp_distinct_iff by blast
  ultimately have "map_of order = map_of vars" using assms(4) map_of_inject_set by blast
  moreover have "list_all (\<lambda>(k, v). braceless k \<and> braceless v) order"
    using assms(2) \<open>set order = set vars\<close> by (simp add: list_all_iff)
  ultimately show ?thesis using run assms(1) by simp
qed

text \<open>
  On a template of plain text and placeholders, with values and keys without braces, rendering is simultaneous
  substitution: every known placeholder becomes its value, an unknown one stays, and the order in which the keys are
  visited does not matter.
\<close>

theorem renderTemplate_simultaneous:
  assumes "list_all token_ok ts" "list_all (\<lambda>(k, v). braceless k \<and> braceless v) vars" "mset order = mset vars"
    "distinct (map fst vars)"
  shows "renderTemplate (show_tokens ts) order = show_tokens (map (fill (map_of vars)) ts)"
  using assms by (rule renderTemplate_fills)

theorem renderTemplate_simultaneous_witness:
  "renderTemplate ''run --port {{port}} {{x}}'' [(''ip'', ''1.2.3.4''), (''port'', ''25565'')] = ''run --port 25565 {{x}}''"
proof -
  have "show_tokens [Lit ''run --port '', Var ''port'', Lit '' '', Var ''x''] = ''run --port {{port}} {{x}}''"
    by (simp add: show_tokens_def placeholder_def)
  then show ?thesis
    using renderTemplate_simultaneous [of "[Lit ''run --port '', Var ''port'', Lit '' '', Var ''x'']"
        "[(''port'', ''25565''), (''ip'', ''1.2.3.4'')]" "[(''ip'', ''1.2.3.4''), (''port'', ''25565'')]"]
    by (simp add: braceless_def show_tokens_def placeholder_def)
qed

text \<open>
  When a value itself holds a placeholder the result depends on the order in which Go visits the map, which is
  not determined: the same template with the same variables renders to two different commands.
\<close>

theorem renderTemplate_order_dependent:
  "renderTemplate ''{{a}}'' [(''a'', ''{{b}}''), (''b'', ''x'')] = ''x''
    \<and> renderTemplate ''{{a}}'' [(''b'', ''x''), (''a'', ''{{b}}'')] = ''{{b}}''"
  by code_simp

end
