(* ===== verification/Installer.thy ===== *)
theory Installer
  imports CellProps Files Template
begin

text \<open>
  Running the install steps of a comb: \<open>internal/install/installer.go\<close>. A step logs lines to the console of the
  cell and changes its directory; what it saves can be used by later steps. HTTP, the shell and the JSON decoder are
  fields of \<open>install_env\<close>, and so are the orders in which Go iterates over its maps.
\<close>

record http_response = Response +
  StatusLine :: string

record install_env =
  http_get :: "string \<Rightarrow> go_error + http_response"
  shell :: "string \<Rightarrow> string \<Rightarrow> world \<Rightarrow> (string \<times> go_error option) \<times> world"
  json_any :: "string \<Rightarrow> go_error + json"
  fmt_number :: "string \<Rightarrow> string"
  iter_vars :: "(string \<times> string) list \<Rightarrow> (string \<times> string) list"
  iter_saved :: "(string \<times> json) list \<Rightarrow> (string \<times> json) list"

record Context =
  InstanceDir :: string
  Variables :: "(string \<times> string) list"
  Saved :: "(string \<times> json) list"
  Log :: "string \<Rightarrow> unit srv"

section \<open>Values\<close>

text \<open>\<open>fmt.Sprint\<close> on a decoded JSON value: maps are printed with their keys in order.\<close>

fun sprint :: "(string \<Rightarrow> string) \<Rightarrow> json \<Rightarrow> string" where
  "sprint num JNull = ''<nil>''"
| "sprint num (JBool b) = (if b then ''true'' else ''false'')"
| "sprint num (JNumber n) = num n"
| "sprint num (JString s) = s"
| "sprint num (JArray js) = ''['' @ JoinWith (CHR '' '') (map (sprint num) js) @ '']''"
| "sprint num (JObject kvs) =
     ''map['' @ JoinWith (CHR '' '') (map (\<lambda>(k, v). k @ '':'' @ v) (sort_key fst (map (\<lambda>(k, v). (k, sprint num v)) kvs)))
       @ '']''"

definition getString :: "install_env \<Rightarrow> (string \<times> json) list \<Rightarrow> string \<Rightarrow> string" where
  "getString env vals key =
     (case map_of vals key of None \<Rightarrow> [] | Some JNull \<Rightarrow> [] | Some v \<Rightarrow> sprint (fmt_number env) v)"

fun flatten :: "(string \<Rightarrow> string) \<Rightarrow> string \<Rightarrow> json \<Rightarrow> (string \<times> string) list"
  and flatten_items :: "(string \<Rightarrow> string) \<Rightarrow> string \<Rightarrow> nat \<Rightarrow> json list \<Rightarrow> (string \<times> string) list"
  and flatten_fields :: "(string \<Rightarrow> string) \<Rightarrow> string \<Rightarrow> (string \<times> json) list \<Rightarrow> (string \<times> string) list" where
  "flatten num p (JObject kvs) = flatten_fields num p kvs"
| "flatten num p (JArray js) = flatten_items num p 0 js"
| "flatten num p v = [(p, sprint num v)]"
| "flatten_items num p i [] = []"
| "flatten_items num p i (j # js) = flatten num (p @ ''.'' @ Itoa (int i)) j @ flatten_items num p (Suc i) js"
| "flatten_fields num p [] = []"
| "flatten_fields num p ((k, v) # kvs) = flatten num (p @ ''.'' @ k) v @ flatten_fields num p kvs"

definition render :: "install_env \<Rightarrow> Context \<Rightarrow> string \<Rightarrow> string" where
  "render env ctx input =
     (let output = renderTemplate input (iter_vars env (Variables ctx))
      in fold (\<lambda>(key, val) output.
           renderTemplate output (iter_vars env (flatten (fmt_number env) key val)))
         (iter_saved env (Saved ctx)) output)"

section \<open>Steps\<close>

definition sv_lift :: "go_error + 'a \<Rightarrow> 'a srv" where
  "sv_lift r = (\<lambda>s. (r, s))"

definition stepMkdir :: "install_env \<Rightarrow> Context \<Rightarrow> InstallStep \<Rightarrow> json srv" where
  "stepMkdir env ctx step =
     (let target = render env ctx (getString env (step_With step) ''target'')
      in if target = [] then sv_throw (ErrorString ''mkdir target is required'')
         else sv_seq (Log ctx (''Creating folder: '' @ target))
             (sv_seq (sv_os (with_path (\<lambda>d. SafePath d (InstanceDir ctx) target) os_mkdir_all))
             (sv_return (JObject [(''target'', JString target)]))))"

definition stepWriteFile :: "install_env \<Rightarrow> Context \<Rightarrow> InstallStep \<Rightarrow> json srv" where
  "stepWriteFile env ctx step =
     (let target = render env ctx (getString env (step_With step) ''target'');
          content = render env ctx (getString env (step_With step) ''content'')
      in if target = [] then sv_throw (ErrorString ''write_file target is required'')
         else sv_seq (Log ctx (''Writing file: '' @ target))
             (sv_seq (sv_os (files_Write (InstanceDir ctx) target content))
             (sv_return (JObject [(''target'', JString target), (''bytes'', JString (Itoa (int (length content))))]))))"

definition bad_status :: "http_response \<Rightarrow> bool" where
  "bad_status response \<longleftrightarrow> StatusCode response < 200 \<or> StatusCode response \<ge> 300"

definition stepDownload :: "install_env \<Rightarrow> Context \<Rightarrow> InstallStep \<Rightarrow> json srv" where
  "stepDownload env ctx step =
     (let url = render env ctx (getString env (step_With step) ''url'');
          target = render env ctx (getString env (step_With step) ''target'')
      in if url = [] then sv_throw (ErrorString ''download url is required'')
         else if target = [] then sv_throw (ErrorString ''download target is required'')
         else sv_seq (Log ctx (''Downloading: '' @ url))
             (sv_bind (sv_lift (http_get env url)) (\<lambda>response.
              if bad_status response
              then sv_throw (ErrorString (''download failed with status: '' @ StatusLine response))
              else sv_seq (sv_os (with_path (\<lambda>d. SafePath d (InstanceDir ctx) target) (\<lambda>targetPath.
                     os_seq (os_mkdir_all (path_dir targetPath))
                    (os_seq (os_write_file targetPath (Body response))
                    (case BodyError response of None \<Rightarrow> os_return () | Some e \<Rightarrow> os_throw e)))))
                  (sv_seq (Log ctx (''Downloaded to: '' @ target))
                  (sv_return (JObject [(''url'', JString url), (''target'', JString target),
                     (''bytes'', JString (Itoa (int (length (Body response)))))]))))))"

text \<open>The shell may do anything to the host; its output goes to the console even when it fails.\<close>

definition sv_shell :: "install_env \<Rightarrow> string \<Rightarrow> string \<Rightarrow> (string \<times> go_error option) srv" where
  "sv_shell env dir command =
     (\<lambda>s. case shell env dir command (host s) of (r, w) \<Rightarrow> (Inr r, s\<lparr>host := w\<rparr>))"

definition stepRun :: "install_env \<Rightarrow> Context \<Rightarrow> InstallStep \<Rightarrow> json srv" where
  "stepRun env ctx step =
     (let command = render env ctx (getString env (step_With step) ''command'')
      in if command = [] then sv_throw (ErrorString ''run command is required'')
         else sv_seq (Log ctx (''Running command: '' @ command))
             (sv_bind (sv_shell env (InstanceDir ctx) command) (\<lambda>(output, err).
              sv_seq (if output \<noteq> [] then Log ctx output else sv_return ())
                (case err of
                   Some e \<Rightarrow> sv_throw e
                 | None \<Rightarrow> sv_return (JObject [(''command'', JString command), (''output'', JString output)])))))"

definition stepHTTP :: "install_env \<Rightarrow> Context \<Rightarrow> InstallStep \<Rightarrow> json srv" where
  "stepHTTP env ctx step =
     (let url = render env ctx (getString env (step_With step) ''url'')
      in if url = [] then sv_throw (ErrorString ''http url is required'')
         else sv_seq (Log ctx (''HTTP GET: '' @ url))
             (sv_bind (sv_lift (http_get env url)) (\<lambda>response.
              if bad_status response
              then sv_throw (ErrorString (''http request failed with status: '' @ StatusLine response))
              else sv_lift (json_any env (Body response)))))"

definition run_step :: "install_env \<Rightarrow> Context \<Rightarrow> InstallStep \<Rightarrow> json srv" where
  "run_step env ctx step =
     (if step_Type step = ''mkdir'' then stepMkdir env ctx step
      else if step_Type step = ''write_file'' then stepWriteFile env ctx step
      else if step_Type step = ''download'' then stepDownload env ctx step
      else if step_Type step = ''run'' then stepRun env ctx step
      else if step_Type step = ''http'' then stepHTTP env ctx step
      else sv_throw (ErrorString (''unknown install step type: '' @ step_Type step)))"

fun run_steps :: "install_env \<Rightarrow> Context \<Rightarrow> InstallStep list \<Rightarrow> unit srv" where
  "run_steps env ctx [] = sv_return ()"
| "run_steps env ctx (step # steps) =
     sv_seq (Log ctx (''Running install step: '' @ step_Type step))
    (sv_bind (run_step env ctx step) (\<lambda>result.
     run_steps env (if step_Save step \<noteq> [] then ctx\<lparr>Saved := AList.update (step_Save step) result (Saved ctx)\<rparr> else ctx)
       steps))"

definition Run ::
  "install_env \<Rightarrow> string \<Rightarrow> (string \<times> string) list \<Rightarrow> InstallStep list \<Rightarrow> (string \<Rightarrow> unit srv) \<Rightarrow> unit srv" where
  "Run env instanceDir vars steps log =
     run_steps env \<lparr>InstanceDir = instanceDir, Variables = vars, Saved = [], Log = log\<rparr> steps"

section \<open>Confinement\<close>

definition sv_confined :: "fpath \<Rightarrow> 'a srv \<Rightarrow> bool" where
  "sv_confined root m \<longleftrightarrow> (\<forall>s. solid (files (host s)) root \<longrightarrow>
     agree_outside root (files (host s)) (files (host (snd (m s)))) \<and> solid (files (host (snd (m s)))) root)"

lemma sv_confinedD:
  "sv_confined root m \<Longrightarrow> solid (files (host s)) root \<Longrightarrow> m s = (r, s') \<Longrightarrow>
     agree_outside root (files (host s)) (files (host s')) \<and> solid (files (host s')) root"
  unfolding sv_confined_def by (metis snd_conv)

lemma sv_confined_same_host: "(\<And>s. host (snd (m s)) = host s) \<Longrightarrow> sv_confined root m"
  by (simp add: sv_confined_def)

lemma sv_confined_simple [confined_intros]:
  "sv_confined root (sv_return x)" "sv_confined root (sv_throw e)" "sv_confined root (sv_lift r)"
  "sv_confined root (sv_modify f)"
  by (simp_all add: sv_confined_def sv_defs sv_lift_def)

lemma sv_confined_attempt [confined_intros]:
  assumes "sv_confined root m" "\<And>r. sv_confined root (k r)"
  shows "sv_confined root (sv_attempt m k)"
  unfolding sv_confined_def
proof (intro allI impI)
  fix s :: server assume s: "solid (files (host s)) root"
  obtain r s1 where m: "m s = (r, s1)" by fastforce
  obtain r2 s2 where k: "k r s1 = (r2, s2)" by fastforce
  from sv_confinedD [OF assms(1) s m] sv_confinedD [OF assms(2) _ k] m k
  show "agree_outside root (files (host s)) (files (host (snd (sv_attempt m k s))))
      \<and> solid (files (host (snd (sv_attempt m k s)))) root"
    by (auto simp: sv_attempt_def intro: agree_outside_trans)
qed

lemma sv_bind_attempt: "sv_bind m k = sv_attempt m (\<lambda>r. case r of Inl e \<Rightarrow> sv_throw e | Inr x \<Rightarrow> k x)"
  by (auto simp: sv_bind_def sv_attempt_def sv_throw_def fun_eq_iff split: sum.splits prod.splits)

lemma sv_confined_bind [confined_intros]:
  "sv_confined root m \<Longrightarrow> (\<And>x. sv_confined root (k x)) \<Longrightarrow> sv_confined root (sv_bind m k)"
  unfolding sv_bind_attempt by (auto intro!: confined_intros split: sum.split)

lemma sv_confined_get [confined_intros]: "(\<And>m. sv_confined root (k m)) \<Longrightarrow> sv_confined root (sv_get k)"
  by (simp add: sv_confined_def sv_get_def)

lemma sv_confined_os [confined_intros]: "confined root m \<Longrightarrow> sv_confined root (sv_os m)"
  by (auto simp: sv_confined_def confined_def sv_os_def split: prod.split)

lemma sv_confined_if [confined_intros]: "sv_confined root m \<Longrightarrow> sv_confined root n \<Longrightarrow> sv_confined root (if b then m else n)"
  by simp

lemma sv_confined_with_cell [confined_intros]: "(\<And>c. sv_confined root (k c)) \<Longrightarrow> sv_confined root (with_cell cid k)"
  unfolding with_cell_def by (auto intro!: confined_intros split: option.split)

lemma confined_download:
  assumes "plains bs"
  shows "confined bs (with_path (\<lambda>d. SafePath d (rooted bs) p) (\<lambda>q. os_seq (os_mkdir_all (path_dir q))
    (os_seq (os_write_file q data) (case err of None \<Rightarrow> os_return () | Some e \<Rightarrow> os_throw e))))"
  by (rule files.confined_guarded [OF assms])
    (auto intro!: confined_intros split: option.split)

lemma confined_run_step:
  assumes "plains bs" "InstanceDir ctx = rooted bs" "\<And>line. sv_confined bs (Log ctx line)" "step_Type step \<noteq> ''run''"
  shows "sv_confined bs (run_step env ctx step)"
proof -
  have mkdir: "confined bs (with_path (\<lambda>d. SafePath d (rooted bs) target) os_mkdir_all)" for target
    by (rule files.confined_guarded [OF assms(1)]) (intro confined_intros, simp_all)
  show ?thesis
    using assms(4) confined_files(1) [OF assms(1)]
    by (auto simp: run_step_def stepMkdir_def stepWriteFile_def stepDownload_def stepHTTP_def assms(2) Let_def
        intro!: confined_intros assms(3) mkdir confined_download [OF assms(1)])
qed

lemma Run_confined:
  assumes "plains bs" "list_all (\<lambda>step. step_Type step \<noteq> ''run'') steps" "\<And>line. sv_confined bs (log line)"
  shows "sv_confined bs (Run env (rooted bs) vars steps log)"
proof -
  have "sv_confined bs (run_steps env ctx steps)" if "InstanceDir ctx = rooted bs" "\<forall>line. sv_confined bs (Log ctx line)" for ctx
    using assms(2) that
    by (induction steps arbitrary: ctx)
      (auto intro!: confined_intros confined_run_step [OF assms(1)])
  then show ?thesis using assms(3) by (simp add: Run_def)
qed

definition quiet_env :: install_env where
  "quiet_env = \<lparr>http_get = (\<lambda>url. Inr \<lparr>StatusCode = 200, Body = ''jar'', BodyError = None, StatusLine = ''200 OK''\<rparr>),
     shell = (\<lambda>dir cmd w. (([], None), w)), json_any = (\<lambda>s. Inr JNull), fmt_number = (\<lambda>s. s),
     iter_vars = (\<lambda>vs. vs), iter_saved = (\<lambda>vs. vs)\<rparr>"

definition download_steps :: "InstallStep list" where
  "download_steps = [\<lparr>step_ID = [], step_Type = ''download'',
     step_With = [(''url'', JString ''http://x/{{v}}''), (''target'', JString ''../../etc/{{v}}.jar'')], step_Save = []\<rparr>]"

end
