(* ===== verification/ProcessRuntime.thy ===== *)
theory ProcessRuntime
  imports Cell Complex_Main
begin

text \<open>
  The interface of runtimes (\<open>internal/runtime/runtime.go\<close>) as a locale, and the runtime that starts cells as
  processes of the host (\<open>internal/runtime/process/runtime.go\<close>). Starting the shell, writing to its input and the
  process statistics are those of the operating system: arguments. The end of a process is an event, and so is the
  goroutine that waits for it and takes the process out of the table.
\<close>

section \<open>The interface\<close>

record RuntimeCell =
  run_ID :: string
  run_Command :: string
  run_InstanceDir :: string
  run_Image :: string
  run_WorkingDir :: string
  run_Environment :: "(string \<times> string) list"
  run_AllocationIP :: string
  run_AllocationPort :: int
  run_Limits :: Limits

text \<open>A \<open>float64\<close> is a rational number; its rounding is not modelled.\<close>

record Stats =
  stats_CPU :: rat
  stats_MemoryMB :: rat
  PID :: nat
  NetworkRxBytes :: nat
  NetworkTxBytes :: nat

definition no_stats :: Stats where
  "no_stats = \<lparr>stats_CPU = 0, stats_MemoryMB = 0, PID = 0, NetworkRxBytes = 0, NetworkTxBytes = 0\<rparr>"

text \<open>
  What the cell manager relies on: a cell runs from its successful start until it is seen to exit. \<open>sound\<close> is the
  invariant a runtime keeps over its own tables.
\<close>

locale runtime =
  fixes sound :: "'r \<Rightarrow> bool"
    and is_running :: "'r \<Rightarrow> string \<Rightarrow> bool"
    and begin_run :: "RuntimeCell \<Rightarrow> 'r \<Rightarrow> (go_error + unit) \<times> 'r"
    and stop_run :: "string \<Rightarrow> 'r \<Rightarrow> (go_error + unit) \<times> 'r"
    and send :: "string \<Rightarrow> string \<Rightarrow> 'r \<Rightarrow> (go_error + unit) \<times> 'r"
    and ended :: "string \<Rightarrow> 'r \<Rightarrow> 'r"
  assumes start_running: "begin_run c r = (Inr (), r') \<Longrightarrow> is_running r' i = (i = run_ID c \<or> is_running r i)"
    and start_refused: "is_running r (run_ID c) \<Longrightarrow> \<exists>e. begin_run c r = (Inl e, r)"
    and start_failed: "begin_run c r = (Inl e, r') \<Longrightarrow> is_running r' = is_running r"
    and stop_running: "stop_run i r = (x, r') \<Longrightarrow> is_running r' = is_running r"
    and stop_refused: "\<not> is_running r i \<Longrightarrow> \<exists>e. stop_run i r = (Inl e, r)"
    and send_running: "send i line r = (x, r') \<Longrightarrow> is_running r' = is_running r"
    and send_refused: "sound r \<Longrightarrow> \<not> is_running r i \<Longrightarrow> \<exists>e. send i line r = (Inl e, r)"
    and ended_running: "is_running (ended i r) j = (j \<noteq> i \<and> is_running r j)"
    and start_sound: "sound r \<Longrightarrow> begin_run c r = (x, r') \<Longrightarrow> sound r'"
    and stop_sound: "sound r \<Longrightarrow> stop_run i r = (x, r') \<Longrightarrow> sound r'"
    and send_sound: "sound r \<Longrightarrow> send i line r = (x, r') \<Longrightarrow> sound r'"
    and ended_sound: "sound r \<Longrightarrow> sound (ended i r)"
begin

lemma start_twice:
  assumes "begin_run c r = (Inr (), r')" "run_ID c' = run_ID c"
  shows "\<exists>e. begin_run c' r' = (Inl e, r')"
  using start_refused [of r' c'] start_running [OF assms(1)] assms(2) by simp

lemma send_after_start: "sound r \<Longrightarrow> begin_run c r = (Inr (), r') \<Longrightarrow> \<not> is_running r' j \<Longrightarrow> \<exists>e. send j line r' = (Inl e, r')"
  using send_refused start_sound by blast

lemma restart_after_end: "begin_run c (ended (run_ID c) r) = (Inr (), r') \<Longrightarrow> is_running r' (run_ID c)"
  using start_running by blast

end

section \<open>Processes\<close>

record RunningProcess =
  pid :: nat
  stdin :: "string list"
  startedAt :: int

record ProcessRuntime =
  processes :: "(string \<times> RunningProcess) list"

definition NewProcessRuntime :: ProcessRuntime where
  "NewProcessRuntime = \<lparr>processes = []\<rparr>"

text \<open>\<open>spawn\<close> makes the pipes and starts the shell in the directory of the cell: the number of the process, or an error.\<close>

definition process_Start ::
  "(string \<Rightarrow> string \<Rightarrow> go_error + nat) \<Rightarrow> int \<Rightarrow> RuntimeCell \<Rightarrow> ProcessRuntime \<Rightarrow> (go_error + unit) \<times> ProcessRuntime" where
  "process_Start spawn now c r =
     (if map_of (processes r) (run_ID c) \<noteq> None then (Inl (ErrorString ''cell already running''), r)
      else case spawn (run_Command c) (run_InstanceDir c) of
          Inl e \<Rightarrow> (Inl e, r)
        | Inr n \<Rightarrow> (Inr (), r\<lparr>processes :=
            AList.update (run_ID c) \<lparr>pid = n, stdin = [], startedAt = now\<rparr> (processes r)\<rparr>))"

text \<open>The goroutine that waited for the process.\<close>

definition process_reap :: "string \<Rightarrow> ProcessRuntime \<Rightarrow> ProcessRuntime" where
  "process_reap cid r = r\<lparr>processes := AList.delete cid (processes r)\<rparr>"

definition process_Stop :: "(nat \<Rightarrow> go_error option) \<Rightarrow> string \<Rightarrow> ProcessRuntime \<Rightarrow> (go_error + unit) \<times> ProcessRuntime" where
  "process_Stop kill cid r =
     (case map_of (processes r) cid of
        None \<Rightarrow> (Inl (ErrorString ''cell is not running''), r)
      | Some p \<Rightarrow> (case kill (pid p) of Some e \<Rightarrow> Inl e | None \<Rightarrow> Inr (), r))"

definition process_SendCommand ::
  "(nat \<Rightarrow> go_error option) \<Rightarrow> string \<Rightarrow> string \<Rightarrow> ProcessRuntime \<Rightarrow> (go_error + unit) \<times> ProcessRuntime" where
  "process_SendCommand write_error cid command r =
     (case map_of (processes r) cid of
        None \<Rightarrow> (Inl (ErrorString ''cell is not running''), r)
      | Some p \<Rightarrow>
          (case write_error (pid p) of
             Some e \<Rightarrow> (Inl e, r)
           | None \<Rightarrow> (Inr (), r\<lparr>processes :=
               AList.update cid (p\<lparr>stdin := stdin p @ [command @ [CHR 0x0A]]\<rparr>) (processes r)\<rparr>)))"

definition process_Stats ::
  "(nat \<Rightarrow> (rat option \<times> nat option) option) \<Rightarrow> string \<Rightarrow> ProcessRuntime \<Rightarrow> Stats" where
  "process_Stats ps cid r =
     (case map_of (processes r) cid of
        None \<Rightarrow> no_stats
      | Some p \<Rightarrow>
          (let stats = no_stats\<lparr>PID := pid p\<rparr>
           in case ps (pid p) of
                None \<Rightarrow> stats
              | Some (cpu, rss) \<Rightarrow>
                  (let s1 = (case cpu of None \<Rightarrow> stats | Some c \<Rightarrow> stats\<lparr>stats_CPU := c\<rparr>)
                   in case rss of None \<Rightarrow> s1 | Some b \<Rightarrow> s1\<lparr>stats_MemoryMB := of_nat b / 1024 / 1024\<rparr>)))"

definition process_IsRunning :: "ProcessRuntime \<Rightarrow> string \<Rightarrow> bool" where
  "process_IsRunning r cid \<longleftrightarrow> map_of (processes r) cid \<noteq> None"

definition process_StartedAt :: "ProcessRuntime \<Rightarrow> string \<Rightarrow> int option" where
  "process_StartedAt r cid = map_option startedAt (map_of (processes r) cid)"

interpretation process: runtime "\<lambda>_. True" process_IsRunning "process_Start spawn now" "process_Stop kill"
  "process_SendCommand write_error" process_reap
  by unfold_locales
    (auto simp: process_IsRunning_def process_Start_def process_Stop_def process_SendCommand_def process_reap_def
      update_conv' delete_conv' fun_eq_iff split: if_splits option.splits sum.splits)

section \<open>One process per cell\<close>

text \<open>
  The runtime beside the processes of the host: \<open>alive\<close> are those it started that have not ended, \<open>waiting\<close>
  those that have ended and whose goroutine has not taken them out of the table yet. \<open>spawn\<close> never hands out the
  number of a process that is not reaped.
\<close>

record process_world =
  table :: ProcessRuntime
  alive :: "(nat \<times> string) set"
  waiting :: "(nat \<times> string) set"

inductive process_step :: "process_world \<Rightarrow> process_world \<Rightarrow> bool" where
  start: "process_Start (\<lambda>_ _. Inr n) now c (table w) = (Inr (), t) \<Longrightarrow> n \<notin> fst ` (alive w \<union> waiting w)
    \<Longrightarrow> process_step w (w\<lparr>table := t, alive := insert (n, run_ID c) (alive w)\<rparr>)"
| fail: "process_Start (\<lambda>_ _. Inl e) now c (table w) = (x, t) \<Longrightarrow> process_step w (w\<lparr>table := t\<rparr>)"
| die: "(n, i) \<in> alive w \<Longrightarrow> process_step w (w\<lparr>alive := alive w - {(n, i)}, waiting := insert (n, i) (waiting w)\<rparr>)"
| reap: "(n, i) \<in> waiting w \<Longrightarrow> process_step w (w\<lparr>table := process_reap i (table w), waiting := waiting w - {(n, i)}\<rparr>)"
| send: "process_SendCommand err i line (table w) = (x, t) \<Longrightarrow> process_step w (w\<lparr>table := t\<rparr>)"

inductive_cases process_stepE: "process_step w w'"

definition pids :: "ProcessRuntime \<Rightarrow> string \<Rightarrow> nat option" where
  "pids r i = map_option pid (map_of (processes r) i)"

lemma pids_start:
  "process_Start (\<lambda>_ _. Inr n) now c r = (Inr (), t) \<Longrightarrow> pids r (run_ID c) = None \<and> pids t = (pids r)(run_ID c \<mapsto> n)"
  by (auto simp: process_Start_def pids_def update_conv' fun_eq_iff split: if_splits)

lemma pids_fail: "process_Start (\<lambda>_ _. Inl e) now c r = (x, t) \<Longrightarrow> pids t = pids r"
  by (auto simp: process_Start_def split: if_splits)

lemma pids_reap: "pids (process_reap i r) = (pids r)(i := None)"
  by (auto simp: process_reap_def pids_def delete_conv' fun_eq_iff)

lemma pids_send: "process_SendCommand err i line r = (x, t) \<Longrightarrow> pids t = pids r"
  by (auto simp: process_SendCommand_def pids_def update_conv' fun_eq_iff split: option.splits)

definition process_inv :: "process_world \<Rightarrow> bool" where
  "process_inv w \<longleftrightarrow> alive w \<inter> waiting w = {} \<and> (\<forall>i n. (n, i) \<in> alive w \<union> waiting w \<longleftrightarrow> pids (table w) i = Some n)"

lemma process_inv_step:
  assumes "process_step w w'" "process_inv w"
  shows "process_inv w'"
proof -
  have disjoint: "alive w \<inter> waiting w = {}"
    and owned: "(n, i) \<in> alive w \<union> waiting w \<longleftrightarrow> pids (table w) i = Some n" for n i
    using assms(2) by (auto simp: process_inv_def)
  show ?thesis
    using assms(1)
  proof (cases rule: process_step.cases)
    case (start n now c t)
    have "(n, j) \<notin> alive w \<union> waiting w" for j using start(3) by (force simp: image_iff)
    then show ?thesis
      using pids_start [OF start(2)] disjoint owned by (auto simp: process_inv_def start(1))
  next
    case (fail e now c x t)
    then show ?thesis using pids_fail [OF fail(2)] disjoint owned by (auto simp: process_inv_def)
  next
    case (die n i)
    then show ?thesis using disjoint owned by (auto simp: process_inv_def)
  next
    case (reap n i)
    have "(m, i) \<in> alive w \<union> waiting w \<longleftrightarrow> m = n" for m using owned [of n i] owned [of m i] reap(2) by auto
    moreover from this have "(m, i) \<notin> alive w" for m using reap(2) disjoint by (cases "m = n") blast+
    ultimately show ?thesis using reap disjoint owned by (auto simp: process_inv_def pids_reap)
  next
    case (send err i line x t)
    then show ?thesis using pids_send [OF send(2)] disjoint owned by (auto simp: process_inv_def)
  qed
qed

definition idle :: process_world where
  "idle = \<lparr>table = NewProcessRuntime, alive = {}, waiting = {}\<rparr>"

text \<open>
  C33. However cells are started, stopped, sent commands and end by themselves, a cell never has two processes: a
  process that lives belongs to a cell the runtime calls running, and two live processes belong to different cells.
\<close>

theorem one_process_per_cell:
  assumes "process_step\<^sup>*\<^sup>* idle w"
  shows "(n, i) \<in> alive w \<Longrightarrow> process_IsRunning (table w) i \<and> ((k, i) \<in> alive w \<longrightarrow> k = n)"
proof -
  have "process_inv w"
    using assms
  proof (induction rule: rtranclp_induct)
    case base
    show ?case by (simp add: process_inv_def idle_def NewProcessRuntime_def pids_def)
  qed (rule process_inv_step)
  then have owned: "(n, i) \<in> alive w \<Longrightarrow> pids (table w) i = Some n" for n i by (auto simp: process_inv_def)
  show "(n, i) \<in> alive w \<Longrightarrow> process_IsRunning (table w) i \<and> ((k, i) \<in> alive w \<longrightarrow> k = n)"
    using owned [of n i] owned [of k i] by (auto simp: process_IsRunning_def pids_def)
qed

definition some_run :: RuntimeCell where
  "some_run = \<lparr>run_ID = ''a'', run_Command = ''java'', run_InstanceDir = ''/i/a'', run_Image = [], run_WorkingDir = [],
     run_Environment = [], run_AllocationIP = ''1.2.3.4'', run_AllocationPort = 25565,
     run_Limits = \<lparr>MemoryMB = 1024, OverheadMemoryMB = 0, SwapMB = 0, CPUPercent = 0, CPUPinning = [], DiskMB = 0,
       IOWeight = 0, OOMKiller = False\<rparr>\<rparr>"

theorem one_process_per_cell_witness:
  "let w = idle\<lparr>table := snd (process_Start (\<lambda>_ _. Inr 7) 0 some_run NewProcessRuntime), alive := {(7, ''a'')}\<rparr>
   in process_step\<^sup>*\<^sup>* idle w \<and> process_IsRunning (table w) ''a''"
proof -
  let ?t = "snd (process_Start (\<lambda>_ _. Inr 7) 0 some_run NewProcessRuntime)"
  have "process_Start (\<lambda>_ _. Inr 7) 0 some_run (table idle) = (Inr (), ?t)"
    by (simp add: process_Start_def idle_def NewProcessRuntime_def)
  from process_step.start [OF this] have "process_step idle (idle\<lparr>table := ?t, alive := {(7, ''a'')}\<rparr>)"
    by (simp add: idle_def some_run_def)
  then have run: "process_step\<^sup>*\<^sup>* idle (idle\<lparr>table := ?t, alive := {(7, ''a'')}\<rparr>)" by (rule r_into_rtranclp)
  from one_process_per_cell [OF run, of 7 "''a''" 7] run show ?thesis by (simp add: Let_def)
qed

end
