(* ===== verification/CellRun.thy ===== *)
theory CellRun
  imports CellStoreProps Installer ProcessRuntime BackupProps
begin

text \<open>
  Running cells: \<open>lifecycle.go\<close>, \<open>install.go\<close>, \<open>backup.go\<close>, \<open>stats.go\<close> and \<open>recover.go\<close> of \<open>internal/cell\<close>. The
  runtime is an argument, a record of its methods over a state of any type; what its goroutines do later (lines of
  output, the end of a process, the stop itself) are operations of their own.
\<close>

record 'r runtime_ops =
  rt_IsRunning :: "'r \<Rightarrow> string \<Rightarrow> bool"
  rt_Start :: "RuntimeCell \<Rightarrow> 'r \<Rightarrow> (go_error + unit) \<times> 'r"
  rt_Stop :: "string \<Rightarrow> 'r \<Rightarrow> (go_error + unit) \<times> 'r"
  rt_SendCommand :: "string \<Rightarrow> string \<Rightarrow> 'r \<Rightarrow> (go_error + unit) \<times> 'r"
  rt_StartedAt :: "'r \<Rightarrow> string \<Rightarrow> int option"
  rt_Stats :: "'r \<Rightarrow> string \<Rightarrow> go_error + Stats"

type_synonym ('r, 'a) ran = "'r \<times> server \<Rightarrow> (go_error + 'a) \<times> 'r \<times> server"

definition with_runtime :: "('r \<Rightarrow> 'a srv) \<Rightarrow> ('r, 'a) ran" where
  "with_runtime m = (\<lambda>(r, s). case m r s of (x, s') \<Rightarrow> (x, r, s'))"

section \<open>Starting and stopping\<close>

definition resolveCellComb :: "cell_codec \<Rightarrow> CellManager \<Rightarrow> Cell \<Rightarrow> go_error + Comb" where
  "resolveCellComb cc m c =
     (case cell_CombData c of Some d \<Rightarrow> FromMap cc d | None \<Rightarrow> Require m (cell_Comb c))"

definition start_variables :: "Comb \<Rightarrow> Cell \<Rightarrow> (string \<times> string) list" where
  "start_variables comb c =
     merge_vars (merge_vars (merge_vars [] (comb_Variables comb)) (cell_Variables c))
       [(''allocation.ip'', IP (cell_Allocation c)), (''allocation.port'', Itoa (Port (cell_Allocation c)))]"

text \<open>\<open>iter\<close> is the order in which Go iterates over the variables.\<close>

definition runtime_cell ::
  "((string \<times> string) list \<Rightarrow> (string \<times> string) list) \<Rightarrow> Comb \<Rightarrow> Cell \<Rightarrow> RuntimeCell" where
  "runtime_cell iter comb c =
     (let startupCommand = (if cell_StartupCommand c \<noteq> [] then cell_StartupCommand c else comb_Startup comb);
          image = (if cell_DockerImage c \<noteq> [] then cell_DockerImage c else comb_Image comb)
      in \<lparr>run_ID = cell_ID c, run_Command = renderTemplate startupCommand (iter (start_variables comb c)),
          run_InstanceDir = cell_Dir c, run_Image = image, run_WorkingDir = comb_WorkingDir comb,
          run_Environment = comb_Environment comb, run_AllocationIP = IP (cell_Allocation c),
          run_AllocationPort = Port (cell_Allocation c), run_Limits = cell_Limits c\<rparr>)"

definition Start ::
  "'r runtime_ops \<Rightarrow> cell_codec \<Rightarrow> ((string \<times> string) list \<Rightarrow> (string \<times> string) list) \<Rightarrow> string \<Rightarrow> ('r, unit) ran" where
  "Start rt cc iter cid = (\<lambda>(r, s).
     case lookup_cell cid (mgr s) of
       None \<Rightarrow> (Inl (ErrorString ''cell not found''), r, s)
     | Some c \<Rightarrow>
         (case resolveCellComb cc (mgr s) c of
            Inl e \<Rightarrow> (Inl e, r, s)
          | Inr comb \<Rightarrow>
              if rt_IsRunning rt r cid then (Inl (ErrorString ''cell already running''), r, s)
              else let s' = snd (sv_os (os_mkdir_all (cell_Dir c)) s);
                       s'' = s'\<lparr>mgr := broadcastByID cid ''Cell started.'' (mgr s')\<rparr>;
                       (x, r') = rt_Start rt (runtime_cell iter comb c) r
                   in (x, r', s'')))"

text \<open>\<open>Stop\<close> only begins a goroutine; its work is \<open>stop_goroutine\<close>.\<close>

definition Stop :: "string \<Rightarrow> unit srv" where
  "Stop cid = with_cell cid (\<lambda>_. sv_return ())"

definition stop_goroutine :: "'r runtime_ops \<Rightarrow> (go_error \<Rightarrow> string) \<Rightarrow> string \<Rightarrow> 'r \<times> server \<Rightarrow> 'r \<times> server" where
  "stop_goroutine rt errtext cid = (\<lambda>(r, s).
     let m = broadcastByID cid ''Stopping cell...'' (mgr s)
     in case rt_Stop rt cid r of
          (Inr _, r') \<Rightarrow> (r', s\<lparr>mgr := m\<rparr>)
        | (Inl e, r') \<Rightarrow> (r', s\<lparr>mgr := broadcastByID cid (''Stop failed: '' @ errtext e) m\<rparr>))"

definition on_output :: "string \<Rightarrow> string \<Rightarrow> CellManager \<Rightarrow> CellManager" where
  "on_output cid line m = broadcastByID cid line m"

definition on_exit :: "string \<Rightarrow> CellManager \<Rightarrow> CellManager" where
  "on_exit cid m = broadcastByID cid ''Cell stopped.'' m"

definition SendCommand :: "'r runtime_ops \<Rightarrow> string \<Rightarrow> string \<Rightarrow> ('r, unit) ran" where
  "SendCommand rt cid command = (\<lambda>(r, s).
     case lookup_cell cid (mgr s) of
       None \<Rightarrow> (Inl (ErrorString ''cell not found''), r, s)
     | Some c \<Rightarrow>
         (let s' = s\<lparr>mgr := broadcastByID cid (''> '' @ command) (mgr s)\<rparr>; (x, r') = rt_SendCommand rt cid command r
          in (x, r', s')))"

section \<open>Installing\<close>

text \<open>\<open>running\<close> is the answer of the runtime's \<open>IsRunning\<close> when it is asked.\<close>

definition Install ::
  "install_env \<Rightarrow> (go_error \<Rightarrow> string) \<Rightarrow> cell_codec \<Rightarrow> (string \<Rightarrow> bool) \<Rightarrow> string \<Rightarrow> unit srv" where
  "Install env errtext cc running cid =
     with_cell cid (\<lambda>gameCell.
       if running cid then sv_throw (ErrorString ''cell must be stopped before installing'')
       else sv_get (\<lambda>m. case resolveCellComb cc m gameCell of
           Inl e \<Rightarrow> sv_throw e
         | Inr selectedComb \<Rightarrow>
             sv_seq (sv_modify (broadcast cid gameCell ''Install started.''))
            (sv_attempt (Run env (cell_Dir gameCell) (cell_Variables gameCell) (comb_Install selectedComb)
                (\<lambda>line. sv_modify (broadcastByID cid line))) (\<lambda>err.
             sv_seq (sv_modify (broadcastByID cid
                (case err of Inl e \<Rightarrow> ''Install failed: '' @ errtext e | Inr _ \<Rightarrow> ''Install completed.'')))
               (sv_lift err)))))"

definition reinstall_directory :: "string \<Rightarrow> string \<Rightarrow> unit srv" where
  "reinstall_directory cid dir =
     sv_seq (sv_os (os_wrap ''remove existing cell files'' (os_remove_all dir)))
    (sv_seq (sv_os (os_wrap ''recreate cell directory'' (os_mkdir_all dir)))
            (sv_modify (broadcastByID cid ''Cell is ready for reinstall.'')))"

definition Reinstall :: "(string \<Rightarrow> bool) \<Rightarrow> string \<Rightarrow> unit srv" where
  "Reinstall running cid =
     with_cell cid (\<lambda>gameCell.
       if running cid then sv_throw (ErrorString ''cell must be stopped before reinstalling'')
       else let dir = cell_Dir gameCell
            in sv_seq (sv_modify (broadcast cid gameCell ''Preparing cell for reinstall.''))
              (if dir = [] then sv_throw (ErrorString ''cell directory is empty'')
               else sv_attempt (sv_os (os_stat dir)) (\<lambda>info.
                 case info of
                   Inl e \<Rightarrow> if \<not> os_is_not_exist e then sv_throw (WrapError ''stat cell directory'' e)
                     else reinstall_directory cid dir
                 | Inr n \<Rightarrow> if \<not> is_dir n then sv_throw (ErrorString ''cell path is not a directory'')
                     else reinstall_directory cid dir)))"

section \<open>Backups of a cell\<close>

definition cell_CreateBackup ::
  "codec \<Rightarrow> (string \<Rightarrow> string) \<Rightarrow> (string \<Rightarrow> string) \<Rightarrow> nat \<Rightarrow> string \<Rightarrow> string \<Rightarrow> string \<Rightarrow> string list \<Rightarrow> Backup srv" where
  "cell_CreateBackup cd sha256 mtime fuel cid backupID name ignoredFiles =
     with_cell cid (\<lambda>c. sv_get (\<lambda>m.
       sv_os (backup_Create cd sha256 mtime fuel (backupManager m) cid backupID name (cell_Dir c) ignoredFiles)))"

definition cell_ListBackups :: "(string \<Rightarrow> string) \<Rightarrow> string \<Rightarrow> Backup list srv" where
  "cell_ListBackups mtime cid = with_cell cid (\<lambda>_. sv_get (\<lambda>m. sv_os (backup_List mtime (backupManager m) cid)))"

definition cell_DeleteBackup :: "string \<Rightarrow> string \<Rightarrow> unit srv" where
  "cell_DeleteBackup cid backupID = with_cell cid (\<lambda>_. sv_get (\<lambda>m. sv_os (backup_Delete (backupManager m) cid backupID)))"

definition BackupDownloadPath :: "string \<Rightarrow> string \<Rightarrow> string srv" where
  "BackupDownloadPath cid backupID =
     with_cell cid (\<lambda>_. sv_get (\<lambda>m. sv_os (backup_DownloadPath (backupManager m) cid backupID)))"

definition cell_RestoreBackup :: "codec \<Rightarrow> (string \<Rightarrow> bool) \<Rightarrow> string \<Rightarrow> string \<Rightarrow> unit srv" where
  "cell_RestoreBackup cd running cid backupID =
     with_cell cid (\<lambda>c.
       if running cid then sv_throw (ErrorString ''cell must be stopped before restoring backup'')
       else sv_get (\<lambda>m. sv_os (backup_Restore cd (backupManager m) cid backupID (cell_Dir c))))"

definition cell_ListBackupFiles :: "codec \<Rightarrow> string \<Rightarrow> string \<Rightarrow> BackupFileEntry list srv" where
  "cell_ListBackupFiles cd cid backupID =
     with_cell cid (\<lambda>_. sv_get (\<lambda>m. sv_os (ListFiles cd (backupManager m) cid backupID)))"

definition cell_ReadBackupFile :: "codec \<Rightarrow> string \<Rightarrow> string \<Rightarrow> string \<Rightarrow> string srv" where
  "cell_ReadBackupFile cd cid backupID p =
     with_cell cid (\<lambda>_. sv_get (\<lambda>m. sv_os (backup_ReadFile cd (backupManager m) cid backupID p)))"

definition ExtractBackupPath :: "codec \<Rightarrow> (string \<Rightarrow> bool) \<Rightarrow> string \<Rightarrow> string \<Rightarrow> string \<Rightarrow> unit srv" where
  "ExtractBackupPath cd running cid backupID p =
     with_cell cid (\<lambda>c.
       if running cid then sv_throw (ErrorString ''cell must be stopped before extracting from backup'')
       else sv_get (\<lambda>m. sv_os (ExtractPath cd (backupManager m) cid backupID p (cell_Dir c))))"

section \<open>Statistics and recovery\<close>

record CellStats =
  cs_ID :: string
  cs_Running :: bool
  cs_UptimeSec :: int
  cs_DiskBytes :: int
  cs_CPU :: rat
  cs_MemoryMB :: rat
  cs_PID :: nat
  cs_NetworkRxBytes :: nat
  cs_NetworkTxBytes :: nat

definition cell_Stats :: "'r runtime_ops \<Rightarrow> int \<Rightarrow> string \<Rightarrow> 'r \<Rightarrow> CellStats srv" where
  "cell_Stats rt now cid r =
     with_cell cid (\<lambda>c.
       let stats0 = \<lparr>cs_ID = cell_ID c, cs_Running = rt_IsRunning rt r cid, cs_UptimeSec = 0, cs_DiskBytes = 0, cs_CPU = 0,
             cs_MemoryMB = 0, cs_PID = 0, cs_NetworkRxBytes = 0, cs_NetworkTxBytes = 0\<rparr>;
           stats1 = (case rt_StartedAt rt r cid of
             None \<Rightarrow> stats0 | Some t \<Rightarrow> stats0\<lparr>cs_UptimeSec := (now - t) div 1000000000\<rparr>)
       in sv_return (case rt_Stats rt r cid of
            Inl _ \<Rightarrow> stats1
          | Inr st \<Rightarrow> stats1\<lparr>cs_CPU := stats_CPU st, cs_MemoryMB := stats_MemoryMB st, cs_PID := PID st,
              cs_NetworkRxBytes := NetworkRxBytes st, cs_NetworkTxBytes := NetworkTxBytes st\<rparr>))"

text \<open>\<open>recover\<close> is the \<open>Recover\<close> of a runtime that has one; the callbacks it is given are \<open>on_output\<close> and \<open>on_exit\<close>.\<close>

definition RecoverRuntime :: "(string list \<Rightarrow> 'r \<Rightarrow> (go_error + unit) \<times> 'r) option \<Rightarrow> ('r, unit) ran" where
  "RecoverRuntime recover = (\<lambda>(r, s).
     case recover of
       None \<Rightarrow> (Inr (), r, s)
     | Some f \<Rightarrow> (case f (map fst (cells (mgr s))) r of (x, r') \<Rightarrow> (x, r', s)))"

section \<open>What is started\<close>

lemma distinct_merge_vars: "distinct (map fst base) \<Longrightarrow> distinct (map fst (merge_vars base over))"
  unfolding merge_vars_def by (induction over arbitrary: base) (auto simp: distinct_update)

lemma list_all_update: "list_all P xs \<Longrightarrow> P (k, v) \<Longrightarrow> list_all P (AList.update k v xs)"
  by (induction xs) auto

lemma merge_vars_all: "list_all P base \<Longrightarrow> list_all P over \<Longrightarrow> list_all P (merge_vars base over)"
  unfolding merge_vars_def by (induction over arbitrary: base) (auto intro: list_all_update)

text \<open>
  C22. The command a cell is started with is its start-up template with every known placeholder replaced at once, in
  whatever order Go visits the variables: the cell's own variables override those of its comb, and the address and the
  port are those of its allocation, whatever its variables say.
\<close>

theorem Start_command:
  assumes "(if cell_StartupCommand c \<noteq> [] then cell_StartupCommand c else comb_Startup comb) = show_tokens ts"
    "list_all token_ok ts" "list_all (\<lambda>(k, v). braceless k \<and> braceless v) (comb_Variables comb @ cell_Variables c)"
    "braceless (IP (cell_Allocation c))" "\<And>vs. mset (iter vs) = mset vs"
  shows "run_Command (runtime_cell iter comb c) = show_tokens (map (fill
     (map_of (rev (comb_Variables comb)) ++ map_of (rev (cell_Variables c)) ++
       [''allocation.ip'' \<mapsto> IP (cell_Allocation c), ''allocation.port'' \<mapsto> Itoa (Port (cell_Allocation c))])) ts)"
proof -
  let ?vars = "start_variables comb c"
  have itoa: "braceless (Itoa n)" for n by (simp add: braceless_def notin_Itoa)
  have ok: "list_all (\<lambda>(k, v). braceless k \<and> braceless v) ?vars"
    unfolding start_variables_def using assms(3,4) itoa
    by (intro merge_vars_all) (auto simp: braceless_def)
  have distinct: "distinct (map fst ?vars)" unfolding start_variables_def by (intro distinct_merge_vars) simp
  have "map_of ?vars = map_of (rev (comb_Variables comb)) ++ map_of (rev (cell_Variables c)) ++
       [''allocation.ip'' \<mapsto> IP (cell_Allocation c), ''allocation.port'' \<mapsto> Itoa (Port (cell_Allocation c))]"
    unfolding start_variables_def by (simp add: map_of_merge_vars fun_upd_twist)
  then show ?thesis
    using renderTemplate_fills [OF assms(2) ok assms(5) distinct] assms(1) by (simp add: runtime_cell_def Let_def)
qed

definition fake_port_cell :: Cell where
  "fake_port_cell = (plain_cell ''a'')\<lparr>cell_StartupCommand := ''java -p {{allocation.port}}'',
     cell_Variables := [(''allocation.port'', ''1'')]\<rparr>"

theorem Start_command_witness: "run_Command (runtime_cell rev some_comb fake_port_cell) = ''java -p 25565''"
proof -
  let ?ts = "[Lit ''java -p '', Var ''allocation.port'']"
  have d: "cell_StartupCommand fake_port_cell = show_tokens ?ts"
    "cell_Variables fake_port_cell = [(''allocation.port'', ''1'')]" "cell_Allocation fake_port_cell = \<lparr>IP = ''1.2.3.4'', Port = 25565\<rparr>"
    by (simp_all add: fake_port_cell_def plain_cell_def show_tokens_def placeholder_def)
  have ne: "show_tokens ?ts \<noteq> []" by (simp add: show_tokens_def)
  have itoa: "Itoa 25565 = ''25565''"
    by (simp add: Itoa_def nat_digits.simps digit_char_def char_of_def bit_Suc_0_iff)
  have hyps: "(if cell_StartupCommand fake_port_cell \<noteq> [] then cell_StartupCommand fake_port_cell else comb_Startup some_comb) = show_tokens ?ts"
    "list_all token_ok ?ts"
    "list_all (\<lambda>(k, v). braceless k \<and> braceless v) (comb_Variables some_comb @ cell_Variables fake_port_cell)"
    "braceless (IP (cell_Allocation fake_port_cell))"
    using ne by (simp_all add: d braceless_def some_comb_def)
  from Start_command [OF hyps, of rev] show ?thesis
    by (simp add: d itoa show_tokens_def)
qed

section \<open>A running cell is left alone\<close>


text \<open>The runtime of processes as a runtime of the cell manager.\<close>

definition process_ops ::
  "(string \<Rightarrow> string \<Rightarrow> go_error + nat) \<Rightarrow> int \<Rightarrow> (nat \<Rightarrow> go_error option) \<Rightarrow> (nat \<Rightarrow> go_error option)
    \<Rightarrow> (nat \<Rightarrow> (rat option \<times> nat option) option) \<Rightarrow> ProcessRuntime runtime_ops" where
  "process_ops spawn now kill write_error ps =
     \<lparr>rt_IsRunning = process_IsRunning, rt_Start = process_Start spawn now, rt_Stop = process_Stop kill,
      rt_SendCommand = process_SendCommand write_error, rt_StartedAt = process_StartedAt,
      rt_Stats = (\<lambda>r cid. Inr (process_Stats ps cid r))\<rparr>"

text \<open>
  From the moment \<open>Start\<close> succeeds until its process is seen to exit a cell counts as running: it cannot be
  started a second time or deleted, and stopping it or sending it commands does not change that; afterwards it no
  longer runs.
\<close>

theorem started_until_exit:
  assumes "Start (process_ops spawn now kill err ps) cc iter cid (r, s) = (Inr (), r', s')" "cell_ID c = cid"
    "lookup_cell cid (mgr s) = Some c"
  shows "process_IsRunning r' cid
    \<and> fst (Start (process_ops spawn now kill err ps) cc iter cid (r', s')) \<noteq> Inr ()
    \<and> fst (Delete (process_IsRunning r') cid s') = Inl (ErrorString ''cell must be stopped first'')
    \<and> process_IsRunning (snd (process_Stop kill cid r')) cid
    \<and> process_IsRunning (snd (process_SendCommand err cid line r')) cid
    \<and> \<not> process_IsRunning (process_reap cid r') cid"
proof -
  obtain comb where started: "process_Start spawn now (runtime_cell iter comb c) r = (Inr (), r')"
    and s': "mgr s' = broadcastByID cid ''Cell started.'' (mgr s)"
    using assms(1,3)
    by (auto simp: Start_def process_ops_def Let_def sv_os_def split: sum.splits if_splits prod.splits)
  have run: "process_IsRunning r' cid"
    using process.start_running [OF started] assms(2) by (simp add: runtime_cell_def Let_def)
  obtain c' where c': "lookup_cell cid (mgr s') = Some c'" using assms(3) by (simp add: s' lookup_broadcast)
  have "fst (Start (process_ops spawn now kill err ps) cc iter cid (r', s')) \<noteq> Inr ()"
    using c' run by (simp add: Start_def process_ops_def split: sum.split)
  moreover have "fst (Delete (process_IsRunning r') cid s') = Inl (ErrorString ''cell must be stopped first'')"
    by (simp add: Delete_def with_cell_Some [OF c'] run sv_throw_def)
  moreover have "process_IsRunning (snd (process_Stop kill cid r')) = process_IsRunning r'"
    using process.stop_running [of kill cid r'] by (metis prod.collapse)
  moreover have "process_IsRunning (snd (process_SendCommand err cid line r')) = process_IsRunning r'"
    using process.send_running [of err cid line r'] by (metis prod.collapse)
  ultimately show ?thesis using run process.ended_running [of cid r' cid] by simp
qed

definition always_running :: "unit runtime_ops" where
  "always_running = \<lparr>rt_IsRunning = (\<lambda>_ _. True), rt_Start = (\<lambda>_ r. (Inr (), r)), rt_Stop = (\<lambda>_ r. (Inr (), r)),
     rt_SendCommand = (\<lambda>_ _ r. (Inr (), r)), rt_StartedAt = (\<lambda>_ _. None), rt_Stats = (\<lambda>_ _. Inr no_stats)\<rparr>"


theorem started_until_exit_witness:
  "let rt = process_ops (\<lambda>_ _. Inr 7) 0 (\<lambda>_. None) (\<lambda>_. None) (\<lambda>_. None);
     cc = sample_codec (plain_cell ''a'') no_lock some_comb;
     s = \<lparr>mgr = fresh_manager\<lparr>cells := [(''a'', plain_cell ''a'')], combs := [(''c'', some_comb)]\<rparr>, host = calm_world cell_files\<rparr>
   in case Start rt cc (\<lambda>vs. vs) ''a'' (NewProcessRuntime, s) of (x, r', s') \<Rightarrow> x = Inr () \<and> process_IsRunning r' ''a''"
proof -
  let ?rt = "process_ops (\<lambda>_ _. Inr 7) 0 (\<lambda>_. None) (\<lambda>_. None) (\<lambda>_. None)"
  let ?cc = "sample_codec (plain_cell ''a'') no_lock some_comb"
  let ?s = "\<lparr>mgr = fresh_manager\<lparr>cells := [(''a'', plain_cell ''a'')], combs := [(''c'', some_comb)]\<rparr>, host = calm_world cell_files\<rparr>"
  have found: "lookup_cell ''a'' (mgr ?s) = Some (plain_cell ''a'')" by (simp add: lookup_cell_def)
  have "cell_CombData (plain_cell ''a'') = None" "cell_Comb (plain_cell ''a'') = ''c''" "cell_ID (plain_cell ''a'') = ''a''"
    by (simp_all add: plain_cell_def)
  then obtain r' s' where start: "Start ?rt ?cc (\<lambda>vs. vs) ''a'' (NewProcessRuntime, ?s) = (Inr (), r', s')"
    using found
    by (auto simp: Start_def resolveCellComb_def Require_def process_ops_def process_IsRunning_def process_Start_def
        NewProcessRuntime_def Let_def sv_os_def split: prod.splits)
  have "cell_ID (plain_cell ''a'') = ''a''" by (simp add: plain_cell_def)
  from started_until_exit [OF start this found] start show ?thesis by (simp add: Let_def)
qed

section \<open>Installing and reinstalling\<close>


text \<open>
  \<open>Reinstall\<close> empties the cell for good before anything new is fetched: it succeeds on any stopped cell, leaves an
  empty directory and changes no file elsewhere, and it runs no install step.
\<close>

theorem Reinstall_correct:
  assumes "lookup_cell cid (mgr s) = Some c" "\<not> running cid" "calm (host s)" "cell_Dir c = rooted d" "d \<noteq> []"
    "on_dirs (files (host s)) d" "fs_get (files (host s)) d \<in> {None, Some DirNode}"
  shows "case Reinstall running cid s of (r, s') \<Rightarrow>
    r = Inr () \<and> (\<forall>p. fs_get (files (host s')) p =
      (if p = d then Some DirNode else if prefix d p then None else fs_get (files (host s)) p))"
proof -
  let ?w = "host s" and ?f = "files (host s)"
  let ?g = "fs_cut d ?f"
  have stat: "os_stat (rooted d) ?w = (case fs_get ?f d of None \<Rightarrow> Inl SysNotExist | Some n \<Rightarrow> Inr n, ?w\<lparr>ticks := Suc (ticks ?w)\<rparr>)"
    using assms(3,6,7) by (intro os_stat_on_dirs) auto
  have remove: "os_remove_all (rooted d) (?w\<lparr>ticks := n\<rparr>) = (Inr (), ?w\<lparr>files := ?g, ticks := Suc n\<rparr>)" for n
    using assms(3,5,6) by (simp add: os_remove_all_def os_call_calm locate_on_dirs)
  have "open_path ?g d"
    using assms(5,6) by (auto simp: open_path_def on_dirs_def strict_prefix_def)
  then obtain h where mk: "os_mkdir_all (rooted d) (?w\<lparr>files := ?g, ticks := Suc (Suc (ticks ?w))\<rparr>) =
      (Inr (), ?w\<lparr>files := h, ticks := Suc (Suc (Suc (ticks ?w)))\<rparr>)" "with_dirs d ?g h"
    using os_mkdir_all_creates [of "?w\<lparr>files := ?g, ticks := Suc (Suc (ticks ?w))\<rparr>" d] assms(3) by auto
  have h: "fs_get h p = (if p = d then Some DirNode else if prefix d p then None else fs_get ?f p)" for p
    using mk(2) assms(5,6) by (auto simp: with_dirs_def on_dirs_def strict_prefix_def)
  have "Reinstall running cid s = (Inr (), \<lparr>mgr = broadcastByID cid ''Cell is ready for reinstall.''
      (broadcast cid c ''Preparing cell for reinstall.'' (mgr s)), host = ?w\<lparr>files := h, ticks := Suc (Suc (Suc (ticks ?w)))\<rparr>\<rparr>)"
    using assms(2,4,7)
    by (auto simp: Reinstall_def with_cell_Some [OF assms(1)] reinstall_directory_def sv_defs os_wrap_def stat remove mk(1)
        os_is_not_exist_def is_dir_def Let_def)
  then show ?thesis using h by simp
qed


theorem Reinstall_correct_witness:
  "let (r, s') = Reinstall (\<lambda>_. False) ''a'' (small_server cell_files)
   in r = Inr () \<and> fs_get (files (host s')) [''i'', ''a''] = Some DirNode
    \<and> fs_get (files (host s')) [''i'', ''a'', ''world''] = None"
proof -
  let ?s = "small_server cell_files"
  have f: "files (host ?s) = cell_files" by (simp add: small_server_def)
  have found: "lookup_cell ''a'' (mgr ?s) = Some locked_cell" by (simp add: small_server_def lookup_cell_def)
  have dir: "cell_Dir locked_cell = rooted [''i'', ''a'']" by (simp add: locked_cell_def plain_cell_def rooted_def)
  have on: "on_dirs (files (host ?s)) [''i'', ''a'']" unfolding f by (rule on_dirs_check; code_simp)
  have "fs_get cell_files [''i'', ''a''] = Some DirNode" by code_simp
  then have node: "fs_get (files (host ?s)) [''i'', ''a''] \<in> {None, Some DirNode}" unfolding f by simp
  have calm: "calm (host ?s)" by (simp add: small_server_def)
  from Reinstall_correct [OF found _ calm dir _ on node, where running = "\<lambda>_. False"]
  show ?thesis by (simp add: Let_def split: prod.splits)
qed

end
