(* ===== verification/Config.thy ===== *)
theory Config
  imports CellStoreProps
begin

text \<open>
  The configuration of the worker, \<open>internal/config/config.go\<close>: defaults, the YAML file, overrides by environment
  variables, normal form, validation, registration at the panel and saving. The YAML codec, \<open>net.ParseIP\<close>, the
  environment, the HTTP exchange with the panel and the operating system's name are arguments.
\<close>

section \<open>Numbers in strings\<close>

definition is_digit :: "char \<Rightarrow> bool" where
  "is_digit c \<longleftrightarrow> (48::nat) \<le> of_char c \<and> of_char c \<le> (57::nat)"

definition signed_value :: "bool \<Rightarrow> string \<Rightarrow> int option" where
  "signed_value neg ds =
     (let n = int (digits_value ds); v = (if neg then - n else n)
      in if ds = [] \<or> v < - (2 ^ 63) \<or> v \<ge> 2 ^ 63 then None else Some v)"

definition split_sign :: "string \<Rightarrow> bool \<times> string" where
  "split_sign s = (case s of [] \<Rightarrow> (False, [])
     | c # cs \<Rightarrow> if c = CHR ''-'' then (True, cs) else if c = CHR ''+'' then (False, cs) else (False, c # cs))"

text \<open>\<open>strconv.Atoi\<close>.\<close>

definition Atoi :: "string \<Rightarrow> int option" where
  "Atoi s = (case split_sign s of (neg, ds) \<Rightarrow> if list_all is_digit ds then signed_value neg ds else None)"

text \<open>\<open>fmt.Sscanf(s, "%d", &n)\<close>: leading spaces and anything after the number are passed over.\<close>

definition Sscan_d :: "string \<Rightarrow> int option" where
  "Sscan_d s =
     (case split_sign (dropWhile (\<lambda>c. c = CHR '' '' \<or> c = CHR 0x09 \<or> c = CHR 0x0D) s) of
        (neg, ds) \<Rightarrow> signed_value neg (takeWhile is_digit ds))"

section \<open>Data\<close>

record AllocationConfig =
  Entries :: "Allocation list"
  legacy_IP :: string
  legacy_IPs :: "string list"
  PortStart :: int
  PortEnd :: int

record Config =
  ConfigPath :: string
  PanelURL :: string
  WorkerToken :: string
  RegistrationToken :: string
  WorkerListen :: string
  SFTPEnabled :: bool
  SFTPListen :: string
  PublicFQDN :: string
  PublicPort :: int
  HostKeyPath :: string
  AuthTimeoutSeconds :: int
  NodeID :: string
  PathsData :: string
  PathsInstances :: string
  PathsBackups :: string
  PathsBackupMounts :: string
  RuntimeType :: string
  DockerNetwork :: string
  Allocations :: AllocationConfig

definition defaultConfigPath :: "bool \<Rightarrow> string" where
  "defaultConfigPath windows = (if windows then ''config.yaml'' else ''/etc/hivepanel/worker.yml'')"

definition defaultSFTPHostKeyPath :: "bool \<Rightarrow> string" where
  "defaultSFTPHostKeyPath windows =
     (if windows then ''data/sftp_host_ed25519'' else ''/etc/hivepanel/keys/sftp_host_ed25519'')"

definition Default :: "bool \<Rightarrow> Config" where
  "Default windows =
     \<lparr>ConfigPath = [], PanelURL = ''http://localhost:8000'', WorkerToken = ''super-secret-token'', RegistrationToken = [],
      WorkerListen = ''0.0.0.0:8080'', SFTPEnabled = True, SFTPListen = ''0.0.0.0:2022'', PublicFQDN = [],
      PublicPort = 2022, HostKeyPath = defaultSFTPHostKeyPath windows, AuthTimeoutSeconds = 10, NodeID = [],
      PathsData = ''./data'', PathsInstances = ''./instances'', PathsBackups = ''./backups'',
      PathsBackupMounts = ''./backup_mounts'', RuntimeType = ''process'', DockerNetwork = ''hivepanel'',
      Allocations = \<lparr>Entries = [], legacy_IP = ''0.0.0.0'', legacy_IPs = [], PortStart = 25565, PortEnd = 25600\<rparr>\<rparr>"

section \<open>Normal form\<close>

definition trimSlash :: "string \<Rightarrow> string" where
  "trimSlash v = TrimRight v ''/''"

definition splitCommaSeparated :: "string \<Rightarrow> string list" where
  "splitCommaSeparated v = filter (\<lambda>part. part \<noteq> []) (map TrimSpace (Split (CHR '','') v))"

text \<open>\<open>strings.LastIndex(value, ":")\<close>, with what follows it.\<close>

definition portFromListen :: "string \<Rightarrow> int \<Rightarrow> int" where
  "portFromListen v fallback =
     (if CHR '':'' \<notin> set v then fallback
      else let rest = rev (takeWhile (\<lambda>c. c \<noteq> CHR '':'') (rev v))
      in if rest = [] then fallback
         else case Sscan_d rest of
             None \<Rightarrow> fallback
           | Some port \<Rightarrow> if port < 1 \<or> port > 65535 then fallback else port)"

fun dedup_entries :: "string list \<Rightarrow> Allocation list \<Rightarrow> Allocation list" where
  "dedup_entries seen [] = []"
| "dedup_entries seen (item0 # items) =
     (let item = item0\<lparr>IP := TrimSpace (IP item0)\<rparr>; key = JoinHostPort (IP item) (Itoa (Port item))
      in if IP item = [] \<or> Port item < 1 \<or> Port item > 65535 then dedup_entries seen items
         else if key \<in> set seen then dedup_entries seen items
         else item # dedup_entries (key # seen) items)"

definition deduplicateAllocationEntries :: "Allocation list \<Rightarrow> Allocation list" where
  "deduplicateAllocationEntries entries = dedup_entries [] entries"

fun dedup_ips :: "string list \<Rightarrow> string list \<Rightarrow> string list" where
  "dedup_ips seen [] = []"
| "dedup_ips seen (ip0 # ips) =
     (let ip = TrimSpace ip0
      in if ip = [] \<or> ip \<in> set seen then dedup_ips seen ips else ip # dedup_ips (ip # seen) ips)"

definition normaliseAllocationIPs :: "string \<Rightarrow> string list \<Rightarrow> string list" where
  "normaliseAllocationIPs primary0 configured =
     (let vs = filter (\<lambda>ip. ip \<noteq> []) (map TrimSpace configured); primary = TrimSpace primary0
      in dedup_ips [] (if vs = [] \<and> primary \<noteq> [] then [primary] else vs))"

definition normaliseAllocationEntries :: "AllocationConfig \<Rightarrow> Allocation list" where
  "normaliseAllocationEntries cfg =
     (if Entries cfg \<noteq> [] then deduplicateAllocationEntries (Entries cfg)
      else let ips = normaliseAllocationIPs (TrimSpace (legacy_IP cfg)) (legacy_IPs cfg)
      in if ips = [] then []
         else if PortStart cfg < 1 \<or> PortEnd cfg < PortStart cfg then []
         else deduplicateAllocationEntries
           (concat (map (\<lambda>ip. map (\<lambda>port. \<lparr>IP = ip, Port = port\<rparr>) [PortStart cfg..PortEnd cfg]) ips)))"

definition normalise :: "bool \<Rightarrow> Config \<Rightarrow> Config" where
  "normalise windows cfg =
     (let c1 = cfg\<lparr>PanelURL := trimSlash (TrimSpace (PanelURL cfg)), WorkerListen := TrimSpace (WorkerListen cfg),
            NodeID := TrimSpace (NodeID cfg), SFTPListen := TrimSpace (SFTPListen cfg),
            PublicFQDN := TrimSpace (PublicFQDN cfg), HostKeyPath := TrimSpace (HostKeyPath cfg),
            PathsData := path_clean (PathsData cfg), PathsInstances := path_clean (PathsInstances cfg),
            PathsBackups := path_clean (PathsBackups cfg), PathsBackupMounts := path_clean (PathsBackupMounts cfg),
            Allocations := \<lparr>Entries = normaliseAllocationEntries (Allocations cfg), legacy_IP = [], legacy_IPs = [],
              PortStart = 0, PortEnd = 0\<rparr>\<rparr>;
          c2 = (if PublicPort c1 = 0 then c1\<lparr>PublicPort := portFromListen (SFTPListen c1) 2022\<rparr> else c1);
          c3 = (if HostKeyPath c2 = [] then c2\<lparr>HostKeyPath := defaultSFTPHostKeyPath windows\<rparr> else c2)
      in if AuthTimeoutSeconds c3 \<le> 0 then c3\<lparr>AuthTimeoutSeconds := 10\<rparr> else c3)"

section \<open>Validation\<close>

fun validate_entries :: "(string \<Rightarrow> bool) \<Rightarrow> string list \<Rightarrow> Allocation list \<Rightarrow> go_error option" where
  "validate_entries parse_ip seen [] = None"
| "validate_entries parse_ip seen (item # items) =
     (let ip = TrimSpace (IP item); key = JoinHostPort ip (Itoa (Port item))
      in if ip = [] then Some (ErrorString ''allocation IP is required'')
         else if ip \<noteq> ''0.0.0.0'' \<and> ip \<noteq> ''::'' \<and> \<not> parse_ip ip
         then Some (ErrorString (''invalid allocation IP address: '' @ ip))
         else if Port item < 1 \<or> Port item > 65535
         then Some (ErrorString (''allocation port must be between 1 and 65535 for '' @ ip))
         else if key \<in> set seen then Some (ErrorString (''duplicate allocation entry: '' @ key))
         else validate_entries parse_ip (key # seen) items)"

definition config_validate :: "(string \<Rightarrow> bool) \<Rightarrow> Config \<Rightarrow> go_error option" where
  "config_validate parse_ip cfg =
     (if PanelURL cfg = [] then Some (ErrorString ''panel.url is required'')
      else if WorkerListen cfg = [] then Some (ErrorString ''worker.listen is required'')
      else if PathsInstances cfg = [] \<or> PathsInstances cfg = ''.'' then Some (ErrorString ''paths.instances is required'')
      else if Entries (Allocations cfg) = [] then Some (ErrorString ''at least one allocations.entries item is required'')
      else case validate_entries parse_ip [] (Entries (Allocations cfg)) of
          Some e \<Rightarrow> Some e
        | None \<Rightarrow>
            if SFTPEnabled cfg then
              (if SFTPListen cfg = [] then Some (ErrorString ''sftp.listen is required when SFTP is enabled'')
               else if PublicPort cfg < 1 \<or> PublicPort cfg > 65535
               then Some (ErrorString ''sftp.public_port must be between 1 and 65535'')
               else if HostKeyPath cfg = [] then Some (ErrorString ''sftp.host_key_path is required'')
               else if WorkerToken cfg = [] then Some (ErrorString ''worker.token is required when SFTP is enabled'')
               else if NodeID cfg = [] then Some (ErrorString ''node.id is required when SFTP is enabled'')
               else None)
            else None)"

section \<open>Saving, registering, loading\<close>

record config_env =
  yaml_enc :: "Config \<Rightarrow> go_error + string"
  yaml_dec :: "Config \<Rightarrow> string \<Rightarrow> go_error + Config"
  env_parse_ip :: "string \<Rightarrow> bool"
  getenv :: "string \<Rightarrow> string"
  windows :: bool
  config_flag :: string
  register :: "string \<Rightarrow> string \<Rightarrow> go_error + (int \<times> string)"
  registration_dec :: "string \<Rightarrow> go_error + (string \<times> string)"

definition config_Save :: "config_env \<Rightarrow> Config \<Rightarrow> unit os" where
  "config_Save ce cfg0 =
     (let cfg1 = (if ConfigPath cfg0 = [] then cfg0\<lparr>ConfigPath := config_flag ce\<rparr> else cfg0);
          cfg = normalise (windows ce) cfg1
      in case config_validate (env_parse_ip ce) cfg of
           Some e \<Rightarrow> os_throw e
         | None \<Rightarrow>
             os_seq (os_mkdir_all (path_dir (ConfigPath cfg)))
            (os_bind (os_lift (yaml_enc ce cfg)) (\<lambda>data. os_write_file (ConfigPath cfg) data)))"

definition override :: "config_env \<Rightarrow> string \<Rightarrow> (string \<Rightarrow> Config \<Rightarrow> Config) \<Rightarrow> Config \<Rightarrow> Config" where
  "override ce name f cfg = (if getenv ce name \<noteq> [] then f (getenv ce name) cfg else cfg)"

definition set_allocations :: "(AllocationConfig \<Rightarrow> AllocationConfig) \<Rightarrow> Config \<Rightarrow> Config" where
  "set_allocations f cfg = cfg\<lparr>Allocations := (f (Allocations cfg))\<lparr>Entries := []\<rparr>\<rparr>"

definition applyEnvironmentOverrides :: "config_env \<Rightarrow> Config \<Rightarrow> Config" where
  "applyEnvironmentOverrides ce cfg =
     (let c1 = override ce ''HIVEPANEL_WORKER_TOKEN'' (\<lambda>v c. c\<lparr>WorkerToken := v\<rparr>) cfg;
          c2 = override ce ''HIVEPANEL_PANEL_URL'' (\<lambda>v c. c\<lparr>PanelURL := v\<rparr>) c1;
          c3 = override ce ''HIVEPANEL_NODE_ID'' (\<lambda>v c. c\<lparr>NodeID := v\<rparr>) c2;
          c4 = override ce ''HIVEPANEL_SFTP_LISTEN'' (\<lambda>v c. c\<lparr>SFTPListen := v\<rparr>) c3;
          c5 = override ce ''HIVEPANEL_SFTP_HOST_KEY'' (\<lambda>v c. c\<lparr>HostKeyPath := v\<rparr>) c4;
          c6 = override ce ''HIVEPANEL_ALLOCATION_IP'' (\<lambda>v. set_allocations (\<lambda>a. a\<lparr>legacy_IP := v\<rparr>)) c5;
          c7 = override ce ''HIVEPANEL_ALLOCATION_IPS''
            (\<lambda>v. set_allocations (\<lambda>a. a\<lparr>legacy_IPs := splitCommaSeparated v\<rparr>)) c6;
          c8 = override ce ''HIVEPANEL_ALLOCATION_PORT_START'' (\<lambda>v c. case Sscan_d v of
            None \<Rightarrow> c | Some port \<Rightarrow> set_allocations (\<lambda>a. a\<lparr>PortStart := port\<rparr>) c) c7
      in override ce ''HIVEPANEL_ALLOCATION_PORT_END'' (\<lambda>v c. case Sscan_d v of
            None \<Rightarrow> c | Some port \<Rightarrow> set_allocations (\<lambda>a. a\<lparr>PortEnd := port\<rparr>) c) c8)"

definition RegisterWorker :: "config_env \<Rightarrow> Config \<Rightarrow> Config os" where
  "RegisterWorker ce cfg =
     os_bind (os_lift (register ce (trimSlash (PanelURL cfg) @ ''/api/worker/register'') (RegistrationToken cfg)))
      (\<lambda>(status, body).
       if status < 200 \<or> status \<ge> 300
       then os_throw (ErrorString (''registration failed with HTTP '' @ Itoa status))
       else os_bind (os_lift (registration_dec ce body)) (\<lambda>(node, token).
         if node = [] then os_throw (ErrorString ''registration response did not include node_id'')
         else if token = [] then os_throw (ErrorString ''registration response did not include token'')
         else let cfg' = cfg\<lparr>NodeID := node, WorkerToken := token, RegistrationToken := []\<rparr>
              in os_seq (config_Save ce cfg') (os_return cfg')))"

text \<open>An error of \<open>config_Load\<close> is a panic: the worker does not start.\<close>

definition config_Load :: "config_env \<Rightarrow> Config os" where
  "config_Load ce =
     (let cfg0 = (Default (windows ce))\<lparr>ConfigPath := config_flag ce\<rparr>
      in os_bind (os_attempt (os_read_file (config_flag ce)) (\<lambda>r. case r of
           Inr data \<Rightarrow> os_wrap ''failed to parse config file'' (os_lift (yaml_dec ce cfg0 data))
         | Inl e \<Rightarrow> if \<not> os_is_not_exist e then os_throw (WrapError ''failed to read config file'' e)
             else os_return cfg0)) (\<lambda>cfg1.
         let cfg2 = normalise (windows ce) (applyEnvironmentOverrides ce cfg1)
         in os_bind (if RegistrationToken cfg2 \<noteq> [] \<and> WorkerToken cfg2 = []
              then os_wrap ''failed to register worker'' (RegisterWorker ce cfg2) else os_return cfg2) (\<lambda>cfg.
            case config_validate (env_parse_ip ce) cfg of
              Some e \<Rightarrow> os_throw (WrapError ''invalid worker configuration'' e)
            | None \<Rightarrow> os_return cfg)))"

section \<open>Normal form and validation\<close>

lemma dedup_entries_normalise: "dedup_entries seen items = normalise_loop seen items"
  by (induction items arbitrary: seen)
    (auto simp: Let_def validAllocation_def normaliseAllocation_def allocationKey_def)

text \<open>
  The configuration removes invalid and repeated slots exactly as the pool of allocations does, so the pool made
  from a loaded configuration holds precisely the configured slots.
\<close>

theorem config_slots_are_the_pool:
  "deduplicateAllocationEntries entries = normaliseAllocations entries
    \<and> allowed (NewManager (deduplicateAllocationEntries entries)) = deduplicateAllocationEntries entries"
  by (simp add: deduplicateAllocationEntries_def dedup_entries_normalise NewManager_def normalise_config_ok
      flip: normaliseAllocations_def)

lemma clean_comps_dots:
  "plains qs \<Longrightarrow> clean_comps False (replicate k ''..'') (replicate n ''..'' @ qs) = replicate (k + n) ''..'' @ qs"
proof (induction n arbitrary: k)
  case (Suc n)
  have "clean_comps False (replicate k ''..'') (''..'' # replicate n ''..'' @ qs) =
      clean_comps False (replicate (Suc k) ''..'') (replicate n ''..'' @ qs)"
    by (cases k) auto
  then show ?case using Suc.IH [OF Suc.prems, of "Suc k"] by simp
qed (simp add: clean_comps_plains)

lemma path_clean_idem: "path_clean (path_clean p) = path_clean p"
proof (cases "is_abs p")
  case True
  then show ?thesis by (simp add: path_clean_abs)
next
  case False
  obtain n qs where p: "plains qs" "path_clean p = (if n = 0 \<and> qs = [] then ''.''
      else JoinWith slash (replicate n ''..'' @ qs))"
    using path_clean_relative [OF False] .
  show ?thesis
  proof (cases "n = 0 \<and> qs = []")
    case True
    have "path_clean ''.'' = ''.''" by code_simp
    with p True show ?thesis by simp
  next
    case ne: False
    let ?cs = "replicate n ''..'' @ qs"
    have "Split slash (JoinWith slash ?cs) = ?cs"
      by (rule Split_JoinWith) (use p(1) ne plains_noslash in auto)
    moreover have "\<not> is_abs (JoinWith slash ?cs)"
    proof (cases n)
      case 0
      then show ?thesis using ne p(1) by (cases qs; cases "tl qs"; cases "hd qs") (auto simp: plain_def)
    next
      case (Suc m)
      then show ?thesis by (cases "replicate m ''..'' @ qs") auto
    qed
    ultimately show ?thesis
      using p ne clean_comps_dots [OF p(1), of 0 n] by (simp add: path_clean_def Let_def)
  qed
qed

text \<open>What a configuration file must be for its normal form to be stable: no blank after a final slash of the address.\<close>

definition stable_url :: "string \<Rightarrow> bool" where
  "stable_url u \<longleftrightarrow> trimSlash (TrimSpace (trimSlash (TrimSpace u))) = trimSlash (TrimSpace u)"

lemma normaliseAllocationEntries_stable:
  "normaliseAllocationEntries \<lparr>Entries = normaliseAllocationEntries a, legacy_IP = [], legacy_IPs = [], PortStart = 0,
     PortEnd = 0\<rparr> = normaliseAllocationEntries a"
proof (cases "normaliseAllocationEntries a = []")
  case True
  then show ?thesis by (simp add: normaliseAllocationEntries_def normaliseAllocationIPs_def)
next
  case False
  have "config_ok (normaliseAllocationEntries a)"
    using False by (auto simp: normaliseAllocationEntries_def deduplicateAllocationEntries_def dedup_entries_normalise Let_def
        simp flip: normaliseAllocations_def split: if_splits)
  then show ?thesis
    using False
    by (simp add: normaliseAllocationEntries_def [of "\<lparr>Entries = _, legacy_IP = _, legacy_IPs = _, PortStart = _, PortEnd = _\<rparr>"]
        deduplicateAllocationEntries_def dedup_entries_normalise normalise_config_ok flip: normaliseAllocations_def)
qed

lemma portFromListen_range: "portFromListen v 2022 \<noteq> 0"
  by (simp add: portFromListen_def Let_def split: option.split)

lemma normalise_fixed:
  assumes "trimSlash (TrimSpace (PanelURL n)) = PanelURL n" "TrimSpace (WorkerListen n) = WorkerListen n"
    "TrimSpace (NodeID n) = NodeID n" "TrimSpace (SFTPListen n) = SFTPListen n" "TrimSpace (PublicFQDN n) = PublicFQDN n"
    "TrimSpace (HostKeyPath n) = HostKeyPath n" "path_clean (PathsData n) = PathsData n"
    "path_clean (PathsInstances n) = PathsInstances n" "path_clean (PathsBackups n) = PathsBackups n"
    "path_clean (PathsBackupMounts n) = PathsBackupMounts n"
    "\<lparr>Entries = normaliseAllocationEntries (Allocations n), legacy_IP = [], legacy_IPs = [], PortStart = 0, PortEnd = 0\<rparr>
       = Allocations n"
    "PublicPort n \<noteq> 0" "HostKeyPath n \<noteq> []" "0 < AuthTimeoutSeconds n"
  shows "normalise w n = n"
  using assms by (cases n) (simp add: normalise_def)

lemma normalise_fields:
  "PanelURL (normalise w cfg) = trimSlash (TrimSpace (PanelURL cfg))"
  "WorkerListen (normalise w cfg) = TrimSpace (WorkerListen cfg)" "NodeID (normalise w cfg) = TrimSpace (NodeID cfg)"
  "SFTPListen (normalise w cfg) = TrimSpace (SFTPListen cfg)" "PublicFQDN (normalise w cfg) = TrimSpace (PublicFQDN cfg)"
  "HostKeyPath (normalise w cfg) = (if TrimSpace (HostKeyPath cfg) = [] then defaultSFTPHostKeyPath w else TrimSpace (HostKeyPath cfg))"
  "PathsData (normalise w cfg) = path_clean (PathsData cfg)" "PathsInstances (normalise w cfg) = path_clean (PathsInstances cfg)"
  "PathsBackups (normalise w cfg) = path_clean (PathsBackups cfg)"
  "PathsBackupMounts (normalise w cfg) = path_clean (PathsBackupMounts cfg)"
  "Allocations (normalise w cfg) = \<lparr>Entries = normaliseAllocationEntries (Allocations cfg), legacy_IP = [], legacy_IPs = [],
     PortStart = 0, PortEnd = 0\<rparr>"
  "PublicPort (normalise w cfg) = (if PublicPort cfg = 0 then portFromListen (TrimSpace (SFTPListen cfg)) 2022 else PublicPort cfg)"
  "AuthTimeoutSeconds (normalise w cfg) = (if AuthTimeoutSeconds cfg \<le> 0 then 10 else AuthTimeoutSeconds cfg)"
  "WorkerToken (normalise w cfg) = WorkerToken cfg" "RegistrationToken (normalise w cfg) = RegistrationToken cfg"
  "ConfigPath (normalise w cfg) = ConfigPath cfg" "SFTPEnabled (normalise w cfg) = SFTPEnabled cfg"
  "RuntimeType (normalise w cfg) = RuntimeType cfg" "DockerNetwork (normalise w cfg) = DockerNetwork cfg"
  by (simp_all add: normalise_def Let_def)

lemma TrimSpace_default_key: "TrimSpace (defaultSFTPHostKeyPath w) = defaultSFTPHostKeyPath w" "defaultSFTPHostKeyPath w \<noteq> []"
proof -
  have "TrimSpace ''data/sftp_host_ed25519'' = ''data/sftp_host_ed25519''" by code_simp
  moreover have "TrimSpace ''/etc/hivepanel/keys/sftp_host_ed25519'' = ''/etc/hivepanel/keys/sftp_host_ed25519''" by code_simp
  ultimately show "TrimSpace (defaultSFTPHostKeyPath w) = defaultSFTPHostKeyPath w" "defaultSFTPHostKeyPath w \<noteq> []"
    by (simp_all add: defaultSFTPHostKeyPath_def)
qed

lemma normalise_idem:
  assumes "stable_url (PanelURL cfg)"
  shows "normalise w (normalise w cfg) = normalise w cfg"
  by (rule normalise_fixed)
    (use assms portFromListen_range in \<open>simp_all add: normalise_fields path_clean_idem normaliseAllocationEntries_stable
       stable_url_def TrimSpace_default_key\<close>)

lemma validate_entries_None:
  "validate_entries parse_ip seen items = None \<longleftrightarrow>
     list_all (\<lambda>a. TrimSpace (IP a) \<noteq> [] \<and> (TrimSpace (IP a) \<in> {''0.0.0.0'', ''::''} \<or> parse_ip (TrimSpace (IP a)))
       \<and> 1 \<le> Port a \<and> Port a \<le> 65535) items
     \<and> distinct (map allocationKey items) \<and> allocationKey ` set items \<inter> set seen = {}"
  by (induction items arbitrary: seen)
    (auto simp: Let_def allocationKey_def simp flip: linorder_not_le)

lemma config_ok_entries: "config_ok (normaliseAllocationEntries a)"
  by (auto simp: normaliseAllocationEntries_def deduplicateAllocationEntries_def dedup_entries_normalise Let_def
      config_ok_def [of "[]"] simp flip: normaliseAllocations_def)

definition address_ok :: "(string \<Rightarrow> bool) \<Rightarrow> string \<Rightarrow> bool" where
  "address_ok parse_ip ip \<longleftrightarrow> ip = ''0.0.0.0'' \<or> ip = ''::'' \<or> parse_ip ip"

lemma normal_slot: "validAllocation i \<and> normaliseAllocation i = i \<Longrightarrow> TrimSpace (IP i) = IP i \<and> IP i \<noteq> [] \<and> 1 \<le> Port i \<and> Port i \<le> 65535"
  by (cases i) (simp add: normaliseAllocation_def validAllocation_def)

lemma validate_config_ok:
  assumes "config_ok as"
  shows "validate_entries parse_ip [] as = None \<longleftrightarrow> list_all (\<lambda>i. address_ok parse_ip (IP i)) as"
proof -
  have "\<forall>i \<in> set as. TrimSpace (IP i) = IP i \<and> IP i \<noteq> [] \<and> 1 \<le> Port i \<and> Port i \<le> 65535"
    using assms normal_slot by (auto simp: config_ok_def)
  moreover have "distinct (map allocationKey as)"
    using assms by (simp add: config_ok_def)
  ultimately show ?thesis
    by (simp add: validate_entries_None list_all_iff address_ok_def)
qed

lemmas validate_normalised_entries = validate_config_ok [OF config_ok_entries]

text \<open>
  C25. A configuration in normal form is accepted exactly when it names a panel, a listen address and a directory for
  the cells that is not the working directory, has a slot, its addresses are addresses, and, when SFTP is on, it has an
  SFTP address, a public port, a token and a node id: slots are never refused as invalid or repeated, and the host key
  is never missing.
\<close>

theorem normalised_config_accepted:
  "config_validate parse_ip (normalise w cfg) = None \<longleftrightarrow>
     trimSlash (TrimSpace (PanelURL cfg)) \<noteq> [] \<and> TrimSpace (WorkerListen cfg) \<noteq> []
     \<and> path_clean (PathsInstances cfg) \<notin> {[], ''.''}
     \<and> normaliseAllocationEntries (Allocations cfg) \<noteq> []
     \<and> list_all (\<lambda>i. address_ok parse_ip (IP i)) (normaliseAllocationEntries (Allocations cfg))
     \<and> (SFTPEnabled cfg \<longrightarrow> TrimSpace (SFTPListen cfg) \<noteq> [] \<and> PublicPort (normalise w cfg) \<in> {1..65535}
         \<and> WorkerToken cfg \<noteq> [] \<and> TrimSpace (NodeID cfg) \<noteq> [])"
  using TrimSpace_default_key(2) [of w]
  by (cases "validate_entries parse_ip [] (normaliseAllocationEntries (Allocations cfg))")
    (auto simp: config_validate_def normalise_fields validate_normalised_entries [symmetric])

section \<open>Saving and loading\<close>

text \<open>
  What \<open>yaml.Unmarshal\<close> into a configuration \<open>d\<close> makes of the text of a configuration \<open>c\<close>: the path is never
  written, and fields marked \<open>omitempty\<close> that are empty are not written and keep the value of \<open>d\<close>.
\<close>

definition overlay :: "Config \<Rightarrow> Config \<Rightarrow> Config" where
  "overlay d c = c\<lparr>ConfigPath := ConfigPath d, Allocations :=
     \<lparr>Entries = (if Entries (Allocations c) = [] then Entries (Allocations d) else Entries (Allocations c)),
      legacy_IP = (if legacy_IP (Allocations c) = [] then legacy_IP (Allocations d) else legacy_IP (Allocations c)),
      legacy_IPs = (if legacy_IPs (Allocations c) = [] then legacy_IPs (Allocations d) else legacy_IPs (Allocations c)),
      PortStart = (if PortStart (Allocations c) = 0 then PortStart (Allocations d) else PortStart (Allocations c)),
      PortEnd = (if PortEnd (Allocations c) = 0 then PortEnd (Allocations d) else PortEnd (Allocations c))\<rparr>\<rparr>"

definition yaml_law :: "config_env \<Rightarrow> Config \<Rightarrow> bool" where
  "yaml_law ce c \<longleftrightarrow> (\<exists>text. yaml_enc ce c = Inr text
     \<and> yaml_dec ce ((Default (windows ce))\<lparr>ConfigPath := config_flag ce\<rparr>) text
         = Inr (overlay ((Default (windows ce))\<lparr>ConfigPath := config_flag ce\<rparr>) c))"

lemma WorkerToken_overlay: "WorkerToken (overlay d c) = WorkerToken c"
  by (simp add: overlay_def)

lemma no_overrides: "(\<And>v. getenv ce v = []) \<Longrightarrow> applyEnvironmentOverrides ce cfg = cfg"
  by (simp add: applyEnvironmentOverrides_def override_def)

lemma normalise_entries_only:
  assumes "Entries a = Entries b" "Entries a \<noteq> []"
  shows "normaliseAllocationEntries a = normaliseAllocationEntries b"
  using assms by (simp add: normaliseAllocationEntries_def)

lemma normalise_overlay:
  assumes "stable_url (PanelURL cfg)" "normaliseAllocationEntries (Allocations cfg) \<noteq> []" "ConfigPath d = ConfigPath cfg"
  shows "normalise w (overlay d (normalise w cfg)) = normalise w cfg"
proof -
  let ?n = "normalise w cfg"
  have e: "Entries (Allocations ?n) \<noteq> []" using assms(2) by (simp add: normalise_fields)
  have "normaliseAllocationEntries (Allocations (overlay d ?n)) = normaliseAllocationEntries (Allocations ?n)"
    by (rule normalise_entries_only) (use e in \<open>simp_all add: overlay_def\<close>)
  moreover have "PanelURL (overlay d ?n) = PanelURL ?n" "ConfigPath (overlay d ?n) = ConfigPath ?n"
    using assms(3) by (simp_all add: overlay_def normalise_fields)
  ultimately have "normalise w (overlay d ?n) = normalise w ?n"
    by (simp add: normalise_def Let_def overlay_def)
  then show ?thesis using normalise_idem [OF assms(1)] by simp
qed

text \<open>
  C24. A saved configuration is the configuration of the next start: without environment overrides, \<open>Load\<close> reads back
  the normal form of what \<open>Save\<close> was given, although the defaults for the legacy address range are still there when
  the file is decoded. The file needs no slot range, only a token, so that the worker does not register again.
\<close>

theorem config_Save_Load_roundtrip:
  assumes "calm w" "dir_here (files w) D" "plain name" "CHR 0x00 \<notin> set name" "config_flag ce = rooted (D @ [name])"
    "case fs_get (files w) (D @ [name]) of None \<Rightarrow> True | Some (FileNode _) \<Rightarrow> True | _ \<Rightarrow> False"
    "ConfigPath cfg = config_flag ce" "stable_url (PanelURL cfg)" "WorkerToken cfg \<noteq> []" "\<And>v. getenv ce v = []"
    "config_validate (env_parse_ip ce) (normalise (windows ce) cfg) = None"
    "yaml_law ce (normalise (windows ce) cfg)"
  shows "case config_Save ce cfg w of (r, w') \<Rightarrow>
    r = Inr () \<and> fst (config_Load ce w') = Inr (normalise (windows ce) cfg)"
proof -
  let ?n = "normalise (windows ce) cfg" and ?p = "D @ [name]"
  let ?d = "(Default (windows ce))\<lparr>ConfigPath := config_flag ce\<rparr>"
  obtain body where body: "yaml_enc ce ?n = Inr body" "yaml_dec ce ?d body = Inr (overlay ?d ?n)"
    using assms(12) unfolding yaml_law_def by blast
  have p: "on_dirs (files w) ?p" by (rule on_dirs_entry [OF assms(2-4)])
  have dir: "path_dir (ConfigPath ?n) = rooted D"
    using p assms(5,7) by (simp add: normalise_fields path_dir_plains on_dirs_def)
  have path: "ConfigPath ?n = rooted ?p" "ConfigPath cfg \<noteq> []"
    using assms(5,7) by (simp_all add: normalise_fields rooted_def)
  have link: "\<forall>t. fs_get (files w) ?p \<noteq> Some (LinkNode t)" using assms(6) by (auto split: option.splits node.splits)
  let ?f = "fs_put ?p (FileNode body) (files w)"
  obtain t where saved: "config_Save ce cfg w = (Inr (), w\<lparr>files := ?f, ticks := t\<rparr>)"
    using assms(1,2,6,11) body(1) path dir p link
    by (simp add: config_Save_def os_bind_def os_lift_def os_mkdir_all_present os_write_file_def os_call_calm locate_on_dirs
        split: option.splits node.splits)
  have p': "on_dirs ?f ?p" using p by (auto simp: on_dirs_def)
  have read: "fs_read d ?f (rooted ?p) = Inr body" for d
    using p' by (simp add: fs_read_def fs_info_on_dirs)
  have slots: "normaliseAllocationEntries (Allocations cfg) \<noteq> []"
    using assms(11) by (auto simp: config_validate_def normalise_fields split: if_splits)
  have again: "normalise (windows ce) (overlay ?d ?n) = ?n"
    by (rule normalise_overlay) (use assms slots in simp_all)
  have "fst (config_Load ce (w\<lparr>files := ?f, ticks := t\<rparr>)) = Inr ?n"
    using assms(1,5,9,11) read body(2) again
    by (simp add: config_Load_def os_bind_def os_attempt_def os_read_file_calm os_wrap_def os_lift_def os_return_def
        no_overrides [OF assms(10)] normalise_fields WorkerToken_overlay Let_def)
  then show ?thesis using saved by simp
qed

text \<open>
  A file that names no worker token leaves the published default token in force, and then a registration token is
  never used: the worker does not register at the panel, whatever the panel would answer.
\<close>

theorem default_token_stays:
  assumes "\<And>v. getenv ce v = []"
    "os_read_file (config_flag ce) w = (Inr body, w')"
    "yaml_dec ce ((Default (windows ce))\<lparr>ConfigPath := config_flag ce\<rparr>) body = Inr c"
    "WorkerToken c = WorkerToken (Default (windows ce))"
  shows "config_Load ce w = (case config_validate (env_parse_ip ce) (normalise (windows ce) c) of
      Some e \<Rightarrow> (Inl (WrapError ''invalid worker configuration'' e), w')
    | None \<Rightarrow> (Inr (normalise (windows ce) c), w'))
    \<and> WorkerToken (normalise (windows ce) c) = ''super-secret-token''"
proof -
  have "WorkerToken c = ''super-secret-token''" using assms(4) by (simp add: Default_def)
  then show ?thesis
    using assms(2,3)
    by (simp add: config_Load_def os_bind_def os_attempt_def os_wrap_def os_lift_def os_return_def os_throw_def Let_def
        no_overrides [OF assms(1)] normalise_fields split: option.splits)
qed

section \<open>Witnesses\<close>

definition sample_config :: Config where
  "sample_config = (Default False)\<lparr>ConfigPath := ''/etc/w.yml'', NodeID := ''node-1'',
     Allocations := \<lparr>Entries = [\<lparr>IP = ''10.0.0.1'', Port = 8\<rparr>], legacy_IP = [], legacy_IPs = [], PortStart = 0, PortEnd = 0\<rparr>\<rparr>"

definition sample_config_env :: config_env where
  "sample_config_env =
     \<lparr>yaml_enc = \<lambda>_. Inr ''text'', yaml_dec = \<lambda>d _. Inr (overlay d (normalise False sample_config)), env_parse_ip = \<lambda>_. True,
      getenv = \<lambda>_. [], windows = False, config_flag = ''/etc/w.yml'', register = \<lambda>_ _. Inl (ErrorString ''offline''),
      registration_dec = \<lambda>_. Inl (ErrorString ''bad'')\<rparr>"

lemma sample_config_valid:
  "config_validate (env_parse_ip sample_config_env) (normalise (windows sample_config_env) sample_config) = None"
  by code_simp

theorem normalised_config_accepted_witness:
  "config_validate (\<lambda>_. True) (normalise False sample_config) = None \<and> SFTPEnabled sample_config"
proof (intro conjI normalised_config_accepted [THEN iffD2] impI)
  have "PublicPort (normalise False sample_config) = 2022" by code_simp
  then show "PublicPort (normalise False sample_config) \<in> {1..65535}" by simp
qed code_simp+

theorem config_Save_Load_roundtrip_witness:
  "case config_Save sample_config_env sample_config (calm_world [([''etc''], DirNode)]) of (r, w') \<Rightarrow>
    r = Inr () \<and> fst (config_Load sample_config_env w') = Inr (normalise (windows sample_config_env) sample_config)"
proof (rule config_Save_Load_roundtrip [where D = "[''etc'']" and name = "''w.yml''"])
  show "dir_here (files (calm_world [([''etc''], DirNode)])) [''etc'']"
    unfolding calm_world_simps by (rule dir_here_check; code_simp)
  show "stable_url (PanelURL sample_config)" by code_simp
  show "config_validate (env_parse_ip sample_config_env) (normalise (windows sample_config_env) sample_config) = None"
    by (rule sample_config_valid)
  show "yaml_law sample_config_env (normalise (windows sample_config_env) sample_config)"
    by (simp add: yaml_law_def sample_config_env_def)
qed (simp_all add: sample_config_env_def sample_config_def Default_def rooted_def plain_def fs_get_def)

theorem default_token_stays_witness:
  "let w = calm_world [([''etc''], DirNode), ([''etc'', ''w.yml''], FileNode ''text'')];
       c = normalise False sample_config\<lparr>RegistrationToken := ''once''\<rparr>;
       ce = sample_config_env\<lparr>yaml_dec := \<lambda>_ _. Inr c\<rparr>
   in config_Load ce w = (case config_validate (env_parse_ip ce) (normalise (windows ce) c) of
        Some e \<Rightarrow> (Inl (WrapError ''invalid worker configuration'' e), w\<lparr>ticks := 1\<rparr>)
      | None \<Rightarrow> (Inr (normalise (windows ce) c), w\<lparr>ticks := 1\<rparr>))
    \<and> WorkerToken (normalise (windows ce) c) = ''super-secret-token''"
  unfolding Let_def
proof (rule default_token_stays)
  let ?w = "calm_world [([''etc''], DirNode), ([''etc'', ''w.yml''], FileNode ''text'')]"
  have "fs_read (wd ?w) (files ?w) ''/etc/w.yml'' = Inr ''text''" by code_simp
  then show "os_read_file (config_flag (sample_config_env\<lparr>yaml_dec := \<lambda>_ _. Inr (normalise False sample_config\<lparr>RegistrationToken := ''once''\<rparr>)\<rparr>)) ?w
      = (Inr ''text'', ?w\<lparr>ticks := 1\<rparr>)"
    by (simp add: os_read_file_calm sample_config_env_def)
qed (simp_all add: sample_config_env_def normalise_fields sample_config_def Default_def)

end
