(* ===== verification/Players.thy ===== *)
theory Players
  imports CellRun "HOL-Library.Product_Lexorder"
begin

text \<open>
  The players of a cell, read from the log of the game server: \<open>internal/players/logfallback.go\<close>. What earlier runs
  found out is kept in a state file, a map from names to players; \<open>iter\<close> is the order in which Go iterates over that
  map, the JSON codec and the time are arguments. The three regular expressions are written out: after \<open>]: \<close> they want
  a name of 3 to 16 letters, digits and underscores followed by a fixed text that begins with a blank, so at each place
  the name can only be the longest run of such characters.
\<close>

record Player =
  player_Name :: string
  UUID :: string
  Online :: bool
  Source :: string
  LastSeenAt :: string

definition playersStateFile :: string where "playersStateFile = ''players.json''"

section \<open>The expressions\<close>

definition is_alnum :: "char \<Rightarrow> bool" where
  "is_alnum c \<longleftrightarrow> (let n = of_char c :: nat in (48 \<le> n \<and> n \<le> 57) \<or> (65 \<le> n \<and> n \<le> 90) \<or> (97 \<le> n \<and> n \<le> 122))"

definition name_char :: "char \<Rightarrow> bool" where
  "name_char c \<longleftrightarrow> is_alnum c \<or> c = CHR ''_''"

definition hex_char :: "char \<Rightarrow> bool" where
  "hex_char c \<longleftrightarrow> (let n = of_char c :: nat in (48 \<le> n \<and> n \<le> 57) \<or> (65 \<le> n \<and> n \<le> 70) \<or> (97 \<le> n \<and> n \<le> 102)) \<or> c = CHR ''-''"

text \<open>The leftmost place where \<open>f\<close> matches.\<close>

fun find_match :: "(string \<Rightarrow> 'a option) \<Rightarrow> string \<Rightarrow> 'a option" where
  "find_match f [] = f []"
| "find_match f (c # cs) = (case f (c # cs) of Some x \<Rightarrow> Some x | None \<Rightarrow> find_match f cs)"

definition after :: "string \<Rightarrow> string \<Rightarrow> string option" where
  "after p s = (if prefix p s then Some (drop (length p) s) else None)"

text \<open>A name and what follows it.\<close>

definition name_then :: "string \<Rightarrow> string \<Rightarrow> (string \<times> string) option" where
  "name_then rest s =
     (let name = takeWhile name_char s
      in if 3 \<le> length name \<and> length name \<le> 16
         then map_option (Pair name) (after rest (dropWhile name_char s)) else None)"

definition event_at :: "string \<Rightarrow> string \<Rightarrow> string option" where
  "event_at rest s = (case after '']: '' s of None \<Rightarrow> None | Some t \<Rightarrow> map_option fst (name_then rest t))"

definition joinRegex :: "string \<Rightarrow> string option" where
  "joinRegex line = find_match (event_at '' joined the game'') line"

definition quitRegex :: "string \<Rightarrow> string option" where
  "quitRegex line = find_match (event_at '' left the game'') line"

definition uuid_at :: "string \<Rightarrow> (string \<times> string) option" where
  "uuid_at s =
     (case after '']: UUID of player '' s of
        None \<Rightarrow> None
      | Some t \<Rightarrow>
          (case name_then '' is '' t of
             None \<Rightarrow> None
           | Some (name, u) \<Rightarrow>
               if 36 \<le> length u \<and> list_all hex_char (take 36 u) then Some (name, take 36 u) else None))"

definition uuidRegex :: "string \<Rightarrow> (string \<times> string) option" where
  "uuidRegex line = find_match uuid_at line"

section \<open>Reading the log\<close>

definition zero_player :: Player where
  "zero_player = \<lparr>player_Name = [], UUID = [], Online = False, Source = [], LastSeenAt = ''0001-01-01T00:00:00Z''\<rparr>"

definition player_at :: "(string \<times> Player) list \<Rightarrow> string \<Rightarrow> Player" where
  "player_at state name = (case map_of state name of None \<Rightarrow> zero_player | Some p \<Rightarrow> p)"

definition record_line :: "string \<Rightarrow> string \<Rightarrow> (string \<times> Player) list \<Rightarrow> (string \<times> Player) list" where
  "record_line now line state =
     (let seen = (\<lambda>name. (player_at state name)\<lparr>player_Name := name, Source := ''logs'', LastSeenAt := now\<rparr>)
      in case uuidRegex line of
           Some (name, uuid) \<Rightarrow> AList.update name ((seen name)\<lparr>UUID := uuid\<rparr>) state
         | None \<Rightarrow>
             (case joinRegex line of
                Some name \<Rightarrow> AList.update name ((seen name)\<lparr>Online := True\<rparr>) state
              | None \<Rightarrow>
                  (case quitRegex line of
                     Some name \<Rightarrow> AList.update name ((seen name)\<lparr>Online := False\<rparr>) state
                   | None \<Rightarrow> state)))"

text \<open>\<open>bufio.Scanner\<close> with a buffer of at most one mebibyte: lines without their end, until one does not fit.\<close>

definition max_line :: nat where "max_line = 1024 * 1024"

definition drop_cr :: "string \<Rightarrow> string" where
  "drop_cr s = (if s \<noteq> [] \<and> last s = CHR 0x0D then butlast s else s)"

definition log_lines :: "string \<Rightarrow> string list" where
  "log_lines text =
     (let ls = Split (CHR 0x0A) text in if ls \<noteq> [] \<and> last ls = [] then butlast ls else ls)"

fun scan_lines :: "string \<Rightarrow> string list \<Rightarrow> (string \<times> Player) list \<Rightarrow> go_error option \<times> (string \<times> Player) list" where
  "scan_lines now [] state = (None, state)"
| "scan_lines now (line # rest) state =
     (if length line < max_line then scan_lines now rest (record_line now (drop_cr line) state)
      else (Some (ErrorString ''bufio.Scanner: token too long''), state))"

section \<open>The list\<close>

definition sortedPlayers ::
  "((string \<times> Player) list \<Rightarrow> (string \<times> Player) list) \<Rightarrow> (string \<times> Player) list \<Rightarrow> Player list" where
  "sortedPlayers iter state = sort_key (\<lambda>p. (\<not> Online p, player_Name p)) (map snd (iter state))"

record player_env =
  players_enc :: "(string \<times> Player) list \<Rightarrow> go_error + string"
  players_dec :: "string \<Rightarrow> go_error + (string \<times> Player) list"
  players_iter :: "(string \<times> Player) list \<Rightarrow> (string \<times> Player) list"
  players_now :: string

definition loadState :: "player_env \<Rightarrow> string \<Rightarrow> (string \<times> Player) list os" where
  "loadState env cellDir =
     os_bind (os_read_file (path_join [cellDir, hivepanelDir, playersStateFile])) (\<lambda>data. os_lift (players_dec env data))"

definition saveState :: "player_env \<Rightarrow> string \<Rightarrow> (string \<times> Player) list \<Rightarrow> unit os" where
  "saveState env cellDir state =
     (let dir = path_join [cellDir, hivepanelDir]
      in os_seq (os_mkdir_all dir)
        (os_bind (os_lift (players_enc env state)) (\<lambda>data. os_write_file (path_join [dir, playersStateFile]) data)))"

text \<open>The first call stands for \<open>os.Open\<close>, the second for the reads of the scanner.\<close>

definition ListFromLogs :: "player_env \<Rightarrow> string \<Rightarrow> Player list os" where
  "ListFromLogs env cellDir =
     (let latestLog = path_join [cellDir, ''logs'', ''latest.log'']; listing = sortedPlayers (players_iter env)
      in os_attempt (loadState env cellDir) (\<lambda>loaded.
         let state0 = (case loaded of Inl _ \<Rightarrow> [] | Inr st \<Rightarrow> st)
         in os_attempt (os_stat latestLog) (\<lambda>opened. case opened of
              Inl _ \<Rightarrow> os_return (listing state0)
            | Inr _ \<Rightarrow>
                os_bind (os_read_file latestLog) (\<lambda>text.
                  case scan_lines (players_now env) (log_lines text) state0 of
                    (Some e, _) \<Rightarrow> os_throw e
                  | (None, state) \<Rightarrow> os_ignore (saveState env cellDir state) (os_return (listing state))))))"

section \<open>Who is online\<close>

definition is_online :: "(string \<times> Player) list \<Rightarrow> string \<Rightarrow> bool" where
  "is_online state name \<longleftrightarrow> Online (player_at state name)"

text \<open>What a line says of the presence of a player.\<close>

definition presence :: "string \<Rightarrow> string \<Rightarrow> bool option" where
  "presence name line =
     (if uuidRegex line \<noteq> None then None
      else case joinRegex line of
          Some n \<Rightarrow> if n = name then Some True else None
        | None \<Rightarrow> if quitRegex line = Some name then Some False else None)"

definition last_presence :: "string \<Rightarrow> string list \<Rightarrow> bool option" where
  "last_presence name ls =
     (case rev (List.map_filter (presence name) ls) of [] \<Rightarrow> None | b # _ \<Rightarrow> Some b)"

lemma player_at_update: "player_at (AList.update k p state) name = (if name = k then p else player_at state name)"
  by (simp add: player_at_def update_conv')

lemma is_online_record:
  "is_online (record_line now line state) name = (case presence name line of None \<Rightarrow> is_online state name | Some b \<Rightarrow> b)"
  by (auto simp: record_line_def presence_def is_online_def player_at_update Let_def split: option.splits)

lemma last_presence_simps:
  "last_presence name [] = None"
  "last_presence name (ls @ [line]) = (case presence name line of None \<Rightarrow> last_presence name ls | Some b \<Rightarrow> Some b)"
  by (simp_all add: last_presence_def List.map_filter_def split: option.split)

lemma is_online_fold:
  "is_online (fold (record_line now) ls state) name =
     (case last_presence name ls of None \<Rightarrow> is_online state name | Some b \<Rightarrow> b)"
  by (induction ls rule: rev_induct) (simp_all add: last_presence_simps is_online_record split: option.split)

lemma scan_lines_fits:
  "list_all (\<lambda>l. length l < max_line) ls \<Longrightarrow> scan_lines now ls state = (None, fold (record_line now) (map drop_cr ls) state)"
  by (induction ls arbitrary: state) auto

definition named_by_key :: "(string \<times> Player) list \<Rightarrow> bool" where
  "named_by_key state \<longleftrightarrow> distinct (map fst state) \<and> list_all (\<lambda>(k, p). player_Name p = k) state"

lemma named_by_key_update:
  assumes "named_by_key state" "player_Name p = name"
  shows "named_by_key (AList.update name p state)"
proof -
  have "list_all (\<lambda>(k, p). player_Name p = k) (AList.update name p state)"
    using assms by (simp add: named_by_key_def list_all_update)
  then show ?thesis using assms(1) by (simp add: named_by_key_def distinct_update)
qed

lemma named_by_key_record: "named_by_key state \<Longrightarrow> named_by_key (record_line now line state)"
  by (auto simp: record_line_def Let_def named_by_key_update split: option.split)

lemma named_by_key_fold: "named_by_key state \<Longrightarrow> named_by_key (fold (record_line now) ls state)"
  by (induction ls arbitrary: state) (auto simp: named_by_key_record)

lemma set_sortedPlayers: "mset (iter state) = mset state \<Longrightarrow> set (sortedPlayers iter state) = snd ` set state"
  by (simp add: sortedPlayers_def) (metis set_mset_mset)

lemma online_in_state:
  assumes "named_by_key state"
  shows "(\<exists>p \<in> snd ` set state. player_Name p = name \<and> Online p) \<longleftrightarrow> is_online state name"
proof -
  have names: "player_Name p = k" if "(k, p) \<in> set state" for k p
    using assms that by (auto simp: named_by_key_def list_all_iff)
  have "is_online state name \<longleftrightarrow> (\<exists>p. map_of state name = Some p \<and> Online p)"
    by (simp add: is_online_def player_at_def zero_player_def split: option.split)
  also have "\<dots> \<longleftrightarrow> (\<exists>p. (name, p) \<in> set state \<and> Online p)"
    using assms by (simp add: named_by_key_def)
  also have "\<dots> \<longleftrightarrow> (\<exists>p \<in> snd ` set state. player_Name p = name \<and> Online p)"
  proof
    assume "\<exists>p. (name, p) \<in> set state \<and> Online p"
    then obtain p where p: "(name, p) \<in> set state" "Online p" by blast
    then show "\<exists>p \<in> snd ` set state. player_Name p = name \<and> Online p" using names [OF p(1)] by force
  next
    assume "\<exists>p \<in> snd ` set state. player_Name p = name \<and> Online p"
    then obtain k p where p: "(k, p) \<in> set state" "player_Name p = name" "Online p" by auto
    then show "\<exists>p. (name, p) \<in> set state \<and> Online p" using names [OF p(1)] by blast
  qed
  finally show ?thesis by simp
qed

text \<open>
  C28. A player is listed as online exactly when the last line of the log that tells of the player joining or leaving
  tells of joining or, if there is no such line, when the player was online in the stored state; the list shows the
  players who are online first, each part in the order of the names.
\<close>

theorem ListFromLogs_correct:
  assumes "calm w" "fs_read (wd w) (files w) (path_join [cellDir, ''logs'', ''latest.log'']) = Inr body"
    "fs_read (wd w) (files w) (path_join [cellDir, hivepanelDir, playersStateFile]) = Inr data" "players_dec env data = Inr state"
    "named_by_key state" "list_all (\<lambda>l. length l < max_line) (log_lines body)" "\<And>st. mset (players_iter env st) = mset st"
  shows "\<exists>ps. fst (ListFromLogs env cellDir w) = Inr ps
    \<and> (\<forall>name. (\<exists>p \<in> set ps. player_Name p = name \<and> Online p) =
        (case last_presence name (map drop_cr (log_lines body)) of None \<Rightarrow> is_online state name | Some b \<Rightarrow> b))
    \<and> sorted (map (\<lambda>p. (\<not> Online p, player_Name p)) ps)"
proof -
  let ?log = "path_join [cellDir, ''logs'', ''latest.log'']"
  let ?st = "fold (record_line (players_now env)) (map drop_cr (log_lines body)) state"
  let ?ps = "sortedPlayers (players_iter env) ?st"
  have stat: "\<exists>n. fs_info True ?log (wd w) (files w) = Inr n"
    using assms(2) by (cases "fs_info True ?log (wd w) (files w)") (auto simp: fs_read_def)
  then have "fst (ListFromLogs env cellDir w) = Inr ?ps"
    using assms(1-4) scan_lines_fits [OF assms(6), of "players_now env" state]
    by (auto simp: ListFromLogs_def loadState_def os_attempt_def os_bind_def os_lift_def os_read_file_calm os_stat_def os_call_calm
        os_return_def Let_def split: prod.splits)
  moreover have "(\<exists>p \<in> set ?ps. player_Name p = name \<and> Online p) =
      (case last_presence name (map drop_cr (log_lines body)) of None \<Rightarrow> is_online state name | Some b \<Rightarrow> b)" for name
    unfolding set_sortedPlayers [OF assms(7)] online_in_state [OF named_by_key_fold [OF assms(5)]] by (rule is_online_fold)
  moreover have "sorted (map (\<lambda>p. (\<not> Online p, player_Name p)) ?ps)" by (simp add: sortedPlayers_def)
  ultimately show ?thesis by blast
qed

section \<open>Chat in the log\<close>

lemma find_match_append: "f s \<noteq> None \<Longrightarrow> find_match f (p @ s) \<noteq> None"
  by (induction p) (auto split: option.split, cases s, auto)

definition player_name :: "string \<Rightarrow> bool" where
  "player_name n \<longleftrightarrow> 3 \<le> length n \<and> length n \<le> 16 \<and> list_all name_char n"

lemma after_append [simp]: "after p (p @ s) = Some s"
  by (simp add: after_def)

lemma name_then_name:
  assumes "player_name n" "rest = CHR '' '' # rest'"
  shows "name_then rest (n @ rest @ t) = Some (n, t)"
proof -
  have blank: "\<not> name_char (CHR '' '')" by code_simp
  have n: "\<forall>c \<in> set n. name_char c" using assms(1) by (simp add: player_name_def list_all_iff)
  have "takeWhile name_char (n @ rest @ t) = n" "dropWhile name_char (n @ rest @ t) = rest @ t"
    using n assms(2) blank by (simp_all add: takeWhile_append2 dropWhile_append2)
  then show ?thesis using assms(1) by (simp add: name_then_def player_name_def Let_def)
qed

text \<open>A line of chat as a game server writes it to its log.\<close>

definition chat_line :: "string \<Rightarrow> string \<Rightarrow> string \<Rightarrow> string" where
  "chat_line clock sender msg = ''['' @ clock @ ''] [Server thread/INFO]: <'' @ sender @ ''> '' @ msg"

lemma find_match_Cons: "f (c # cs) = None \<Longrightarrow> find_match f (c # cs) = find_match f cs"
  by simp

lemma find_match_skip:
  assumes "\<And>s. f s \<noteq> None \<Longrightarrow> \<exists>t. s = CHR '']'' # t" "CHR '']'' \<notin> set p"
  shows "find_match f (p @ s) = find_match f s"
  using assms(2)
proof (induction p)
  case (Cons c cs)
  have "f (c # cs @ s) = None" using assms(1) [of "c # cs @ s"] Cons.prems by (cases "f (c # cs @ s)") auto
  then show ?case using Cons by simp
qed simp

lemma brackets:
  "event_at rest s \<noteq> None \<Longrightarrow> \<exists>t. s = CHR '']'' # t" "uuid_at s \<noteq> None \<Longrightarrow> \<exists>t. s = CHR '']'' # t"
  by (auto simp: event_at_def uuid_at_def after_def prefix_def split: option.splits if_splits)

lemma name_no_bracket: "player_name n \<Longrightarrow> CHR '']'' \<notin> set n" "player_name n \<Longrightarrow> CHR ''>'' \<notin> set n"
proof -
  have "\<not> name_char (CHR '']'')" "\<not> name_char (CHR ''>'')" "\<not> name_char (CHR ''<'')" by code_simp+
  then show "player_name n \<Longrightarrow> CHR '']'' \<notin> set n" "player_name n \<Longrightarrow> CHR ''>'' \<notin> set n"
    by (auto simp: player_name_def list_all_iff)
qed

lemma find_match_chat:
  assumes "\<And>s. f s \<noteq> None \<Longrightarrow> \<exists>t. s = CHR '']'' # t" "CHR '']'' \<notin> set clock" "CHR '']'' \<notin> set sender"
    "\<And>t. f ('']'' @ '' ['' @ t) = None" "\<And>t. f ('']: <'' @ t) = None"
  shows "find_match f (chat_line clock sender msg) = find_match f msg"
proof -
  note skip = find_match_skip [OF assms(1)]
  have "find_match f (chat_line clock sender msg) = find_match f ((''['' @ clock) @ ('']'' @ '' ['' @ ''Server thread/INFO]: <'' @ sender @ ''> '' @ msg))"
    by (simp add: chat_line_def)
  also have "\<dots> = find_match f ('']'' @ '' ['' @ ''Server thread/INFO]: <'' @ sender @ ''> '' @ msg)"
    by (rule skip) (use assms(2) in simp_all)
  also have "\<dots> = find_match f ('' [Server thread/INFO'' @ ('']: <'' @ sender @ ''> '' @ msg))"
    using assms(4) [of "''Server thread/INFO]: <'' @ sender @ ''> '' @ msg"] by simp
  also have "\<dots> = find_match f ('']: <'' @ sender @ ''> '' @ msg)" by (rule skip) simp_all
  also have "\<dots> = find_match f ('': <'' @ sender @ ''> '' @ msg)"
    using assms(5) [of "sender @ ''> '' @ msg"] by simp
  also have "\<dots> = find_match f (('': <'' @ sender @ ''> '') @ msg)" by simp
  also have "\<dots> = find_match f msg" by (rule skip) (use assms(3) in simp_all)
  finally show ?thesis .
qed

lemma no_event:
  "event_at (CHR '' '' # r) ('']'' @ '' ['' @ t) = None" "event_at (CHR '' '' # r) ('']: <'' @ t) = None"
  "uuid_at ('']'' @ '' ['' @ t) = None" "uuid_at ('']: <'' @ t) = None"
proof -
  have "\<not> name_char (CHR ''<'')" by code_simp
  then show "event_at (CHR '' '' # r) ('']'' @ '' ['' @ t) = None" "event_at (CHR '' '' # r) ('']: <'' @ t) = None"
    "uuid_at ('']'' @ '' ['' @ t) = None" "uuid_at ('']: <'' @ t) = None"
    by (simp_all add: event_at_def uuid_at_def after_def name_then_def)
qed

lemma claim_at:
  assumes "player_name n" "rest = CHR '' '' # rest'"
  shows "event_at rest ('']: '' @ n @ rest @ t) = Some n"
  using name_then_name [OF assms] by (simp add: event_at_def after_def)

lemma claim_other:
  assumes "player_name n" "rest = CHR '' '' # rest'" "after other (rest @ t) = None"
  shows "event_at other ('']: '' @ n @ rest @ t) = None"
proof -
  have blank: "\<not> name_char (CHR '' '')" by code_simp
  have n: "\<forall>c \<in> set n. name_char c" using assms(1) by (simp add: player_name_def list_all_iff)
  have "dropWhile name_char (n @ rest @ t) = rest @ t"
    using n assms(2) blank by (simp add: dropWhile_append2)
  then show ?thesis using assms(3) by (simp add: event_at_def after_def name_then_def Let_def)
qed

lemma claim_uuid:
  assumes "player_name n"
  shows "uuid_at ('']: '' @ n @ '' left the game'' @ t) = None"
proof -
  have "CHR '' '' \<notin> set n"
  proof -
    have "\<not> name_char (CHR '' '')" by code_simp
    then show ?thesis using assms by (auto simp: player_name_def list_all_iff)
  qed
  then have w: "takeWhile (\<lambda>c. c \<noteq> CHR '' '') (n @ CHR '' '' # x) = n" for x
    by (subst takeWhile_append2) auto
  have "\<not> prefix ''UUID of player '' (n @ '' left the game'' @ t)"
  proof
    assume "prefix ''UUID of player '' (n @ '' left the game'' @ t)"
    then obtain u where u: "n @ '' left the game'' @ t = ''UUID of player '' @ u" by (auto simp: prefix_def)
    then have "takeWhile (\<lambda>c. c \<noteq> CHR '' '') (n @ '' left the game'' @ t) = ''UUID''" by simp
    then have "n = ''UUID''" using w by simp
    then show False using u by simp
  qed
  then show ?thesis by (simp add: uuid_at_def after_def)
qed

lemma find_match_claim:
  assumes "player_name name" "f ('']: '' @ name @ '' left the game'') = None" "\<And>s. f s \<noteq> None \<Longrightarrow> \<exists>t. s = CHR '']'' # t"
  shows "find_match f ('']: '' @ name @ '' left the game'') = None"
proof -
  have "find_match f ('']: '' @ name @ '' left the game'') = find_match f (('': '' @ name @ '' left the game'') @ [])"
    using assms(2) by simp
  also have "\<dots> = find_match f []"
    by (rule find_match_skip) (use assms(3) name_no_bracket [OF assms(1)] in simp_all)
  also have "\<dots> = None" using assms(3) [of "[]"] by (cases "f []") auto
  finally show ?thesis .
qed

text \<open>
  The presence of a player can be forged from the chat: whoever writes \<open>]: NAME left the game\<close> makes the worker
  record that the player of that name has left, whatever the writer's own name is.
\<close>

theorem chat_forges_departure:
  assumes "CHR '']'' \<notin> set clock" "player_name sender" "player_name name"
  shows "\<not> is_online (record_line now (chat_line clock sender ('']: '' @ name @ '' left the game'')) state) name"
proof -
  let ?msg = "'']: '' @ name @ '' left the game''"
  have q: "find_match (event_at '' left the game'') ?msg = Some name"
    using claim_at [OF assms(3), of "'' left the game''" _ "[]"] by simp
  have j: "event_at '' joined the game'' ?msg = None"
    using claim_other [OF assms(3), of "'' left the game''" _ "'' joined the game''" "[]"] by (simp add: after_def)
  have u: "uuid_at ?msg = None" using claim_uuid [OF assms(3), of "[]"] by simp
  note chat = find_match_chat [OF _ assms(1) name_no_bracket(1) [OF assms(2)]]
  have "quitRegex (chat_line clock sender ?msg) = Some name"
    unfolding quitRegex_def by (subst chat) (use brackets(1) no_event(1,2) q in simp_all)
  moreover have "joinRegex (chat_line clock sender ?msg) = None"
    unfolding joinRegex_def by (subst chat) (use brackets(1) no_event(1,2) find_match_claim [where f = "event_at '' joined the game''", OF assms(3) j brackets(1)] in simp_all)
  moreover have "uuidRegex (chat_line clock sender ?msg) = None"
    unfolding uuidRegex_def by (subst chat) (use brackets(2) no_event(3,4) find_match_claim [where f = uuid_at, OF assms(3) u brackets(2)] in simp_all)
  ultimately show ?thesis by (simp add: is_online_record presence_def)
qed

section \<open>Witnesses\<close>

definition log_files :: fsys where
  "log_files = [([''c''], DirNode), ([''c'', ''logs''], DirNode), ([''c'', ''.hivepanel''], DirNode),
     ([''c'', ''.hivepanel'', ''players.json''], FileNode ''{}''),
     ([''c'', ''logs'', ''latest.log''], FileNode (''[1] [x]: Bob joined the game'' @ [CHR 0x0A]))]"

definition log_env :: player_env where
  "log_env = \<lparr>players_enc = \<lambda>_. Inr ''{}'', players_dec = \<lambda>_. Inr [], players_iter = rev, players_now = ''now''\<rparr>"

theorem ListFromLogs_correct_witness:
  "\<exists>ps. fst (ListFromLogs log_env ''/c'' (calm_world log_files)) = Inr ps
    \<and> (\<forall>name. (\<exists>p \<in> set ps. player_Name p = name \<and> Online p) =
        (case last_presence name (map drop_cr (log_lines (''[1] [x]: Bob joined the game'' @ [CHR 0x0A]))) of
           None \<Rightarrow> is_online [] name | Some b \<Rightarrow> b))
    \<and> sorted (map (\<lambda>p. (\<not> Online p, player_Name p)) ps)"
proof (rule ListFromLogs_correct)
  let ?w = "calm_world log_files"
  show "fs_read (wd ?w) (files ?w) (path_join [''/c'', ''logs'', ''latest.log'']) = Inr (''[1] [x]: Bob joined the game'' @ [CHR 0x0A])"
    "fs_read (wd ?w) (files ?w) (path_join [''/c'', hivepanelDir, playersStateFile]) = Inr ''{}''"
    by code_simp+
  show "list_all (\<lambda>l. length l < max_line) (log_lines (''[1] [x]: Bob joined the game'' @ [CHR 0x0A]))"
    by (simp add: max_line_def log_lines_def)
qed (simp_all add: log_env_def named_by_key_def)

theorem chat_forges_departure_witness:
  "\<not> is_online (record_line ''now'' (chat_line ''1'' ''Eve'' ('']: '' @ ''Bob'' @ '' left the game''))
     [(''Bob'', zero_player\<lparr>Online := True\<rparr>)]) ''Bob''"
  by (rule chat_forges_departure) code_simp+

end
