(* ===== verification/Importer.thy ===== *)
theory Importer
  imports Players MountService
begin

text \<open>
  Importing the files of another server: \<open>internal/importer\<close>. A source is a directory of this host or a remote SFTP
  server. The progress callback acts on a state of its own and on the files, so the operations run over a pair of such a
  state and a world. Remote servers are arguments: a connection, \<open>Stat\<close>, the steps of \<open>client.Walk\<close> and the contents of
  files; so is \<open>int(float64(a) / float64(b) * 65)\<close>, the floating-point part of the percentage.
\<close>

section \<open>Data\<close>

record Options =
  ImportWorlds :: bool
  ImportPlugins :: bool
  ImportConfigs :: bool
  ImportMods :: bool
  ImportServerJar :: bool
  WipeBeforeImport :: bool

record LocalConfig =
  SourcePath :: string
  LocalPath :: string
  local_Options :: Options

record localFile =
  lf_Path :: string
  lf_Size :: "64 word"

record SFTPConfig =
  sftp_Host :: string
  sftp_Port :: int
  sftp_Username :: string
  AuthType :: string
  sftp_Password :: string
  PrivateKey :: string
  PrivateKeyPassphrase :: string
  RemotePath :: string
  sftp_LocalPath :: string
  sftp_Options :: Options

text \<open>What a step of the walk over a remote tree yields: an error, or a path with whether it is a directory and its size.\<close>

record remote =
  r_stat :: "string \<Rightarrow> go_error + bool"
  r_walk :: "string \<Rightarrow> (go_error + (string \<times> bool \<times> 64 word)) list"
  r_read :: "string \<Rightarrow> go_error + (string \<times> go_error option)"

datatype ssh_auth = PasswordAuth string | KeyAuth string string

record remote_env =
  dial :: "string \<Rightarrow> string \<Rightarrow> ssh_auth \<Rightarrow> go_error + unit"
  sftp_client :: "string \<Rightarrow> go_error + remote"
  parse_key :: "string \<Rightarrow> string \<Rightarrow> go_error + unit"

section \<open>What is imported\<close>

definition isWorldPath :: "string \<Rightarrow> bool" where
  "isWorldPath first \<longleftrightarrow> first = ''world'' \<or> HasPrefix first ''world_'' \<or> first = ''worlds''"

definition config_suffixes :: "string list" where
  "config_suffixes = [''.yml'', ''.yaml'', ''.json'', ''.properties'', ''.toml'', ''.conf'', ''.cfg'', ''.ini'']"

definition isConfigPath :: "string \<Rightarrow> bool" where
  "isConfigPath relative \<longleftrightarrow>
     (let lower = ToLower relative
      in HasPrefix lower ''config/'' \<or> list_ex (HasSuffix (ToLower (path_base lower))) config_suffixes)"

definition isServerJar :: "string \<Rightarrow> bool" where
  "isServerJar relative \<longleftrightarrow>
     (let lower = ToLower (path_base relative) in lower = ''server.jar'' \<or> HasSuffix lower ''.jar'')"

definition shouldImport :: "string \<Rightarrow> Options \<Rightarrow> bool" where
  "shouldImport relative opts =
     (let clean = TrimPrefix (path_clean (''/'' @ relative)) ''/''
      in if clean = ''.'' \<or> clean = [] then False
         else let first = ToLower (hd (Split slash clean))
         in if first = ''plugins'' \<and> \<not> ImportPlugins opts then False
            else if first = ''mods'' \<and> \<not> ImportMods opts then False
            else if isWorldPath first \<and> \<not> ImportWorlds opts then False
            else if isConfigPath clean \<and> \<not> ImportConfigs opts then False
            else if isServerJar clean \<and> \<not> ImportServerJar opts then False
            else True)"

section \<open>Paths\<close>

definition pathContains :: "string \<Rightarrow> string \<Rightarrow> bool" where
  "pathContains parent child =
     (case path_rel parent child of
        Inl _ \<Rightarrow> False
      | Inr relative \<Rightarrow> relative \<noteq> ''.'' \<and> relative \<noteq> ''..'' \<and> \<not> HasPrefix relative ''../'')"

definition wrap :: "string \<Rightarrow> go_error + 'a \<Rightarrow> go_error + 'a" where
  "wrap msg r = (case r of Inl e \<Rightarrow> Inl (WrapError msg e) | Inr x \<Rightarrow> Inr x)"

definition resolveLocalPaths :: "getwd \<Rightarrow> LocalConfig \<Rightarrow> go_error + (string \<times> string)" where
  "resolveLocalPaths d cfg =
     (let source0 = TrimSpace (SourcePath cfg); dest0 = TrimSpace (LocalPath cfg)
      in if source0 = [] then Inl (ErrorString ''local source path is required'')
         else let dest1 = (if dest0 = [] then path_join [source0, ''.hivepanel-validation-target''] else dest0)
         in case wrap ''resolve local source path'' (path_abs d source0) of
              Inl e \<Rightarrow> Inl e
            | Inr source1 \<Rightarrow>
                (case wrap ''resolve local destination path'' (path_abs d dest1) of
                   Inl e \<Rightarrow> Inl e
                 | Inr dest2 \<Rightarrow>
                     (let source = path_clean source1; dest = path_clean dest2
                      in if source = dest
                         then Inl (ErrorString ''local source and destination paths cannot be the same'')
                         else if LocalPath cfg \<noteq> [] \<and> pathContains source dest
                         then Inl (ErrorString ''local destination path cannot be inside the source path'')
                         else if LocalPath cfg \<noteq> [] \<and> pathContains dest source
                         then Inl (ErrorString ''local source path cannot be inside the destination path'')
                         else Inr (source, dest))))"

definition with_local_paths :: "LocalConfig \<Rightarrow> (string \<Rightarrow> string \<Rightarrow> 'a os) \<Rightarrow> 'a os" where
  "with_local_paths cfg k = (\<lambda>w. case resolveLocalPaths (wd w) cfg of
     Inl e \<Rightarrow> (Inl e, w) | Inr (source, dest) \<Rightarrow> k source dest w)"

definition TestLocal :: "LocalConfig \<Rightarrow> unit os" where
  "TestLocal cfg =
     with_local_paths cfg (\<lambda>source _.
       os_bind (os_wrap (''unable to access local source path '' @ source) (os_stat source)) (\<lambda>info.
         if \<not> is_dir info then os_throw (ErrorString (''local source path '' @ source @ '' is not a directory''))
         else os_return ()))"

section \<open>Walking\<close>

text \<open>
  \<open>filepath.WalkDir\<close>: the visitor gets the kind of an entry as its directory lists it. It threads an accumulator,
  which it returns even with an error; fuel bounds the depth.
\<close>

type_synonym 'a dir_visitor = "'a \<Rightarrow> string \<Rightarrow> node option \<Rightarrow> go_error option \<Rightarrow> (go_error option \<times> 'a) os"

fun walk_dir :: "nat \<Rightarrow> 'a dir_visitor \<Rightarrow> string \<Rightarrow> node \<Rightarrow> 'a \<Rightarrow> (go_error option \<times> 'a) os"
  and walk_dir_names :: "nat \<Rightarrow> 'a dir_visitor \<Rightarrow> string \<Rightarrow> (string \<times> node) list \<Rightarrow> 'a \<Rightarrow> (go_error option \<times> 'a) os" where
  "walk_dir 0 fn p d acc = os_throw OutOfFuel"
| "walk_dir (Suc n) fn p d acc =
     os_bind (fn acc p (Some d) None) (\<lambda>(err, acc1).
       if err \<noteq> None \<or> d \<noteq> DirNode
       then os_return (if err = Some SkipDir \<and> d = DirNode then None else err, acc1)
       else os_attempt (os_read_dir p) (\<lambda>r. case r of
           Inl e \<Rightarrow> os_bind (fn acc1 p (Some d) (Some e)) (\<lambda>(err, acc2).
             os_return (if err = Some SkipDir \<and> d = DirNode then None else err, acc2))
         | Inr es \<Rightarrow> walk_dir_names n fn p es acc1))"
| "walk_dir_names n fn p [] acc = os_return (None, acc)"
| "walk_dir_names n fn p ((c, d) # es) acc =
     os_bind (walk_dir n fn (path_join [p, c]) d acc) (\<lambda>(err, acc1).
       if err = Some SkipDir then os_return (None, acc1)
       else if err \<noteq> None then os_return (err, acc1)
       else walk_dir_names n fn p es acc1)"

definition filepath_WalkDir :: "nat \<Rightarrow> string \<Rightarrow> 'a dir_visitor \<Rightarrow> 'a \<Rightarrow> (go_error option \<times> 'a) os" where
  "filepath_WalkDir fuel top_dir fn acc =
     os_attempt (os_lstat top_dir) (\<lambda>r.
       os_bind (case r of Inl e \<Rightarrow> fn acc top_dir None (Some e) | Inr info \<Rightarrow> walk_dir fuel fn top_dir info acc) (\<lambda>(err, acc1).
         os_return (if err = Some SkipDir then None else err, acc1)))"

definition collect_visitor :: "string \<Rightarrow> Options \<Rightarrow> localFile list dir_visitor" where
  "collect_visitor sourceRoot opts result p entry walkErr =
     (case walkErr of
        Some e \<Rightarrow> os_return (Some e, result)
      | None \<Rightarrow>
          if p = sourceRoot \<or> entry = Some DirNode then os_return (None, result)
          else os_attempt (os_lstat p) (\<lambda>r. case r of
              Inl e \<Rightarrow> os_return (Some e, result)
            | Inr info \<Rightarrow>
                if \<not> is_regular info then os_return (None, result)
                else case path_rel sourceRoot p of
                    Inl e \<Rightarrow> os_return (Some e, result)
                  | Inr relative \<Rightarrow>
                      if \<not> shouldImport relative opts then os_return (None, result)
                      else os_return (None, result @ [\<lparr>lf_Path = p, lf_Size = of_int (node_size info)\<rparr>])))"

definition collectLocalFiles :: "nat \<Rightarrow> string \<Rightarrow> Options \<Rightarrow> localFile list os" where
  "collectLocalFiles fuel sourceRoot opts =
     os_bind (filepath_WalkDir fuel sourceRoot (collect_visitor sourceRoot opts) []) (\<lambda>(err, result).
       case err of Some e \<Rightarrow> os_throw e | None \<Rightarrow> os_return result)"

fun wipe_entries :: "string \<Rightarrow> (string \<times> node) list \<Rightarrow> unit os" where
  "wipe_entries directory [] = os_return ()"
| "wipe_entries directory ((name, _) # rest) =
     (if name = ''.hivepanel'' then wipe_entries directory rest
      else os_seq (os_remove_all (path_join [directory, name])) (wipe_entries directory rest))"

definition wipeLocalDirectory :: "string \<Rightarrow> unit os" where
  "wipeLocalDirectory directory =
     os_attempt (os_read_dir directory) (\<lambda>r. case r of
         Inl e \<Rightarrow> if os_is_not_exist e then os_return () else os_throw e
       | Inr entries \<Rightarrow> wipe_entries directory entries)"

text \<open>
  The source is opened first, then the destination is created or emptied, then the bytes are copied; a name that means
  the same file in both places thus ends up empty.
\<close>

definition copyLocalFile :: "string \<Rightarrow> string \<Rightarrow> (64 word) os" where
  "copyLocalFile source dest =
     os_seq (os_stat source)
    (os_seq (os_write_file dest [])
    (os_bind (os_read_file source) (\<lambda>data.
     os_seq (os_write_file dest data) (os_return (of_nat (length data))))))"

definition transferPercent :: "(int \<Rightarrow> int \<Rightarrow> int) \<Rightarrow> int \<Rightarrow> int \<Rightarrow> int \<Rightarrow> int \<Rightarrow> int" where
  "transferPercent ratio65 index totalFiles copiedBytes totalBytes =
     (if totalBytes > 0 then 25 + ratio65 copiedBytes totalBytes
      else if totalFiles > 0 then 25 + ratio65 index totalFiles
      else 90)"

section \<open>Progress\<close>

type_synonym ('p, 'a) imp = "'p \<times> world \<Rightarrow> (go_error + 'a) \<times> 'p \<times> world"
type_synonym 'p progress = "string \<Rightarrow> int \<Rightarrow> string \<Rightarrow> 'p \<times> world \<Rightarrow> 'p \<times> world"

definition imp_os :: "'a os \<Rightarrow> ('p, 'a) imp" where
  "imp_os m = (\<lambda>(p, w). case m w of (r, w') \<Rightarrow> (r, p, w'))"

definition imp_bind :: "('p, 'a) imp \<Rightarrow> ('a \<Rightarrow> ('p, 'b) imp) \<Rightarrow> ('p, 'b) imp" where
  "imp_bind m k = (\<lambda>s. case m s of (Inl e, s') \<Rightarrow> (Inl e, s') | (Inr x, s') \<Rightarrow> k x s')"

abbreviation imp_seq :: "('p, 'a) imp \<Rightarrow> ('p, 'b) imp \<Rightarrow> ('p, 'b) imp" where
  "imp_seq m k \<equiv> imp_bind m (\<lambda>_. k)"

definition tell :: "('p \<times> world \<Rightarrow> 'p \<times> world) \<Rightarrow> ('p, unit) imp" where
  "tell f = (\<lambda>s. (Inr (), f s))"

text \<open>\<open>index\<close> counts the files that were copied, \<open>n\<close> is their number.\<close>

fun copy_local ::
  "(int \<Rightarrow> int \<Rightarrow> int) \<Rightarrow> 'p progress \<Rightarrow> string \<Rightarrow> string \<Rightarrow> nat \<Rightarrow> 64 word \<Rightarrow> nat \<Rightarrow> 64 word \<Rightarrow> localFile list \<Rightarrow> ('p, unit) imp"
where
  "copy_local ratio65 progress source dest n totalBytes index copied [] = imp_os (os_return ())"
| "copy_local ratio65 progress source dest n totalBytes index copied (file # rest) =
     imp_bind (imp_os (os_lift (path_rel source (lf_Path file)))) (\<lambda>relative.
       let target = path_join [dest, relative]
       in imp_seq (imp_os (os_mkdir_all (path_dir target)))
         (imp_seq (tell (progress ''Transferring''
             (transferPercent ratio65 (int index) (int n) (sint copied) (sint totalBytes)) (''Copying '' @ relative)))
         (imp_bind (imp_os (os_wrap (''copy '' @ relative) (copyLocalFile (lf_Path file) target))) (\<lambda>bytes.
          copy_local ratio65 progress source dest n totalBytes (Suc index) (copied + bytes) rest))))"

definition wipe_first :: "'p progress \<Rightarrow> bool \<Rightarrow> string \<Rightarrow> ('p, unit) imp" where
  "wipe_first progress wipe dest =
     (if wipe
      then imp_seq (tell (progress ''Preparing'' 20 ''Removing existing destination files...'')) (imp_os (wipeLocalDirectory dest))
      else imp_os (os_return ()))"

definition ImportLocal :: "nat \<Rightarrow> (int \<Rightarrow> int \<Rightarrow> int) \<Rightarrow> LocalConfig \<Rightarrow> 'p progress \<Rightarrow> ('p, unit) imp" where
  "ImportLocal fuel ratio65 cfg progress =
     imp_bind (imp_os (with_local_paths cfg (\<lambda>source dest. os_return (source, dest)))) (\<lambda>(source, dest).
     imp_seq (tell (progress ''Scanning'' 15 ''Scanning local Pterodactyl server files...''))
    (imp_bind (imp_os (collectLocalFiles fuel source (local_Options cfg))) (\<lambda>files.
     imp_seq (wipe_first progress (WipeBeforeImport (local_Options cfg)) dest)
    (imp_seq (imp_os (os_mkdir_all dest))
    (imp_seq (copy_local ratio65 progress source dest (length files) (sum_list (map lf_Size files)) 0 0 files)
             (tell (progress ''Finalizing'' 92 ''Finalizing locally copied files...'')))))))"

section \<open>Remote sources\<close>

definition normaliseRemotePath :: "string \<Rightarrow> string" where
  "normaliseRemotePath p = (let q = TrimSpace p in if q = [] then ''.'' else path_clean q)"

definition sshAuthMethods :: "remote_env \<Rightarrow> SFTPConfig \<Rightarrow> go_error + ssh_auth" where
  "sshAuthMethods env cfg =
     (let authType0 = TrimSpace (ToLower (AuthType cfg));
          authType = (if authType0 \<noteq> [] then authType0
            else if TrimSpace (PrivateKey cfg) \<noteq> [] then ''private_key'' else ''password'')
      in if authType = ''password'' then
           (if sftp_Password cfg = [] then Inl (ErrorString ''SFTP password is required'')
            else Inr (PasswordAuth (sftp_Password cfg)))
         else if authType = ''private_key'' then
           (if TrimSpace (PrivateKey cfg) = [] then Inl (ErrorString ''SFTP private key is required'')
            else case wrap ''invalid SFTP private key'' (parse_key env (PrivateKey cfg) (PrivateKeyPassphrase cfg)) of
                Inl e \<Rightarrow> Inl e
              | Inr _ \<Rightarrow> Inr (KeyAuth (PrivateKey cfg) (PrivateKeyPassphrase cfg)))
         else Inl (ErrorString (''unsupported SFTP auth type: '' @ authType)))"

definition connectSFTP :: "remote_env \<Rightarrow> SFTPConfig \<Rightarrow> go_error + remote" where
  "connectSFTP env cfg =
     (let h = TrimSpace (sftp_Host cfg); username = TrimSpace (sftp_Username cfg)
      in if h = [] then Inl (ErrorString ''SFTP host is required'')
         else if username = [] then Inl (ErrorString ''SFTP username is required'')
         else let port = (if sftp_Port cfg \<le> 0 then 22 else sftp_Port cfg)
         in case sshAuthMethods env cfg of
              Inl e \<Rightarrow> Inl e
            | Inr auth \<Rightarrow>
                (let address = JoinHostPort h (Itoa port)
                 in case wrap ''SFTP SSH connection failed'' (dial env address username auth) of
                      Inl e \<Rightarrow> Inl e
                    | Inr _ \<Rightarrow> wrap ''SFTP client initialization failed'' (sftp_client env address)))"

definition TestSFTP :: "remote_env \<Rightarrow> SFTPConfig \<Rightarrow> go_error + unit" where
  "TestSFTP env cfg =
     (case connectSFTP env cfg of
        Inl e \<Rightarrow> Inl e
      | Inr client \<Rightarrow>
          (let remotePath = normaliseRemotePath (RemotePath cfg)
           in case wrap (''unable to access remote path '' @ remotePath) (r_stat client remotePath) of
                Inl e \<Rightarrow> Inl e
              | Inr dir \<Rightarrow>
                  if \<not> dir then Inl (ErrorString (''remote path '' @ remotePath @ '' is not a directory'')) else Inr ()))"

definition remote_relative :: "string \<Rightarrow> string \<Rightarrow> string" where
  "remote_relative remoteRoot p = TrimPrefix (TrimPrefix p remoteRoot) ''/''"

fun collect_steps ::
  "string \<Rightarrow> Options \<Rightarrow> (go_error + (string \<times> bool \<times> 64 word)) list \<Rightarrow> go_error + (string \<times> 64 word) list" where
  "collect_steps remoteRoot opts [] = Inr []"
| "collect_steps remoteRoot opts (Inl e # rest) = Inl e"
| "collect_steps remoteRoot opts (Inr (remotePath, dir, bytes) # rest) =
     (case collect_steps remoteRoot opts rest of
        Inl e \<Rightarrow> Inl e
      | Inr result \<Rightarrow>
          if dir \<or> \<not> shouldImport (remote_relative remoteRoot remotePath) opts then Inr result
          else Inr ((remotePath, bytes) # result))"

definition collectRemoteFiles :: "remote \<Rightarrow> string \<Rightarrow> Options \<Rightarrow> go_error + (string \<times> 64 word) list" where
  "collectRemoteFiles client remoteRoot opts = collect_steps remoteRoot opts (r_walk client remoteRoot)"

definition copyRemoteFile :: "remote \<Rightarrow> string \<Rightarrow> string \<Rightarrow> (64 word) os" where
  "copyRemoteFile client remotePath localPath =
     os_bind (os_lift (r_read client remotePath)) (\<lambda>(data, err).
       os_seq (os_write_file localPath data)
         (case err of Some e \<Rightarrow> os_throw e | None \<Rightarrow> os_return (of_nat (length data))))"

fun copy_remote ::
  "(int \<Rightarrow> int \<Rightarrow> int) \<Rightarrow> 'p progress \<Rightarrow> remote \<Rightarrow> string \<Rightarrow> string \<Rightarrow> nat \<Rightarrow> 64 word \<Rightarrow> nat \<Rightarrow> 64 word
    \<Rightarrow> (string \<times> 64 word) list \<Rightarrow> ('p, unit) imp" where
  "copy_remote ratio65 progress client remoteRoot dest n totalBytes index copied [] = imp_os (os_return ())"
| "copy_remote ratio65 progress client remoteRoot dest n totalBytes index copied ((file, _) # rest) =
     (let relative = remote_relative remoteRoot file; target = path_join [dest, relative]
      in imp_seq (imp_os (os_mkdir_all (path_dir target)))
        (imp_seq (tell (progress ''Transferring''
            (transferPercent ratio65 (int index) (int n) (sint copied) (sint totalBytes)) (''Copying '' @ relative)))
        (imp_bind (imp_os (os_wrap (''copy '' @ relative) (copyRemoteFile client file target))) (\<lambda>bytes.
         copy_remote ratio65 progress client remoteRoot dest n totalBytes (Suc index) (copied + bytes) rest))))"

definition ImportSFTP :: "remote_env \<Rightarrow> (int \<Rightarrow> int \<Rightarrow> int) \<Rightarrow> SFTPConfig \<Rightarrow> 'p progress \<Rightarrow> ('p, unit) imp" where
  "ImportSFTP env ratio65 cfg progress =
     (if TrimSpace (sftp_LocalPath cfg) = [] then imp_os (os_throw (ErrorString ''local import path is required''))
      else imp_bind (imp_os (os_lift (connectSFTP env cfg))) (\<lambda>client.
        let remoteRoot = normaliseRemotePath (RemotePath cfg); dest = sftp_LocalPath cfg
        in imp_seq (tell (progress ''Scanning'' 15 ''Scanning source server files...''))
          (imp_bind (imp_os (os_lift (collectRemoteFiles client remoteRoot (sftp_Options cfg)))) (\<lambda>files.
           imp_seq (wipe_first progress (WipeBeforeImport (sftp_Options cfg)) dest)
          (imp_seq (imp_os (os_mkdir_all dest))
          (imp_seq (copy_remote ratio65 progress client remoteRoot dest (length files) (sum_list (map snd files)) 0 0 files)
                   (tell (progress ''Finalizing'' 92 ''Finalizing imported files...''))))))))"

end
