(* ===== verification/ImporterProps.thy ===== *)
theory ImporterProps
  imports Importer
begin

text \<open>
  What an import does: where its two directories may lie, what it may touch, what a wipe removes, and two cases in which
  it does not do what it is asked to.
\<close>

section \<open>Source and destination\<close>

lemma pathContains_rooted:
  assumes "plains bs" "plains ts"
  shows "pathContains (rooted bs) (rooted ts) \<longleftrightarrow> strict_prefix bs ts"
proof (cases "bs = ts")
  case True
  then show ?thesis using assms by (simp add: pathContains_def path_rel_rooted)
next
  case False
  obtain bs' ts' where s: "strip_common bs ts = (bs', ts')" by fastforce
  then have ts': "plains ts'" using strip_common_eq [OF s] assms(2) by auto
  let ?r = "JoinWith slash (map (\<lambda>_. ''..'') bs' @ ts')"
  have r: "rel_escapes ?r \<longleftrightarrow> bs' \<noteq> []" by (rule rel_escapes_JoinWith [OF ts'])
  have bs': "bs' = [] \<longleftrightarrow> prefix bs ts" using strip_common_fst_Nil [of bs ts] s by simp
  have "?r \<noteq> ''.''" if "bs' = []"
  proof -
    have "ts' \<noteq> []" using strip_common_eq [OF s] False that by auto
    then show ?thesis using that ts' Split_plains [OF ts'] by (auto simp: Split_nosep dest!: plain_props(2))
  qed
  then have "?r \<noteq> ''.'' \<and> ?r \<noteq> ''..'' \<and> \<not> HasPrefix ?r ''../'' \<longleftrightarrow> bs' = []"
    using r by (auto simp: rel_escapes_def)
  then show ?thesis
    using False assms s bs' by (simp add: pathContains_def path_rel_rooted strict_prefix_def)
qed

lemma path_abs_cases:
  assumes "rooted_wd d" "path_abs d p = Inr q"
  obtains cs where "q = rooted cs" "plains cs"
  using path_abs_rooted [OF assms] by blast

lemma resolveLocalPaths_apart:
  assumes "rooted_wd d" "resolveLocalPaths d cfg = Inr (source, dest)" "LocalPath cfg \<noteq> []"
  obtains S D where "source = rooted S" "dest = rooted D" "plains S" "plains D" "\<not> prefix S D" "\<not> prefix D S"
proof -
  obtain s0 d0 s1 d1 where p: "path_abs d s0 = Inr s1" "path_abs d d0 = Inr d1" "source = path_clean s1" "dest = path_clean d1"
    "source \<noteq> dest" "\<not> pathContains source dest" "\<not> pathContains dest source"
    using assms(2,3) by (auto simp: resolveLocalPaths_def Let_def wrap_def split: if_splits sum.splits)
  obtain S D where SD: "s1 = rooted S" "plains S" "d1 = rooted D" "plains D"
    using path_abs_cases [OF assms(1) p(1)] path_abs_cases [OF assms(1) p(2)] by metis
  have "source = rooted S" "dest = rooted D" using p SD by simp_all
  moreover have "S \<noteq> D" using calculation p(5) by auto
  ultimately show ?thesis
    using that SD p(6,7) by (auto simp: pathContains_rooted strict_prefix_def)
qed

section \<open>Confinement\<close>

definition imp_confined :: "fpath \<Rightarrow> ('p, 'a) imp \<Rightarrow> bool" where
  "imp_confined dir m \<longleftrightarrow> (\<forall>p w. solid (files w) dir \<longrightarrow> (case m (p, w) of (_, _, w') \<Rightarrow>
     agree_outside dir (files w) (files w') \<and> solid (files w') dir \<and> wd w' = wd w))"

lemma imp_confinedD:
  "imp_confined dir m \<Longrightarrow> solid (files w) dir \<Longrightarrow> m (p, w) = (r, p', w') \<Longrightarrow>
     agree_outside dir (files w) (files w') \<and> solid (files w') dir \<and> wd w' = wd w"
  unfolding imp_confined_def by (metis (mono_tags, lifting) case_prod_conv)

lemma imp_confined_os [confined_intros]: "confined dir m \<Longrightarrow> imp_confined dir (imp_os m)"
  by (auto simp: imp_confined_def confined_def imp_os_def split: prod.split)

lemma imp_confined_bind_if:
  assumes "imp_confined dir m" "\<And>x p w p' w'. m (p, w) = (Inr x, p', w') \<Longrightarrow> imp_confined dir (k x)"
  shows "imp_confined dir (imp_bind m k)"
  unfolding imp_confined_def
proof (intro allI impI)
  fix p and w :: world assume s: "solid (files w) dir"
  obtain r p1 w1 where m: "m (p, w) = (r, p1, w1)" by (cases "m (p, w)") auto
  note m1 = imp_confinedD [OF assms(1) s m]
  show "case imp_bind m k (p, w) of (_, _, w') \<Rightarrow>
      agree_outside dir (files w) (files w') \<and> solid (files w') dir \<and> wd w' = wd w"
  proof (cases r)
    case (Inr x)
    obtain r2 p2 w2 where k: "k x (p1, w1) = (r2, p2, w2)" by (cases "k x (p1, w1)") auto
    show ?thesis
      using imp_confinedD [OF assms(2) [OF m [unfolded Inr]] _ k] m1 m k Inr
      by (auto simp: imp_bind_def intro: agree_outside_trans)
  qed (use m m1 in \<open>simp add: imp_bind_def\<close>)
qed

lemma imp_confined_bind [confined_intros]:
  "imp_confined dir m \<Longrightarrow> (\<And>x. imp_confined dir (k x)) \<Longrightarrow> imp_confined dir (imp_bind m k)"
  by (rule imp_confined_bind_if)

definition progress_confined :: "fpath \<Rightarrow> 'p progress \<Rightarrow> bool" where
  "progress_confined dir progress \<longleftrightarrow> (\<forall>stage percent msg. imp_confined dir (tell (progress stage percent msg)))"

lemma imp_confined_tell [confined_intros]:
  "progress_confined dir progress \<Longrightarrow> imp_confined dir (tell (progress stage percent msg))"
  by (simp add: progress_confined_def)

lemma confined_wipe_entries:
  "plains D \<Longrightarrow> \<forall>(c, n) \<in> set es. plain c \<Longrightarrow> confined D (wipe_entries (rooted D) es)"
  by (induction es) (auto intro!: confined_intros simp: path_join_rooted descend_plain)

lemma confined_attempt_gives:
  assumes "confined dir m" "os_gives m P" "\<And>x. P x \<Longrightarrow> confined dir (k (Inr x))" "\<And>e. confined dir (k (Inl e))"
  shows "confined dir (os_attempt m k)"
proof -
  have "confined dir (os_attempt m (\<lambda>r. case r of Inl e \<Rightarrow> k (Inl e) | Inr x \<Rightarrow> if P x then k (Inr x) else os_return undefined))"
    using assms by (auto intro!: confined_intros split: sum.split)
  moreover have "os_attempt m k w = os_attempt m (\<lambda>r. case r of Inl e \<Rightarrow> k (Inl e) | Inr x \<Rightarrow> if P x then k (Inr x) else os_return undefined) w" for w
    using assms(2) by (auto simp: os_attempt_def os_gives_def split: prod.split sum.split)
  ultimately show ?thesis by (simp add: confined_def)
qed

lemma confined_wipe: "plains D \<Longrightarrow> confined D (wipeLocalDirectory (rooted D))"
  unfolding wipeLocalDirectory_def
  by (rule confined_attempt_gives [OF _ gives_read_dir]) (auto intro!: confined_intros confined_wipe_entries)

lemma confined_copyLocalFile:
  "plains p \<Longrightarrow> prefix D p \<Longrightarrow> confined D (copyLocalFile source (rooted p))"
  unfolding copyLocalFile_def by (intro confined_intros)

section \<open>The files that are found\<close>

definition under :: "fpath \<Rightarrow> string \<Rightarrow> bool" where
  "under S p \<longleftrightarrow> (\<exists>q. p = rooted q \<and> plains q \<and> prefix S q)"

lemma under_child: "under S p \<Longrightarrow> plain c \<Longrightarrow> under S (path_join [p, c])"
proof -
  assume "under S p" and c: "plain c"
  then obtain q where q: "p = rooted q" "plains q" "prefix S q" by (auto simp: under_def)
  then have "path_join [p, c] = rooted (q @ [c])" using c by (simp add: path_join_rooted descend_plain)
  moreover have "plains (q @ [c])" using q c by simp
  ultimately show ?thesis using q(3) unfolding under_def by (intro exI [of _ "q @ [c]"]) simp
qed

lemma gives_return: "P x \<Longrightarrow> os_gives (os_return x) P"
  by (simp add: os_gives_def os_return_def)

lemma gives_throw: "os_gives (os_throw e) P"
  by (simp add: os_gives_def os_throw_def)

lemma gives_bind: "os_gives m Q \<Longrightarrow> (\<And>x. Q x \<Longrightarrow> os_gives (k x) P) \<Longrightarrow> os_gives (os_bind m k) P"
  unfolding os_gives_def os_bind_def by (auto split: prod.splits sum.splits) metis

lemma gives_attempt:
  "os_gives m Q \<Longrightarrow> (\<And>x. Q x \<Longrightarrow> os_gives (k (Inr x)) P) \<Longrightarrow> (\<And>e. os_gives (k (Inl e)) P) \<Longrightarrow> os_gives (os_attempt m k) P"
  unfolding os_gives_def os_attempt_def by (auto split: prod.splits) (metis sum.exhaust)

lemma gives_any: "os_gives m (\<lambda>_. True)"
  by (simp add: os_gives_def)

lemma gives_walk_dir:
  assumes visit: "\<And>acc p d e. under S p \<Longrightarrow> P acc \<Longrightarrow> os_gives (fn acc p d e) (\<lambda>(_, acc). P acc)"
  shows "under S p \<Longrightarrow> P acc \<Longrightarrow> os_gives (walk_dir n fn p d acc) (\<lambda>(_, acc). P acc)"
    "under S p \<Longrightarrow> P acc \<Longrightarrow> \<forall>(c, _) \<in> set es. plain c \<Longrightarrow> os_gives (walk_dir_names n fn p es acc) (\<lambda>(_, acc). P acc)"
  using visit
proof (induction n fn p d acc and n fn p es acc rule: walk_dir_walk_dir_names.induct)
  case (1 fn p d acc)
  then show ?case by (simp add: gives_throw)
next
  case (2 n fn p d acc)
  show ?case
    unfolding walk_dir.simps
  proof (rule gives_bind [OF "2.prems"(3) [OF "2.prems"(1,2)]], clarify)
    fix err acc1 assume acc1: "P acc1"
    show "os_gives (if err \<noteq> None \<or> d \<noteq> DirNode then os_return (if err = Some SkipDir \<and> d = DirNode then None else err, acc1)
        else os_attempt (os_read_dir p) (\<lambda>r. case r of
          Inl e \<Rightarrow> os_bind (fn acc1 p (Some d) (Some e)) (\<lambda>(err, acc2).
            os_return (if err = Some SkipDir \<and> d = DirNode then None else err, acc2))
        | Inr es \<Rightarrow> walk_dir_names n fn p es acc1)) (\<lambda>(_, acc). P acc)"
    proof (cases "err \<noteq> None \<or> d \<noteq> DirNode")
      case True
      then show ?thesis using acc1 by (auto intro: gives_return)
    next
      case False
      have names: "os_gives (walk_dir_names n fn p es acc1) (\<lambda>(_, acc). P acc)" if "\<forall>(c, n) \<in> set es. plain c" for es
        by (rule "2.IH"(1)) (use False "2.prems" acc1 that in auto)
      have err: "os_gives (os_bind (fn acc1 p (Some d) (Some e)) (\<lambda>(err, acc2).
            os_return (if err = Some SkipDir \<and> d = DirNode then None else err, acc2))) (\<lambda>(_, acc). P acc)" for e
        by (rule gives_bind [OF "2.prems"(3) [OF "2.prems"(1) acc1]]) (auto intro: gives_return)
      show ?thesis
        unfolding if_not_P [OF False]
        by (rule gives_attempt [OF gives_read_dir]) (use names err in simp_all)
    qed
  qed
next
  case (3 n fn p acc)
  then show ?case by (auto intro: gives_return)
next
  case (4 n fn p c d es acc)
  have first: "os_gives (walk_dir n fn (path_join [p, c]) d acc) (\<lambda>(_, acc). P acc)"
    by (rule "4.IH"(1)) (use "4.prems" in \<open>auto intro: under_child\<close>)
  have rest: "os_gives (walk_dir_names n fn p es acc1) (\<lambda>(_, acc). P acc)" if "P acc1" for acc1
    by (rule "4.IH"(2)) (use "4.prems" that in auto)
  show ?case
    unfolding walk_dir_names.simps
    by (rule gives_bind [OF first]) (use rest in \<open>auto intro: gives_return\<close>)
qed

definition found_in :: "fpath \<Rightarrow> localFile list \<Rightarrow> bool" where
  "found_in S fs \<longleftrightarrow> list_all (\<lambda>f. under S (lf_Path f) \<and> lf_Path f \<noteq> rooted S) fs"

lemma gives_collect_visitor:
  "under S p \<Longrightarrow> found_in S acc \<Longrightarrow> os_gives (collect_visitor (rooted S) opts acc p d e) (\<lambda>(_, acc). found_in S acc)"
  unfolding collect_visitor_def
  by (cases e) (auto intro!: gives_return gives_attempt [OF gives_any] simp: found_in_def split: sum.split)

lemma gives_collectLocalFiles:
  assumes "plains S"
  shows "os_gives (collectLocalFiles fuel (rooted S) opts) (found_in S)"
proof -
  have S: "under S (rooted S)" using assms by (auto simp: under_def)
  have none: "found_in S []" by (simp add: found_in_def)
  have walk: "os_gives (case r of Inl e \<Rightarrow> collect_visitor (rooted S) opts [] (rooted S) None (Some e)
      | Inr info \<Rightarrow> walk_dir fuel (collect_visitor (rooted S) opts) (rooted S) info []) (\<lambda>(_, acc). found_in S acc)" for r
    using gives_collect_visitor [OF S none] gives_walk_dir(1) [where P = "found_in S", OF gives_collect_visitor S none]
    by (cases r) simp_all
  have inner: "os_gives (os_bind (case r of Inl e \<Rightarrow> collect_visitor (rooted S) opts [] (rooted S) None (Some e)
      | Inr info \<Rightarrow> walk_dir fuel (collect_visitor (rooted S) opts) (rooted S) info [])
        (\<lambda>(err, acc1). os_return (if err = Some SkipDir then None else err, acc1))) (\<lambda>(_, acc). found_in S acc)" for r
    by (rule gives_bind [OF walk]) (auto intro: gives_return)
  have "os_gives (filepath_WalkDir fuel (rooted S) (collect_visitor (rooted S) opts) []) (\<lambda>(_, acc). found_in S acc)"
    unfolding filepath_WalkDir_def by (rule gives_attempt [OF gives_any]) (rule inner)+
  then show ?thesis
    unfolding collectLocalFiles_def
    by (rule gives_bind) (auto intro: gives_return gives_throw split: option.split)
qed

lemma confined_walk_dir:
  assumes "\<And>acc p d e. confined dir (fn acc p d e)"
  shows "confined dir (walk_dir n fn p d acc)" "confined dir (walk_dir_names n fn p es acc)"
  using assms
proof (induction n fn p d acc and n fn p es acc rule: walk_dir_walk_dir_names.induct)
  case (2 n fn p d acc)
  then show ?case
    by (cases "d = DirNode") (auto intro!: confined_intros split: sum.split)
qed (auto intro!: confined_intros)

lemma confined_collect: "confined dir (collectLocalFiles fuel source opts)"
proof -
  have visit: "confined dir (collect_visitor source opts acc p d e)" for acc p d e
    unfolding collect_visitor_def by (auto intro!: confined_intros split: option.split sum.split)
  show ?thesis
    unfolding collectLocalFiles_def filepath_WalkDir_def
    by (auto intro!: confined_intros visit confined_walk_dir split: option.split sum.split)
qed

section \<open>Copying\<close>

lemma copied_below:
  assumes "plains S" "under S p" "p \<noteq> rooted S"
  obtains cs where "path_rel (rooted S) p = Inr (JoinWith slash cs)" "plains cs" "cs \<noteq> []" "p = rooted (S @ cs)"
proof -
  obtain q where q: "p = rooted q" "plains q" "prefix S q" using assms(2) by (auto simp: under_def)
  then obtain cs where cs: "q = S @ cs" by (auto simp: prefix_def)
  then have "cs \<noteq> []" using assms(3) q(1) by auto
  then have "path_rel (rooted S) p = Inr (JoinWith slash cs)"
    using q(1,2) cs assms(1) strip_common_append [of S "[]" cs] by (simp add: path_rel_rooted)
  then show ?thesis using that q cs \<open>cs \<noteq> []\<close> by simp
qed

lemma target_below:
  assumes "plains D" "plains cs"
  shows "path_join [rooted D, JoinWith slash cs] = rooted (D @ cs)"
  using assms by (cases "cs = []") (simp_all add: path_join_rooted descend_JoinWith)

lemma imp_bind_Inr [simp]: "imp_bind (imp_os (os_lift (Inr x))) k = k x"
  by (auto simp: imp_bind_def imp_os_def os_lift_def fun_eq_iff)

lemma imp_bind_paths:
  "resolveLocalPaths (wd w) cfg = Inr sd \<Longrightarrow>
     imp_bind (imp_os (with_local_paths cfg (\<lambda>source dest. os_return (source, dest)))) k (p, w) = k sd (p, w)"
  by (cases sd) (simp add: imp_bind_def imp_os_def with_local_paths_def os_return_def)

lemma imp_confined_copy_local:
  assumes "plains S" "plains D" "progress_confined D progress" "found_in S fs"
  shows "imp_confined D (copy_local ratio65 progress (rooted S) (rooted D) n total0 index copied fs)"
  using assms(4)
proof (induction fs arbitrary: index copied)
  case Nil
  then show ?case by (auto intro!: confined_intros)
next
  case (Cons lf fs)
  have "under S (lf_Path lf)" "lf_Path lf \<noteq> rooted S" using Cons.prems by (simp_all add: found_in_def)
  then obtain cs where cs: "path_rel (rooted S) (lf_Path lf) = Inr (JoinWith slash cs)" "plains cs"
    using copied_below [OF assms(1)] by metis
  have t: "path_join [rooted D, JoinWith slash cs] = rooted (D @ cs)" by (rule target_below [OF assms(2) cs(2)])
  have dir: "confined D (os_mkdir_all (path_dir (rooted (D @ cs))))"
    by (rule confined_mkdir_parent) (use assms(2) cs(2) in auto)
  have copy: "confined D (copyLocalFile (lf_Path lf) (rooted (D @ cs)))"
    by (rule confined_copyLocalFile) (use assms(2) cs(2) in auto)
  have "found_in S fs" using Cons.prems by (simp add: found_in_def)
  then show ?case
    by (simp add: cs(1) t Let_def) (intro confined_intros dir copy assms(3) Cons.IH)
qed

lemma imp_confined_wipe_first:
  "plains D \<Longrightarrow> progress_confined D progress \<Longrightarrow> imp_confined D (wipe_first progress wipe (rooted D))"
  unfolding wipe_first_def by (auto intro!: confined_intros confined_wipe)

text \<open>What an import does once both paths are known.\<close>

lemma imp_confined_import:
  assumes "plains S" "plains D" "progress_confined D progress"
  shows "imp_confined D (imp_seq (tell (progress ''Scanning'' 15 ''Scanning local Pterodactyl server files...''))
    (imp_bind (imp_os (collectLocalFiles fuel (rooted S) options)) (\<lambda>files.
     imp_seq (wipe_first progress wipe (rooted D))
    (imp_seq (imp_os (os_mkdir_all (rooted D)))
    (imp_seq (copy_local ratio65 progress (rooted S) (rooted D) (length files) (sum_list (map lf_Size files)) 0 0 files)
             (tell (progress ''Finalizing'' 92 ''Finalizing locally copied files...'')))))))"
proof (rule imp_confined_bind [OF imp_confined_tell [OF assms(3)]], rule imp_confined_bind_if)
  show "imp_confined D (imp_os (collectLocalFiles fuel (rooted S) options))"
    by (intro confined_intros confined_collect)
next
  fix fs p w p' w'
  assume "imp_os (collectLocalFiles fuel (rooted S) options) (p, w) = (Inr fs, p', w')"
  then have "found_in S fs"
    using gives_collectLocalFiles [OF assms(1)] unfolding imp_os_def os_gives_def
    by (auto split: prod.splits) blast
  then show "imp_confined D (imp_seq (wipe_first progress wipe (rooted D))
      (imp_seq (imp_os (os_mkdir_all (rooted D)))
      (imp_seq (copy_local ratio65 progress (rooted S) (rooted D) (length fs) (sum_list (map lf_Size fs)) 0 0 fs)
         (tell (progress ''Finalizing'' 92 ''Finalizing locally copied files...'')))))"
    using assms(2) by (intro confined_intros imp_confined_wipe_first imp_confined_copy_local assms(1,3)) auto
qed


section \<open>Wiping\<close>

definition wipe_names :: "fpath \<Rightarrow> string list \<Rightarrow> fsys \<Rightarrow> fsys" where
  "wipe_names D cs f = fold (\<lambda>c f. if c = ''.hivepanel'' then f else fs_cut (D @ [c]) f) cs f"

lemma wipe_names_simps [simp]:
  "wipe_names D [] f = f"
  "wipe_names D (c # cs) f = wipe_names D cs (if c = ''.hivepanel'' then f else fs_cut (D @ [c]) f)"
  by (simp_all add: wipe_names_def)

lemma fs_get_wipe_names:
  "fs_get (wipe_names D cs f) q = (if \<exists>c \<in> set cs. c \<noteq> ''.hivepanel'' \<and> prefix (D @ [c]) q then None else fs_get f q)"
  by (induction cs arbitrary: f) auto

lemma dir_here_cut: "dir_here f D \<Longrightarrow> dir_here (fs_cut (D @ [c]) f) D"
proof -
  have "\<not> prefix (D @ [c]) ds" if "prefix ds D" for ds
    using that by (auto dest!: prefix_length_le)
  then show "dir_here f D \<Longrightarrow> dir_here (fs_cut (D @ [c]) f) D"
    by (auto simp: dir_here_def on_dirs_def strict_prefix_def)
qed

lemma wipe_entries_run:
  assumes "calm w" "dir_here (files w) D" "\<forall>(c, n) \<in> set es. plain c \<and> CHR 0x00 \<notin> set c"
  shows "\<exists>n. wipe_entries (rooted D) es w = (Inr (), w\<lparr>files := wipe_names D (map fst es) (files w), ticks := n\<rparr>)"
  using assms
proof (induction es arbitrary: w)
  case Nil
  have "w\<lparr>files := files w, ticks := ticks w\<rparr> = w" by simp
  then show ?case by (metis list.simps(8) os_return_def wipe_entries.simps(1) wipe_names_simps(1))
next
  case (Cons e es)
  obtain c x where e: "e = (c, x)" by fastforce
  have c: "plain c" "CHR 0x00 \<notin> set c" using Cons.prems(3) e by auto
  show ?case
  proof (cases "c = ''.hivepanel''")
    case True
    then show ?thesis using Cons.IH [OF Cons.prems(1,2)] Cons.prems(3) e by simp
  next
    case False
    let ?w = "w\<lparr>files := fs_cut (D @ [c]) (files w), ticks := Suc (ticks w)\<rparr>"
    have D: "plains D" using Cons.prems(2) by (simp add: dir_here_def on_dirs_def)
    have "on_dirs (files w) (D @ [c])" by (rule on_dirs_entry [OF Cons.prems(2) c])
    then have "os_remove_all (rooted (D @ [c])) w = (Inr (), ?w)"
      using Cons.prems(1) by (simp add: os_remove_all_def os_call_calm locate_on_dirs rooted_nonempty)
    then have "wipe_entries (rooted D) (e # es) w = wipe_entries (rooted D) es ?w"
      using False e c D by (simp add: os_bind_def path_join_rooted descend_plain)
    moreover obtain n where "wipe_entries (rooted D) es ?w = (Inr (), ?w\<lparr>files := wipe_names D (map fst es) (files ?w), ticks := n\<rparr>)"
      using Cons.IH [of ?w] Cons.prems dir_here_cut by auto
    ultimately show ?thesis using False e by (intro exI [of _ n]) simp
  qed
qed

definition names_printable :: "fsys \<Rightarrow> fpath \<Rightarrow> bool" where
  "names_printable f D \<longleftrightarrow> list_all (\<lambda>c. CHR 0x00 \<notin> set c) (fs_children f D)"

lemma wipe_run:
  assumes "calm w" "dir_here (files w) D" "names_printable (files w) D"
  obtains n where "wipeLocalDirectory (rooted D) w =
    (Inr (), w\<lparr>files := wipe_names D (fs_children (files w) D) (files w), ticks := n\<rparr>)"
proof -
  let ?w = "w\<lparr>ticks := Suc (ticks w)\<rparr>"
  have names: "map fst (fs_entries (files w) D) = fs_children (files w) D"
  proof -
    have "map fst (concat (map (\<lambda>c. case fs_get (files w) (D @ [c]) of None \<Rightarrow> [] | Some n \<Rightarrow> [(c, n)]) cs)) = cs"
      if "\<forall>c \<in> set cs. fs_get (files w) (D @ [c]) \<noteq> None" for cs
      using that by (induction cs) auto
    then show ?thesis by (auto simp: fs_entries_def fs_children_iff)
  qed
  have "\<forall>(c, n) \<in> set (fs_entries (files w) D). plain c \<and> CHR 0x00 \<notin> set c"
  proof (clarify)
    fix c n assume "(c, n) \<in> set (fs_entries (files w) D)"
    then have "c \<in> set (fs_children (files w) D)" using names by (metis fst_conv image_eqI set_map)
    then show "plain c \<and> CHR 0x00 \<notin> set c" using assms(3) by (auto simp: fs_children_iff names_printable_def list_all_iff)
  qed
  then obtain n where "wipe_entries (rooted D) (fs_entries (files w) D) ?w =
      (Inr (), ?w\<lparr>files := wipe_names D (map fst (fs_entries (files w) D)) (files ?w), ticks := n\<rparr>)"
    using wipe_entries_run [of ?w D "fs_entries (files w) D"] assms(1,2) by auto
  then show ?thesis
    using that [of n] assms(1,2) names by (simp add: wipeLocalDirectory_def os_attempt_def os_read_dir_here)
qed

text \<open>
  A wipe takes away everything in the directory of a cell except \<open>.hivepanel\<close>, which it leaves as it is, as it does
  with all other files of the host.
\<close>

theorem wipe_correct:
  assumes "calm w" "dir_here (files w) D" "names_printable (files w) D"
  shows "case wipeLocalDirectory (rooted D) w of (r, w') \<Rightarrow> r = Inr ()
    \<and> (\<forall>q. fs_get (files w') q =
        (if \<exists>c. prefix (D @ [c]) q \<and> plain c \<and> c \<noteq> ''.hivepanel'' \<and> fs_get (files w) (D @ [c]) \<noteq> None then None
         else fs_get (files w) q))"
proof -
  obtain n where run: "wipeLocalDirectory (rooted D) w =
    (Inr (), w\<lparr>files := wipe_names D (fs_children (files w) D) (files w), ticks := n\<rparr>)"
    using wipe_run [OF assms] .
  have eq: "(\<exists>c \<in> set (fs_children (files w) D). c \<noteq> ''.hivepanel'' \<and> prefix (D @ [c]) q) \<longleftrightarrow>
      (\<exists>c. prefix (D @ [c]) q \<and> plain c \<and> c \<noteq> ''.hivepanel'' \<and> fs_get (files w) (D @ [c]) \<noteq> None)" for q
    by (simp only: Bex_def fs_children_iff conj_ac)
  have get: "fs_get (wipe_names D (fs_children (files w) D) (files w)) q =
      (if \<exists>c. prefix (D @ [c]) q \<and> plain c \<and> c \<noteq> ''.hivepanel'' \<and> fs_get (files w) (D @ [c]) \<noteq> None then None
       else fs_get (files w) q)" for q
    unfolding fs_get_wipe_names eq by (rule refl)
  have files': "files (w\<lparr>files := f, ticks := n\<rparr>) = f" for f by simp
  show ?thesis unfolding run prod.case files' by (intro conjI allI refl get)
qed

section \<open>A source that is a symbolic link\<close>

definition quiet_progress :: "'p progress" where
  "quiet_progress stage percent msg = (\<lambda>s. s)"

lemma collect_link:
  assumes "calm w" "on_dirs (files w) S" "fs_get (files w) S = Some (LinkNode t)"
  shows "collectLocalFiles (Suc fuel) (rooted S) opts w = (Inr [], w\<lparr>ticks := Suc (ticks w)\<rparr>)"
proof -
  have "os_lstat (rooted S) w = (Inr (LinkNode t), w\<lparr>ticks := Suc (ticks w)\<rparr>)"
    using assms by (simp add: os_lstat_def os_call_calm fs_info_def locate_on_dirs)
  then show ?thesis
    by (simp add: collectLocalFiles_def filepath_WalkDir_def os_attempt_def os_bind_def collect_visitor_def os_return_def)
qed

lemma resolve_rooted:
  assumes "SourcePath cfg = rooted S" "LocalPath cfg = rooted D" "TrimSpace (rooted S) = rooted S" "TrimSpace (rooted D) = rooted D"
    "plains S" "plains D" "\<not> prefix S D" "\<not> prefix D S"
  shows "resolveLocalPaths d cfg = Inr (rooted S, rooted D)"
proof -
  have "S \<noteq> D" using assms(7) by auto
  then have "rooted S \<noteq> rooted D" using assms(5,6) rooted_inject by blast
  then show ?thesis
    using assms by (simp add: resolveLocalPaths_def Let_def wrap_def rooted_nonempty pathContains_rooted strict_prefix_def)
qed

text \<open>
  The check of a local source follows symbolic links and the copy does not: when the source is a link to a directory
  the check passes, the import copies nothing and still succeeds, and with the option to wipe the cell has lost all its
  files but those of \<open>.hivepanel\<close>.
\<close>

theorem linked_source_loses_files:
  assumes "SourcePath cfg = rooted S" "LocalPath cfg = rooted D" "TrimSpace (rooted S) = rooted S" "TrimSpace (rooted D) = rooted D"
    "\<not> prefix S D" "\<not> prefix D S" "WipeBeforeImport (local_Options cfg)" "calm w" "on_dirs (files w) S"
    "fs_get (files w) S = Some (LinkNode t)" "fs_info True (rooted S) (wd w) (files w) = Inr DirNode"
    "dir_here (files w) D" "names_printable (files w) D"
  shows "fst (TestLocal cfg w) = Inr ()
    \<and> (case ImportLocal (Suc fuel) ratio65 cfg quiet_progress (p, w) of (r, _, w') \<Rightarrow>
        r = Inr () \<and> set (fs_children (files w') D) \<subseteq> {''.hivepanel''})"
proof -
  have plains: "plains S" "plains D" using assms(9,12) by (simp_all add: dir_here_def on_dirs_def)
  note paths = resolve_rooted [OF assms(1-4) plains assms(5,6)]
  have test: "fst (TestLocal cfg w) = Inr ()"
    using assms(8,11) by (simp add: TestLocal_def with_local_paths_def paths os_bind_def os_wrap_def os_stat_def os_call_calm
        is_dir_def os_return_def)
  let ?w1 = "w\<lparr>ticks := Suc (ticks w)\<rparr>"
  obtain n where wipe: "wipeLocalDirectory (rooted D) ?w1 =
      (Inr (), ?w1\<lparr>files := wipe_names D (fs_children (files ?w1) D) (files ?w1), ticks := n\<rparr>)"
    using wipe_run [of ?w1 D] assms(8,12,13) by auto
  let ?f = "wipe_names D (fs_children (files w) D) (files w)"
  have here: "dir_here ?f D"
  proof -
    have "\<not> prefix (D @ [c]) ds" if "prefix ds D" for ds c using that by (auto dest!: prefix_length_le)
    then show ?thesis using assms(12) by (auto simp: dir_here_def on_dirs_def fs_get_wipe_names strict_prefix_def)
  qed
  have mk: "os_mkdir_all (rooted D) (w\<lparr>files := ?f, ticks := n\<rparr>) = (Inr (), w\<lparr>files := ?f, ticks := Suc n\<rparr>)"
    using os_mkdir_all_present [of "w\<lparr>files := ?f, ticks := n\<rparr>" D] assms(8) here by simp
  have "ImportLocal (Suc fuel) ratio65 cfg quiet_progress (p, w) = (Inr (), p, w\<lparr>files := ?f, ticks := Suc n\<rparr>)"
    unfolding ImportLocal_def
    by (subst imp_bind_paths [OF paths])
      (simp add: imp_bind_def imp_os_def tell_def quiet_progress_def wipe_first_def assms(7) collect_link [OF assms(8-10)]
        wipe [simplified] mk os_return_def)
  moreover have "set (fs_children ?f D) \<subseteq> {''.hivepanel''}"
    by (rule subsetI, rule ccontr) (auto simp: fs_get_wipe_names fs_children_iff split: if_splits)
  ultimately show ?thesis using test by simp
qed

section \<open>Names of remote files\<close>

text \<open>
  A remote path that is absolute names its files below the root of the import as they are called there. The default
  root, the login directory \<open>.\<close>, does not: exactly the files whose path begins with a dot are written under another
  name, without that dot.
\<close>

theorem remote_names:
  assumes "plains R" "plains cs" "cs \<noteq> []"
  shows "remote_relative (rooted R) (rooted (R @ cs)) = JoinWith slash cs
    \<and> (remote_relative (normaliseRemotePath []) (path_join [''.'', JoinWith slash cs]) = JoinWith slash cs
       \<longleftrightarrow> hd (hd cs) \<noteq> CHR ''.'')"
proof -
  have c: "hd cs \<noteq> []" "slash \<notin> set (hd cs)" using assms(2,3) plain_props by (metis list.set_sel(1) plains_mem)+
  then obtain x xs where x: "hd cs = x # xs" "x \<noteq> slash" by (cases "hd cs") auto
  obtain ys where ys: "JoinWith slash cs = x # ys"
    using assms(3) x(1) by (cases cs; cases "tl cs") auto
  have root: "normaliseRemotePath [] = ''.''" by code_simp
  have rel: "path_join [''.'', JoinWith slash cs] = JoinWith slash cs"
  proof -
    have "path_clean (''./'' @ JoinWith slash cs) = JoinWith slash cs"
    proof -
      have "Split slash (''./'' @ JoinWith slash cs) = ''.'' # cs"
        using Split_append [of slash "''.''" "JoinWith slash cs"] Split_plains [OF assms(2,3)] by (simp add: Split_nosep)
      then show ?thesis using assms(2,3) by (simp add: path_clean_def is_abs_def HasPrefix_def Let_def clean_comps_plains)
    qed
    then show ?thesis using ys by (simp add: path_join_def)
  qed
  have "remote_relative ''.'' (x # ys) = x # ys \<longleftrightarrow> x \<noteq> CHR ''.''"
  proof (cases "x = CHR ''.''")
    case True
    have "length (TrimPrefix ys ''/'') \<le> length ys" by (simp add: TrimPrefix_def)
    then have "TrimPrefix ys ''/'' \<noteq> x # ys" by (metis impossible_Cons)
    then show ?thesis using True by (simp add: remote_relative_def TrimPrefix_def [of "CHR ''.'' # ys"])
  qed (use x(2) in \<open>simp add: remote_relative_def TrimPrefix_def\<close>)
  moreover have "remote_relative (rooted R) (rooted (R @ cs)) = JoinWith slash cs"
  proof (cases "R = []")
    case True
    then show ?thesis using ys x(2) by (simp add: remote_relative_def TrimPrefix_def rooted_def)
  next
    case False
    then show ?thesis using assms(3) by (simp add: rooted_append remote_relative_def TrimPrefix_def)
  qed
  ultimately show ?thesis using rel ys x(1) root by simp
qed


section \<open>Witnesses\<close>

definition import_files :: fsys where
  "import_files = [([''s''], LinkNode ''/real''), ([''real''], DirNode), ([''real'', ''a''], FileNode ''x''),
     ([''c''], DirNode), ([''c'', ''world''], FileNode ''w''), ([''c'', ''.hivepanel''], DirNode)]"

definition import_config :: LocalConfig where
  "import_config = \<lparr>SourcePath = ''/s'', LocalPath = ''/c'', local_Options = \<lparr>ImportWorlds = True, ImportPlugins = True,
     ImportConfigs = True, ImportMods = True, ImportServerJar = True, WipeBeforeImport = True\<rparr>\<rparr>"

lemma import_paths:
  "SourcePath import_config = rooted [''s'']" "LocalPath import_config = rooted [''c'']"
  "TrimSpace (rooted [''s'']) = rooted [''s'']" "TrimSpace (rooted [''c'']) = rooted [''c'']"
  "WipeBeforeImport (local_Options import_config)" "\<not> prefix [''s''] [''c'']" "\<not> prefix [''c''] [''s'']"
  "fs_get import_files [''s''] = Some (LinkNode ''/real'')" "plains [''c'']"
  by code_simp+

theorem linked_source_loses_files_witness:
  "fst (TestLocal import_config (calm_world import_files)) = Inr ()
    \<and> (case ImportLocal (Suc 0) (\<lambda>_ _. 0) import_config quiet_progress ((), calm_world import_files) of (r, _, w') \<Rightarrow>
        r = Inr () \<and> set (fs_children (files w') [''c'']) \<subseteq> {''.hivepanel''})"
proof (rule linked_source_loses_files [where S = "[''s'']" and t = "''/real''"])
  show "on_dirs (files (calm_world import_files)) [''s'']" unfolding calm_world_simps by (rule on_dirs_check; code_simp)
  show "dir_here (files (calm_world import_files)) [''c'']" unfolding calm_world_simps by (rule dir_here_check; code_simp)
  show "names_printable (files (calm_world import_files)) [''c'']" unfolding calm_world_simps by code_simp
  show "fs_info True (rooted [''s'']) (wd (calm_world import_files)) (files (calm_world import_files)) = Inr DirNode"
    by code_simp
  show "fs_get (files (calm_world import_files)) [''s''] = Some (LinkNode ''/real'')"
    unfolding calm_world_simps by (rule import_paths)
qed (rule import_paths calm_world_simps)+

theorem wipe_correct_witness:
  "case wipeLocalDirectory (rooted [''c'']) (calm_world import_files) of (r, w') \<Rightarrow> r = Inr ()
    \<and> (\<forall>q. fs_get (files w') q =
        (if \<exists>c. prefix ([''c''] @ [c]) q \<and> plain c \<and> c \<noteq> ''.hivepanel'' \<and> fs_get (files (calm_world import_files)) ([''c''] @ [c]) \<noteq> None
         then None else fs_get (files (calm_world import_files)) q))"
proof (rule wipe_correct)
  show "dir_here (files (calm_world import_files)) [''c'']" unfolding calm_world_simps by (rule dir_here_check; code_simp)
  show "names_printable (files (calm_world import_files)) [''c'']" unfolding calm_world_simps by code_simp
qed simp

theorem remote_names_witness:
  "remote_relative (rooted [''srv'']) (rooted ([''srv''] @ [''.env''])) = JoinWith slash [''.env'']
    \<and> (remote_relative (normaliseRemotePath []) (path_join [''.'', JoinWith slash [''.env'']]) = JoinWith slash [''.env'']
       \<longleftrightarrow> hd (hd [''.env'']) \<noteq> CHR ''.'')"
  by (rule remote_names) code_simp+


end
