(* ===== verification/MigrationDetect.thy ===== *)
theory MigrationDetect
  imports Importer
begin

text \<open>
  Looking for the data of another server manager on this host: \<open>internal/migrationdetect\<close> on Linux (\<open>detector.go\<close>,
  \<open>runtime_linux.go\<close>, \<open>disk_linux.go\<close>). \<open>detect_env\<close> holds what comes from outside: the environment, the parser of URLs,
  the answer of the Docker engine, the free space of a disk, the order in which Go iterates over maps, the texts of errors.
\<close>

section \<open>Data\<close>

record Request =
  UUIDs :: "string list"
  ConfiguredPath :: string

record Candidate =
  cand_Path :: string
  cand_Source :: string
  MatchedUUIDs :: "string list"
  MissingUUIDs :: "string list"
  Readable :: bool
  TotalBytes :: "64 word"
  Confidence :: string
  MatchCount :: int
  ExpectedCount :: int

record RuntimeContainer =
  rc_UUID :: string
  rc_ID :: string
  rc_Name :: string
  rc_State :: string
  rc_Status :: string
  MatchedBy :: "string list"
  rc_Labels :: "(string \<times> string) list"

record RuntimeCheck =
  Available :: bool
  Engine :: string
  AllStopped :: "bool option"
  MatchedCount :: int
  ActiveCount :: int
  ActiveContainers :: "RuntimeContainer list"
  MatchedContainers :: "RuntimeContainer list"
  check_Error :: string

record dockerContainerSummary =
  dc_ID :: string
  dc_Names :: "string list"
  dc_State :: string
  dc_Status :: string
  dc_Labels :: "(string \<times> string) list"
  dc_Mounts :: "(string \<times> string) list"

record detect_result =
  Detected :: bool
  DataPath :: string
  PathTemplate :: string
  res_Source :: string
  res_Confidence :: string
  res_MatchedUUIDs :: "string list"
  res_MissingUUIDs :: "string list"
  res_TotalBytes :: "64 word"
  FreeBytes :: "64 word"
  EnoughSpace :: "bool option"
  res_RuntimeCheck :: RuntimeCheck
  Candidates :: "Candidate list"
  Warnings :: "string list"

text \<open>A parsed URL: its scheme, and its text for any scheme.\<close>

record detect_env =
  docker_host :: string
  parse_url :: "string \<Rightarrow> go_error + (string \<times> (string \<Rightarrow> string))"
  docker_get :: "string \<Rightarrow> go_error + (int \<times> (go_error + dockerContainerSummary list))"
  statfs :: "string \<Rightarrow> go_error + (64 word \<times> 64 word)"
  iter_candidates :: "(string \<times> string) list \<Rightarrow> (string \<times> string) list"
  detect_text :: "go_error \<Rightarrow> string"

section \<open>Strings\<close>

definition quotes :: string where "quotes = [CHR 0x22, CHR 0x27]"

definition at_space :: "string \<Rightarrow> bool" where
  "at_space s \<longleftrightarrow> list_ex (\<lambda>e. prefix e s) space_encodings"

fun split_word :: "string \<Rightarrow> string \<times> string" where
  "split_word [] = ([], [])"
| "split_word (c # cs) =
     (if at_space (c # cs) then ([], c # cs) else (case split_word cs of (w, rest) \<Rightarrow> (c # w, rest)))"

lemma length_split_word: "split_word s = (w, rest) \<Longrightarrow> s = w @ rest"
  by (induction s arbitrary: w rest) (auto split: if_splits prod.splits)

lemma length_trim_encs: "length (trim_encs encs s) \<le> length s"
proof (induction encs s rule: trim_encs.induct)
  case (1 encs s)
  then show ?case
    by (subst trim_encs.simps) (auto split: option.split intro: le_trans)
qed

lemma split_word_shorter:
  assumes "split_word (trim_encs space_encodings s) = (w, rest)" "w \<noteq> []"
  shows "length rest < length s"
proof -
  have "trim_encs space_encodings s = w @ rest" by (rule length_split_word [OF assms(1)])
  then have "length rest < length (trim_encs space_encodings s)" using assms(2) by simp
  also have "\<dots> \<le> length s" by (rule length_trim_encs)
  finally show ?thesis .
qed

text \<open>\<open>strings.Fields\<close>; an empty word cannot arise, and the second case only makes that evident.\<close>

function Fields :: "string \<Rightarrow> string list" where
  "Fields s =
     (let t = trim_encs space_encodings s
      in if t = [] then [] else (case split_word t of (w, rest) \<Rightarrow> if w = [] then [] else w # Fields rest))"
  by pat_completeness auto
termination
  by (relation "measure length") (auto dest!: sym [of "(_, _)"] intro!: split_word_shorter)

declare Fields.simps [simp del]

text \<open>What stands before the first \<open> #\<close>.\<close>

fun before_comment :: "string \<Rightarrow> string option" where
  "before_comment [] = None"
| "before_comment (c # cs) =
     (if prefix '' #'' (c # cs) then Some [] else map_option ((#) c) (before_comment cs))"

definition cleanRoot :: "string \<Rightarrow> string" where
  "cleanRoot p0 =
     (let p = Trim (TrimSpace p0) quotes in if p = [] \<or> \<not> is_abs p then [] else path_clean p)"

definition yamlScalarValue :: "string \<Rightarrow> string" where
  "yamlScalarValue v0 =
     (let v = Trim (TrimSpace v0) quotes
      in cleanRoot (case before_comment v of None \<Rightarrow> v | Some u \<Rightarrow> TrimSpace u))"

fun dedup_uuids :: "string list \<Rightarrow> string list \<Rightarrow> string list" where
  "dedup_uuids seen [] = []"
| "dedup_uuids seen (u0 # us) =
     (let u = ToLower (TrimSpace u0)
      in if u = [] \<or> u \<in> set seen then dedup_uuids seen us else u # dedup_uuids (u # seen) us)"

definition normaliseUUIDs :: "string list \<Rightarrow> string list" where
  "normaliseUUIDs us = sort (dedup_uuids [] us)"

definition leadingWhitespace :: "string \<Rightarrow> int" where
  "leadingWhitespace v = int (length v) - int (length (TrimLeft v ('' '' @ [CHR 0x09])))"

definition sourceEvidenceScore :: "string \<Rightarrow> int" where
  "sourceEvidenceScore source =
     (if HasPrefix source ''daemon_config:'' then 4
      else if HasPrefix source ''systemd_daemon_config:'' then 4
      else if source = ''configured_path'' then 3
      else if source = ''conventional_path'' then 1
      else 0)"

definition confidenceScore :: "string \<Rightarrow> int" where
  "confidenceScore v = (if v = ''high'' then 3 else if v = ''medium'' then 2 else if v = ''low'' then 1 else 0)"

section \<open>Places to look\<close>

definition system_keys :: "string list" where
  "system_keys = [''data:'', ''data_directory:'', ''server_data:'', ''server_data_directory:'', ''volumes:'', ''volumes_directory:'']"

definition loose_keys :: "string list" where
  "loose_keys = [''data_directory:'', ''server_data:'', ''server_data_directory:'', ''volumes_directory:'']"

definition keyed_value :: "string list \<Rightarrow> string \<Rightarrow> string option" where
  "keyed_value keys trimmed =
     map_option (\<lambda>k. yamlScalarValue (TrimPrefix trimmed k)) (find (HasPrefix trimmed) keys)"

text \<open>The loop over the lines of the \<open>system:\<close> block, and the one over all lines.\<close>

fun scan_system :: "int option \<Rightarrow> string list \<Rightarrow> string option" where
  "scan_system blk [] = None"
| "scan_system blk (rawLine # rest) =
     (let line = TrimRight rawLine ('' '' @ [CHR 0x09, CHR 0x0D]); trimmed = TrimSpace line
      in if trimmed = [] \<or> HasPrefix trimmed ''#'' then scan_system blk rest
         else if trimmed = ''system:'' then scan_system (Some (leadingWhitespace line)) rest
         else let blk' = (case blk of None \<Rightarrow> None | Some i \<Rightarrow> if leadingWhitespace line \<le> i then None else Some i)
              in case blk' of
                   None \<Rightarrow> scan_system None rest
                 | Some i \<Rightarrow>
                     (case keyed_value system_keys trimmed of
                        Some v \<Rightarrow> Some v | None \<Rightarrow> scan_system (Some i) rest))"

fun scan_loose :: "string list \<Rightarrow> string option" where
  "scan_loose [] = None"
| "scan_loose (rawLine # rest) =
     (case keyed_value loose_keys (TrimSpace rawLine) of Some v \<Rightarrow> Some v | None \<Rightarrow> scan_loose rest)"

definition dataPathFromYAML :: "string \<Rightarrow> string os" where
  "dataPathFromYAML p =
     os_attempt (os_read_file p) (\<lambda>r. case r of
         Inl _ \<Rightarrow> os_return []
       | Inr data \<Rightarrow>
           (let ls = Split (CHR 0x0A) data
            in os_return (case scan_system None ls of
                 Some v \<Rightarrow> v
               | None \<Rightarrow> (case scan_loose ls of Some v \<Rightarrow> v | None \<Rightarrow> []))))"

fun exec_options :: "string list \<Rightarrow> string list" where
  "exec_options [] = []"
| "exec_options (f0 # fs) =
     (let field = Trim f0 quotes
      in if field = ''--config'' \<or> field = ''-c''
         then (case fs of [] \<Rightarrow> [] | g # _ \<Rightarrow> Trim g quotes # exec_options fs)
         else if HasPrefix field ''--config=''
         then Trim (TrimPrefix field ''--config='') quotes # exec_options fs
         else exec_options fs)"

text \<open>The scanner stops silently at a line of 64 KiB.\<close>

definition configPathsFromService :: "string \<Rightarrow> string list" where
  "configPathsFromService content =
     concat (map (\<lambda>line0. let line = TrimSpace (drop_cr line0)
         in if \<not> HasPrefix line ''ExecStart='' then [] else exec_options (Fields (TrimPrefix line ''ExecStart='')))
       (takeWhile (\<lambda>l. length l < 64 * 1024) (log_lines content)))"

fun unseen :: "string list \<Rightarrow> string list \<Rightarrow> string list" where
  "unseen seen [] = []"
| "unseen seen (p # ps) = (if p = [] \<or> p \<in> set seen then unseen seen ps else p # unseen (p # seen) ps)"

fun service_files :: "string \<Rightarrow> (string \<times> node) list \<Rightarrow> string list os" where
  "service_files dir [] = os_return []"
| "service_files dir ((name, d) # rest) =
     (if is_dir d \<or> \<not> HasSuffix name ''.service'' then service_files dir rest
      else os_attempt (os_read_file (path_join [dir, name])) (\<lambda>r. case r of
          Inl _ \<Rightarrow> service_files dir rest
        | Inr content \<Rightarrow>
            (let lower = ToLower content
             in os_bind (service_files dir rest) (\<lambda>more. os_return
               (if \<not> Contains lower ''wings'' \<and> \<not> Contains lower ''elytra'' \<and> \<not> Contains lower ''pterodactyl'' then more
                else configPathsFromService content @ more)))))"

fun service_dirs :: "string list \<Rightarrow> string list os" where
  "service_dirs [] = os_return []"
| "service_dirs (dir # rest) =
     os_attempt (os_read_dir dir) (\<lambda>r. case r of
         Inl _ \<Rightarrow> service_dirs rest
       | Inr entries \<Rightarrow> os_bind (service_files dir entries) (\<lambda>ps.
           os_bind (service_dirs rest) (\<lambda>qs. os_return (ps @ qs))))"

definition discoverSystemdConfigFiles :: "string list os" where
  "discoverSystemdConfigFiles =
     os_bind (service_dirs [''/etc/systemd/system'', ''/usr/lib/systemd/system'', ''/lib/systemd/system'']) (\<lambda>ps.
       os_return (unseen [] ps))"

definition addCandidate :: "string \<Rightarrow> string \<Rightarrow> (string \<times> string) list \<Rightarrow> (string \<times> string) list" where
  "addCandidate p0 source candidates =
     (let p = cleanRoot p0 in if p = [] \<or> map_of candidates p \<noteq> None then candidates else candidates @ [(p, source)])"

fun add_configured :: "string \<Rightarrow> string list \<Rightarrow> (string \<times> string) list \<Rightarrow> (string \<times> string) list os" where
  "add_configured tag [] cands = os_return cands"
| "add_configured tag (configPath # rest) cands =
     os_bind (dataPathFromYAML configPath) (\<lambda>p.
       add_configured tag rest (if p \<noteq> [] then addCandidate p (tag @ configPath) cands else cands))"

definition collectCandidates :: "string \<Rightarrow> (string \<times> string) list os" where
  "collectCandidates configuredPath =
     (let c0 = (if configuredPath \<noteq> [] then addCandidate configuredPath ''configured_path'' [] else [])
      in os_bind (add_configured ''daemon_config:''
           [''/etc/pterodactyl/config.yml'', ''/etc/pterodactyl/config.yaml'', ''/etc/wings/config.yml'', ''/etc/wings/config.yaml''] c0) (\<lambda>c1.
         os_bind discoverSystemdConfigFiles (\<lambda>configs.
         os_bind (add_configured ''systemd_daemon_config:'' configs c1) (\<lambda>c2.
         os_return (fold (\<lambda>p. addCandidate p ''conventional_path'')
           [''/var/lib/pterodactyl/volumes'', ''/var/lib/pterodactyl'', ''/mnt/data/pterodactyl/volumes'',
            ''/srv/pterodactyl/volumes'', ''/srv/pterodactyl'', ''/opt/pterodactyl/volumes''] c2)))))"

section \<open>Looking at a candidate\<close>

definition directoryReadable :: "string \<Rightarrow> bool os" where
  "directoryReadable p =
     os_attempt (os_stat p) (\<lambda>opened. case opened of
         Inl _ \<Rightarrow> os_return False
       | Inr _ \<Rightarrow> os_attempt (os_read_dir p) (\<lambda>r. os_return (case r of Inl _ \<Rightarrow> False | Inr _ \<Rightarrow> True)))"

definition size_of_entry :: "(64 word) dir_visitor" where
  "size_of_entry n p entry err =
     (if err \<noteq> None then os_return (None, n)
      else case entry of
          Some (FileNode _) \<Rightarrow>
            os_attempt (os_lstat p) (\<lambda>r. os_return (None, case r of Inl _ \<Rightarrow> n | Inr info \<Rightarrow> n + of_int (node_size info)))
        | _ \<Rightarrow> os_return (None, n))"

definition directorySize :: "nat \<Rightarrow> string \<Rightarrow> (64 word) os" where
  "directorySize fuel p = os_bind (filepath_WalkDir fuel p size_of_entry 0) (\<lambda>(_, n). os_return n)"

definition missing :: "string \<Rightarrow> Candidate \<Rightarrow> Candidate" where
  "missing uuid c = c\<lparr>MissingUUIDs := MissingUUIDs c @ [uuid]\<rparr>"

fun inspect_uuids :: "nat \<Rightarrow> string \<Rightarrow> string list \<Rightarrow> Candidate \<Rightarrow> Candidate os" where
  "inspect_uuids fuel p [] c = os_return c"
| "inspect_uuids fuel p (uuid # rest) c =
     (let serverPath = path_join [p, uuid]
      in os_attempt (os_stat serverPath) (\<lambda>r.
         if (case r of Inl _ \<Rightarrow> True | Inr info \<Rightarrow> \<not> is_dir info) then inspect_uuids fuel p rest (missing uuid c)
         else os_bind (directoryReadable serverPath) (\<lambda>ok.
           if \<not> ok then inspect_uuids fuel p rest (missing uuid c)
           else os_bind (directorySize fuel serverPath) (\<lambda>n.
             inspect_uuids fuel p rest
               (c\<lparr>MatchedUUIDs := MatchedUUIDs c @ [uuid], TotalBytes := TotalBytes c + n\<rparr>)))))"

definition rate_candidate :: "string list \<Rightarrow> Candidate \<Rightarrow> Candidate" where
  "rate_candidate uuids c =
     (let n = int (length (MatchedUUIDs c))
      in c\<lparr>MatchCount := n, Confidence :=
           (if uuids \<noteq> [] \<and> n = int (length uuids) then ''high'' else if n > 0 then ''medium'' else ''low'')\<rparr>)"

definition inspectCandidate :: "nat \<Rightarrow> string list \<Rightarrow> string \<times> string \<Rightarrow> Candidate os" where
  "inspectCandidate fuel uuids ps =
     (let result = \<lparr>cand_Path = fst ps, cand_Source = snd ps, MatchedUUIDs = [], MissingUUIDs = [], Readable = False,
            TotalBytes = 0, Confidence = [], MatchCount = 0, ExpectedCount = int (length uuids)\<rparr>
      in os_attempt (os_stat (fst ps)) (\<lambda>r.
         if (case r of Inl _ \<Rightarrow> True | Inr info \<Rightarrow> \<not> is_dir info)
         then os_return (result\<lparr>MissingUUIDs := uuids\<rparr>)
         else os_bind (directoryReadable (fst ps)) (\<lambda>ok.
           os_bind (inspect_uuids fuel (fst ps) uuids (result\<lparr>Readable := ok\<rparr>)) (\<lambda>c.
           os_return (rate_candidate uuids c)))))"

fun inspect_all :: "nat \<Rightarrow> string list \<Rightarrow> (string \<times> string) list \<Rightarrow> Candidate list os" where
  "inspect_all fuel uuids [] = os_return []"
| "inspect_all fuel uuids (c # cs) =
     os_bind (inspectCandidate fuel uuids c) (\<lambda>result.
     os_bind (inspect_all fuel uuids cs) (\<lambda>results.
       os_return (if MatchCount result > 0 \<or> Readable result then result # results else results)))"

section \<open>Running containers\<close>

definition shortContainerID :: "string \<Rightarrow> string" where
  "shortContainerID v = take 12 (TrimSpace v)"

definition containerDisplayName :: "dockerContainerSummary \<Rightarrow> string" where
  "containerDisplayName c =
     (case dc_Names c of
        [] \<Rightarrow> shortContainerID (dc_ID c)
      | n # _ \<Rightarrow> (let name = TrimPrefix n ''/'' in if name \<noteq> [] then name else shortContainerID (dc_ID c)))"

definition sourceContainerActive :: "string \<Rightarrow> bool" where
  "sourceContainerActive state \<longleftrightarrow> ToLower (TrimSpace state) \<in> {''running'', ''restarting'', ''paused''}"

definition containerMatchEvidence :: "dockerContainerSummary \<Rightarrow> string \<Rightarrow> string list" where
  "containerMatchEvidence c uuid0 =
     (let uuid = ToLower (TrimSpace uuid0); has_it = (\<lambda>s. Contains (ToLower s) uuid)
      in if uuid = [] then []
         else (if list_ex has_it (dc_Names c) then [''name''] else [])
            @ (if list_ex (\<lambda>(k, v). has_it k \<or> has_it v) (dc_Labels c) then [''label''] else [])
            @ (if list_ex (\<lambda>(src, dst). has_it src \<or> has_it dst) (dc_Mounts c) then [''mount''] else []))"

text \<open>The inner loop: the first of the identifiers that matches.\<close>

definition match_container :: "string list \<Rightarrow> dockerContainerSummary \<Rightarrow> RuntimeContainer option" where
  "match_container uuids c =
     map_option (\<lambda>uuid. \<lparr>rc_UUID = uuid, rc_ID = shortContainerID (dc_ID c), rc_Name = containerDisplayName c,
         rc_State = ToLower (TrimSpace (dc_State c)), rc_Status = dc_Status c, MatchedBy = containerMatchEvidence c uuid,
         rc_Labels = dc_Labels c\<rparr>)
       (find (\<lambda>uuid. containerMatchEvidence c uuid \<noteq> []) uuids)"

definition dockerHTTPClient :: "detect_env \<Rightarrow> string os" where
  "dockerHTTPClient env =
     (let h0 = TrimSpace (docker_host env);
          h = (if h0 = [] then ''unix:///var/run/docker.sock'' else h0)
      in if HasPrefix h ''unix://'' then
           (let socketPath = path_clean (TrimPrefix h ''unix://'')
            in os_attempt (os_stat socketPath) (\<lambda>r. case r of
                 Inl _ \<Rightarrow> os_throw (ErrorString (''docker socket is unavailable at '' @ socketPath))
               | Inr _ \<Rightarrow> os_return ''http://docker''))
         else case parse_url env h of
             Inl e \<Rightarrow> os_throw (WrapError ''invalid DOCKER_HOST'' e)
           | Inr (scheme, str) \<Rightarrow>
               if scheme = ''tcp'' then os_return (TrimRight (str ''http'') ''/'')
               else if scheme = ''http'' \<or> scheme = ''https'' then os_return (TrimRight (str scheme) ''/'')
               else os_throw (ErrorString (''unsupported DOCKER_HOST scheme '' @ [CHR 0x22] @ scheme @ [CHR 0x22])))"

definition no_check :: RuntimeCheck where
  "no_check = \<lparr>Available = False, Engine = ''docker'', AllStopped = None, MatchedCount = 0, ActiveCount = 0,
     ActiveContainers = [], MatchedContainers = [], check_Error = []\<rparr>"

definition check_containers :: "string list \<Rightarrow> dockerContainerSummary list \<Rightarrow> RuntimeCheck" where
  "check_containers uuids containers =
     (let matched = List.map_filter (match_container uuids) containers;
          active = filter (\<lambda>item. sourceContainerActive (rc_State item)) matched
      in no_check\<lparr>Available := True, MatchedContainers := matched, ActiveContainers := active,
           MatchedCount := int (length matched), ActiveCount := int (length active), AllStopped := Some (active = [])\<rparr>)"

definition inspectSourceRuntime :: "detect_env \<Rightarrow> string list \<Rightarrow> RuntimeCheck os" where
  "inspectSourceRuntime env uuids =
     os_attempt (dockerHTTPClient env) (\<lambda>client. os_return (case client of
         Inl e \<Rightarrow> no_check\<lparr>check_Error := detect_text env e\<rparr>
       | Inr endpoint \<Rightarrow>
           (case docker_get env (endpoint @ ''/containers/json?all=1'') of
              Inl e \<Rightarrow> no_check\<lparr>check_Error := ''docker runtime could not be queried: '' @ detect_text env e\<rparr>
            | Inr (status, body) \<Rightarrow>
                if status < 200 \<or> status \<ge> 300
                then no_check\<lparr>check_Error := ''docker runtime returned HTTP '' @ Itoa status\<rparr>
                else (case body of
                    Inl e \<Rightarrow> no_check\<lparr>check_Error := ''docker runtime returned invalid JSON: '' @ detect_text env e\<rparr>
                  | Inr containers \<Rightarrow> check_containers uuids containers))))"

section \<open>The answer\<close>

text \<open>The comparison of \<open>sort.SliceStable\<close>, as a key: smaller comes first.\<close>

definition candidate_key :: "Candidate \<Rightarrow> int \<times> bool \<times> int \<times> int \<times> bool \<times> int" where
  "candidate_key c = (- MatchCount c, \<not> sint (TotalBytes c) > 0, - sourceEvidenceScore (cand_Source c),
     - sint (TotalBytes c), \<not> Readable c, - confidenceScore (Confidence c))"

definition freeSpace :: "detect_env \<Rightarrow> string \<Rightarrow> go_error + 64 word" where
  "freeSpace env p = map_sum id (\<lambda>(blocks, bsize). blocks * bsize) (statfs env p)"

definition runtime_warnings :: "RuntimeCheck \<Rightarrow> string list" where
  "runtime_warnings check =
     (if Available check
      then (if AllStopped check = Some False
            then [Itoa (ActiveCount check) @ '' active source container(s) matched the selected server UUIDs. Stop them before in-place migration.'']
            else [])
      else if check_Error check \<noteq> []
      then [''Automatic source-container state verification was unavailable: '' @ check_Error check] else [])"

definition choose_candidate ::
  "detect_env \<Rightarrow> string list \<Rightarrow> RuntimeCheck \<Rightarrow> Candidate list \<Rightarrow> detect_result" where
  "choose_candidate env uuids check results =
     (let response = \<lparr>Detected = False, DataPath = [], PathTemplate = [], res_Source = [], res_Confidence = [],
            res_MatchedUUIDs = [], res_MissingUUIDs = uuids, res_TotalBytes = 0, FreeBytes = 0, EnoughSpace = None,
            res_RuntimeCheck = check, Candidates = results, Warnings = []\<rparr>
      in case results of
           [] \<Rightarrow> response\<lparr>Warnings := [''No readable local server data root could be detected.'']\<rparr>
         | best # _ \<Rightarrow>
             if MatchCount best = 0
             then response\<lparr>Warnings :=
               [''Candidate data roots were found, but none contained the selected source server UUID directories.'']\<rparr>
             else
               (let free = freeSpace env (cand_Path best);
                    enough = (case free of Inl _ \<Rightarrow> None | Inr n \<Rightarrow> Some (sint n > sint (TotalBytes best)));
                    w1 = (if TotalBytes best = 0 then
                      [''The selected source root contains the expected UUID directory, but no regular file data was found beneath it.'']
                      else []);
                    w2 = (if enough = Some False then
                      [''The destination filesystem may not have enough free space for a rollback-safe local copy.''] else []);
                    w3 = (if MissingUUIDs best \<noteq> [] then
                      [Itoa (int (length (MissingUUIDs best))) @ '' of '' @ Itoa (int (length uuids)) @
                        '' selected source server volume directories were not found under the detected data root.''] else [])
                in response\<lparr>Detected := True, DataPath := cand_Path best,
                     PathTemplate := path_join [cand_Path best, ''{uuid}''], res_Source := cand_Source best,
                     res_Confidence := Confidence best, res_MatchedUUIDs := MatchedUUIDs best,
                     res_MissingUUIDs := MissingUUIDs best, res_TotalBytes := TotalBytes best,
                     FreeBytes := (case free of Inl _ \<Rightarrow> 0 | Inr n \<Rightarrow> n), EnoughSpace := enough,
                     Warnings := w1 @ w2 @ w3 @ runtime_warnings check\<rparr>))"

definition Detect :: "detect_env \<Rightarrow> nat \<Rightarrow> Request \<Rightarrow> detect_result os" where
  "Detect env fuel request =
     (let uuids = normaliseUUIDs (UUIDs request)
      in os_bind (collectCandidates (TrimSpace (ConfiguredPath request))) (\<lambda>candidates.
         os_bind (inspect_all fuel uuids (iter_candidates env candidates)) (\<lambda>results.
         os_bind (inspectSourceRuntime env uuids) (\<lambda>check.
         os_return (choose_candidate env uuids check (sort_key candidate_key results))))))"

end
