(* ===== verification/DetectProps.thy ===== *)
theory DetectProps
  imports MigrationDetect ImporterProps
begin

text \<open>
  What the detection of foreign data does: it only reads, it measures directories correctly, what it answers about the
  identifiers and the containers, and that it answers about any directory of the host.
\<close>

section \<open>Only reading\<close>

lemma reads_walk_dir:
  assumes "\<And>acc p d e. reads_only (fn acc p d e)"
  shows "reads_only (walk_dir n fn p d acc)" "reads_only (walk_dir_names n fn p es acc)"
  using assms
proof (induction n fn p d acc and n fn p es acc rule: walk_dir_walk_dir_names.induct)
  case (2 n fn p d acc)
  then show ?case
    by (cases "d = DirNode") (auto intro!: reads_intros split: sum.split)
qed (auto intro!: reads_intros)

lemma reads_size [reads_intros]: "reads_only (directorySize fuel p)"
proof -
  have visit: "reads_only (size_of_entry n p d e)" for n p d e
    unfolding size_of_entry_def by (auto intro!: reads_intros split: option.split node.split)
  show ?thesis
    unfolding directorySize_def filepath_WalkDir_def
    by (auto intro!: reads_intros visit reads_walk_dir split: sum.split)
qed

lemma reads_readable [reads_intros]: "reads_only (directoryReadable p)"
  unfolding directoryReadable_def by (auto intro!: reads_intros split: sum.split)

lemma reads_inspect_uuids [reads_intros]: "reads_only (inspect_uuids fuel p uuids c)"
  by (induction uuids arbitrary: c) (auto simp: Let_def intro!: reads_intros)

lemma reads_inspect [reads_intros]: "reads_only (inspectCandidate fuel uuids ps)"
  unfolding inspectCandidate_def by (auto simp: Let_def intro!: reads_intros)

lemma reads_inspect_all [reads_intros]: "reads_only (inspect_all fuel uuids cs)"
  by (induction cs) (auto intro!: reads_intros)

lemma reads_yaml [reads_intros]: "reads_only (dataPathFromYAML p)"
  unfolding dataPathFromYAML_def by (auto simp: Let_def intro!: reads_intros split: sum.split)

lemma reads_configured [reads_intros]: "reads_only (add_configured tag ps cands)"
  by (induction ps arbitrary: cands) (auto intro!: reads_intros)

lemma reads_service_files [reads_intros]: "reads_only (service_files dir es)"
  by (induction es) (auto simp: Let_def intro!: reads_intros split: sum.split)

lemma reads_service_dirs [reads_intros]: "reads_only (service_dirs dirs)"
  by (induction dirs) (auto intro!: reads_intros split: sum.split)

lemma reads_collectCandidates [reads_intros]: "reads_only (collectCandidates p)"
  unfolding collectCandidates_def discoverSystemdConfigFiles_def Let_def by (intro reads_intros)

lemma reads_sum [reads_intros]:
  "(\<And>e. reads_only (k e)) \<Longrightarrow> (\<And>x. reads_only (k' x)) \<Longrightarrow> reads_only (case r of Inl e \<Rightarrow> k e | Inr x \<Rightarrow> k' x)"
  by (cases r) simp_all

lemma reads_prod [reads_intros]: "(\<And>a b. reads_only (k a b)) \<Longrightarrow> reads_only (case p of (a, b) \<Rightarrow> k a b)"
  by (cases p) simp

lemma reads_runtime [reads_intros]: "reads_only (inspectSourceRuntime env uuids)"
  unfolding inspectSourceRuntime_def dockerHTTPClient_def Let_def by (intro reads_intros)

lemma Detect_reads: "reads_only (Detect env fuel request)"
  unfolding Detect_def Let_def by (intro reads_intros)

section \<open>Sizes\<close>

definition add_size :: "fpath \<times> node \<Rightarrow> 64 word \<Rightarrow> 64 word" where
  "add_size e n = (case snd e of FileNode _ \<Rightarrow> n + of_int (node_size (snd e)) | _ \<Rightarrow> n)"

definition regular_bytes :: "nat \<Rightarrow> fsys \<Rightarrow> fpath \<Rightarrow> 64 word" where
  "regular_bytes fuel f q = fold add_size (tree fuel f (\<lambda>_. False) q) 0"

lemma size_visit:
  assumes "calm v" "files v = f" "on_dirs f q" "fs_get f q = Some info"
  obtains t where "size_of_entry n (rooted q) (Some info) None v = (Inr (None, add_size (q, info) n), v\<lparr>ticks := t\<rparr>)"
proof -
  have same: "v\<lparr>ticks := ticks v\<rparr> = v" by simp
  show ?thesis
  proof (cases info)
    case (FileNode b)
    have "os_lstat (rooted q) v = (Inr info, v\<lparr>ticks := Suc (ticks v)\<rparr>)"
      using assms by (simp add: os_lstat_def os_call_calm fs_info_def locate_on_dirs)
    then show ?thesis
      using FileNode by (intro that [of "Suc (ticks v)"]) (simp add: size_of_entry_def os_attempt_def os_return_def add_size_def)
  qed (use that [of "ticks v"] same in \<open>simp_all add: size_of_entry_def os_return_def add_size_def\<close>)
qed

lemma walk_dir_names_size:
  assumes IH: "\<And>c d acc v. files v = f \<Longrightarrow> calm v \<Longrightarrow> on_dirs f (q @ [c]) \<Longrightarrow> fs_get f (q @ [c]) = Some d \<Longrightarrow>
      \<exists>t. walk_dir n size_of_entry (rooted (q @ [c])) d acc v =
        (Inr (None, fold add_size (tree n f (\<lambda>_. False) (q @ [c])) acc), v\<lparr>ticks := t\<rparr>)"
    and q: "on_dirs f q" "fs_get f q = Some DirNode"
  shows "\<forall>(c, d) \<in> set es. plain c \<and> CHR 0x00 \<notin> set c \<and> fs_get f (q @ [c]) = Some d \<Longrightarrow> files v = f \<Longrightarrow> calm v \<Longrightarrow>
    \<exists>t. walk_dir_names n size_of_entry (rooted q) es acc v =
      (Inr (None, fold add_size (concat (map (\<lambda>e. tree n f (\<lambda>_. False) (q @ [fst e])) es)) acc), v\<lparr>ticks := t\<rparr>)"
proof (induction es arbitrary: acc v)
  case Nil
  have "v\<lparr>ticks := ticks v\<rparr> = v" by simp
  then show ?case by (intro exI [of _ "ticks v"]) (simp add: os_return_def)
next
  case (Cons e es)
  obtain c d where e: "e = (c, d)" by fastforce
  have c: "plain c" "CHR 0x00 \<notin> set c" "fs_get f (q @ [c]) = Some d" using Cons.prems(1) e by auto
  have j: "path_join [rooted q, c] = rooted (q @ [c])"
    using c q(1) by (simp add: path_join_rooted on_dirs_def descend_plain)
  let ?acc = "fold add_size (tree n f (\<lambda>_. False) (q @ [c])) acc"
  obtain t where t: "walk_dir n size_of_entry (rooted (q @ [c])) d acc v = (Inr (None, ?acc), v\<lparr>ticks := t\<rparr>)"
    using IH [OF Cons.prems(2,3) on_dirs_child [OF q c(1,2)] c(3)] by blast
  have es: "\<forall>(c, d) \<in> set es. plain c \<and> CHR 0x00 \<notin> set c \<and> fs_get f (q @ [c]) = Some d"
    using Cons.prems(1) by simp
  obtain t' where "walk_dir_names n size_of_entry (rooted q) es ?acc (v\<lparr>ticks := t\<rparr>) =
      (Inr (None, fold add_size (concat (map (\<lambda>e. tree n f (\<lambda>_. False) (q @ [fst e])) es)) ?acc), (v\<lparr>ticks := t\<rparr>)\<lparr>ticks := t'\<rparr>)"
    using Cons.IH [OF es, of "v\<lparr>ticks := t\<rparr>" ?acc] Cons.prems(2,3) by auto
  then show ?case using t j e by (intro exI [of _ t']) (simp add: os_bind_def)
qed

lemma walk_dir_size:
  assumes "wf_names f"
  shows "files v = f \<Longrightarrow> calm v \<Longrightarrow> on_dirs f q \<Longrightarrow> fs_get f q = Some info \<Longrightarrow> deep f q n \<Longrightarrow>
    \<exists>t. walk_dir n size_of_entry (rooted q) info acc v =
      (Inr (None, fold add_size (tree n f (\<lambda>_. False) q) acc), v\<lparr>ticks := t\<rparr>)"
proof (induction n arbitrary: v q info acc)
  case 0
  then show ?case by (auto simp: deep_def)
next
  case (Suc n)
  obtain t where t: "size_of_entry acc (rooted q) (Some info) None v = (Inr (None, add_size (q, info) acc), v\<lparr>ticks := t\<rparr>)"
    using size_visit [OF Suc.prems(2,1,3,4)] .
  show ?case
  proof (cases "info = DirNode")
    case False
    then show ?thesis using t Suc.prems(4)
      by (intro exI [of _ t]) (simp add: os_bind_def os_return_def tree.simps)
  next
    case True
    let ?u = "v\<lparr>ticks := Suc t\<rparr>"
    have rd: "os_read_dir (rooted q) (v\<lparr>ticks := t\<rparr>) = (Inr (fs_entries f q), ?u)"
      using Suc.prems True by (auto simp: os_read_dir_def os_call_calm locate_on_dirs)
    have ch: "\<forall>(c, d) \<in> set (fs_entries f q). plain c \<and> CHR 0x00 \<notin> set c \<and> fs_get f (q @ [c]) = Some d"
      using wf_namesD [OF assms] by (fastforce simp: fs_entries_def fs_children_iff nul_rooted split: option.splits)
    have "map (\<lambda>e. tree n f (\<lambda>_. False) (q @ [fst e])) (fs_entries f q) = map (\<lambda>c. tree n f (\<lambda>_. False) (q @ [c])) (fs_children f q)"
      using fs_entries_names [of f q] by (metis (no_types, lifting) list.map_comp map_eq_conv o_apply)
    moreover have "\<exists>t'. walk_dir_names n size_of_entry (rooted q) (fs_entries f q) acc ?u =
        (Inr (None, fold add_size (concat (map (\<lambda>e. tree n f (\<lambda>_. False) (q @ [fst e])) (fs_entries f q))) acc), ?u\<lparr>ticks := t'\<rparr>)"
      by (rule walk_dir_names_size [OF _ Suc.prems(3) _ ch])
        (use Suc.IH [OF _ _ _ _ deep_child [OF Suc.prems(5)]] Suc.prems(1,2,4) True in auto)
    moreover have "add_size (q, DirNode) acc = acc" by (simp add: add_size_def)
    ultimately show ?thesis
      using t rd True Suc.prems(4) by (auto simp: os_bind_def os_attempt_def tree.simps)
  qed
qed

lemma directorySize_run:
  assumes "wf_names (files w)" "calm w" "on_dirs (files w) q" "fs_get (files w) q \<noteq> None" "deep (files w) q fuel"
  obtains t where "directorySize fuel (rooted q) w = (Inr (regular_bytes fuel (files w) q), w\<lparr>ticks := t\<rparr>)"
proof -
  obtain info where i: "fs_get (files w) q = Some info" using assms(4) by auto
  let ?v = "w\<lparr>ticks := Suc (ticks w)\<rparr>"
  have st: "os_lstat (rooted q) w = (Inr info, ?v)"
    using assms(2,3) i by (simp add: os_lstat_def os_call_calm fs_info_def locate_on_dirs)
  obtain t where "walk_dir fuel size_of_entry (rooted q) info 0 ?v = (Inr (None, regular_bytes fuel (files w) q), ?v\<lparr>ticks := t\<rparr>)"
    using walk_dir_size [OF assms(1), of ?v q info fuel 0] assms(2,3,5) i by (auto simp: regular_bytes_def)
  then show ?thesis
    using that [of t] st
    by (simp add: directorySize_def filepath_WalkDir_def os_attempt_def os_bind_def os_return_def)
qed

text \<open>
  The request for detection, which needs no token, never changes a file of the host, whatever it asks for and
  whatever goes wrong.
\<close>

theorem detection_only_reads: "files (snd (Detect env fuel request w)) = files w"
  using Detect_reads [of env fuel request] by (simp add: reads_only_def)

section \<open>Identifiers\<close>

definition sorted_out :: "string list \<Rightarrow> Candidate \<Rightarrow> Candidate \<Rightarrow> bool" where
  "sorted_out uuids c c' \<longleftrightarrow> (\<exists>ok. MatchedUUIDs c' = MatchedUUIDs c @ filter ok uuids
     \<and> MissingUUIDs c' = MissingUUIDs c @ filter (\<lambda>u. \<not> ok u) uuids \<and> Readable c' = Readable c)"

lemma sorted_out_Nil: "sorted_out [] c c"
  by (simp add: sorted_out_def)

lemma sorted_out_Cons:
  assumes "sorted_out uuids c1 c'" "u \<notin> set uuids"
    "c1 = missing u c \<or> (\<exists>n. c1 = c\<lparr>MatchedUUIDs := MatchedUUIDs c @ [u], TotalBytes := n\<rparr>)"
  shows "sorted_out (u # uuids) c c'"
proof -
  obtain ok where ok: "MatchedUUIDs c' = MatchedUUIDs c1 @ filter ok uuids"
    "MissingUUIDs c' = MissingUUIDs c1 @ filter (\<lambda>u. \<not> ok u) uuids" "Readable c' = Readable c1"
    using assms(1) by (auto simp: sorted_out_def)
  have same: "filter (ok(u := b)) uuids = filter ok uuids" "filter (\<lambda>x. \<not> (ok(u := b)) x) uuids = filter (\<lambda>x. \<not> ok x) uuids" for b
    using assms(2) by (auto intro!: filter_cong split: if_splits)
  from assms(3) show ?thesis
  proof
    assume "c1 = missing u c"
    then show ?thesis unfolding sorted_out_def using ok same [of False] by (intro exI [of _ "ok(u := False)"]) (simp add: missing_def)
  next
    assume "\<exists>n. c1 = c\<lparr>MatchedUUIDs := MatchedUUIDs c @ [u], TotalBytes := n\<rparr>"
    then show ?thesis unfolding sorted_out_def using ok same [of True] by (intro exI [of _ "ok(u := True)"]) auto
  qed
qed

lemma gives_inspect_uuids:
  "distinct uuids \<Longrightarrow> os_gives (inspect_uuids fuel p uuids c) (sorted_out uuids c)"
proof (induction uuids arbitrary: c)
  case Nil
  then show ?case by (simp add: gives_return sorted_out_Nil)
next
  case (Cons u uuids)
  have rest: "os_gives (inspect_uuids fuel p uuids c1) (sorted_out (u # uuids) c)"
    if "c1 = missing u c \<or> (\<exists>n. c1 = c\<lparr>MatchedUUIDs := MatchedUUIDs c @ [u], TotalBytes := n\<rparr>)" for c1
    using Cons.IH [of c1] Cons.prems sorted_out_Cons [OF _ _ that] unfolding os_gives_def by auto
  have found: "os_gives (os_bind (directoryReadable q) (\<lambda>ok.
           if \<not> ok then inspect_uuids fuel p uuids (missing u c)
           else os_bind (directorySize fuel q) (\<lambda>n.
             inspect_uuids fuel p uuids (c\<lparr>MatchedUUIDs := MatchedUUIDs c @ [u], TotalBytes := TotalBytes c + n\<rparr>))))
        (sorted_out (u # uuids) c)" for q
    by (rule gives_bind [OF gives_any]) (auto intro!: gives_bind [OF gives_any] rest)
  show ?case
    unfolding inspect_uuids.simps Let_def
    by (rule gives_attempt [OF gives_any]) (auto intro: found rest)
qed

lemma gives_inspectCandidate:
  fixes fuel :: nat and uuids :: "string list" and ps :: "string \<times> string"
  defines "new \<equiv> \<lparr>cand_Path = fst ps, cand_Source = snd ps, MatchedUUIDs = [], MissingUUIDs = [], Readable = False,
      TotalBytes = 0, Confidence = [], MatchCount = 0, ExpectedCount = int (length uuids)\<rparr>"
  assumes "distinct uuids"
  shows "os_gives (inspectCandidate fuel uuids ps) (\<lambda>c. c = new\<lparr>MissingUUIDs := uuids\<rparr>
    \<or> (\<exists>c' ok. c = rate_candidate uuids c' \<and> sorted_out uuids (new\<lparr>Readable := ok\<rparr>) c'))" (is "os_gives _ ?P")
proof -
  have "os_gives (if b then os_return (new\<lparr>MissingUUIDs := uuids\<rparr>)
      else os_bind (directoryReadable (fst ps)) (\<lambda>ok. os_bind (inspect_uuids fuel (fst ps) uuids (new\<lparr>Readable := ok\<rparr>)) (\<lambda>c.
         os_return (rate_candidate uuids c)))) ?P" for b
  proof (cases b)
    case True
    then show ?thesis by (auto intro: gives_return)
  next
    case False
    show ?thesis
      unfolding if_not_P [OF False]
      by (rule gives_bind [OF gives_any], rule gives_bind [OF gives_inspect_uuids [OF assms(2)]])
        (auto intro: gives_return)
  qed
  then show ?thesis
    unfolding inspectCandidate_def Let_def new_def by (intro gives_attempt [OF gives_any])
qed

lemma rate_candidate_sorted:
  assumes "sorted_out uuids c c'" "MatchedUUIDs c = []" "MissingUUIDs c = []"
  shows "\<exists>ok. MatchedUUIDs (rate_candidate uuids c') = filter ok uuids
      \<and> MissingUUIDs (rate_candidate uuids c') = filter (\<lambda>u. \<not> ok u) uuids"
    and "int (length (MatchedUUIDs (rate_candidate uuids c'))) = MatchCount (rate_candidate uuids c')"
    and "(Confidence (rate_candidate uuids c') = ''high'') = (uuids \<noteq> [] \<and> MissingUUIDs (rate_candidate uuids c') = [])"
    and "(Confidence (rate_candidate uuids c') = ''medium'') =
      (MatchedUUIDs (rate_candidate uuids c') \<noteq> [] \<and> MissingUUIDs (rate_candidate uuids c') \<noteq> [])"
proof -
  obtain ok where ok: "MatchedUUIDs c' = filter ok uuids" "MissingUUIDs c' = filter (\<lambda>u. \<not> ok u) uuids"
    using assms by (auto simp: sorted_out_def)
  have "filter (\<lambda>u. \<not> ok u) uuids = [] \<longleftrightarrow> length (filter ok uuids) = length uuids"
    using sum_length_filter_compl [of ok uuids] by (metis add_cancel_left_right length_0_conv)
  then show "(Confidence (rate_candidate uuids c') = ''high'') = (uuids \<noteq> [] \<and> MissingUUIDs (rate_candidate uuids c') = [])"
    "(Confidence (rate_candidate uuids c') = ''medium'') =
      (MatchedUUIDs (rate_candidate uuids c') \<noteq> [] \<and> MissingUUIDs (rate_candidate uuids c') \<noteq> [])"
    using ok sum_length_filter_compl [of ok uuids] by (auto simp: rate_candidate_def Let_def)
qed (use assms in \<open>auto simp: sorted_out_def rate_candidate_def Let_def\<close>)

text \<open>
  Every identifier that is asked for is either found or missing under a data root, once and in its place; a root has
  full confidence exactly when something was asked for and nothing is missing, and none when nothing was found.
\<close>

theorem candidate_accounts_for_all:
  assumes "inspectCandidate fuel uuids ps w = (Inr c, w')" "distinct uuids"
  shows "(\<exists>ok. MatchedUUIDs c = filter ok uuids \<and> MissingUUIDs c = filter (\<lambda>u. \<not> ok u) uuids)
    \<and> int (length (MatchedUUIDs c)) = MatchCount c
    \<and> (Confidence c = ''high'') = (uuids \<noteq> [] \<and> MissingUUIDs c = [])
    \<and> (Confidence c = ''medium'') = (MatchedUUIDs c \<noteq> [] \<and> MissingUUIDs c \<noteq> [])"
proof -
  let ?new = "\<lparr>cand_Path = fst ps, cand_Source = snd ps, MatchedUUIDs = [], MissingUUIDs = [], Readable = False,
            TotalBytes = 0, Confidence = [], MatchCount = 0, ExpectedCount = int (length uuids)\<rparr>"
  consider "c = ?new\<lparr>MissingUUIDs := uuids\<rparr>"
    | c' ok where "c = rate_candidate uuids c'" "sorted_out uuids (?new\<lparr>Readable := ok\<rparr>) c'"
    using gives_inspectCandidate [OF assms(2), of fuel ps] assms(1) unfolding os_gives_def by blast
  then show ?thesis
  proof cases
    case 1
    then show ?thesis by (auto intro!: exI [of _ "\<lambda>_. False"])
  next
    case 2
    show ?thesis unfolding 2(1)
      by (intro conjI; rule rate_candidate_sorted [OF 2(2)]) simp_all
  qed
qed

lemma stat_calm:
  "calm v \<Longrightarrow> os_stat p v = (case fs_info True p (wd v) (files v) of Inl e \<Rightarrow> (Inl e, v\<lparr>ticks := Suc (ticks v)\<rparr>)
    | Inr n \<Rightarrow> (Inr n, v\<lparr>ticks := Suc (ticks v)\<rparr>))"
  by (simp add: os_stat_def os_call_calm split: sum.split)

lemma directoryReadable_run:
  assumes "calm v" "on_dirs (files v) q" "fs_get (files v) q = Some DirNode"
  obtains k where "directoryReadable (rooted q) v = (Inr True, v\<lparr>ticks := k\<rparr>)"
  using stat_calm [OF assms(1)] fs_info_on_dirs [OF assms(2)] assms
  by (intro that [of "Suc (Suc (ticks v))"])
    (simp add: directoryReadable_def os_attempt_def os_read_dir_def os_call_calm locate_on_dirs os_return_def)

lemma inspect_any_directory:
  assumes "calm v" "wf_names (files v)" "on_dirs (files v) T" "\<forall>t. fs_get (files v) T \<noteq> Some (LinkNode t)"
    "deep (files v) T fuel" "MatchedUUIDs c = []" "TotalBytes c = 0"
  obtains c' where "fst (inspect_uuids fuel ''/'' [JoinWith slash T] c v) = Inr c'"
    "MatchedUUIDs c' = (if fs_get (files v) T = Some DirNode then [JoinWith slash T] else [])"
    "TotalBytes c' = (if fs_get (files v) T = Some DirNode then regular_bytes fuel (files v) T else 0)"
proof -
  have path: "path_join [''/'', JoinWith slash T] = rooted T"
    using assms(3) path_join_rooted [of "[]"] by (simp add: on_dirs_def rooted_def descend_JoinWith)
  note info = stat_calm [OF assms(1), of "rooted T"] fs_info_on_dirs [OF assms(3,4)]
  show ?thesis
  proof (cases "fs_get (files v) T = Some DirNode")
    case True
    let ?v = "v\<lparr>ticks := Suc (ticks v)\<rparr>"
    obtain k where k: "directoryReadable (rooted T) ?v = (Inr True, v\<lparr>ticks := k\<rparr>)"
      using directoryReadable_run [of ?v T] assms(1,3) True by auto
    obtain k' where "directorySize fuel (rooted T) (v\<lparr>ticks := k\<rparr>) = (Inr (regular_bytes fuel (files v) T), v\<lparr>ticks := k'\<rparr>)"
      using directorySize_run [of "v\<lparr>ticks := k\<rparr>" T fuel] assms(1-3,5) True by auto
    then show ?thesis
      using that True k info assms(6,7) by (simp add: path Let_def os_attempt_def os_bind_def is_dir_def os_return_def)
  next
    case False
    then show ?thesis
      using that info assms(6,7)
      by (auto simp: path Let_def os_attempt_def os_bind_def is_dir_def os_return_def missing_def split: option.splits)
  qed
qed

text \<open>
  An identifier is a path for all the detection cares: with \<open>/\<close> as the configured data root, which is accepted, it
  tells for any directory of the host whether it is there and how many bytes of files it holds.
\<close>

theorem detection_reveals_any_directory:
  assumes "calm w" "wf_names (files w)" "on_dirs (files w) T" "T \<noteq> []" "\<forall>t. fs_get (files w) T \<noteq> Some (LinkNode t)"
    "deep (files w) T fuel"
  shows "map_of (addCandidate ''/'' ''configured_path'' []) ''/'' = Some ''configured_path''
    \<and> (\<exists>c. fst (inspectCandidate fuel [JoinWith slash T] (''/'', ''configured_path'') w) = Inr c
        \<and> MatchedUUIDs c = (if fs_get (files w) T = Some DirNode then [JoinWith slash T] else [])
        \<and> TotalBytes c = (if fs_get (files w) T = Some DirNode then regular_bytes fuel (files w) T else 0))"
proof -
  have root: "rooted [] = ''/''" by (simp add: rooted_def)
  have here: "on_dirs (files w) []" by (simp add: on_dirs_def rooted_def)
  have info: "fs_info True ''/'' d (files w) = Inr DirNode" for d
    using fs_info_on_dirs [OF here] by (simp add: root)
  obtain k where k: "directoryReadable ''/'' (w\<lparr>ticks := Suc (ticks w)\<rparr>) = (Inr True, w\<lparr>ticks := k\<rparr>)"
    using directoryReadable_run [of "w\<lparr>ticks := Suc (ticks w)\<rparr>" "[]"] assms(1) here by (auto simp: root)
  let ?new = "\<lparr>cand_Path = ''/'', cand_Source = ''configured_path'', MatchedUUIDs = [], MissingUUIDs = [], Readable = True,
            TotalBytes = 0, Confidence = [], MatchCount = 0, ExpectedCount = 1\<rparr>"
  obtain c where c: "fst (inspect_uuids fuel ''/'' [JoinWith slash T] ?new (w\<lparr>ticks := k\<rparr>)) = Inr c"
    "MatchedUUIDs c = (if fs_get (files w) T = Some DirNode then [JoinWith slash T] else [])"
    "TotalBytes c = (if fs_get (files w) T = Some DirNode then regular_bytes fuel (files w) T else 0)"
    by (rule inspect_any_directory [of "w\<lparr>ticks := k\<rparr>" T fuel ?new]) (use assms in auto)
  then have "fst (inspectCandidate fuel [JoinWith slash T] (''/'', ''configured_path'') w) = Inr (rate_candidate [JoinWith slash T] c)"
    using stat_calm [OF assms(1), of "''/''"] info k
    by (auto simp: inspectCandidate_def Let_def os_attempt_def os_bind_def is_dir_def os_return_def
        split: prod.splits sum.splits)
  moreover have "map_of (addCandidate ''/'' ''configured_path'' []) ''/'' = Some ''configured_path''" by code_simp
  ultimately show ?thesis
    using c by (auto simp: rate_candidate_def Let_def)
qed

section \<open>Containers\<close>

definition mentions :: "dockerContainerSummary \<Rightarrow> string \<Rightarrow> bool" where
  "mentions c uuid \<longleftrightarrow> (\<exists>s \<in> set (dc_Names c) \<union> fst ` set (dc_Labels c) \<union> snd ` set (dc_Labels c)
      \<union> fst ` set (dc_Mounts c) \<union> snd ` set (dc_Mounts c). \<exists>a b. ToLower s = a @ uuid @ b)"

lemma list_ex_pair: "list_ex (\<lambda>(k, v). P k \<or> P v) xs \<longleftrightarrow> (\<exists>s \<in> fst ` set xs \<union> snd ` set xs. P s)"
  by (induction xs) auto

lemma evidence_mentions:
  "containerMatchEvidence c uuid \<noteq> [] \<longleftrightarrow> ToLower (TrimSpace uuid) \<noteq> [] \<and> mentions c (ToLower (TrimSpace uuid))"
  unfolding containerMatchEvidence_def Let_def mentions_def Contains_iff [symmetric] list_ex_pair
  by (simp add: list_ex_iff bex_Un)

text \<open>
  The worker reports that all source servers are stopped exactly when no container whose state, without blanks and in
  lower case, is running, restarting or paused carries one of the identifiers in a name, a label or a mounted path;
  every container that carries one is reported once.
\<close>

theorem AllStopped_correct:
  assumes "list_all (\<lambda>u. u \<noteq> [] \<and> ToLower (TrimSpace u) = u) uuids"
  shows "AllStopped (check_containers uuids containers) =
      Some (\<not> list_ex (\<lambda>c. sourceContainerActive (ToLower (TrimSpace (dc_State c))) \<and> list_ex (mentions c) uuids) containers)
    \<and> MatchedCount (check_containers uuids containers) =
      int (length (filter (\<lambda>c. list_ex (mentions c) uuids) containers))"
proof -
  have u: "containerMatchEvidence c u \<noteq> [] \<longleftrightarrow> mentions c u" if "u \<in> set uuids" for c u
    using assms that by (auto simp: evidence_mentions list_all_iff)
  have found: "match_container uuids c = None \<longleftrightarrow> \<not> list_ex (mentions c) uuids" for c
    using u by (auto simp: match_container_def find_None_iff list_ex_iff)
  have state: "rc_State item = ToLower (TrimSpace (dc_State c))" if "match_container uuids c = Some item" for c item
    using that by (auto simp: match_container_def)
  let ?matched = "List.map_filter (match_container uuids) containers"
  have "length ?matched = length (filter (\<lambda>c. list_ex (mentions c) uuids) containers)"
    by (induction containers) (auto simp: found [symmetric] split: option.split)
  moreover have "filter (\<lambda>item. sourceContainerActive (rc_State item)) ?matched = [] \<longleftrightarrow>
      \<not> list_ex (\<lambda>c. sourceContainerActive (ToLower (TrimSpace (dc_State c))) \<and> list_ex (mentions c) uuids) containers"
    using state by (induction containers) (auto simp: found [symmetric] split: option.split)
  ultimately show ?thesis by (simp add: check_containers_def Let_def)
qed

section \<open>The best candidate\<close>

text \<open>
  The data root that is reported holds at least as many of the wanted directories as every other candidate;
  none is reported only when no candidate holds any.
\<close>

theorem best_candidate:
  assumes "list_all (\<lambda>c. 0 \<le> MatchCount c) results"
  shows "if Detected (choose_candidate env uuids check (sort_key candidate_key results))
    then list_ex (\<lambda>c. DataPath (choose_candidate env uuids check (sort_key candidate_key results)) = cand_Path c
        \<and> 0 < MatchCount c \<and> list_all (\<lambda>c'. MatchCount c' \<le> MatchCount c) results) results
    else list_all (\<lambda>c. MatchCount c = 0) results"
proof (cases "sort_key candidate_key results")
  case Nil
  then have "results = []" by (metis set_empty set_sort)
  then show ?thesis by (simp add: choose_candidate_def)
next
  case (Cons best rest)
  have mem: "best \<in> set results" using Cons by (metis list.set_intros(1) set_sort)
  have "sorted (map candidate_key (best # rest))" using Cons sorted_sort_key [of candidate_key results] by simp
  moreover have sets: "set results = set (best # rest)" using Cons by (metis set_sort)
  ultimately have least: "candidate_key best \<le> candidate_key c" if "c \<in> set results" for c
    using that by auto
  have max: "MatchCount c \<le> MatchCount best" if "c \<in> set results" for c
    using least [OF that] by (auto simp: candidate_key_def less_eq_prod_def)
  have pos: "0 \<le> MatchCount c" if "c \<in> set results" for c using assms that by (simp add: list_all_iff)
  show ?thesis
  proof (cases "MatchCount best = 0")
    case True
    then have "MatchCount c = 0" if "c \<in> set results" for c using max [OF that] pos [OF that] by simp
    then show ?thesis using Cons True by (simp add: choose_candidate_def list_all_iff)
  next
    case False
    then have "0 < MatchCount best" using pos [OF mem] by simp
    then show ?thesis using Cons False mem max by (auto simp: choose_candidate_def Let_def list_ex_iff list_all_iff)
  qed
qed

section \<open>Witnesses\<close>

definition wings_files :: fsys where
  "wings_files = [([''srv''], DirNode), ([''srv'', ''u''], DirNode), ([''srv'', ''u'', ''f''], FileNode ''abc'')]"

lemma wings_ok:
  "calm (calm_world wings_files)" "wf_names (files (calm_world wings_files))" "on_dirs (files (calm_world wings_files)) [''srv'', ''u'']"
  "deep (files (calm_world wings_files)) [''srv'', ''u''] 3"
proof -
  show "wf_names (files (calm_world wings_files))" unfolding calm_world_simps by (rule wf_names_check; code_simp)
  show "on_dirs (files (calm_world wings_files)) [''srv'', ''u'']" unfolding calm_world_simps by (rule on_dirs_check; code_simp)
  show "deep (files (calm_world wings_files)) [''srv'', ''u''] 3"
    by (auto simp: deep_def wings_files_def fs_get_def split: if_splits)
qed simp

theorem detection_reveals_any_directory_witness:
  "map_of (addCandidate ''/'' ''configured_path'' []) ''/'' = Some ''configured_path''
    \<and> (\<exists>c. fst (inspectCandidate 3 [JoinWith slash [''srv'', ''u'']] (''/'', ''configured_path'') (calm_world wings_files)) = Inr c
        \<and> MatchedUUIDs c = (if fs_get (files (calm_world wings_files)) [''srv'', ''u''] = Some DirNode then [JoinWith slash [''srv'', ''u'']] else [])
        \<and> TotalBytes c = (if fs_get (files (calm_world wings_files)) [''srv'', ''u''] = Some DirNode
            then regular_bytes 3 (files (calm_world wings_files)) [''srv'', ''u''] else 0))"
  by (rule detection_reveals_any_directory [OF wings_ok(1-3) _ _ wings_ok(4)])
    (simp_all add: wings_files_def fs_get_def)

theorem candidate_accounts_for_all_witness:
  "\<exists>c w'. inspectCandidate 3 [''u'', ''v''] (''/srv'', ''conventional_path'') (calm_world []) = (Inr c, w')
    \<and> (\<exists>ok. MatchedUUIDs c = filter ok [''u'', ''v''] \<and> MissingUUIDs c = filter (\<lambda>u. \<not> ok u) [''u'', ''v''])
    \<and> int (length (MatchedUUIDs c)) = MatchCount c
    \<and> (Confidence c = ''high'') = ([''u'', ''v''] \<noteq> [] \<and> MissingUUIDs c = [])
    \<and> (Confidence c = ''medium'') = (MatchedUUIDs c \<noteq> [] \<and> MissingUUIDs c \<noteq> [])"
proof -
  have "\<not> (case fst (inspectCandidate 3 [''u'', ''v''] (''/srv'', ''conventional_path'') (calm_world [])) of Inl _ \<Rightarrow> True | _ \<Rightarrow> False)"
    by code_simp
  then obtain c w' where run: "inspectCandidate 3 [''u'', ''v''] (''/srv'', ''conventional_path'') (calm_world []) = (Inr c, w')"
    by (cases "inspectCandidate 3 [''u'', ''v''] (''/srv'', ''conventional_path'') (calm_world [])") (auto split: sum.splits)
  moreover have "distinct [''u'', ''v'']" by simp
  ultimately show ?thesis using candidate_accounts_for_all [OF run] by blast
qed

definition paused_container :: dockerContainerSummary where
  "paused_container = \<lparr>dc_ID = ''0123456789abcdef'', dc_Names = [''/u1''], dc_State = ''Paused'', dc_Status = [], dc_Labels = [],
     dc_Mounts = []\<rparr>"

theorem AllStopped_correct_witness:
  "AllStopped (check_containers [''u1''] [paused_container]) =
      Some (\<not> list_ex (\<lambda>c. sourceContainerActive (ToLower (TrimSpace (dc_State c))) \<and> list_ex (mentions c) [''u1'']) [paused_container])
    \<and> MatchedCount (check_containers [''u1''] [paused_container]) =
      int (length (filter (\<lambda>c. list_ex (mentions c) [''u1'']) [paused_container]))"
  by (rule AllStopped_correct) code_simp

definition root_with :: "string \<Rightarrow> int \<Rightarrow> Candidate" where
  "root_with p n = \<lparr>cand_Path = p, cand_Source = ''conventional_path'', MatchedUUIDs = [], MissingUUIDs = [], Readable = True,
     TotalBytes = 0, Confidence = ''low'', MatchCount = n, ExpectedCount = 2\<rparr>"

definition bare_env :: detect_env where
  "bare_env = \<lparr>docker_host = [], parse_url = \<lambda>_. Inl (ErrorString ''bad url''), docker_get = \<lambda>_. Inl (ErrorString ''down''),
     statfs = \<lambda>_. Inr (1, 512), iter_candidates = rev, detect_text = \<lambda>_. []\<rparr>"

theorem best_candidate_witness:
  "let results = [root_with ''/a'' 1, root_with ''/b'' 2] in
    if Detected (choose_candidate bare_env [''u''] no_check (sort_key candidate_key results))
    then list_ex (\<lambda>c. DataPath (choose_candidate bare_env [''u''] no_check (sort_key candidate_key results)) = cand_Path c
        \<and> 0 < MatchCount c \<and> list_all (\<lambda>c'. MatchCount c' \<le> MatchCount c) results) results
    else list_all (\<lambda>c. MatchCount c = 0) results"
  unfolding Let_def by (rule best_candidate) (simp add: root_with_def)

end
