(* ===== verification/Api.thy ===== *)
theory Api
  imports DetectProps Config ArchiveProps
begin

text \<open>
  The HTTP interface, \<open>internal/api\<close>: what a handler gets, what it answers, and what it works on. A handler is a
  computation over the whole state of the worker that may stop early with an answer. \<open>api_env\<close> collects what one request
  sees of the outside: the runtime, the codecs, the decoders of request bodies, the clock, fresh names and random numbers.
\<close>

section \<open>Requests and answers\<close>

record http_request =
  req_Method :: string
  req_Segments :: "string list"
  PathValue :: "string \<Rightarrow> string"
  query :: "string \<Rightarrow> string"
  Authorization :: string
  req_Body :: string

record node_stats =
  ns_Hostname :: string
  ns_DiskPath :: string
  ns_Total :: int
  ns_Running :: int
  ns_CPUUsed :: rat
  ns_MemoryUsedGB :: rat
  ns_DiskUsedGB :: rat

record ImportProgress =
  ip_Running :: bool
  ip_Stage :: string
  ip_Percent :: int
  ip_Message :: string
  ip_Error :: string

datatype payload = VStr string | VInt int | VBool bool | VMap "(string \<times> payload) list" | VArr "payload list"
  | VCell Cell | VCellStats CellStats | VComb Comb | VBackup Backup | VBackupFile BackupFileEntry | VPlayer Player
  | VFileEntry FileEntry | VPagination Pagination | VAllocation Allocation | VDetect detect_result | VNode node_stats

text \<open>
  \<open>http.Error\<close>; a JSON answer with its status; \<open>http.ServeFile\<close> with the headers set before; the upgrade to a web
  socket. \<open>NoReply\<close> is a handler that returns without writing.
\<close>

datatype reply = HttpError int string | Json int payload | ServeFile "(string \<times> string) list" string
  | Upgraded | NoReply

fun status_of :: "reply \<Rightarrow> int" where
  "status_of (HttpError code _) = code"
| "status_of (Json code _) = code"
| "status_of (ServeFile _ _) = 200"
| "status_of Upgraded = 101"
| "status_of NoReply = 200"

section \<open>Bodies\<close>

record ImporterRequest =
  imp_Protocol :: string
  imp_Host :: string
  imp_Port :: int
  imp_Username :: string
  imp_AuthType :: string
  imp_Password :: string
  imp_PrivateKey :: string
  imp_PrivateKeyPassphrase :: string
  imp_RemotePath :: string
  imp_Options :: "(string \<times> json) list"

record upload =
  up_relative_path :: string
  up_file :: "go_error + (string \<times> (go_error + string))"

text \<open>The JSON decoders of the request types; a pair stands for a struct of two fields, in the order of the code.\<close>

record decoders =
  dec_Detection :: "string \<Rightarrow> go_error + Request"
  dec_Command :: "string \<Rightarrow> go_error + string"
  dec_FileWrite :: "string \<Rightarrow> go_error + (string \<times> string)"
  dec_FilePath :: "string \<Rightarrow> go_error + string"
  dec_FileRename :: "string \<Rightarrow> go_error + (string \<times> string)"
  dec_UploadURL :: "string \<Rightarrow> go_error + (string \<times> string)"
  dec_Create :: "string \<Rightarrow> go_error + CreateCellRequest"
  dec_Update :: "string \<Rightarrow> go_error + UpdateCellDefinitionRequest"
  dec_CreateBackup :: "string \<Rightarrow> go_error + (string \<times> string \<times> string list)"
  dec_PlayerAction :: "string \<Rightarrow> go_error + (string \<times> string)"
  dec_Importer :: "string \<Rightarrow> go_error + ImporterRequest"
  dec_Lock :: "string \<Rightarrow> string \<times> string \<times> string"
  dec_Archive :: "string \<Rightarrow> go_error + ArchiveCreateRequest"
  dec_Extract :: "string \<Rightarrow> go_error + ArchiveExtractRequest"
  dec_Allocations :: "string \<Rightarrow> go_error + Allocation list"
  dec_MountID :: "string \<Rightarrow> go_error + string"
  dec_RestorePath :: "string \<Rightarrow> go_error + string"
  parse_upload :: "string \<Rightarrow> go_error + upload"

section \<open>State\<close>

text \<open>Work that handlers leave to goroutines.\<close>

datatype job = StopJob string | ImportJob string Cell ImporterRequest string bool

record 'r api =
  runtime :: 'r
  srv :: server
  conf :: Config
  mounts :: "MountService option"
  importProgress :: "(string \<times> ImportProgress) list"
  jobs :: "job list"

record 'r api_env =
  ops :: "'r runtime_ops"
  cells_cc :: cell_codec
  archives :: codec
  dec :: decoders
  installer :: install_env
  conf_env :: config_env
  detector :: detect_env
  players :: player_env
  remotes :: remote_env
  errtext :: "go_error \<Rightarrow> string"
  clock :: int
  clock_text :: string
  stamp :: string
  fresh_uuid :: string
  parse_uuid :: "string \<Rightarrow> string option"
  map_order :: "(string \<times> string) list \<Rightarrow> (string \<times> string) list"
  cell_order :: "(string \<times> Cell) list \<Rightarrow> (string \<times> Cell) list"
  comb_order :: "(string \<times> Comb) list \<Rightarrow> (string \<times> Comb) list"
  fetch :: "string \<Rightarrow> go_error + Response"
  sha256 :: "string \<Rightarrow> string"
  mtime :: "string \<Rightarrow> string"
  random :: "nat list"
  ratio65 :: "int \<Rightarrow> int \<Rightarrow> int"
  progress_enc :: "ImportProgress \<Rightarrow> go_error + string"
  progress_dec :: "string \<Rightarrow> go_error + ImportProgress"
  node_host :: string
  version :: string
  upgrade_ok :: bool
  depth :: nat

type_synonym ('r, 'a) handler = "'r api \<Rightarrow> (reply + 'a) \<times> 'r api"

definition h_return :: "'a \<Rightarrow> ('r, 'a) handler" where
  "h_return x = (\<lambda>s. (Inr x, s))"

definition h_reply :: "reply \<Rightarrow> ('r, 'a) handler" where
  "h_reply r = (\<lambda>s. (Inl r, s))"

definition h_bind :: "('r, 'a) handler \<Rightarrow> ('a \<Rightarrow> ('r, 'b) handler) \<Rightarrow> ('r, 'b) handler" where
  "h_bind m k = (\<lambda>s. case m s of (Inl r, s') \<Rightarrow> (Inl r, s') | (Inr x, s') \<Rightarrow> k x s')"

abbreviation h_seq :: "('r, 'a) handler \<Rightarrow> ('r, 'b) handler \<Rightarrow> ('r, 'b) handler" where
  "h_seq m k \<equiv> h_bind m (\<lambda>_. k)"

definition h_get :: "('r api \<Rightarrow> ('r, 'a) handler) \<Rightarrow> ('r, 'a) handler" where
  "h_get k = (\<lambda>s. k s s)"

definition h_modify :: "('r api \<Rightarrow> 'r api) \<Rightarrow> ('r, unit) handler" where
  "h_modify f = (\<lambda>s. (Inr (), f s))"

text \<open>Calls of the cell manager, of the file functions, and of the manager with the runtime; their errors are results.\<close>

definition h_srv :: "'a srv \<Rightarrow> ('r, go_error + 'a) handler" where
  "h_srv m = (\<lambda>s. case m (srv s) of (r, v) \<Rightarrow> (Inr r, s\<lparr>srv := v\<rparr>))"

definition h_os :: "'a os \<Rightarrow> ('r, go_error + 'a) handler" where
  "h_os m = h_srv (sv_os m)"

definition h_ran :: "('r, 'a) ran \<Rightarrow> ('r, go_error + 'a) handler" where
  "h_ran m = (\<lambda>s. case m (runtime s, srv s) of (r, rt, v) \<Rightarrow> (Inr r, s\<lparr>runtime := rt, srv := v\<rparr>))"

definition h_running :: "'r api_env \<Rightarrow> ((string \<Rightarrow> bool) \<Rightarrow> 'a srv) \<Rightarrow> ('r, go_error + 'a) handler" where
  "h_running env m = h_get (\<lambda>s. h_srv (m (rt_IsRunning (ops env) (runtime s))))"

text \<open>\<open>if err != nil { http.Error(w, err.Error(), code); return }\<close>\<close>

definition or_error :: "'r api_env \<Rightarrow> int \<Rightarrow> ('r, go_error + 'a) handler \<Rightarrow> ('r, 'a) handler" where
  "or_error env code m =
     h_bind m (\<lambda>r. case r of Inl e \<Rightarrow> h_reply (HttpError code (errtext env e)) | Inr x \<Rightarrow> h_return x)"

definition or_message :: "int \<Rightarrow> string \<Rightarrow> ('r, go_error + 'a) handler \<Rightarrow> ('r, 'a) handler" where
  "or_message code msg m =
     h_bind m (\<lambda>r. case r of Inl e \<Rightarrow> h_reply (HttpError code msg) | Inr x \<Rightarrow> h_return x)"

definition require :: "bool \<Rightarrow> int \<Rightarrow> string \<Rightarrow> ('r, unit) handler" where
  "require ok code msg = (if ok then h_return () else h_reply (HttpError code msg))"

text \<open>\<open>writeJSON\<close> and \<open>writeJSONStatus\<close>.\<close>

definition writeJSON :: "payload \<Rightarrow> ('r, unit) handler" where
  "writeJSON data = h_reply (Json 200 data)"

definition writeJSONStatus :: "int \<Rightarrow> payload \<Rightarrow> ('r, unit) handler" where
  "writeJSONStatus code data = h_reply (Json code data)"

definition finish :: "('r, unit) handler \<Rightarrow> 'r api \<Rightarrow> reply \<times> 'r api" where
  "finish m s = (case m s of (Inl r, s') \<Rightarrow> (r, s') | (Inr _, s') \<Rightarrow> (NoReply, s'))"

lemmas handler_defs = h_return_def h_reply_def h_bind_def h_get_def h_modify_def h_srv_def h_os_def h_ran_def
  h_running_def or_error_def or_message_def require_def writeJSON_def writeJSONStatus_def

section \<open>Checks that handlers share\<close>

definition invalidCellID :: "string \<Rightarrow> bool" where
  "invalidCellID cid \<longleftrightarrow> cid = [] \<or> cid = ''null'' \<or> cid = ''undefined''"

definition valid_cell_id :: "string \<Rightarrow> ('r, unit) handler" where
  "valid_cell_id cid = require (\<not> invalidCellID cid) 400 ''invalid cell id''"

definition ensurePowerAllowed :: "'r api_env \<Rightarrow> string \<Rightarrow> ('r, unit) handler" where
  "ensurePowerAllowed env cid = or_error env 423 (h_srv (EnsurePowerAllowed cid))"

definition ensureConsoleAllowed :: "'r api_env \<Rightarrow> string \<Rightarrow> ('r, unit) handler" where
  "ensureConsoleAllowed env cid = or_error env 423 (h_srv (EnsureConsoleAllowed cid))"

definition ensureFilesAllowed :: "'r api_env \<Rightarrow> string \<Rightarrow> ('r, unit) handler" where
  "ensureFilesAllowed env cid = or_error env 423 (h_srv (EnsureFilesAllowed cid))"

definition ensureBackupsAllowed :: "'r api_env \<Rightarrow> string \<Rightarrow> ('r, unit) handler" where
  "ensureBackupsAllowed env cid = or_error env 423 (h_srv (EnsureBackupsAllowed cid))"

definition ensureSettingsAllowed :: "'r api_env \<Rightarrow> string \<Rightarrow> ('r, unit) handler" where
  "ensureSettingsAllowed env cid = or_error env 423 (h_srv (EnsureSettingsAllowed cid))"

definition ensureImporterAllowed :: "'r api_env \<Rightarrow> string \<Rightarrow> ('r, unit) handler" where
  "ensureImporterAllowed env cid = or_error env 423 (h_srv (EnsureImporterAllowed cid))"

definition ensureCellUnlocked :: "'r api_env \<Rightarrow> string \<Rightarrow> ('r, unit) handler" where
  "ensureCellUnlocked env cid = or_error env 423 (h_srv (EnsureNotLocked cid))"

text \<open>\<open>gameServer, exists := h.Manager.Get(id)\<close>\<close>

definition get_cell :: "string \<Rightarrow> ('r, Cell) handler" where
  "get_cell cid = h_get (\<lambda>s. case Get (mgr (srv s)) cid of
     None \<Rightarrow> h_reply (HttpError 404 ''cell not found'') | Some c \<Rightarrow> h_return c)"

definition decode :: "(string \<Rightarrow> go_error + 'a) \<Rightarrow> http_request \<Rightarrow> ('r, 'a) handler" where
  "decode d rq = or_message 400 ''invalid json body'' (h_return (d (req_Body rq)))"

definition message :: "string \<Rightarrow> (string \<times> payload) list \<Rightarrow> ('r, unit) handler" where
  "message msg rest = writeJSON (VMap ((''message'', VStr msg) # rest))"

definition cell_id :: "http_request \<Rightarrow> string" where
  "cell_id rq = PathValue rq ''id''"

definition parsePositiveInt :: "string \<Rightarrow> int \<Rightarrow> int" where
  "parsePositiveInt v fallback =
     (if v = [] then fallback
      else case Atoi v of None \<Rightarrow> fallback | Some n \<Rightarrow> if n < 1 then fallback else n)"

definition file_page :: "ListResponse \<Rightarrow> (string \<times> payload) list" where
  "file_page r = [(''path'', VStr (resp_Path r)), (''files'', VArr (map VFileEntry (resp_Files r))),
     (''pagination'', VPagination (resp_Pagination r))]"

section \<open>Handlers about cells\<close>

definition Health :: "('r, unit) handler" where
  "Health = writeJSON (VMap [(''status'', VStr ''ok''), (''name'', VStr ''HivePanel Daemon'')])"

definition Version :: "'r api_env \<Rightarrow> ('r, unit) handler" where
  "Version env = writeJSON (VMap [(''version'', VStr (version env))])"

definition DetectMigrationSource :: "'r api_env \<Rightarrow> http_request \<Rightarrow> ('r, unit) handler" where
  "DetectMigrationSource env rq =
     h_bind (decode (dec_Detection (dec env)) rq) (\<lambda>request.
     h_seq (require (UUIDs request \<noteq> []) 400 ''at least one source server uuid is required'')
    (h_bind (h_os (Detect (detector env) (depth env) request)) (\<lambda>r.
       case r of Inl e \<Rightarrow> h_return () | Inr res \<Rightarrow> writeJSON (VDetect res))))"

definition ListCells :: "'r api_env \<Rightarrow> ('r, unit) handler" where
  "ListCells env = h_get (\<lambda>s.
     writeJSON (VArr (map VCell (cell_list (cell_order env) (rt_IsRunning (ops env) (runtime s)) (mgr (srv s))))))"

definition CellStatus :: "'r api_env \<Rightarrow> http_request \<Rightarrow> ('r, unit) handler" where
  "CellStatus env rq =
     h_seq (valid_cell_id (cell_id rq))
    (h_bind (or_error env 404 (h_srv (Status (cell_id rq)))) (\<lambda>c. writeJSON (VCell c)))"

definition StartCell :: "'r api_env \<Rightarrow> http_request \<Rightarrow> ('r, unit) handler" where
  "StartCell env rq =
     (let cid = cell_id rq
      in h_seq (valid_cell_id cid)
        (h_seq (ensurePowerAllowed env cid)
        (h_seq (h_srv (ClearConsole cid))
        (h_seq (or_error env 400 (h_ran (Start (ops env) (cells_cc env) (map_order env) cid)))
          (message ''cell started'' [(''id'', VStr cid)])))))"

definition StopCell :: "'r api_env \<Rightarrow> http_request \<Rightarrow> ('r, unit) handler" where
  "StopCell env rq =
     (let cid = cell_id rq
      in h_seq (valid_cell_id cid)
        (h_seq (ensurePowerAllowed env cid)
        (h_seq (h_srv (ClearConsole cid))
        (h_seq (or_error env 400 (h_srv (Stop cid)))
        (h_seq (h_modify (\<lambda>s. s\<lparr>jobs := jobs s @ [StopJob cid]\<rparr>))
          (writeJSON (VMap [(''id'', VStr cid), (''message'', VStr ''cell stopping'')])))))))"

definition CellConsole :: "'r api_env \<Rightarrow> http_request \<Rightarrow> ('r, unit) handler" where
  "CellConsole env rq =
     (let cid = cell_id rq
      in h_seq (valid_cell_id cid)
        (h_bind (or_error env 400 (h_srv (Console cid))) (\<lambda>ls.
          writeJSON (VMap [(''id'', VStr cid), (''lines'', VArr (map VStr ls))]))))"

definition CreateConsoleSession_handler :: "'r api_env \<Rightarrow> http_request \<Rightarrow> ('r, unit) handler" where
  "CreateConsoleSession_handler env rq =
     (let cid = cell_id rq
      in h_seq (valid_cell_id cid)
        (h_seq (ensureConsoleAllowed env cid)
        (h_bind (or_error env 400 (h_srv (CreateConsoleSession (clock env) (fresh_uuid env) cid))) (\<lambda>token.
          writeJSON (VMap [(''token'', VStr token), (''expires_in'', VInt 30)])))))"

definition SendCommand_handler :: "'r api_env \<Rightarrow> http_request \<Rightarrow> ('r, unit) handler" where
  "SendCommand_handler env rq =
     (let cid = cell_id rq
      in h_seq (valid_cell_id cid)
        (h_seq (ensureConsoleAllowed env cid)
        (h_bind (decode (dec_Command (dec env)) rq) (\<lambda>command.
         h_seq (require (command \<noteq> []) 400 ''command is required'')
        (h_seq (or_error env 400 (h_ran (SendCommand (ops env) cid command)))
          (message ''command sent'' [(''id'', VStr cid), (''command'', VStr command)]))))))"

definition CellStats_handler :: "'r api_env \<Rightarrow> http_request \<Rightarrow> ('r, unit) handler" where
  "CellStats_handler env rq =
     (let cid = cell_id rq
      in h_seq (valid_cell_id cid)
        (h_get (\<lambda>s.
         h_bind (or_error env 400 (h_srv (cell_Stats (ops env) (clock env) cid (runtime s)))) (\<lambda>st. writeJSON (VCellStats st)))))"

definition CreateCell :: "'r api_env \<Rightarrow> http_request \<Rightarrow> ('r, unit) handler" where
  "CreateCell env rq =
     h_bind (h_return (dec_Create (dec env) (req_Body rq))) (\<lambda>d.
     case d of
       Inl e \<Rightarrow> h_reply (HttpError 400 (''invalid json body: '' @ errtext env e))
     | Inr request \<Rightarrow>
         h_bind (h_srv (Create (cells_cc env) (parse_uuid env) (fresh_uuid env) (clock_text env) request)) (\<lambda>r.
         case r of
           Inl e \<Rightarrow>
             (let t = errtext env e
              in h_reply (HttpError
                   (if t = ''cell already exists'' \<or> t = ''cell directory already exists'' then 409 else 400) t))
         | Inr c \<Rightarrow> writeJSON (VCell c)))"

definition InstallCell :: "'r api_env \<Rightarrow> http_request \<Rightarrow> ('r, unit) handler" where
  "InstallCell env rq =
     (let cid = TrimSpace (cell_id rq)
      in h_seq (valid_cell_id cid)
        (h_seq (or_error env 400 (h_running env (\<lambda>running. Install (installer env) (errtext env) (cells_cc env) running cid)))
          (message ''install completed'' [(''id'', VStr cid)])))"

definition ReinstallCell :: "'r api_env \<Rightarrow> http_request \<Rightarrow> ('r, unit) handler" where
  "ReinstallCell env rq =
     (let cid = TrimSpace (cell_id rq)
      in h_seq (valid_cell_id cid)
        (h_seq (or_error env 400 (h_running env (\<lambda>running. Reinstall running cid)))
          (message ''cell prepared for reinstall'' [(''id'', VStr cid)])))"

definition UpdateCellDefinition :: "'r api_env \<Rightarrow> http_request \<Rightarrow> ('r, unit) handler" where
  "UpdateCellDefinition env rq =
     (let cid = TrimSpace (cell_id rq)
      in h_seq (valid_cell_id cid)
        (h_bind (decode (dec_Update (dec env)) rq) (\<lambda>request.
         h_bind (h_running env (\<lambda>running. UpdateDefinition (cells_cc env) running cid request)) (\<lambda>r.
         case r of
           Inl e \<Rightarrow>
             (let t = errtext env e
              in h_reply (HttpError
                   (if t = ''cell not found'' then 404
                    else if t = ''cell must be stopped before changing its definition'' then 409 else 400) t))
         | Inr c \<Rightarrow> writeJSON (VCell c)))))"

definition DeleteCell :: "'r api_env \<Rightarrow> http_request \<Rightarrow> ('r, unit) handler" where
  "DeleteCell env rq =
     (let cid = cell_id rq
      in h_seq (valid_cell_id cid)
        (h_seq (or_error env 400 (h_running env (\<lambda>running. Delete running cid)))
          (message ''cell deleted'' [(''id'', VStr cid)])))"

definition ListCombs :: "'r api_env \<Rightarrow> ('r, unit) handler" where
  "ListCombs env = h_get (\<lambda>s. writeJSON (VArr (map (VComb \<circ> snd) (comb_order env (combs (mgr (srv s)))))))"

definition GetComb :: "http_request \<Rightarrow> ('r, unit) handler" where
  "GetComb rq = h_get (\<lambda>s. case map_of (combs (mgr (srv s))) (PathValue rq ''id'') of
     None \<Rightarrow> h_reply (HttpError 404 ''comb not found'') | Some c \<Rightarrow> writeJSON (VComb c))"

definition LockCell_handler :: "'r api_env \<Rightarrow> http_request \<Rightarrow> ('r, unit) handler" where
  "LockCell_handler env rq =
     (let cid = cell_id rq; (t0, r0, m0) = dec_Lock (dec env) (req_Body rq);
          t = (if t0 = [] then ''admin_lock'' else t0);
          r = (if r0 = [] then ''Server Locked'' else r0);
          m = (if m0 = [] then ''This server is temporarily locked.'' else m0)
      in h_seq (or_error env 400 (h_srv (LockCell (cells_cc env) cid t r m)))
           (message ''cell locked'' [(''id'', VStr cid)]))"

definition UnlockCell_handler :: "'r api_env \<Rightarrow> http_request \<Rightarrow> ('r, unit) handler" where
  "UnlockCell_handler env rq =
     (let cid = cell_id rq
      in h_seq (or_error env 400 (h_srv (UnlockCell cid)))
           (message ''cell unlocked'' [(''id'', VStr cid)]))"

end
