(* ===== verification/ApiFiles.thy ===== *)
theory ApiFiles
  imports Api
begin

text \<open>
  The handlers for the files of a cell, its archives, its configuration files and its players, the statistics of the
  node, and the console over a web socket: \<open>handlers.go\<close> and \<open>archive_handlers.go\<close> of \<open>internal/api\<close>.
\<close>

section \<open>Files\<close>

definition path_of :: "http_request \<Rightarrow> string" where
  "path_of rq = query rq ''path''"

definition done_at :: "string \<Rightarrow> string \<Rightarrow> ('r, unit) handler" where
  "done_at msg p = message msg [(''path'', VStr p)]"

definition ListFiles_handler :: "'r api_env \<Rightarrow> http_request \<Rightarrow> ('r, unit) handler" where
  "ListFiles_handler env rq =
     (let cid = cell_id rq
      in h_seq (valid_cell_id cid)
        (h_bind (get_cell cid) (\<lambda>c.
         let page = parsePositiveInt (query rq ''page'') 1;
             perPage0 = parsePositiveInt (query rq ''per_page'') DefaultPageSize;
             perPage = (if perPage0 > MaxPageSize then MaxPageSize else perPage0)
         in h_bind (or_error env 400 (h_os (files_List (cell_Dir c) (path_of rq) page perPage))) (\<lambda>result.
              writeJSON (VMap ((''id'', VStr cid) # file_page result))))))"

definition read_reply :: "'r api_env \<Rightarrow> string \<Rightarrow> string \<Rightarrow> Cell \<Rightarrow> ('r, unit) handler" where
  "read_reply env cid p c =
     h_bind (or_error env 400 (h_os (files_Read (cell_Dir c) p))) (\<lambda>content.
       writeJSON (VMap [(''id'', VStr cid), (''path'', VStr p), (''content'', VStr content)]))"

definition ReadFile :: "'r api_env \<Rightarrow> http_request \<Rightarrow> ('r, unit) handler" where
  "ReadFile env rq =
     (let cid = cell_id rq
      in h_seq (valid_cell_id cid) (h_bind (get_cell cid) (read_reply env cid (path_of rq))))"

definition WriteFile :: "'r api_env \<Rightarrow> http_request \<Rightarrow> ('r, unit) handler" where
  "WriteFile env rq =
     (let cid = cell_id rq
      in h_seq (valid_cell_id cid)
        (h_seq (ensureFilesAllowed env cid)
        (h_bind (decode (dec_FileWrite (dec env)) rq) (\<lambda>(p, content).
         h_bind (get_cell cid) (\<lambda>c.
         h_seq (or_error env 400 (h_os (files_Write (cell_Dir c) p content)))
           (done_at ''file written'' p))))))"

definition DeleteFile :: "'r api_env \<Rightarrow> http_request \<Rightarrow> ('r, unit) handler" where
  "DeleteFile env rq =
     (let cid = cell_id rq; p = path_of rq
      in h_seq (valid_cell_id cid)
        (h_seq (ensureFilesAllowed env cid)
        (h_seq (require (p \<noteq> []) 400 ''path is required'')
        (h_bind (get_cell cid) (\<lambda>c.
         h_seq (or_error env 400 (h_os (MoveToRecycleBin (depth env) (stamp env) (cell_Dir c) p)))
           (done_at ''file moved to recycle bin'' p))))))"

definition RestoreFile :: "'r api_env \<Rightarrow> http_request \<Rightarrow> ('r, unit) handler" where
  "RestoreFile env rq =
     (let cid = cell_id rq
      in h_seq (valid_cell_id cid)
        (h_seq (ensureFilesAllowed env cid)
        (h_bind (decode (dec_FilePath (dec env)) rq) (\<lambda>p.
         h_seq (require (p \<noteq> []) 400 ''path is required'')
        (h_bind (get_cell cid) (\<lambda>c.
         h_seq (or_error env 400 (h_os (RestoreFromRecycleBin (depth env) (stamp env) (cell_Dir c) p)))
           (done_at ''file restored'' p)))))))"

definition PermanentDeleteFile :: "'r api_env \<Rightarrow> http_request \<Rightarrow> ('r, unit) handler" where
  "PermanentDeleteFile env rq =
     (let cid = cell_id rq; p = path_of rq
      in h_seq (valid_cell_id cid)
        (h_seq (ensureFilesAllowed env cid)
        (h_seq (require (p \<noteq> []) 400 ''path is required'')
        (h_bind (get_cell cid) (\<lambda>c.
         h_seq (or_error env 400 (h_os (PermanentDeleteFromRecycleBin (cell_Dir c) p)))
           (done_at ''file permanently deleted'' p))))))"

definition CreateFolder_handler :: "'r api_env \<Rightarrow> http_request \<Rightarrow> ('r, unit) handler" where
  "CreateFolder_handler env rq =
     (let cid = cell_id rq
      in h_seq (valid_cell_id cid)
        (h_seq (ensureFilesAllowed env cid)
        (h_bind (decode (dec_FilePath (dec env)) rq) (\<lambda>p.
         h_bind (get_cell cid) (\<lambda>c.
         h_seq (or_error env 400 (h_os (CreateFolder (cell_Dir c) p)))
           (done_at ''folder created'' p))))))"

definition RenameFile :: "'r api_env \<Rightarrow> http_request \<Rightarrow> ('r, unit) handler" where
  "RenameFile env rq =
     (let cid = cell_id rq
      in h_seq (valid_cell_id cid)
        (h_seq (ensureFilesAllowed env cid)
        (h_bind (decode (dec_FileRename (dec env)) rq) (\<lambda>(old, new).
         h_bind (get_cell cid) (\<lambda>c.
         h_seq (or_error env 400 (h_os (files_Rename (cell_Dir c) old new)))
           (message ''file renamed'' [(''old_path'', VStr old), (''new_path'', VStr new)]))))))"

definition UploadFile :: "'r api_env \<Rightarrow> http_request \<Rightarrow> ('r, unit) handler" where
  "UploadFile env rq =
     (let cid = cell_id rq; p = path_of rq
      in h_seq (valid_cell_id cid)
        (h_seq (ensureFilesAllowed env cid)
        (h_bind (get_cell cid) (\<lambda>c.
         h_bind (or_message 400 ''failed to parse upload'' (h_return (parse_upload (dec env) (req_Body rq)))) (\<lambda>up.
         h_bind (or_message 400 ''file field is required'' (h_return (up_file up))) (\<lambda>(filename, content).
         h_bind (or_message 500 ''failed to read uploaded file'' (h_return content)) (\<lambda>data.
         let relativePath = (if up_relative_path up = [] then filename else up_relative_path up);
             targetPath = path_join [p, relativePath]
         in h_seq (or_error env 400 (h_os (WriteBytes (cell_Dir c) targetPath data)))
              (message ''file uploaded'' [(''path'', VStr targetPath), (''size'', VInt (int (length data)))]))))))))"

definition DownloadFile :: "'r api_env \<Rightarrow> http_request \<Rightarrow> ('r, unit) handler" where
  "DownloadFile env rq =
     (let cid = cell_id rq
      in h_seq (valid_cell_id cid)
        (h_bind (get_cell cid) (\<lambda>c.
         h_bind (or_error env 400 (h_os (DownloadPath (cell_Dir c) (path_of rq)))) (\<lambda>fullPath.
         h_reply (ServeFile [(''Content-Disposition'', ''attachment; filename='' @ [CHR 0x22] @ path_base fullPath @ [CHR 0x22])]
           fullPath)))))"

definition CreateFile_handler :: "'r api_env \<Rightarrow> http_request \<Rightarrow> ('r, unit) handler" where
  "CreateFile_handler env rq =
     (let cid = cell_id rq
      in h_seq (valid_cell_id cid)
        (h_seq (ensureFilesAllowed env cid)
        (h_bind (decode (dec_FilePath (dec env)) rq) (\<lambda>p.
         h_seq (require (p \<noteq> []) 400 ''path is required'')
        (h_bind (get_cell cid) (\<lambda>c.
         h_seq (or_error env 400 (h_os (CreateFile (cell_Dir c) p)))
           (done_at ''file created'' p)))))))"

definition UploadFromURL_handler :: "'r api_env \<Rightarrow> http_request \<Rightarrow> ('r, unit) handler" where
  "UploadFromURL_handler env rq =
     (let cid = cell_id rq
      in h_seq (valid_cell_id cid)
        (h_seq (ensureFilesAllowed env cid)
        (h_bind (decode (dec_UploadURL (dec env)) rq) (\<lambda>(p, url).
         h_seq (require (p \<noteq> []) 400 ''path is required'')
        (h_seq (require (url \<noteq> []) 400 ''url is required'')
        (h_bind (get_cell cid) (\<lambda>c.
         h_seq (or_error env 400 (h_os (UploadFromURL (fetch env) (cell_Dir c) p url)))
           (done_at ''file uploaded from url'' p))))))))"

section \<open>Archives\<close>

text \<open>\<open>int64(gameServer.Limits.DiskMB) * 1024 * 1024\<close>, which may wrap around.\<close>

definition diskLimitBytes :: "Cell \<Rightarrow> 64 word" where
  "diskLimitBytes c = of_int (DiskMB (cell_Limits c)) * 1024 * 1024"

definition CreateFileArchive :: "'r api_env \<Rightarrow> http_request \<Rightarrow> ('r, unit) handler" where
  "CreateFileArchive env rq =
     (let cid = cell_id rq
      in h_seq (valid_cell_id cid)
        (h_seq (ensureFilesAllowed env cid)
        (h_bind (decode (dec_Archive (dec env)) rq) (\<lambda>request.
         h_bind (get_cell cid) (\<lambda>c.
         h_seq (or_error env 400 (h_os (CreateArchive (archives env) (depth env) (cell_Dir c) request (diskLimitBytes c))))
           (message ''archive created'' [(''destination'', VStr (acr_Destination request))]))))))"

definition ExtractFileArchive :: "'r api_env \<Rightarrow> http_request \<Rightarrow> ('r, unit) handler" where
  "ExtractFileArchive env rq =
     (let cid = cell_id rq
      in h_seq (valid_cell_id cid)
        (h_seq (ensureFilesAllowed env cid)
        (h_bind (decode (dec_Extract (dec env)) rq) (\<lambda>request.
         h_bind (get_cell cid) (\<lambda>c.
         h_seq (or_error env 400 (h_os (ExtractArchive (archives env) (depth env) (cell_Dir c) request (diskLimitBytes c))))
           (message ''archive extracted''
             [(''path'', VStr (aer_Path request)), (''destination'', VStr (aer_Destination request))]))))))"

section \<open>Configuration files\<close>

definition config_candidates :: "(string \<times> string \<times> string \<times> string) list" where
  "config_candidates =
     [(''server.properties'', ''Server Properties'', ''server.properties'', ''Main Minecraft server settings.''),
      (''spigot.yml'', ''Spigot Configuration'', ''spigot.yml'', ''Spigot performance and gameplay settings.''),
      (''bukkit.yml'', ''Bukkit Configuration'', ''bukkit.yml'', ''Bukkit plugin and world settings.''),
      (''paper-global.yml'', ''Paper Global Settings'', ''config/paper-global.yml'', ''Global Paper server settings.''),
      (''paper-world-defaults.yml'', ''Paper World Defaults'', ''config/paper-world-defaults.yml'', ''Default Paper world settings.''),
      (''purpur.yml'', ''Purpur Configuration'', ''purpur.yml'', ''Purpur-specific server settings.'')]"

fun available_configs :: "string \<Rightarrow> (string \<times> string \<times> string \<times> string) list \<Rightarrow> payload list os" where
  "available_configs dir [] = os_return []"
| "available_configs dir ((i, t, p, d) # rest) =
     os_attempt (DownloadPath dir p) (\<lambda>r.
     os_bind (available_configs dir rest) (\<lambda>more.
       os_return (case r of
           Inl _ \<Rightarrow> more
         | Inr _ \<Rightarrow> VMap [(''id'', VStr i), (''title'', VStr t), (''path'', VStr p), (''description'', VStr d)] # more)))"

definition ListConfigFiles :: "'r api_env \<Rightarrow> http_request \<Rightarrow> ('r, unit) handler" where
  "ListConfigFiles env rq =
     (let cid = cell_id rq
      in h_seq (valid_cell_id cid)
        (h_bind (get_cell cid) (\<lambda>c.
         h_bind (h_os (available_configs (cell_Dir c) config_candidates)) (\<lambda>r.
           writeJSON (VMap [(''id'', VStr cid), (''files'', VArr (case r of Inl _ \<Rightarrow> [] | Inr ps \<Rightarrow> ps))])))))"

definition ReadConfigFile :: "'r api_env \<Rightarrow> http_request \<Rightarrow> ('r, unit) handler" where
  "ReadConfigFile env rq =
     (let cid = cell_id rq; p = path_of rq
      in h_seq (valid_cell_id cid)
        (h_seq (require (p \<noteq> []) 400 ''path is required'')
        (h_bind (get_cell cid) (read_reply env cid p))))"

definition WriteConfigFile :: "'r api_env \<Rightarrow> http_request \<Rightarrow> ('r, unit) handler" where
  "WriteConfigFile env rq =
     (let cid = cell_id rq
      in h_seq (valid_cell_id cid)
        (h_seq (ensureSettingsAllowed env cid)
        (h_bind (decode (dec_FileWrite (dec env)) rq) (\<lambda>(p, content).
         h_seq (require (p \<noteq> []) 400 ''path is required'')
        (h_bind (get_cell cid) (\<lambda>c.
         h_seq (or_error env 400 (h_os (files_Write (cell_Dir c) p content)))
           (done_at ''config file written'' p)))))))"

section \<open>Players\<close>

definition ListPlayers :: "'r api_env \<Rightarrow> http_request \<Rightarrow> ('r, unit) handler" where
  "ListPlayers env rq =
     (let cid = cell_id rq
      in h_seq (valid_cell_id cid)
        (h_bind (get_cell cid) (\<lambda>c.
         h_bind (or_error env 400 (h_os (ListFromLogs (players env) (cell_Dir c)))) (\<lambda>ps.
           writeJSON (VMap [(''id'', VStr cid), (''source'', VStr ''logs''), (''players'', VArr (map VPlayer ps))])))))"

definition player_command :: "string \<Rightarrow> string \<Rightarrow> string \<Rightarrow> string option" where
  "player_command action name reason =
     (if action = ''kick'' \<or> action = ''ban''
      then Some (action @ '' '' @ name @ (if reason \<noteq> [] then '' '' @ reason else []))
      else if action = ''op'' \<or> action = ''deop'' then Some (action @ '' '' @ name)
      else None)"

definition playerCommand :: "string \<Rightarrow> 'r api_env \<Rightarrow> http_request \<Rightarrow> ('r, unit) handler" where
  "playerCommand action env rq =
     (let cid = cell_id rq
      in h_seq (valid_cell_id cid)
        (h_seq (ensureConsoleAllowed env cid)
        (h_bind (decode (dec_PlayerAction (dec env)) rq) (\<lambda>(name, reason).
         h_seq (require (name \<noteq> []) 400 ''player name is required'')
        (case player_command action name reason of
           None \<Rightarrow> h_reply (HttpError 400 ''invalid action'')
         | Some command \<Rightarrow>
             h_seq (or_error env 400 (h_ran (SendCommand (ops env) cid command)))
               (message ''player command sent'' [(''command'', VStr command)]))))))"

definition parseRconList :: "string \<Rightarrow> string list" where
  "parseRconList output =
     (let parts = Split (CHR '':'') output
      in if length parts < 2 then []
         else let namesPart = TrimSpace (last parts)
         in if namesPart = [] then [] else filter (\<lambda>n. n \<noteq> []) (map TrimSpace (Split (CHR '','') namesPart)))"

section \<open>Statistics of the node\<close>

text \<open>\<open>float64(int(value*100)) / 100\<close>: rounded towards zero.\<close>

definition roundFloat :: "rat \<Rightarrow> rat" where
  "roundFloat v = of_int (if v < 0 then \<lceil>v * 100\<rceil> else \<lfloor>v * 100\<rfloor>) / 100"

fun add_cells :: "'r api_env \<Rightarrow> 'r \<Rightarrow> Cell list \<Rightarrow> node_stats \<Rightarrow> node_stats srv" where
  "add_cells env r [] st = sv_return st"
| "add_cells env r (c # cs) st0 =
     (let st = (if cell_Status c = ''running'' then st0\<lparr>ns_Running := ns_Running st0 + 1\<rparr> else st0)
      in sv_attempt (cell_Stats (ops env) (clock env) (cell_ID c) r) (\<lambda>x. case x of
           Inl _ \<Rightarrow> add_cells env r cs st
         | Inr cst \<Rightarrow> add_cells env r cs (st\<lparr>ns_CPUUsed := ns_CPUUsed st + cs_CPU cst,
             ns_MemoryUsedGB := ns_MemoryUsedGB st + cs_MemoryMB cst / 1024,
             ns_DiskUsedGB := ns_DiskUsedGB st + of_int (cs_DiskBytes cst) / 1024 / 1024 / 1024\<rparr>)))"

text \<open>\<open>normaliseDiskPath\<close> and the part of \<open>node.GetStats\<close> that does not ask the operating system.\<close>

definition normaliseDiskPath :: "getwd \<Rightarrow> string \<Rightarrow> string" where
  "normaliseDiskPath d p =
     (if p = [] \<or> p = ''.'' then (case path_abs d ''.'' of Inr q \<Rightarrow> q | Inl _ \<Rightarrow> ''.'')
      else (case path_abs d p of Inr q \<Rightarrow> q | Inl _ \<Rightarrow> p))"

definition NodeStats :: "'r api_env \<Rightarrow> ('r, unit) handler" where
  "NodeStats env = h_get (\<lambda>s.
     let cs = cell_list (cell_order env) (rt_IsRunning (ops env) (runtime s)) (mgr (srv s));
         st0 = \<lparr>ns_Hostname = node_host env, ns_DiskPath = normaliseDiskPath (wd (host (srv s))) ''.'', ns_Total = int (length cs),
           ns_Running = 0, ns_CPUUsed = 0, ns_MemoryUsedGB = 0, ns_DiskUsedGB = 0\<rparr>
     in h_bind (h_srv (add_cells env (runtime s) cs st0)) (\<lambda>r. case r of
          Inl _ \<Rightarrow> h_return ()
        | Inr st \<Rightarrow> writeJSON (VNode (st\<lparr>ns_CPUUsed := roundFloat (ns_CPUUsed st),
            ns_MemoryUsedGB := roundFloat (ns_MemoryUsedGB st), ns_DiskUsedGB := roundFloat (ns_DiskUsedGB st)\<rparr>))))"

section \<open>The console as a web socket\<close>

text \<open>
  Up to the two loops: the answer, and the channel the connection reads from. Afterwards a command of the client is
  \<open>ws_command\<close>, a line that is passed on is \<open>chan_receive\<close>, and the end is \<open>Unsubscribe\<close>.
\<close>

definition validate_session :: "'r api_env \<Rightarrow> string \<Rightarrow> string \<Rightarrow> ('r, bool) handler" where
  "validate_session env cid token = (\<lambda>s.
     case ValidateConsoleSession (clock env) cid token (mgr (srv s)) of
       (ok, m) \<Rightarrow> (Inr ok, s\<lparr>srv := (srv s)\<lparr>mgr := m\<rparr>\<rparr>))"

definition ConsoleWebSocket :: "'r api_env \<Rightarrow> http_request \<Rightarrow> ('r, unit) handler" where
  "ConsoleWebSocket env rq =
     (let cid = cell_id rq; token = query rq ''token''
      in h_seq (valid_cell_id cid)
        (h_seq (require (token \<noteq> []) 401 ''console token is required'')
        (h_bind (validate_session env cid token) (\<lambda>ok.
         h_seq (require ok 401 ''invalid or expired console token'')
        (if \<not> upgrade_ok env then h_return ()
         else h_seq (h_srv (SubscribeWithHistory cid (query rq ''tail'' \<noteq> ''0'')))
                (h_reply Upgraded))))))"

text \<open>A message of the client, a map of strings; the answer is an error message for the client.\<close>

definition ws_command :: "'r api_env \<Rightarrow> string \<Rightarrow> (string \<times> string) list \<Rightarrow> 'r api \<Rightarrow> string option \<times> 'r api" where
  "ws_command env cid msg s =
     (if map_of msg ''type'' = Some ''command''
      then (case map_of msg ''command'' of
          None \<Rightarrow> (None, s)
        | Some command \<Rightarrow>
            if command = [] then (None, s)
            else (case SendCommand (ops env) cid command (runtime s, srv s) of
                (r, rt, v) \<Rightarrow> (case r of Inl e \<Rightarrow> Some (errtext env e) | Inr _ \<Rightarrow> None, s\<lparr>runtime := rt, srv := v\<rparr>)))
      else (None, s))"

end
