(* ===== verification/ApiBackups.thy ===== *)
theory ApiBackups
  imports ApiFiles MountService
begin

text \<open>
  The handlers for backups, for mounted backups (\<open>backup_mounts.go\<close>) and for the configuration of allocations
  (\<open>configuration.go\<close>).
\<close>

section \<open>Backups\<close>

definition CreateBackup_handler :: "'r api_env \<Rightarrow> http_request \<Rightarrow> ('r, unit) handler" where
  "CreateBackup_handler env rq =
     (let cid = cell_id rq
      in h_seq (valid_cell_id cid)
        (h_seq (ensureBackupsAllowed env cid)
        (h_bind (or_message 400 ''invalid request body'' (h_return (dec_CreateBackup (dec env) (req_Body rq)))) (\<lambda>(b0, n0, ignored).
         let backupID = TrimSpace b0; n1 = TrimSpace n0
         in h_seq (require (backupID \<noteq> []) 400 ''backup_id is required'')
           (let name = (if n1 = [] then backupID else n1)
            in h_bind (or_error env 400 (h_srv (cell_CreateBackup (archives env) (sha256 env) (mtime env) (depth env) cid backupID name ignored)))
                 (\<lambda>created. writeJSONStatus 201 (VBackup created)))))))"

definition ListBackups_handler :: "'r api_env \<Rightarrow> http_request \<Rightarrow> ('r, unit) handler" where
  "ListBackups_handler env rq =
     (let cid = cell_id rq
      in h_seq (valid_cell_id cid)
        (h_seq (ensureBackupsAllowed env cid)
        (h_bind (or_error env 400 (h_srv (cell_ListBackups (mtime env) cid))) (\<lambda>bs. writeJSON (VArr (map VBackup bs))))))"

text \<open>The checks that five handlers begin with; \<open>msg\<close> is the complaint about a missing backup id.\<close>

definition with_backup :: "'r api_env \<Rightarrow> http_request \<Rightarrow> string \<Rightarrow> string \<Rightarrow> (string \<Rightarrow> ('r, unit) handler) \<Rightarrow> ('r, unit) handler" where
  "with_backup env rq backupID msg k =
     (let cid = cell_id rq
      in h_seq (valid_cell_id cid)
        (h_seq (ensureBackupsAllowed env cid)
        (h_seq (require (backupID \<noteq> []) 400 msg) (k cid))))"

definition path_backup :: "http_request \<Rightarrow> string" where
  "path_backup rq = TrimSpace (PathValue rq ''backupID'')"

definition query_backup :: "http_request \<Rightarrow> string" where
  "query_backup rq = TrimSpace (query rq ''backup_id'')"

definition DeleteBackup_handler :: "'r api_env \<Rightarrow> http_request \<Rightarrow> ('r, unit) handler" where
  "DeleteBackup_handler env rq =
     (let b = path_backup rq
      in with_backup env rq b ''backup id is required'' (\<lambda>cid.
           h_seq (or_error env 400 (h_srv (cell_DeleteBackup cid b)))
             (message ''backup deleted'' [(''id'', VStr cid), (''backup_id'', VStr b)])))"

definition DownloadBackup :: "'r api_env \<Rightarrow> http_request \<Rightarrow> ('r, unit) handler" where
  "DownloadBackup env rq =
     (let b = path_backup rq
      in with_backup env rq b ''backup id is required'' (\<lambda>cid.
           h_bind (or_error env 400 (h_srv (BackupDownloadPath cid b))) (\<lambda>p.
             h_reply (ServeFile [(''Content-Type'', ''application/gzip''),
               (''Content-Disposition'', ''attachment; filename='' @ [CHR 0x22] @ path_base p @ [CHR 0x22])] p))))"

definition RestoreBackup_handler :: "'r api_env \<Rightarrow> http_request \<Rightarrow> ('r, unit) handler" where
  "RestoreBackup_handler env rq =
     (let b = path_backup rq
      in with_backup env rq b ''backup id is required'' (\<lambda>cid.
           h_seq (or_error env 400 (h_running env (\<lambda>running. cell_RestoreBackup (archives env) running cid b)))
             (message ''backup restored'' [(''id'', VStr cid), (''backup_id'', VStr b)])))"

definition ListBackupFiles_handler :: "'r api_env \<Rightarrow> http_request \<Rightarrow> ('r, unit) handler" where
  "ListBackupFiles_handler env rq =
     (let b = query_backup rq
      in with_backup env rq b ''backup_id is required'' (\<lambda>cid.
           h_bind (or_error env 400 (h_srv (cell_ListBackupFiles (archives env) cid b))) (\<lambda>fs.
             writeJSON (VArr (map VBackupFile fs)))))"

definition ReadBackupFile_handler :: "'r api_env \<Rightarrow> http_request \<Rightarrow> ('r, unit) handler" where
  "ReadBackupFile_handler env rq =
     (let b = query_backup rq; p = TrimSpace (path_of rq)
      in with_backup env rq b ''backup_id is required'' (\<lambda>cid.
           h_seq (require (p \<noteq> []) 400 ''path is required'')
          (h_bind (or_error env 400 (h_srv (cell_ReadBackupFile (archives env) cid b p))) (\<lambda>content.
             writeJSON (VMap [(''backup_id'', VStr b), (''path'', VStr p), (''content'', VStr content)])))))"

definition ExtractBackupFile :: "'r api_env \<Rightarrow> http_request \<Rightarrow> ('r, unit) handler" where
  "ExtractBackupFile env rq =
     (let b = query_backup rq
      in with_backup env rq b ''backup_id is required'' (\<lambda>cid.
           h_bind (decode (dec_FilePath (dec env)) rq) (\<lambda>p0.
           let p = TrimSpace p0
           in h_seq (require (p \<noteq> []) 400 ''path is required'')
             (h_seq (or_error env 400 (h_running env (\<lambda>running. ExtractBackupPath (archives env) running cid b p)))
               (message ''backup path extracted'' [(''backup_id'', VStr b), (''path'', VStr p)])))))"

section \<open>Mounted backups\<close>

definition defaultBackupMountPageSize :: int where "defaultBackupMountPageSize = 250"
definition maxBackupMountPageSize :: int where "maxBackupMountPageSize = 500"

definition writeBackupMountError :: "int \<Rightarrow> string \<Rightarrow> ('r, 'a) handler" where
  "writeBackupMountError status msg = h_reply (Json status (VMap [(''error'', VStr msg)]))"

definition mount_require :: "bool \<Rightarrow> int \<Rightarrow> string \<Rightarrow> ('r, unit) handler" where
  "mount_require ok status msg = (if ok then h_return () else writeBackupMountError status msg)"

definition parseBackupMountInteger :: "string \<Rightarrow> int \<Rightarrow> int" where
  "parseBackupMountInteger v0 fallback =
     (let v = TrimSpace v0 in if v = [] then fallback else case Atoi v of None \<Rightarrow> fallback | Some n \<Rightarrow> n)"

text \<open>The checks that the four handlers begin with.\<close>

definition with_mounts ::
  "string \<Rightarrow> string \<Rightarrow> string \<Rightarrow> (MountService \<Rightarrow> ('r, unit) handler) \<Rightarrow> ('r, unit) handler" where
  "with_mounts cellID ident msg k =
     h_seq (mount_require (\<not> invalidCellID cellID) 400 ''invalid cell id'')
    (h_seq (mount_require (ident \<noteq> []) 400 msg)
    (h_get (\<lambda>s. case mounts s of
        None \<Rightarrow> writeBackupMountError 500 ''backup mount service is unavailable''
      | Some m \<Rightarrow> k m)))"

definition mount_decode :: "(string \<Rightarrow> go_error + 'a) \<Rightarrow> http_request \<Rightarrow> ('r, 'a) handler" where
  "mount_decode d rq =
     (case d (req_Body rq) of Inl e \<Rightarrow> writeBackupMountError 400 ''invalid request body'' | Inr x \<Rightarrow> h_return x)"

text \<open>A table from errors to answers, in the order of the \<open>switch\<close>; \<open>other\<close> is its default.\<close>

definition mount_error :: "'r api_env \<Rightarrow> (go_error \<times> int \<times> string) list \<Rightarrow> int \<Rightarrow> string \<Rightarrow> go_error \<Rightarrow> ('r, 'a) handler" where
  "mount_error env tbl code other e =
     (case find (\<lambda>(t, _). errors_is e t) tbl of
        Some (_, status, msg) \<Rightarrow> writeBackupMountError status msg
      | None \<Rightarrow> writeBackupMountError code (other @ errtext env e))"

definition or_mount_error ::
  "'r api_env \<Rightarrow> (go_error \<times> int \<times> string) list \<Rightarrow> int \<Rightarrow> string \<Rightarrow> 'a os \<Rightarrow> ('r, 'a) handler" where
  "or_mount_error env tbl code other m =
     h_bind (h_os m) (\<lambda>r. case r of Inl e \<Rightarrow> mount_error env tbl code other e | Inr x \<Rightarrow> h_return x)"

definition MountBackup :: "'r api_env \<Rightarrow> http_request \<Rightarrow> ('r, unit) handler" where
  "MountBackup env rq =
     (let cellID = TrimSpace (cell_id rq); backupID = TrimSpace (PathValue rq ''name'')
      in with_mounts cellID backupID ''backup id is required'' (\<lambda>m.
           h_bind (mount_decode (dec_MountID (dec env)) rq) (\<lambda>mountID0.
           let mountID = TrimSpace mountID0
           in h_seq (mount_require (mountID \<noteq> []) 400 ''mount_id is required'')
             (h_bind (or_mount_error env
                [(ErrBackupNotFound, 404, ''backup archive was not found''),
                 (ErrMountAlreadyExists, 409, ''backup mount already exists''),
                 (ErrInvalidBackupID, 400, ''invalid backup id''),
                 (ErrInvalidMountID, 400, ''invalid mount id''),
                 (ErrUnsafeArchivePath, 422, ''backup contains an unsafe archive path''),
                 (ErrUnsupportedEntry, 422, ''backup contains an unsupported archive entry'')]
                500 ''failed to mount backup: '' (Mount (archives env) m cellID backupID mountID)) (\<lambda>result.
              writeJSONStatus 201 (VMap [(''mount_id'', VStr mountID), (''path'', VStr (mr_Path result)),
                (''extracted_size'', VInt (sint (mr_ExtractedSize result)))]))))))"

definition UnmountBackup :: "'r api_env \<Rightarrow> http_request \<Rightarrow> ('r, unit) handler" where
  "UnmountBackup env rq =
     (let cellID = TrimSpace (cell_id rq); mountID = TrimSpace (PathValue rq ''mountId'')
      in with_mounts cellID mountID ''mount id is required'' (\<lambda>m.
           h_seq (or_mount_error env [(ErrInvalidMountID, 400, ''invalid mount id'')] 500 ''failed to unmount backup: ''
             (Unmount m cellID mountID))
           (writeJSONStatus 200 (VMap [(''mount_id'', VStr mountID), (''status'', VStr ''unmounted'')]))))"

definition ListMountedBackupFiles :: "'r api_env \<Rightarrow> http_request \<Rightarrow> ('r, unit) handler" where
  "ListMountedBackupFiles env rq =
     (let cellID = TrimSpace (cell_id rq); mountID = TrimSpace (PathValue rq ''mountId'')
      in with_mounts cellID mountID ''mount id is required'' (\<lambda>m.
           h_bind (or_mount_error env
             [(SysNotExist, 404, ''backup mount was not found''), (ErrInvalidMountID, 400, ''invalid mount id'')]
             500 ''failed to resolve backup mount: '' (MountPath m cellID mountID)) (\<lambda>mountPath.
           let page0 = parseBackupMountInteger (query rq ''page'') 1;
               perPage0 = parseBackupMountInteger (query rq ''per_page'') defaultBackupMountPageSize;
               page = (if page0 < 1 then 1 else page0);
               perPage1 = (if perPage0 < 1 then defaultBackupMountPageSize else perPage0);
               perPage = (if perPage1 > maxBackupMountPageSize then maxBackupMountPageSize else perPage1)
           in h_bind (or_mount_error env [(SysNotExist, 404, ''backup directory was not found'')]
                400 ''failed to list mounted backup files: '' (files_List mountPath (TrimSpace (path_of rq)) page perPage)) (\<lambda>result.
              writeJSONStatus 200 (VMap ([(''mount_id'', VStr mountID), (''read_only'', VBool True)] @ file_page result))))))"

definition RestoreMountedBackupPath :: "'r api_env \<Rightarrow> http_request \<Rightarrow> ('r, unit) handler" where
  "RestoreMountedBackupPath env rq =
     (let cellID = TrimSpace (cell_id rq); mountID = TrimSpace (PathValue rq ''mountId'')
      in with_mounts cellID mountID ''mount id is required'' (\<lambda>m.
           h_bind (mount_decode (dec_RestorePath (dec env)) rq) (\<lambda>p0.
           let p = TrimSpace p0
           in h_seq (mount_require (p \<noteq> []) 400 ''path is required'')
             (h_bind (h_srv (CellDir cellID)) (\<lambda>cellDir.
              h_get (\<lambda>s.
              h_seq (mount_require (\<not> IsRunning (rt_IsRunning (ops env) (runtime s)) cellID) 409
                ''cell must be stopped before restoring backup files'')
             (case cellDir of
                Inl e \<Rightarrow> writeBackupMountError 404 ''cell was not found''
              | Inr dir \<Rightarrow>
                  h_seq (or_mount_error env
                    [(SysNotExist, 404, ''backup file or directory was not found''),
                     (ErrInvalidMountID, 400, ''invalid mount id''),
                     (ErrUnsafeArchivePath, 400, ''invalid backup path''),
                     (ErrUnsupportedEntry, 422, ''backup path contains an unsupported entry'')]
                    500 ''failed to restore backup path: '' (RestorePath (depth env) (random env) m cellID mountID p dir))
                  (writeJSONStatus 200
                    (VMap [(''mount_id'', VStr mountID), (''path'', VStr p), (''status'', VStr ''restored'')])))))))))"

section \<open>The configuration of allocations\<close>

definition ReconfigureAllocations :: "(string \<Rightarrow> bool) \<Rightarrow> Allocation list \<Rightarrow> Allocation list srv" where
  "ReconfigureAllocations parse_ip as = (\<lambda>s.
     case Reconfigure parse_ip (allocManager (mgr s)) as of
       (r, am) \<Rightarrow> (r, s\<lparr>mgr := (mgr s)\<lparr>allocManager := am\<rparr>\<rparr>))"

definition AllocationConfiguration :: "CellManager \<Rightarrow> Allocation list" where
  "AllocationConfiguration m = Configuration (allocManager m)"

definition UpdateAllocationConfiguration :: "'r api_env \<Rightarrow> http_request \<Rightarrow> ('r, unit) handler" where
  "UpdateAllocationConfiguration env rq =
     (case dec_Allocations (dec env) (req_Body rq) of
        Inl e \<Rightarrow> h_reply (HttpError 400 (''invalid json body: '' @ errtext env e))
      | Inr requested \<Rightarrow> h_get (\<lambda>s0.
          let parse_ip = env_parse_ip (conf_env env); oldAllocations = AllocationConfiguration (mgr (srv s0)); oldConfig = conf s0
          in h_bind (or_error env 409 (h_srv (ReconfigureAllocations parse_ip requested))) (\<lambda>normalised.
             let newConfig = oldConfig\<lparr>Allocations :=
                   \<lparr>Entries = normalised, legacy_IP = [], legacy_IPs = [], PortStart = 0, PortEnd = 0\<rparr>\<rparr>
             in h_seq (h_modify (\<lambda>s. s\<lparr>conf := newConfig\<rparr>))
               (h_bind (h_os (config_Save (conf_env env) newConfig)) (\<lambda>saved. case saved of
                  Inr _ \<Rightarrow> message ''allocation configuration updated'' [(''allocations'', VArr (map VAllocation normalised))]
                | Inl e \<Rightarrow>
                    h_seq (h_modify (\<lambda>s. s\<lparr>conf := oldConfig\<rparr>))
                   (h_seq (or_message 500
                      ''failed to save worker configuration and failed to restore the previous live allocation configuration''
                      (h_srv (ReconfigureAllocations parse_ip oldAllocations)))
                    (h_reply (HttpError 500 (''failed to save worker configuration: '' @ errtext env e)))))))))"

end
