(* ===== verification/ApiImport.thy ===== *)
theory ApiImport
  imports ApiBackups ImporterProps
begin

text \<open>
  The handlers of the importer, and the work that handlers leave to goroutines. A goroutine runs here in one piece, between
  two requests; what it writes on the way is kept, but no request looks at the worker in the middle of it.
\<close>

section \<open>The progress of an import\<close>

type_synonym progress_store = "(string \<times> ImportProgress) list"

definition setImportProgress :: "string \<Rightarrow> ImportProgress \<Rightarrow> progress_store \<Rightarrow> progress_store" where
  "setImportProgress cid p store = AList.update cid p store"

definition getImportProgress :: "string \<Rightarrow> progress_store \<Rightarrow> ImportProgress" where
  "getImportProgress cid store =
     (case map_of store cid of
        Some p \<Rightarrow> p
      | None \<Rightarrow> \<lparr>ip_Running = False, ip_Stage = ''Waiting'', ip_Percent = 0, ip_Message = ''No active import job.'', ip_Error = []\<rparr>)"

definition saveImportProgress :: "(ImportProgress \<Rightarrow> go_error + string) \<Rightarrow> string \<Rightarrow> ImportProgress \<Rightarrow> unit os" where
  "saveImportProgress enc cellDir p =
     (let dir = path_join [cellDir, ''.hivepanel'']
      in os_seq (os_mkdir_all dir)
        (os_bind (os_lift (enc p)) (\<lambda>data. os_write_file (path_join [dir, ''import-progress.json'']) data)))"

definition loadImportProgress :: "(string \<Rightarrow> go_error + ImportProgress) \<Rightarrow> string \<Rightarrow> ImportProgress os" where
  "loadImportProgress d cellDir =
     os_bind (os_read_file (path_join [cellDir, ''.hivepanel'', ''import-progress.json''])) (\<lambda>data. os_lift (d data))"

definition setImportProgressForCell ::
  "(ImportProgress \<Rightarrow> go_error + string) \<Rightarrow> Cell \<Rightarrow> ImportProgress \<Rightarrow> progress_store \<times> world \<Rightarrow> progress_store \<times> world" where
  "setImportProgressForCell enc c p = (\<lambda>(store, w).
     (setImportProgress (cell_ID c) p store, snd (saveImportProgress enc (cell_Dir c) p w)))"

definition getImportProgressForCell :: "'r api_env \<Rightarrow> Cell \<Rightarrow> ('r, ImportProgress) handler" where
  "getImportProgressForCell env c = h_get (\<lambda>s.
     let p = getImportProgress (cell_ID c) (importProgress s)
     in if ip_Stage p \<noteq> ''Waiting'' \<or> ip_Percent p \<noteq> 0 \<or> ip_Running p then h_return p
        else h_bind (h_os (loadImportProgress (progress_dec env) (cell_Dir c))) (\<lambda>r. case r of
            Inr onDisk \<Rightarrow> h_seq (h_modify (\<lambda>s. s\<lparr>importProgress := setImportProgress (cell_ID c) onDisk (importProgress s)\<rparr>))
              (h_return onDisk)
          | Inl _ \<Rightarrow> h_return p))"

text \<open>Telling the progress from a handler or a goroutine.\<close>

definition report :: "'r api_env \<Rightarrow> Cell \<Rightarrow> ImportProgress \<Rightarrow> 'r api \<Rightarrow> 'r api" where
  "report env c p s =
     (case setImportProgressForCell (progress_enc env) c p (importProgress s, host (srv s)) of
        (store, w) \<Rightarrow> s\<lparr>importProgress := store, srv := (srv s)\<lparr>host := w\<rparr>\<rparr>)"

section \<open>Handlers\<close>

definition import_protocol :: "ImporterRequest \<Rightarrow> string" where
  "import_protocol request = ToLower (TrimSpace (imp_Protocol request))"

definition no_options :: Options where
  "no_options = \<lparr>ImportWorlds = False, ImportPlugins = False, ImportConfigs = False, ImportMods = False,
     ImportServerJar = False, WipeBeforeImport = False\<rparr>"

text \<open>\<open>request.Options["..."] == true\<close>\<close>

definition import_options :: "ImporterRequest \<Rightarrow> Options" where
  "import_options request =
     (let on = (\<lambda>k. map_of (imp_Options request) k = Some (JBool True))
      in \<lparr>ImportWorlds = on ''importWorlds'', ImportPlugins = on ''importPlugins'', ImportConfigs = on ''importConfigs'',
          ImportMods = on ''importMods'', ImportServerJar = on ''importServerJar'', WipeBeforeImport = on ''wipeBeforeImport''\<rparr>)"

definition local_config :: "ImporterRequest \<Rightarrow> string \<Rightarrow> Options \<Rightarrow> LocalConfig" where
  "local_config request dest opts = \<lparr>SourcePath = imp_RemotePath request, LocalPath = dest, local_Options = opts\<rparr>"

definition sftp_config :: "ImporterRequest \<Rightarrow> string \<Rightarrow> Options \<Rightarrow> SFTPConfig" where
  "sftp_config request dest opts =
     \<lparr>sftp_Host = imp_Host request, sftp_Port = imp_Port request, sftp_Username = imp_Username request,
      AuthType = imp_AuthType request, sftp_Password = imp_Password request, PrivateKey = imp_PrivateKey request,
      PrivateKeyPassphrase = imp_PrivateKeyPassphrase request, RemotePath = imp_RemotePath request,
      sftp_LocalPath = dest, sftp_Options = opts\<rparr>"

definition wrong_protocol :: string where
  "wrong_protocol = ''only sftp and local import protocols are supported''"

definition TestImporter :: "'r api_env \<Rightarrow> http_request \<Rightarrow> ('r, unit) handler" where
  "TestImporter env rq =
     (let cid = cell_id rq
      in h_seq (valid_cell_id cid)
        (h_bind (decode (dec_Importer (dec env)) rq) (\<lambda>request.
         let protocol = import_protocol request
         in h_seq
              (if protocol = ''local'' then or_error env 400 (h_os (TestLocal (local_config request [] no_options)))
               else if protocol = ''sftp''
               then or_error env 400 (h_return (TestSFTP (remotes env) (sftp_config request [] no_options)))
               else h_reply (HttpError 400 wrong_protocol))
              (message ''source access successful'' [(''id'', VStr cid), (''protocol'', VStr protocol)]))))"

definition StartImporter :: "'r api_env \<Rightarrow> http_request \<Rightarrow> ('r, unit) handler" where
  "StartImporter env rq =
     (let cid = cell_id rq
      in h_seq (valid_cell_id cid)
        (h_seq (ensureImporterAllowed env cid)
        (h_bind (decode (dec_Importer (dec env)) rq) (\<lambda>request.
         h_bind (get_cell cid) (\<lambda>c.
         let protocol = import_protocol request; wasRunning = (cell_Status c = ''running'')
         in h_seq (require (protocol = ''sftp'' \<or> protocol = ''local'') 400 wrong_protocol)
           (h_seq (if protocol = ''local''
                   then or_error env 400 (h_os (TestLocal (local_config request (cell_Dir c) no_options)))
                   else h_return ())
           (h_seq (or_error env 400 (h_srv (LockCell (cells_cc env) cid ''importing'' ''Importing Server''
                ''This server is locked while files are imported from the migration source.'')))
           (h_seq (h_modify (report env c
                \<lparr>ip_Running = True, ip_Stage = ''Queued'', ip_Percent = 5, ip_Message = ''Import job queued.'', ip_Error = []\<rparr>))
           (h_seq (h_modify (\<lambda>s. s\<lparr>jobs := jobs s @ [ImportJob cid c request protocol wasRunning]\<rparr>))
             (message ''import job started''
               [(''id'', VStr cid), (''status'', VStr ''running''), (''protocol'', VStr protocol)]))))))))))"

definition ImporterStatus :: "'r api_env \<Rightarrow> http_request \<Rightarrow> ('r, unit) handler" where
  "ImporterStatus env rq =
     (let cid = cell_id rq
      in h_seq (valid_cell_id cid)
        (h_bind (get_cell cid) (\<lambda>c.
         h_bind (getImportProgressForCell env c) (\<lambda>p.
           writeJSON (VMap [(''id'', VStr cid), (''running'', VBool (ip_Running p)), (''stage'', VStr (ip_Stage p)),
             (''percent'', VInt (ip_Percent p)), (''message'', VStr (ip_Message p)), (''error'', VStr (ip_Error p))])))))"

section \<open>Goroutines\<close>

text \<open>The polls of \<open>waitForCellStopped\<close>: the states of the manager that it sees until the deadline.\<close>

fun waitForCellStopped :: "string \<Rightarrow> server list \<Rightarrow> go_error + unit" where
  "waitForCellStopped cid [] = Inl (ErrorString ''timed out waiting for server to stop'')"
| "waitForCellStopped cid (v # later) =
     (case fst (Status cid v) of
        Inl e \<Rightarrow> Inl e
      | Inr c \<Rightarrow> if cell_Status c = ''offline'' then Inr () else waitForCellStopped cid later)"

definition import_failed :: "string \<Rightarrow> string \<Rightarrow> ImportProgress" where
  "import_failed msg e = \<lparr>ip_Running = False, ip_Stage = ''Failed'', ip_Percent = 100, ip_Message = msg, ip_Error = e\<rparr>"

definition import_complete :: "string \<Rightarrow> string \<Rightarrow> ImportProgress" where
  "import_complete msg e = \<lparr>ip_Running = False, ip_Stage = ''Complete'', ip_Percent = 100, ip_Message = msg, ip_Error = e\<rparr>"

definition import_stage :: "string \<Rightarrow> int \<Rightarrow> string \<Rightarrow> ImportProgress" where
  "import_stage stage percent msg = \<lparr>ip_Running = True, ip_Stage = stage, ip_Percent = percent, ip_Message = msg, ip_Error = []\<rparr>"

definition progress_for :: "'r api_env \<Rightarrow> Cell \<Rightarrow> progress_store progress" where
  "progress_for env c stage percent msg = setImportProgressForCell (progress_enc env) c (import_stage stage percent msg)"

definition run_import :: "'r api_env \<Rightarrow> Cell \<Rightarrow> ImporterRequest \<Rightarrow> string \<Rightarrow> 'r api \<Rightarrow> (go_error + unit) \<times> 'r api" where
  "run_import env c request protocol s =
     (let start = (importProgress s, host (srv s))
      in case (if protocol = ''local''
               then ImportLocal (depth env) (ratio65 env) (local_config request (cell_Dir c) (import_options request))
                      (progress_for env c) start
               else ImportSFTP (remotes env) (ratio65 env) (sftp_config request (cell_Dir c) (import_options request))
                      (progress_for env c) start) of
           (r, store, w) \<Rightarrow> (r, s\<lparr>importProgress := store, srv := (srv s)\<lparr>host := w\<rparr>\<rparr>))"

text \<open>The copying, and the restart of a server that was running.\<close>

definition import_and_restart :: "'r api_env \<Rightarrow> Cell \<Rightarrow> ImporterRequest \<Rightarrow> string \<Rightarrow> bool \<Rightarrow> string \<Rightarrow> 'r api \<Rightarrow> 'r api" where
  "import_and_restart env c request protocol wasRunning cid s2 =
     (case run_import env c request protocol s2 of
        (Inl e, s3) \<Rightarrow> report env c (import_failed ''Import failed.'' (errtext env e)) s3
      | (Inr _, s3) \<Rightarrow>
          if \<not> wasRunning then report env c (import_complete ''Import completed successfully.'' []) s3
          else let s4 = report env c (import_stage ''Starting'' 95 ''Restarting server...'') s3
               in case Start (ops env) (cells_cc env) (map_order env) cid (runtime s4, srv s4) of
                    (r, rt, v) \<Rightarrow>
                      (let s5 = s4\<lparr>runtime := rt, srv := v\<rparr>
                       in case r of
                            Inl e \<Rightarrow> report env c
                              (import_complete ''Import completed, but the server could not be restarted.'' (errtext env e)) s5
                          | Inr _ \<Rightarrow> report env c (import_complete ''Import completed successfully.'' []) s5))"

text \<open>
  The goroutine of \<open>StartImporter\<close> without its deferred \<open>UnlockCell\<close>; the goroutine that \<open>Stop\<close> begins is run at
  once. Sixty polls fit between its start and its deadline.
\<close>

definition import_goroutine :: "'r api_env \<Rightarrow> Cell \<Rightarrow> ImporterRequest \<Rightarrow> string \<Rightarrow> bool \<Rightarrow> string \<Rightarrow> 'r api \<Rightarrow> 'r api" where
  "import_goroutine env c request protocol wasRunning cid s0 =
     (if \<not> wasRunning then import_and_restart env c request protocol wasRunning cid s0
      else let s1 = report env c (import_stage ''Stopping'' 8 ''Stopping server before import...'') s0
           in case stop_goroutine (ops env) (errtext env) cid (runtime s1, srv s1) of
                (r, v) \<Rightarrow>
                  (let s2 = s1\<lparr>runtime := r, srv := v\<rparr>
                   in case waitForCellStopped cid (replicate 60 v) of
                        Inl e \<Rightarrow> report env c (import_failed ''Failed to stop server before import.'' (errtext env e)) s2
                      | Inr _ \<Rightarrow> import_and_restart env c request protocol wasRunning cid s2))"

fun run_job :: "'r api_env \<Rightarrow> job \<Rightarrow> 'r api \<Rightarrow> 'r api" where
  "run_job env (StopJob cid) s =
     (case stop_goroutine (ops env) (errtext env) cid (runtime s, srv s) of (r, v) \<Rightarrow> s\<lparr>runtime := r, srv := v\<rparr>)"
| "run_job env (ImportJob cid c request protocol wasRunning) s =
     (let s1 = import_goroutine env c request protocol wasRunning cid s
      in s1\<lparr>srv := snd (UnlockCell cid (srv s1))\<rparr>)"

end
