(* ===== verification/Router.thy ===== *)
theory Router
  imports ApiImport
begin

text \<open>
  The table of routes (\<open>internal/api/router.go\<close>), the check of the token (\<open>internal/auth/middleware.go\<close>), and the worker
  as a machine: a request is served, or a goroutine that a handler began runs. \<open>http.ServeMux\<close> matches the segments of a
  path, each unescaped on its own; a wildcard takes one nonempty segment; \<open>GET\<close> also serves \<open>HEAD\<close>. A path that is not
  clean is answered with a redirect and does not occur here; a slash at the end is an empty last segment.
\<close>

section \<open>Patterns\<close>

datatype segment = Lit string | Wild string

fun match_segments :: "segment list \<Rightarrow> string list \<Rightarrow> (string \<times> string) list option" where
  "match_segments [] [] = Some []"
| "match_segments (Lit l # ps) (x # xs) = (if x = l then match_segments ps xs else None)"
| "match_segments (Wild n # ps) (x # xs) =
     (if x = [] then None else map_option ((#) (n, x)) (match_segments ps xs))"
| "match_segments _ _ = None"

definition method_serves :: "string \<Rightarrow> string \<Rightarrow> bool" where
  "method_serves m requested \<longleftrightarrow> requested = m \<or> m = ''GET'' \<and> requested = ''HEAD''"

record 'r route =
  rt_method :: string
  rt_pattern :: "segment list"
  rt_guarded :: bool
  rt_handler :: "http_request \<Rightarrow> ('r, unit) handler"

definition open_route :: "string \<Rightarrow> segment list \<Rightarrow> (http_request \<Rightarrow> ('r, unit) handler) \<Rightarrow> 'r route" where
  "open_route m p h = \<lparr>rt_method = m, rt_pattern = p, rt_guarded = False, rt_handler = h\<rparr>"

definition guarded :: "string \<Rightarrow> segment list \<Rightarrow> (http_request \<Rightarrow> ('r, unit) handler) \<Rightarrow> 'r route" where
  "guarded m p h = \<lparr>rt_method = m, rt_pattern = p, rt_guarded = True, rt_handler = h\<rparr>"

definition at_cell :: "segment list \<Rightarrow> segment list" where
  "at_cell rest = Lit ''cells'' # Wild ''id'' # rest"

section \<open>The table\<close>

definition worker_routes :: "'r api_env \<Rightarrow> 'r route list" where
  "worker_routes env =
     [open_route ''GET'' [Lit ''health''] (\<lambda>_. Health),
      open_route ''POST'' [Lit ''migration'', Lit ''source-detect''] (DetectMigrationSource env),
      guarded ''GET'' [Lit ''version''] (\<lambda>_. Version env),
      guarded ''GET'' [Lit ''node'', Lit ''stats''] (\<lambda>_. NodeStats env),
      guarded ''PATCH'' [Lit ''configuration'', Lit ''allocations''] (UpdateAllocationConfiguration env),
      guarded ''GET'' [Lit ''combs''] (\<lambda>_. ListCombs env),
      guarded ''GET'' [Lit ''combs'', Wild ''id''] GetComb,
      guarded ''GET'' [Lit ''cells''] (\<lambda>_. ListCells env),
      guarded ''POST'' [Lit ''cells''] (CreateCell env),
      guarded ''GET'' (at_cell []) (CellStatus env),
      guarded ''DELETE'' (at_cell []) (DeleteCell env),
      guarded ''PATCH'' (at_cell [Lit ''definition'']) (UpdateCellDefinition env)]"

definition power_routes :: "'r api_env \<Rightarrow> 'r route list" where
  "power_routes env =
     [guarded ''POST'' (at_cell [Lit ''install'']) (InstallCell env),
      guarded ''POST'' (at_cell [Lit ''reinstall'']) (ReinstallCell env),
      guarded ''POST'' (at_cell [Lit ''start'']) (StartCell env),
      guarded ''POST'' (at_cell [Lit ''stop'']) (StopCell env),
      guarded ''POST'' (at_cell [Lit ''command'']) (SendCommand_handler env),
      guarded ''GET'' (at_cell [Lit ''console'']) (CellConsole env),
      guarded ''POST'' (at_cell [Lit ''console-session'']) (CreateConsoleSession_handler env),
      guarded ''GET'' (at_cell [Lit ''stats'']) (CellStats_handler env),
      guarded ''GET'' (at_cell [Lit ''ws'']) (ConsoleWebSocket env)]"

definition backup_routes :: "'r api_env \<Rightarrow> 'r route list" where
  "backup_routes env =
     [guarded ''POST'' (at_cell [Lit ''backups'']) (CreateBackup_handler env),
      guarded ''GET'' (at_cell [Lit ''backups'']) (ListBackups_handler env),
      guarded ''POST'' (at_cell [Lit ''backups'', Wild ''name'', Lit ''mount'']) (MountBackup env),
      guarded ''DELETE'' (at_cell [Lit ''backup-mounts'', Wild ''mountId'']) (UnmountBackup env),
      guarded ''GET'' (at_cell [Lit ''backup-mounts'', Wild ''mountId'', Lit ''files'']) (ListMountedBackupFiles env),
      guarded ''POST'' (at_cell [Lit ''backup-mounts'', Wild ''mountId'', Lit ''restore'']) (RestoreMountedBackupPath env),
      guarded ''GET'' (at_cell [Lit ''backups'', Lit ''files'']) (ListBackupFiles_handler env),
      guarded ''GET'' (at_cell [Lit ''backups'', Lit ''files'', Lit ''read'']) (ReadBackupFile_handler env),
      guarded ''POST'' (at_cell [Lit ''backups'', Lit ''files'', Lit ''extract'']) (ExtractBackupFile env),
      guarded ''GET'' (at_cell [Lit ''backups'', Wild ''backupID'', Lit ''download'']) (DownloadBackup env),
      guarded ''DELETE'' (at_cell [Lit ''backups'', Wild ''backupID'']) (DeleteBackup_handler env),
      guarded ''POST'' (at_cell [Lit ''backups'', Wild ''backupID'', Lit ''restore'']) (RestoreBackup_handler env)]"

definition file_routes :: "'r api_env \<Rightarrow> 'r route list" where
  "file_routes env =
     [guarded ''GET'' (at_cell [Lit ''files'']) (ListFiles_handler env),
      guarded ''GET'' (at_cell [Lit ''files'', Lit ''read'']) (ReadFile env),
      guarded ''POST'' (at_cell [Lit ''files'', Lit ''write'']) (WriteFile env),
      guarded ''DELETE'' (at_cell [Lit ''files'', Lit ''delete'']) (DeleteFile env),
      guarded ''POST'' (at_cell [Lit ''files'', Lit ''folder'']) (CreateFolder_handler env),
      guarded ''POST'' (at_cell [Lit ''files'', Lit ''rename'']) (RenameFile env),
      guarded ''POST'' (at_cell [Lit ''files'', Lit ''upload'']) (UploadFile env),
      guarded ''GET'' (at_cell [Lit ''files'', Lit ''download'']) (DownloadFile env),
      guarded ''POST'' (at_cell [Lit ''files'', Lit ''restore'']) (RestoreFile env),
      guarded ''DELETE'' (at_cell [Lit ''files'', Lit ''permanent'']) (PermanentDeleteFile env),
      guarded ''POST'' (at_cell [Lit ''files'', Lit ''file'']) (CreateFile_handler env),
      guarded ''POST'' (at_cell [Lit ''files'', Lit ''upload-url'']) (UploadFromURL_handler env),
      guarded ''POST'' (at_cell [Lit ''files'', Lit ''archive'']) (CreateFileArchive env),
      guarded ''POST'' (at_cell [Lit ''files'', Lit ''extract'']) (ExtractFileArchive env),
      guarded ''GET'' (at_cell [Lit ''config'']) (ListConfigFiles env),
      guarded ''GET'' (at_cell [Lit ''config'', Lit ''read'']) (ReadConfigFile env),
      guarded ''PATCH'' (at_cell [Lit ''config'', Lit ''write'']) (WriteConfigFile env)]"

definition player_routes :: "'r api_env \<Rightarrow> 'r route list" where
  "player_routes env =
     [guarded ''GET'' (at_cell [Lit ''players'']) (ListPlayers env),
      guarded ''POST'' (at_cell [Lit ''players'', Lit ''kick'']) (playerCommand ''kick'' env),
      guarded ''POST'' (at_cell [Lit ''players'', Lit ''ban'']) (playerCommand ''ban'' env),
      guarded ''POST'' (at_cell [Lit ''players'', Lit ''op'']) (playerCommand ''op'' env),
      guarded ''POST'' (at_cell [Lit ''players'', Lit ''deop'']) (playerCommand ''deop'' env),
      guarded ''POST'' (at_cell [Lit ''importer'', Lit ''test'']) (TestImporter env),
      guarded ''POST'' (at_cell [Lit ''importer'', Lit ''start'']) (StartImporter env),
      guarded ''GET'' (at_cell [Lit ''importer'', Lit ''status'']) (ImporterStatus env),
      guarded ''POST'' (at_cell [Lit ''lock'']) (LockCell_handler env),
      guarded ''POST'' (at_cell [Lit ''unlock'']) (UnlockCell_handler env)]"

definition NewRouter :: "'r api_env \<Rightarrow> 'r route list" where
  "NewRouter env = worker_routes env @ power_routes env @ backup_routes env @ file_routes env @ player_routes env"

section \<open>The token\<close>

definition url_path :: "http_request \<Rightarrow> string" where
  "url_path rq = rooted (req_Segments rq)"

definition exempt :: "http_request \<Rightarrow> bool" where
  "exempt rq \<longleftrightarrow> req_Method rq = ''GET'' \<and> HasPrefix (url_path rq) ''/cells/'' \<and> HasSuffix (url_path rq) ''/ws''"

definition request_token :: "http_request \<Rightarrow> string" where
  "request_token rq =
     (let t = (if HasPrefix (Authorization rq) ''Bearer '' then TrimPrefix (Authorization rq) ''Bearer '' else [])
      in if t = [] then query rq ''token'' else t)"

definition authorised :: "Config \<Rightarrow> http_request \<Rightarrow> bool" where
  "authorised cfg rq \<longleftrightarrow> request_token rq \<noteq> [] \<and> request_token rq = WorkerToken cfg"

definition Middleware :: "Config \<Rightarrow> (http_request \<Rightarrow> ('r, unit) handler) \<Rightarrow> http_request \<Rightarrow> ('r, unit) handler" where
  "Middleware cfg next rq =
     (if exempt rq then next rq
      else h_seq (require (authorised cfg rq) 401 ''unauthorized'') (next rq))"

section \<open>Serving\<close>

definition route_matches :: "http_request \<Rightarrow> 'r route \<Rightarrow> bool" where
  "route_matches rq r \<longleftrightarrow> match_segments (rt_pattern r) (req_Segments rq) \<noteq> None"

definition bind_path :: "segment list \<Rightarrow> http_request \<Rightarrow> http_request" where
  "bind_path p rq =
     rq\<lparr>PathValue := (\<lambda>n. case match_segments p (req_Segments rq) of
          None \<Rightarrow> [] | Some vs \<Rightarrow> case map_of vs n of None \<Rightarrow> [] | Some v \<Rightarrow> v)\<rparr>"

definition dispatch :: "'r api_env \<Rightarrow> Config \<Rightarrow> http_request \<Rightarrow> ('r, unit) handler" where
  "dispatch env cfg rq =
     (case find (\<lambda>r. method_serves (rt_method r) (req_Method rq) \<and> route_matches rq r) (NewRouter env) of
        Some r \<Rightarrow>
          (let rq' = bind_path (rt_pattern r) rq
           in if rt_guarded r then Middleware cfg (rt_handler r) rq' else rt_handler r rq')
      | None \<Rightarrow>
          if list_ex (route_matches rq) (NewRouter env) then h_reply (HttpError 405 ''Method Not Allowed'')
          else h_reply (HttpError 404 ''404 page not found''))"

definition serve :: "'r api_env \<Rightarrow> Config \<Rightarrow> http_request \<Rightarrow> 'r api \<Rightarrow> reply \<times> 'r api" where
  "serve env cfg rq s = finish (dispatch env cfg rq) s"

section \<open>The worker\<close>

datatype 'r event = Serve "'r api_env" http_request | RunJob "'r api_env" nat | OutputLine string string | ProcessExit string
  | SocketCommand "'r api_env" string "(string \<times> string) list" | SocketLine nat | SocketClosed string nat | Outside 'r world

text \<open>
  One step of the worker, whose middleware keeps the configuration \<open>cfg\<close> it was made with: a request, one of the
  goroutines, a line of output of a process, or its end; what a web socket does once it is open; or a change of the
  runtime and the files that is not the worker's own.
\<close>

fun worker_step :: "Config \<Rightarrow> 'r event \<Rightarrow> 'r api \<Rightarrow> 'r api" where
  "worker_step cfg (Serve env rq) s = snd (serve env cfg rq s)"
| "worker_step cfg (RunJob env i) s =
     (if i < length (jobs s) then run_job env (jobs s ! i) (s\<lparr>jobs := take i (jobs s) @ drop (Suc i) (jobs s)\<rparr>) else s)"
| "worker_step cfg (OutputLine cid line) s = s\<lparr>srv := (srv s)\<lparr>mgr := on_output cid line (mgr (srv s))\<rparr>\<rparr>"
| "worker_step cfg (ProcessExit cid) s = s\<lparr>srv := (srv s)\<lparr>mgr := on_exit cid (mgr (srv s))\<rparr>\<rparr>"
| "worker_step cfg (SocketCommand env cid msg) s = snd (ws_command env cid msg s)"
| "worker_step cfg (SocketLine ch) s = s\<lparr>srv := (srv s)\<lparr>mgr := chan_receive ch (mgr (srv s))\<rparr>\<rparr>"
| "worker_step cfg (SocketClosed cid ch) s = s\<lparr>srv := (srv s)\<lparr>mgr := Unsubscribe cid ch (mgr (srv s))\<rparr>\<rparr>"
| "worker_step cfg (Outside r w) s = s\<lparr>runtime := r, srv := (srv s)\<lparr>host := w\<rparr>\<rparr>"

definition worker_run :: "Config \<Rightarrow> 'r event list \<Rightarrow> 'r api \<Rightarrow> 'r api" where
  "worker_run cfg es s = fold (worker_step cfg) es s"

end
