(* ===== verification/RouterProps.thy ===== *)
theory RouterProps
  imports Router
begin

text \<open>
  What the table of routes and the check of the token give: a request has at most one handler, and without the token
  only four handlers can be reached.
\<close>

section \<open>One handler for each request\<close>

text \<open>Two patterns that some path matches both.\<close>

fun clash :: "segment list \<Rightarrow> segment list \<Rightarrow> bool" where
  "clash [] [] = True"
| "clash (Lit a # ps) (Lit b # qs) = (a = b \<and> clash ps qs)"
| "clash (_ # ps) (_ # qs) = clash ps qs"
| "clash _ _ = False"

lemma match_tail: "match_segments (p # ps) (x # xs) = Some u \<Longrightarrow> \<exists>v. match_segments ps xs = Some v"
  by (cases p) (auto split: if_splits)

lemma clash_if_both: "match_segments p xs = Some u \<Longrightarrow> match_segments q xs = Some v \<Longrightarrow> clash p q"
proof (induction p q arbitrary: xs u v rule: clash.induct)
qed (case_tac [!] xs, auto split: if_splits dest!: match_tail)

definition route_keys :: "(string \<times> segment list) list" where
  "route_keys =
     [(''GET'', [Lit ''health'']),
      (''POST'', [Lit ''migration'', Lit ''source-detect'']),
      (''GET'', [Lit ''version'']),
      (''GET'', [Lit ''node'', Lit ''stats'']),
      (''PATCH'', [Lit ''configuration'', Lit ''allocations'']),
      (''GET'', [Lit ''combs'']),
      (''GET'', [Lit ''combs'', Wild ''id'']),
      (''GET'', [Lit ''cells'']),
      (''POST'', [Lit ''cells'']),
      (''GET'', [Lit ''cells'', Wild ''id'']),
      (''DELETE'', [Lit ''cells'', Wild ''id'']),
      (''PATCH'', [Lit ''cells'', Wild ''id'', Lit ''definition'']),
      (''POST'', [Lit ''cells'', Wild ''id'', Lit ''install'']),
      (''POST'', [Lit ''cells'', Wild ''id'', Lit ''reinstall'']),
      (''POST'', [Lit ''cells'', Wild ''id'', Lit ''start'']),
      (''POST'', [Lit ''cells'', Wild ''id'', Lit ''stop'']),
      (''POST'', [Lit ''cells'', Wild ''id'', Lit ''command'']),
      (''GET'', [Lit ''cells'', Wild ''id'', Lit ''console'']),
      (''POST'', [Lit ''cells'', Wild ''id'', Lit ''console-session'']),
      (''GET'', [Lit ''cells'', Wild ''id'', Lit ''stats'']),
      (''GET'', [Lit ''cells'', Wild ''id'', Lit ''ws'']),
      (''POST'', [Lit ''cells'', Wild ''id'', Lit ''backups'']),
      (''GET'', [Lit ''cells'', Wild ''id'', Lit ''backups'']),
      (''POST'', [Lit ''cells'', Wild ''id'', Lit ''backups'', Wild ''name'', Lit ''mount'']),
      (''DELETE'', [Lit ''cells'', Wild ''id'', Lit ''backup-mounts'', Wild ''mountId'']),
      (''GET'', [Lit ''cells'', Wild ''id'', Lit ''backup-mounts'', Wild ''mountId'', Lit ''files'']),
      (''POST'', [Lit ''cells'', Wild ''id'', Lit ''backup-mounts'', Wild ''mountId'', Lit ''restore'']),
      (''GET'', [Lit ''cells'', Wild ''id'', Lit ''backups'', Lit ''files'']),
      (''GET'', [Lit ''cells'', Wild ''id'', Lit ''backups'', Lit ''files'', Lit ''read'']),
      (''POST'', [Lit ''cells'', Wild ''id'', Lit ''backups'', Lit ''files'', Lit ''extract'']),
      (''GET'', [Lit ''cells'', Wild ''id'', Lit ''backups'', Wild ''backupID'', Lit ''download'']),
      (''DELETE'', [Lit ''cells'', Wild ''id'', Lit ''backups'', Wild ''backupID'']),
      (''POST'', [Lit ''cells'', Wild ''id'', Lit ''backups'', Wild ''backupID'', Lit ''restore'']),
      (''GET'', [Lit ''cells'', Wild ''id'', Lit ''files'']),
      (''GET'', [Lit ''cells'', Wild ''id'', Lit ''files'', Lit ''read'']),
      (''POST'', [Lit ''cells'', Wild ''id'', Lit ''files'', Lit ''write'']),
      (''DELETE'', [Lit ''cells'', Wild ''id'', Lit ''files'', Lit ''delete'']),
      (''POST'', [Lit ''cells'', Wild ''id'', Lit ''files'', Lit ''folder'']),
      (''POST'', [Lit ''cells'', Wild ''id'', Lit ''files'', Lit ''rename'']),
      (''POST'', [Lit ''cells'', Wild ''id'', Lit ''files'', Lit ''upload'']),
      (''GET'', [Lit ''cells'', Wild ''id'', Lit ''files'', Lit ''download'']),
      (''POST'', [Lit ''cells'', Wild ''id'', Lit ''files'', Lit ''restore'']),
      (''DELETE'', [Lit ''cells'', Wild ''id'', Lit ''files'', Lit ''permanent'']),
      (''POST'', [Lit ''cells'', Wild ''id'', Lit ''files'', Lit ''file'']),
      (''POST'', [Lit ''cells'', Wild ''id'', Lit ''files'', Lit ''upload-url'']),
      (''POST'', [Lit ''cells'', Wild ''id'', Lit ''files'', Lit ''archive'']),
      (''POST'', [Lit ''cells'', Wild ''id'', Lit ''files'', Lit ''extract'']),
      (''GET'', [Lit ''cells'', Wild ''id'', Lit ''config'']),
      (''GET'', [Lit ''cells'', Wild ''id'', Lit ''config'', Lit ''read'']),
      (''PATCH'', [Lit ''cells'', Wild ''id'', Lit ''config'', Lit ''write'']),
      (''GET'', [Lit ''cells'', Wild ''id'', Lit ''players'']),
      (''POST'', [Lit ''cells'', Wild ''id'', Lit ''players'', Lit ''kick'']),
      (''POST'', [Lit ''cells'', Wild ''id'', Lit ''players'', Lit ''ban'']),
      (''POST'', [Lit ''cells'', Wild ''id'', Lit ''players'', Lit ''op'']),
      (''POST'', [Lit ''cells'', Wild ''id'', Lit ''players'', Lit ''deop'']),
      (''POST'', [Lit ''cells'', Wild ''id'', Lit ''importer'', Lit ''test'']),
      (''POST'', [Lit ''cells'', Wild ''id'', Lit ''importer'', Lit ''start'']),
      (''GET'', [Lit ''cells'', Wild ''id'', Lit ''importer'', Lit ''status'']),
      (''POST'', [Lit ''cells'', Wild ''id'', Lit ''lock'']),
      (''POST'', [Lit ''cells'', Wild ''id'', Lit ''unlock''])]"

definition apart :: "string \<times> segment list \<Rightarrow> string \<times> segment list \<Rightarrow> bool" where
  "apart k l \<longleftrightarrow> fst k \<noteq> fst l \<or> \<not> clash (snd k) (snd l)"

lemma keys_of_NewRouter: "map (\<lambda>r. (rt_method r, rt_pattern r)) (NewRouter env) = route_keys"
  by (simp add: NewRouter_def worker_routes_def power_routes_def backup_routes_def file_routes_def
      player_routes_def open_route_def guarded_def at_cell_def route_keys_def)

lemma keys_apart: "sorted_wrt apart route_keys"
  by code_simp

lemma no_HEAD_route: "''HEAD'' \<notin> fst ` set route_keys"
  by code_simp

lemma at_most_one: "sorted_wrt R xs \<Longrightarrow> (\<And>x y. x \<in> set xs \<Longrightarrow> y \<in> set xs \<Longrightarrow> P x \<Longrightarrow> P y \<Longrightarrow> \<not> R x y) \<Longrightarrow>
  length (filter P xs) \<le> 1"
proof (induction xs)
  case (Cons x xs)
  have "filter P xs = []" if "P x"
    using Cons.prems that by (auto simp: filter_empty_conv)
  then show ?case using Cons by auto
qed simp

text \<open>The route that \<open>dispatch\<close> finds.\<close>

definition route_for :: "'r api_env \<Rightarrow> http_request \<Rightarrow> 'r route \<Rightarrow> bool" where
  "route_for env rq r \<longleftrightarrow> method_serves (rt_method r) (req_Method rq) \<and> route_matches rq r"

lemma key_in_route_keys: "r \<in> set (NewRouter env) \<Longrightarrow> (rt_method r, rt_pattern r) \<in> set route_keys"
  unfolding keys_of_NewRouter [of env, symmetric] set_map by (rule rev_image_eqI) simp_all

lemma method_in_route_keys: "r \<in> set (NewRouter env) \<Longrightarrow> rt_method r \<noteq> ''HEAD''"
  using key_in_route_keys [of r env] no_HEAD_route by (force simp: image_iff)

text \<open>
  C34. No request has two handlers: of the sixty routes at most one serves a given method and path, so which pattern is
  the more specific one never matters, and \<open>/backups/files\<close> cannot be taken for a backup called \<open>files\<close>.
\<close>

theorem one_route_per_request: "length (filter (route_for env rq) (NewRouter env)) \<le> 1"
proof (rule at_most_one [where R = "\<lambda>r r'. apart (rt_method r, rt_pattern r) (rt_method r', rt_pattern r')"])
  show "sorted_wrt (\<lambda>r r'. apart (rt_method r, rt_pattern r) (rt_method r', rt_pattern r')) (NewRouter env)"
    using keys_apart unfolding keys_of_NewRouter [of env, symmetric] by (simp add: sorted_wrt_map)
next
  fix r r'
  assume r: "r \<in> set (NewRouter env)" "r' \<in> set (NewRouter env)" and both: "route_for env rq r" "route_for env rq r'"
  have "rt_method r = rt_method r'"
    using method_in_route_keys [OF r(1)] method_in_route_keys [OF r(2)] both
    unfolding route_for_def method_serves_def by metis
  then show "\<not> apart (rt_method r, rt_pattern r) (rt_method r', rt_pattern r')"
    using both clash_if_both by (auto simp: apart_def route_for_def route_matches_def)
qed

section \<open>Without the token\<close>

lemma dispatch_found:
  obtains (miss) m code where "dispatch env cfg rq = h_reply (HttpError code m)" "code \<in> {404, 405}"
  | (hit) r where "r \<in> set (NewRouter env)" "route_for env rq r"
      "dispatch env cfg rq = (let rq' = bind_path (rt_pattern r) rq
        in if rt_guarded r then Middleware cfg (rt_handler r) rq' else rt_handler r rq')"
proof (cases "find (\<lambda>r. method_serves (rt_method r) (req_Method rq) \<and> route_matches rq r) (NewRouter env)")
  case None
  then show ?thesis
    using miss [of 405 "''Method Not Allowed''"] miss [of 404 "''404 page not found''"]
    by (cases "list_ex (route_matches rq) (NewRouter env)") (simp_all add: dispatch_def)
next
  case (Some r)
  then have "r \<in> set (NewRouter env)" "route_for env rq r"
    by (auto simp: find_Some_iff route_for_def)
  with Some show ?thesis by (intro hit) (auto simp: dispatch_def)
qed

lemma bind_path_same [simp]: "req_Segments (bind_path p rq) = req_Segments rq" "req_Method (bind_path p rq) = req_Method rq"
  "query (bind_path p rq) = query rq" "req_Body (bind_path p rq) = req_Body rq" "Authorization (bind_path p rq) = Authorization rq"
  "authorised cfg (bind_path p rq) = authorised cfg rq" "exempt (bind_path p rq) = exempt rq"
  by (simp_all add: bind_path_def authorised_def request_token_def exempt_def url_path_def Let_def)

lemma rooted_last: "xs \<noteq> [] \<Longrightarrow> \<exists>pre. rooted xs = pre @ slash # last xs"
proof -
  have "xs \<noteq> [] \<Longrightarrow> \<exists>pre. slash # JoinWith slash xs = pre @ slash # last xs"
  proof (induction xs rule: induct_list012)
    case (3 x y zs)
    then obtain pre where "slash # JoinWith slash (y # zs) = pre @ slash # last (y # zs)" by auto
    then show ?case by (intro exI [of _ "slash # x @ pre"]) simp
  qed (auto intro: exI [of _ "[]"])
  then show "xs \<noteq> [] \<Longrightarrow> ?thesis" by (simp add: rooted_def)
qed

lemma suffix_slash: "slash \<notin> set l \<Longrightarrow> HasSuffix (pre @ slash # l) (slash # k) \<Longrightarrow> l = k \<or> slash \<in> set k"
  by (auto simp: HasSuffix_def suffix_def append_eq_append_conv2 append_eq_Cons_conv Cons_eq_append_conv)

lemma match_last: "match_segments p xs = Some u \<Longrightarrow> p \<noteq> [] \<Longrightarrow> last p = Lit l \<Longrightarrow> xs \<noteq> [] \<and> last xs = l"
proof (induction p xs arbitrary: u rule: match_segments.induct)
  case (2 k ps x xs)
  then show ?case by (cases ps; cases xs) (auto split: if_splits)
next
  case (3 n ps x xs)
  then show ?case by (cases ps; cases xs) (auto split: if_splits)
qed auto

text \<open>A pattern of a \<open>GET\<close> route whose paths the middleware never lets through unchecked.\<close>

definition checked_pattern :: "segment list \<Rightarrow> bool" where
  "checked_pattern p \<longleftrightarrow>
     p \<noteq> [] \<and> (case last p of Lit l \<Rightarrow> slash \<notin> set l \<and> l \<noteq> ''ws'' | Wild _ \<Rightarrow> False)
     \<or> p = [Lit ''combs'', Wild ''id'']"

lemma checked_not_exempt:
  assumes "checked_pattern p" "match_segments p (req_Segments rq) = Some u"
  shows "\<not> exempt rq"
proof
  assume e: "exempt rq"
  show False
  proof (cases "p = [Lit ''combs'', Wild ''id'']")
    case True
    then obtain x where "req_Segments rq = [''combs'', x]"
      using assms(2) by (cases "req_Segments rq"; cases "tl (req_Segments rq)"; cases "tl (tl (req_Segments rq))")
        (auto split: if_splits)
    then show False using e by (auto simp: exempt_def url_path_def rooted_def HasPrefix_def)
  next
    case False
    then obtain l where l: "p \<noteq> []" "last p = Lit l" "slash \<notin> set l" "l \<noteq> ''ws''"
      using assms(1) by (auto simp: checked_pattern_def split: segment.splits)
    obtain pre where "url_path rq = pre @ slash # l"
      using match_last [OF assms(2) l(1,2)] rooted_last [of "req_Segments rq"] by (auto simp: url_path_def)
    then have "l = ''ws''" using e l(3) suffix_slash [of l pre "''ws''"] by (auto simp: exempt_def)
    with l(4) show False by simp
  qed
qed

lemma GET_routes: "list_all (\<lambda>(m, p). m = ''GET'' \<longrightarrow> checked_pattern p \<or> p = at_cell [] \<or> p = at_cell [Lit ''ws'']) route_keys"
  by code_simp

lemma route_tables: "r \<in> set (NewRouter env) \<longleftrightarrow> r \<in> set (worker_routes env) \<or> r \<in> set (power_routes env)
  \<or> r \<in> set (backup_routes env) \<or> r \<in> set (file_routes env) \<or> r \<in> set (player_routes env)"
  by (auto simp: NewRouter_def)

lemmas route_table_defs = worker_routes_def power_routes_def backup_routes_def file_routes_def player_routes_def
  open_route_def guarded_def at_cell_def

lemma status_route: "r \<in> set (NewRouter env) \<Longrightarrow> rt_method r = ''GET'' \<Longrightarrow> rt_pattern r = at_cell [] \<Longrightarrow> rt_handler r = CellStatus env"
  unfolding route_tables by (elim disjE) (auto simp: route_table_defs)

lemma ws_route: "r \<in> set (NewRouter env) \<Longrightarrow> rt_method r = ''GET'' \<Longrightarrow> rt_pattern r = at_cell [Lit ''ws''] \<Longrightarrow>
  rt_handler r = ConsoleWebSocket env"
  unfolding route_tables by (elim disjE) (auto simp: route_table_defs)

lemma open_routes: "r \<in> set (NewRouter env) \<Longrightarrow> \<not> rt_guarded r \<Longrightarrow>
  rt_pattern r = [Lit ''health''] \<and> rt_handler r = (\<lambda>_. Health)
  \<or> rt_pattern r = [Lit ''migration'', Lit ''source-detect''] \<and> rt_handler r = DetectMigrationSource env"
  unfolding route_tables by (elim disjE) (auto simp: route_table_defs)

lemma match_length: "match_segments p xs = Some u \<Longrightarrow> length xs = length p"
  by (induction p xs arbitrary: u rule: match_segments.induct) (auto split: if_splits)

lemma match_at_cell: "match_segments (at_cell rest) xs = Some u \<Longrightarrow>
  \<exists>cid ys v. xs = ''cells'' # cid # ys \<and> cid \<noteq> [] \<and> match_segments rest ys = Some v \<and> u = (''id'', cid) # v"
  by (cases xs; cases "tl xs") (auto simp: at_cell_def split: if_splits)

lemma match_one: "match_segments [] ys = Some v \<Longrightarrow> ys = []" "match_segments [Lit l] ys = Some v \<Longrightarrow> ys = [l]"
  by (cases ys; simp) (cases ys; cases "tl ys"; simp split: if_splits)

lemma cell_id_bind: "match_segments (at_cell rest) (req_Segments rq) = Some u \<Longrightarrow>
  cell_id (bind_path (at_cell rest) rq) = req_Segments rq ! 1"
  using match_at_cell [of rest "req_Segments rq" u] by (auto simp: cell_id_def bind_path_def)

lemma exempt_cell:
  assumes "exempt rq" "req_Segments rq = [''cells'', cid]"
  shows "HasSuffix (''/'' @ cid) ''/ws''"
  using assms suffix_slash [of "''cells''"]
  by (auto simp: exempt_def url_path_def rooted_def HasSuffix_def suffix_def append_eq_append_conv2 append_eq_Cons_conv
      Cons_eq_append_conv)

text \<open>What an unauthenticated request can come to.\<close>

lemma without_token_cases:
  assumes "\<not> authorised cfg rq"
  obtains (refused) m code where "serve env cfg rq s = (HttpError code m, s)" "code \<in> {401, 404, 405}"
  | (health) "req_Segments rq = [''health'']" "serve env cfg rq s = finish Health s"
  | (detect) rq' where "req_Segments rq = [''migration'', ''source-detect'']"
      "serve env cfg rq s = finish (DetectMigrationSource env rq') s"
  | (status) cid rq' where "req_Segments rq = [''cells'', cid]" "HasSuffix (''/'' @ cid) ''/ws''" "cell_id rq' = cid"
      "serve env cfg rq s = finish (CellStatus env rq') s"
  | (socket) cid rq' where "req_Segments rq = [''cells'', cid, ''ws'']" "cell_id rq' = cid" "query rq' = query rq"
      "serve env cfg rq s = finish (ConsoleWebSocket env rq') s"
proof (cases rule: dispatch_found [of env cfg rq])
  case (miss m code)
  then show ?thesis by (intro refused [of code m]) (auto simp: serve_def finish_def h_reply_def)
next
  case (hit r)
  define rq' where "rq' = bind_path (rt_pattern r) rq"
  obtain u where u: "match_segments (rt_pattern r) (req_Segments rq) = Some u"
    using hit(2) by (auto simp: route_for_def route_matches_def)
  consider "\<not> rt_guarded r" | "rt_guarded r" "\<not> exempt rq" | "rt_guarded r" "exempt rq" by blast
  then show ?thesis
  proof cases
    case 1
    with open_routes [OF hit(1)] u hit(3) show ?thesis
      by (cases "req_Segments rq"; cases "tl (req_Segments rq)"; cases "tl (tl (req_Segments rq))")
        (auto simp: serve_def Let_def split: if_splits intro: health detect)
  next
    case 2
    then have "serve env cfg rq s = (HttpError 401 ''unauthorized'', s)"
      using hit(3) assms by (simp add: serve_def Middleware_def finish_def handler_defs Let_def)
    then show ?thesis by (intro refused) auto
  next
    case 3
    have get: "rt_method r = ''GET''"
      using 3(2) hit(2) by (auto simp: exempt_def route_for_def method_serves_def)
    have h: "serve env cfg rq s = finish (rt_handler r rq') s"
      using 3 hit(3) by (simp add: serve_def Middleware_def rq'_def Let_def)
    have "\<not> checked_pattern (rt_pattern r)" using checked_not_exempt [OF _ u] 3(2) by blast
    then consider "rt_pattern r = at_cell []" | "rt_pattern r = at_cell [Lit ''ws'']"
      using GET_routes key_in_route_keys [OF hit(1)] get by (fastforce simp: list_all_iff)
    then show ?thesis
    proof cases
      case 1
      obtain cid where seg: "req_Segments rq = [''cells'', cid]"
        using match_at_cell [of "[]" "req_Segments rq" u] u 1 match_one(1) by auto
      show ?thesis
        by (rule status [OF seg exempt_cell [OF 3(2) seg] _ h [unfolded status_route [OF hit(1) get 1]]])
          (use cell_id_bind [of "[]" rq u] u 1 seg in \<open>simp add: rq'_def\<close>)
    next
      case 2
      obtain cid where seg: "req_Segments rq = [''cells'', cid, ''ws'']"
        using match_at_cell [of "[Lit ''ws'']" "req_Segments rq" u] u 2 match_one(2) [of "''ws''"] by auto
      show ?thesis
        by (rule socket [OF seg _ _ h [unfolded ws_route [OF hit(1) get 2]]])
          (use cell_id_bind [of "[Lit ''ws'']" rq u] u 2 seg in \<open>simp_all add: rq'_def\<close>)
    qed
  qed
qed

lemma api_same [simp]: "s\<lparr>srv := srv s\<rparr> = s" "(v :: server)\<lparr>mgr := mgr v\<rparr> = v" "(v :: server)\<lparr>host := host v\<rparr> = v"
  "(m :: CellManager)\<lparr>consoleSessions := consoleSessions m\<rparr> = m"
  by simp_all

lemma Health_run: "finish Health s = (Json 200 (VMap [(''status'', VStr ''ok''), (''name'', VStr ''HivePanel Daemon'')]), s)"
  by (simp add: Health_def finish_def handler_defs)

lemma CellStatus_reads: "snd (finish (CellStatus env rq) s) = s"
  by (auto simp: CellStatus_def finish_def handler_defs valid_cell_id_def Status_def with_cell_def sv_defs
      split: option.splits sum.splits prod.splits)

lemma DetectMigrationSource_reads: "\<exists>w. files w = files (host (srv s)) \<and>
  snd (finish (DetectMigrationSource env rq) s) = s\<lparr>srv := (srv s)\<lparr>host := w\<rparr>\<rparr>"
proof (cases "dec_Detection (dec env) (req_Body rq)")
  case (Inl e)
  then show ?thesis
    by (intro exI [of _ "host (srv s)"]) (simp add: DetectMigrationSource_def finish_def handler_defs decode_def)
next
  case (Inr d)
  obtain r w where run: "Detect (detector env) (depth env) d (host (srv s)) = (r, w)" by fastforce
  have "files w = files (host (srv s))" using reads_onlyD [OF Detect_reads run] .
  then show ?thesis
    using Inr run
    by (cases "UUIDs d = []"; cases r)
      (auto simp: DetectMigrationSource_def finish_def handler_defs decode_def sv_os_def
        intro: exI [of _ "host (srv s)"] exI [of _ w])
qed

lemma ConsoleWebSocket_refused:
  assumes "\<not> fst (ValidateConsoleSession (clock env) (cell_id rq) (query rq ''token'') (mgr (srv s)))"
  shows "case finish (ConsoleWebSocket env rq) s of (r, s') \<Rightarrow> status_of r \<in> {400, 401} \<and>
    (\<exists>ss. set ss \<subseteq> set (consoleSessions (mgr (srv s))) \<and> s' = s\<lparr>srv := (srv s)\<lparr>mgr := (mgr (srv s))\<lparr>consoleSessions := ss\<rparr>\<rparr>\<rparr>)"
proof (cases "invalidCellID (cell_id rq) \<or> query rq ''token'' = []")
  case True
  then show ?thesis
    by (auto simp: ConsoleWebSocket_def valid_cell_id_def finish_def handler_defs Let_def
        intro: exI [of _ "consoleSessions (mgr (srv s))"])
next
  case False
  obtain m where v: "ValidateConsoleSession (clock env) (cell_id rq) (query rq ''token'') (mgr (srv s)) = (False, m)"
    using assms by (metis (full_types) prod.collapse)
  have "\<exists>ss. set ss \<subseteq> set (consoleSessions (mgr (srv s))) \<and> m = (mgr (srv s))\<lparr>consoleSessions := ss\<rparr>"
    using v
    by (auto simp: AList.delete_eq ValidateConsoleSession_def Let_def split: option.splits if_splits
        intro: exI [of _ "consoleSessions (mgr (srv s))"] exI [of _ "filter (\<lambda>(k', _). query rq ''token'' \<noteq> k') (consoleSessions (mgr (srv s)))"])
  then show ?thesis
    using False v
    by (auto simp: ConsoleWebSocket_def valid_cell_id_def validate_session_def finish_def handler_defs Let_def)
qed


end
