(* ===== verification/WorkerInv.thy ===== *)
theory WorkerInv
  imports RouterProps
begin

text \<open>
  What holds of the cell manager whatever the worker does: a calculus over the operations of the manager, over handlers
  and over goroutines, and the invariant of all runs.
\<close>

section \<open>The invariant\<close>

definition fits :: "string \<Rightarrow> string \<Rightarrow> Cell \<Rightarrow> bool" where
  "fits dir cid c \<longleftrightarrow> cell_ID c = cid \<and> cell_Dir c = path_join [dir, cid] \<and> cell_Status c \<noteq> ''running''"

definition wf_manager :: "string \<Rightarrow> CellManager \<Rightarrow> bool" where
  "wf_manager dir m \<longleftrightarrow> instancesDir m = dir \<and> distinct (map fst (cells m)) \<and> list_all (\<lambda>(cid, c). fits dir cid c) (cells m)
     \<and> distinct (map fst (consoleSessions m))"

fun wf_job :: "string \<Rightarrow> job \<Rightarrow> bool" where
  "wf_job dir (StopJob cid) = True"
| "wf_job dir (ImportJob cid c request protocol wasRunning) = (fits dir cid c \<and> \<not> wasRunning)"

definition wf_api :: "string \<Rightarrow> 'r api \<Rightarrow> bool" where
  "wf_api dir s \<longleftrightarrow> wf_manager dir (mgr (srv s)) \<and> list_all (wf_job dir) (jobs s)"

named_theorems keeps_intros \<open>computations that keep the invariant\<close>

lemma wf_lookup: "wf_manager dir m \<Longrightarrow> lookup_cell cid m = Some c \<Longrightarrow> fits dir cid c"
  by (auto simp: wf_manager_def lookup_cell_def list_all_iff dest!: map_of_SomeD)

lemma wf_put:
  assumes "wf_manager dir m" "fits dir cid c"
  shows "wf_manager dir (put_cell cid c m)"
  using assms list_all_update [of "\<lambda>(cid, c). fits dir cid c" "cells m" cid c]
  by (auto simp: wf_manager_def put_cell_def distinct_update)

lemma wf_same:
  "wf_manager dir m \<Longrightarrow> cells m' = cells m \<Longrightarrow> instancesDir m' = instancesDir m \<Longrightarrow> consoleSessions m' = consoleSessions m \<Longrightarrow>
    wf_manager dir m'"
  by (simp add: wf_manager_def)

lemma wf_chan_send: "wf_manager dir m \<Longrightarrow> wf_manager dir (chan_send line ch m)"
  by (erule wf_same) (simp_all add: chan_send_def Let_def)

lemma wf_chan_close: "wf_manager dir m \<Longrightarrow> wf_manager dir (chan_close ch m)"
  by (erule wf_same) (simp_all add: chan_close_def)

lemma wf_chan_receive: "wf_manager dir m \<Longrightarrow> wf_manager dir (chan_receive ch m)"
  by (erule wf_same) (simp_all add: chan_receive_def)

lemma wf_broadcast: "wf_manager dir m \<Longrightarrow> fits dir cid c \<Longrightarrow> wf_manager dir (broadcast cid c line m)"
proof -
  have fold: "wf_manager dir m \<Longrightarrow> wf_manager dir (fold (chan_send line) chs m)" for chs m
    by (induction chs arbitrary: m) (auto intro: wf_chan_send)
  show "wf_manager dir m \<Longrightarrow> fits dir cid c \<Longrightarrow> ?thesis"
    unfolding broadcast_def by (rule fold, rule wf_put) (auto simp: fits_def)
qed

lemma wf_broadcastByID: "wf_manager dir m \<Longrightarrow> wf_manager dir (broadcastByID cid line m)"
  by (auto simp: broadcastByID_def split: option.split intro: wf_broadcast wf_lookup)

lemma wf_Unsubscribe: "wf_manager dir m \<Longrightarrow> wf_manager dir (Unsubscribe cid ch m)"
  by (auto simp: Unsubscribe_def fits_def split: option.split intro!: wf_chan_close wf_put dest: wf_lookup)

lemma wf_ValidateConsoleSession: "wf_manager dir m \<Longrightarrow> wf_manager dir (snd (ValidateConsoleSession now cid token m))"
  by (auto simp: ValidateConsoleSession_def Let_def wf_manager_def split: option.split intro: distinct_delete)

section \<open>Operations of the manager\<close>

definition sv_keeps :: "(CellManager \<Rightarrow> bool) \<Rightarrow> 'a srv \<Rightarrow> bool" where
  "sv_keeps Q m \<longleftrightarrow> (\<forall>s. Q (mgr s) \<longrightarrow> Q (mgr (snd (m s))))"

lemma sv_keepsD: "sv_keeps Q m \<Longrightarrow> Q (mgr s) \<Longrightarrow> m s = (r, s') \<Longrightarrow> Q (mgr s')"
  unfolding sv_keeps_def by (metis snd_conv)

lemma keeps_simple [keeps_intros]:
  "sv_keeps Q (sv_return x)" "sv_keeps Q (sv_throw e)" "sv_keeps Q (sv_lift r)" "sv_keeps Q (sv_os op)" "sv_keeps Q (sv_shell env d cmd)"
  by (auto simp: sv_keeps_def sv_defs sv_lift_def sv_shell_def split: prod.split)

lemma keeps_sv_attempt [keeps_intros]:
  assumes "sv_keeps Q m" "\<And>r. sv_keeps Q (k r)"
  shows "sv_keeps Q (sv_attempt m k)"
  unfolding sv_keeps_def
proof (intro allI impI)
  fix s :: server assume s: "Q (mgr s)"
  obtain r s1 where m: "m s = (r, s1)" by fastforce
  show "Q (mgr (snd (sv_attempt m k s)))"
    using sv_keepsD [OF assms(1) s m] assms(2) [of r] m by (simp add: sv_attempt_def sv_keeps_def)
qed

lemma keeps_sv_bind [keeps_intros]: "sv_keeps Q m \<Longrightarrow> (\<And>x. sv_keeps Q (k x)) \<Longrightarrow> sv_keeps Q (sv_bind m k)"
  unfolding sv_bind_attempt by (auto intro!: keeps_intros split: sum.split)

lemma keeps_get [keeps_intros]: "(\<And>m. Q m \<Longrightarrow> sv_keeps Q (k m)) \<Longrightarrow> sv_keeps Q (sv_get k)"
  by (simp add: sv_keeps_def sv_get_def)

lemma keeps_modify: "(\<And>m. Q m \<Longrightarrow> Q (f m)) \<Longrightarrow> sv_keeps Q (sv_modify f)"
  by (simp add: sv_keeps_def sv_modify_def)

lemma keeps_if [keeps_intros]: "(b \<Longrightarrow> sv_keeps Q m) \<Longrightarrow> (\<not> b \<Longrightarrow> sv_keeps Q n) \<Longrightarrow> sv_keeps Q (if b then m else n)"
  by simp

lemma keeps_with_cell [keeps_intros]: "(\<And>c. fits dir cid c \<Longrightarrow> sv_keeps (wf_manager dir) (k c)) \<Longrightarrow> sv_keeps (wf_manager dir) (with_cell cid k)"
  unfolding with_cell_def by (rule keeps_get) (auto split: option.split intro: keeps_intros wf_lookup)

lemma keeps_put: "fits dir cid c \<Longrightarrow> sv_keeps (wf_manager dir) (sv_modify (put_cell cid c))"
  by (auto intro: keeps_modify wf_put)

lemma keeps_log [keeps_intros]: "sv_keeps (wf_manager dir) (sv_modify (broadcastByID cid line))"
  by (auto intro: keeps_modify wf_broadcastByID)

lemma keeps_undo [keeps_intros]: "sv_keeps Q m \<Longrightarrow> sv_keeps Q n \<Longrightarrow> sv_keeps Q (sv_undo m n)"
  unfolding sv_undo_def by (auto intro!: keeps_intros split: sum.split)

lemma keeps_ensure [keeps_intros]: "sv_keeps (wf_manager dir) (ensureCapabilityAllowed cid d msg)"
  unfolding ensureCapabilityAllowed_def Let_def by (intro keeps_intros)

lemma keeps_locks [keeps_intros]: "sv_keeps (wf_manager dir) (LockCell cc cid t r m)" "sv_keeps (wf_manager dir) (UnlockCell cid)"
  unfolding LockCell_def UnlockCell_def Let_def
  by (intro keeps_intros keeps_put; simp add: fits_def)+

lemma keeps_console [keeps_intros]: "sv_keeps (wf_manager dir) (ClearConsole cid)" "sv_keeps (wf_manager dir) (Console cid)" "sv_keeps (wf_manager dir) (Status cid)"
  "sv_keeps (wf_manager dir) (Stop cid)" "sv_keeps (wf_manager dir) (CellDir cid)"
  unfolding ClearConsole_def Console_def Status_def Stop_def CellDir_def Let_def
  by (intro keeps_intros keeps_put; simp add: fits_def)+

lemma keeps_sessions [keeps_intros]: "sv_keeps (wf_manager dir) (CreateConsoleSession now token cid)"
  unfolding CreateConsoleSession_def
  by (intro keeps_intros keeps_modify) (auto simp: wf_manager_def distinct_update)

lemma keeps_subscribe [keeps_intros]: "sv_keeps (wf_manager dir) (SubscribeWithHistory cid h)"
  unfolding SubscribeWithHistory_def Let_def
proof (intro keeps_intros keeps_modify)
  fix c m m' assume "fits dir cid c" "wf_manager dir m'"
  then have "wf_manager dir (put_cell cid (c\<lparr>subscribers := ch # subscribers c\<rparr>) m')" for ch
    by (intro wf_put) (auto simp: fits_def)
  then show "wf_manager dir (put_cell cid (c\<lparr>subscribers := length (channels m) # subscribers c\<rparr>) m'
      \<lparr>channels := channels m' @ [\<lparr>held = if h then send_history [] (console c) else [], shut = False\<rparr>]\<rparr>)"
    by (rule wf_same) simp_all
qed

lemma wf_allocations:
  "wf_manager dir m \<Longrightarrow> wf_manager dir (releaseCellAllocations c m)" "wf_manager dir m \<Longrightarrow> wf_manager dir (replace_reservations old new m)"
  by (erule wf_same; simp add: releaseCellAllocations_def replace_reservations_def)+

lemma keeps_allocations [keeps_intros]:
  "sv_keeps (wf_manager dir) (sv_modify (releaseCellAllocations c))" "sv_keeps (wf_manager dir) (sv_modify (replace_reservations old new))"
  by (auto intro: keeps_modify wf_allocations)

lemma keeps_place_cell: "fits dir (cell_ID c) c \<Longrightarrow> sv_keeps (wf_manager dir) (place_cell cc c)"
  unfolding place_cell_def Let_def
  by (intro keeps_intros) (auto intro!: keeps_intros keeps_put split: sum.split)

lemma keeps_Create [keeps_intros]: "sv_keeps (wf_manager dir) (Create cc uuid_of new_uuid now request)"
  unfolding Create_def Let_def
  by (rule keeps_get)
    (auto intro!: keeps_intros keeps_place_cell split: sum.split option.split simp: new_cell_def fits_def wf_manager_def)

lemma keeps_Delete [keeps_intros]: "sv_keeps (wf_manager dir) (Delete running cid)"
  unfolding Delete_def
proof (intro keeps_intros keeps_modify)
  fix c m assume "wf_manager dir m"
  then have "wf_manager dir (m\<lparr>cells := AList.delete cid (cells m)\<rparr>)"
    using distinct_delete [of "cells m" cid] by (auto simp: wf_manager_def list_all_iff AList.delete_eq)
  then show "wf_manager dir ((releaseCellAllocations c m)\<lparr>cells := AList.delete cid (cells m)\<rparr>)"
    by (rule wf_same) (simp_all add: releaseCellAllocations_def)
qed

lemma keeps_UpdateDefinition [keeps_intros]: "sv_keeps (wf_manager dir) (UpdateDefinition cc running cid request)"
proof -
  have "sv_keeps (wf_manager dir) (replace_definition cc i c (updated_cell rq as c))" if "fits dir i c" for i c rq as
    unfolding replace_definition_def Let_def using that
    by (intro keeps_intros keeps_put) (simp add: fits_def updated_cell_def)
  then show ?thesis
    unfolding UpdateDefinition_def Let_def
    by (intro keeps_intros) (auto split: sum.split intro!: keeps_intros)
qed

lemma keeps_run_steps: "(\<And>line. sv_keeps (wf_manager dir) (Log ctx line)) \<Longrightarrow> sv_keeps (wf_manager dir) (run_steps env ctx steps)"
proof (induction steps arbitrary: ctx)
  case (Cons step steps)
  have "sv_keeps (wf_manager dir) (run_step env ctx step)"
    unfolding run_step_def stepMkdir_def stepWriteFile_def stepDownload_def stepRun_def stepHTTP_def Let_def
    using Cons.prems by (intro keeps_intros) (auto split: option.split prod.split intro!: keeps_intros)
  then show ?case using Cons by (auto intro!: keeps_intros)
qed (simp add: keeps_intros)

lemma keeps_Install [keeps_intros]: "sv_keeps (wf_manager dir) (Install env et cc running cid)"
proof -
  have "sv_keeps (wf_manager dir) (sv_modify (broadcast cid c line))" if "fits dir cid c" for c line
    using that by (auto intro: keeps_modify wf_broadcast)
  then show ?thesis
    unfolding Install_def Run_def
    by (auto intro!: keeps_intros keeps_run_steps split: sum.split)
qed

lemma keeps_Reinstall [keeps_intros]: "sv_keeps (wf_manager dir) (Reinstall running cid)"
proof -
  have "sv_keeps (wf_manager dir) (sv_modify (broadcast cid c line))" if "fits dir cid c" for c line
    using that by (auto intro: keeps_modify wf_broadcast)
  then show ?thesis
    unfolding Reinstall_def reinstall_directory_def Let_def
    by (auto intro!: keeps_intros split: sum.split)
qed

lemma keeps_backups [keeps_intros]:
  "sv_keeps (wf_manager dir) (cell_CreateBackup cd sha tm fuel cid b n ig)" "sv_keeps (wf_manager dir) (cell_ListBackups tm cid)" "sv_keeps (wf_manager dir) (cell_DeleteBackup cid b)"
  "sv_keeps (wf_manager dir) (BackupDownloadPath cid b)" "sv_keeps (wf_manager dir) (cell_RestoreBackup cd running cid b)" "sv_keeps (wf_manager dir) (cell_ListBackupFiles cd cid b)"
  "sv_keeps (wf_manager dir) (cell_ReadBackupFile cd cid b p)" "sv_keeps (wf_manager dir) (ExtractBackupPath cd running cid b p)"
  unfolding cell_CreateBackup_def cell_ListBackups_def cell_DeleteBackup_def BackupDownloadPath_def cell_RestoreBackup_def
    cell_ListBackupFiles_def cell_ReadBackupFile_def ExtractBackupPath_def
  by (intro keeps_intros)+

lemma keeps_stats [keeps_intros]: "sv_keeps (wf_manager dir) (cell_Stats rt now cid r)"
  unfolding cell_Stats_def Let_def by (intro keeps_intros)

lemma keeps_add_cells [keeps_intros]: "sv_keeps (wf_manager dir) (add_cells env r cs st)"
  by (induction cs arbitrary: st) (auto simp: Let_def intro!: keeps_intros split: sum.split)

lemma keeps_ReconfigureAllocations [keeps_intros]: "sv_keeps (wf_manager dir) (ReconfigureAllocations p as)"
  by (auto simp: sv_keeps_def ReconfigureAllocations_def split: prod.split elim: wf_same)

lemma keeps_ensures [keeps_intros]: "sv_keeps (wf_manager dir) (EnsurePowerAllowed cid)" "sv_keeps (wf_manager dir) (EnsureConsoleAllowed cid)"
  "sv_keeps (wf_manager dir) (EnsureFilesAllowed cid)" "sv_keeps (wf_manager dir) (EnsureBackupsAllowed cid)" "sv_keeps (wf_manager dir) (EnsureSettingsAllowed cid)"
  "sv_keeps (wf_manager dir) (EnsureImporterAllowed cid)"
  unfolding EnsurePowerAllowed_def EnsureConsoleAllowed_def EnsureFilesAllowed_def EnsureBackupsAllowed_def
    EnsureSettingsAllowed_def EnsureImporterAllowed_def by (intro keeps_intros)+

section \<open>Handlers\<close>

definition h_keeps :: "string \<Rightarrow> ('r, 'a) handler \<Rightarrow> bool" where
  "h_keeps dir h \<longleftrightarrow> (\<forall>s. wf_api dir s \<longrightarrow> wf_api dir (snd (h s)))"

lemma h_keepsD: "h_keeps dir h \<Longrightarrow> wf_api dir s \<Longrightarrow> h s = (r, s') \<Longrightarrow> wf_api dir s'"
  unfolding h_keeps_def by (metis snd_conv)

lemma h_keeps_simple [keeps_intros]: "h_keeps dir (h_return x)" "h_keeps dir (h_reply r)"
  "h_keeps dir (require b code msg)" "h_keeps dir (writeJSON p)" "h_keeps dir (writeJSONStatus code p)"
  by (simp_all add: h_keeps_def handler_defs)

lemma h_keeps_bind [keeps_intros]:
  assumes "h_keeps dir m" "\<And>x. h_keeps dir (k x)"
  shows "h_keeps dir (h_bind m k)"
  unfolding h_keeps_def
proof (intro allI impI)
  fix s :: "'a api" assume s: "wf_api dir s"
  obtain r s1 where m: "m s = (r, s1)" by fastforce
  show "wf_api dir (snd (h_bind m k s))"
    using h_keepsD [OF assms(1) s m] assms(2) m by (cases r) (simp_all add: h_bind_def h_keeps_def)
qed

lemma h_keeps_get [keeps_intros]: "(\<And>s. wf_api dir s \<Longrightarrow> h_keeps dir (k s)) \<Longrightarrow> h_keeps dir (h_get k)"
  by (simp add: h_keeps_def h_get_def)

lemma h_keeps_modify: "(\<And>s. wf_api dir s \<Longrightarrow> wf_api dir (f s)) \<Longrightarrow> h_keeps dir (h_modify f)"
  by (simp add: h_keeps_def h_modify_def)

lemma h_keeps_srv [keeps_intros]: "sv_keeps (wf_manager dir) m \<Longrightarrow> h_keeps dir (h_srv m)"
  by (auto simp: h_keeps_def h_srv_def wf_api_def dest: sv_keepsD split: prod.split)

lemma h_keeps_os [keeps_intros]: "h_keeps dir (h_os m)"
  unfolding h_os_def by (intro keeps_intros)

lemma h_keeps_if [keeps_intros]: "(b \<Longrightarrow> h_keeps dir m) \<Longrightarrow> (\<not> b \<Longrightarrow> h_keeps dir n) \<Longrightarrow> h_keeps dir (if b then m else n)"
  by simp

lemma h_keeps_sum [keeps_intros]:
  "(\<And>e. h_keeps dir (f e)) \<Longrightarrow> (\<And>x. h_keeps dir (g x)) \<Longrightarrow> h_keeps dir (case r of Inl e \<Rightarrow> f e | Inr x \<Rightarrow> g x)"
  by (simp split: sum.split)

lemma h_keeps_option [keeps_intros]:
  "h_keeps dir f \<Longrightarrow> (\<And>x. h_keeps dir (g x)) \<Longrightarrow> h_keeps dir (case r of None \<Rightarrow> f | Some x \<Rightarrow> g x)"
  by (simp split: option.split)

lemma h_keeps_prod [keeps_intros]: "(\<And>x y. h_keeps dir (f x y)) \<Longrightarrow> h_keeps dir (case p of (x, y) \<Rightarrow> f x y)"
  by (simp split: prod.split)

lemma h_keeps_running [keeps_intros]: "(\<And>running. sv_keeps (wf_manager dir) (m running)) \<Longrightarrow> h_keeps dir (h_running env m)"
  unfolding h_running_def by (intro keeps_intros)

lemma h_keeps_or [keeps_intros]: "h_keeps dir m \<Longrightarrow> h_keeps dir (or_error env code m)" "h_keeps dir m \<Longrightarrow> h_keeps dir (or_message code msg m)"
  unfolding or_error_def or_message_def by (intro keeps_intros; assumption)+

lemma wf_Start: "wf_manager dir (mgr s) \<Longrightarrow> Start rt cc iter cid (r, s) = (x, r', s') \<Longrightarrow> wf_manager dir (mgr s')"
  by (auto simp: Start_def Let_def sv_os_def split: option.splits sum.splits if_splits prod.splits intro: wf_broadcastByID)

lemma wf_SendCommand: "wf_manager dir (mgr s) \<Longrightarrow> SendCommand rt cid line (r, s) = (x, r', s') \<Longrightarrow> wf_manager dir (mgr s')"
  by (auto simp: SendCommand_def Let_def split: option.splits prod.splits intro: wf_broadcastByID)

lemma wf_stop_goroutine: "wf_manager dir (mgr s) \<Longrightarrow> stop_goroutine rt et cid (r, s) = (r', s') \<Longrightarrow> wf_manager dir (mgr s')"
  by (auto simp: stop_goroutine_def Let_def split: sum.splits prod.splits intro!: wf_broadcastByID)

lemma h_keeps_ran [keeps_intros]:
  "h_keeps dir (h_ran (Start rt cc iter cid))" "h_keeps dir (h_ran (SendCommand rt cid line))"
  by (auto simp: h_keeps_def h_ran_def wf_api_def split: prod.split dest: wf_Start wf_SendCommand)

lemma h_keeps_checks [keeps_intros]: "h_keeps dir (valid_cell_id cid)" "h_keeps dir (decode d rq)" "h_keeps dir (message msg rest)"
  "h_keeps dir (done_at msg p)" "h_keeps dir (ensurePowerAllowed env cid)" "h_keeps dir (ensureConsoleAllowed env cid)"
  "h_keeps dir (ensureFilesAllowed env cid)" "h_keeps dir (ensureBackupsAllowed env cid)"
  "h_keeps dir (ensureSettingsAllowed env cid)" "h_keeps dir (ensureImporterAllowed env cid)"
  unfolding valid_cell_id_def decode_def message_def done_at_def ensurePowerAllowed_def ensureConsoleAllowed_def
    ensureFilesAllowed_def ensureBackupsAllowed_def ensureSettingsAllowed_def ensureImporterAllowed_def
  by (intro keeps_intros)+

lemma h_keeps_get_cell [keeps_intros]: "h_keeps dir (get_cell cid)"
  unfolding get_cell_def by (intro keeps_intros)

text \<open>What a handler learns from \<open>Get\<close>.\<close>

lemma h_keeps_with_cell:
  assumes "\<And>c. fits dir cid c \<Longrightarrow> h_keeps dir (k c)"
  shows "h_keeps dir (h_bind (get_cell cid) k)"
  unfolding h_keeps_def
proof (intro allI impI)
  fix s :: "'a api" assume s: "wf_api dir s"
  show "wf_api dir (snd (h_bind (get_cell cid) k s))"
  proof (cases "Get (mgr (srv s)) cid")
    case None
    with s show ?thesis by (simp add: get_cell_def handler_defs)
  next
    case (Some c)
    then have "fits dir cid c" using s by (auto simp: wf_api_def Get_def intro: wf_lookup)
    from assms [OF this] s Some show ?thesis by (simp add: get_cell_def handler_defs h_keeps_def)
  qed
qed

lemma h_keeps_cells:
  "h_keeps dir Health" "h_keeps dir (Version env)" "h_keeps dir (DetectMigrationSource env rq)" "h_keeps dir (ListCells env)"
  "h_keeps dir (CellStatus env rq)" "h_keeps dir (StartCell env rq)" "h_keeps dir (CellConsole env rq)"
  "h_keeps dir (CreateConsoleSession_handler env rq)" "h_keeps dir (SendCommand_handler env rq)"
  "h_keeps dir (CellStats_handler env rq)" "h_keeps dir (CreateCell env rq)" "h_keeps dir (InstallCell env rq)"
  "h_keeps dir (ReinstallCell env rq)" "h_keeps dir (UpdateCellDefinition env rq)" "h_keeps dir (DeleteCell env rq)"
  "h_keeps dir (ListCombs env)" "h_keeps dir (GetComb rq)" "h_keeps dir (LockCell_handler env rq)"
  "h_keeps dir (UnlockCell_handler env rq)"
  unfolding Health_def Version_def DetectMigrationSource_def ListCells_def CellStatus_def StartCell_def CellConsole_def
    CreateConsoleSession_handler_def SendCommand_handler_def CellStats_handler_def CreateCell_def InstallCell_def
    ReinstallCell_def UpdateCellDefinition_def DeleteCell_def ListCombs_def GetComb_def LockCell_handler_def
    UnlockCell_handler_def Let_def
  by (intro keeps_intros)+

lemma h_keeps_StopCell: "h_keeps dir (StopCell env rq)"
  unfolding StopCell_def Let_def by (intro keeps_intros h_keeps_modify) (simp add: wf_api_def)

lemma h_keeps_files:
  "h_keeps dir (ListFiles_handler env rq)" "h_keeps dir (ReadFile env rq)" "h_keeps dir (WriteFile env rq)"
  "h_keeps dir (DeleteFile env rq)" "h_keeps dir (CreateFolder_handler env rq)" "h_keeps dir (RenameFile env rq)"
  "h_keeps dir (UploadFile env rq)" "h_keeps dir (DownloadFile env rq)" "h_keeps dir (RestoreFile env rq)"
  "h_keeps dir (PermanentDeleteFile env rq)" "h_keeps dir (CreateFile_handler env rq)"
  "h_keeps dir (UploadFromURL_handler env rq)" "h_keeps dir (CreateFileArchive env rq)"
  "h_keeps dir (ExtractFileArchive env rq)" "h_keeps dir (ListConfigFiles env rq)" "h_keeps dir (ReadConfigFile env rq)"
  "h_keeps dir (WriteConfigFile env rq)" "h_keeps dir (ListPlayers env rq)" "h_keeps dir (playerCommand action env rq)"
  "h_keeps dir (NodeStats env)"
  unfolding ListFiles_handler_def ReadFile_def WriteFile_def DeleteFile_def CreateFolder_handler_def RenameFile_def
    UploadFile_def DownloadFile_def RestoreFile_def PermanentDeleteFile_def CreateFile_handler_def UploadFromURL_handler_def
    CreateFileArchive_def ExtractFileArchive_def ListConfigFiles_def ReadConfigFile_def WriteConfigFile_def ListPlayers_def
    playerCommand_def NodeStats_def read_reply_def Let_def
  by (intro keeps_intros)+

lemma h_keeps_ConsoleWebSocket: "h_keeps dir (ConsoleWebSocket env rq)"
proof -
  have "h_keeps dir (validate_session env cid token)" for cid token
    using wf_ValidateConsoleSession [of dir]
    by (auto simp: h_keeps_def validate_session_def wf_api_def split: prod.split) (metis snd_conv)
  then show ?thesis unfolding ConsoleWebSocket_def Let_def by (intro keeps_intros)
qed

lemma h_keeps_with_backup: "(\<And>cid. h_keeps dir (k cid)) \<Longrightarrow> h_keeps dir (with_backup env rq b msg k)"
  unfolding with_backup_def Let_def by (intro keeps_intros)

lemma h_keeps_backups:
  "h_keeps dir (CreateBackup_handler env rq)" "h_keeps dir (ListBackups_handler env rq)" "h_keeps dir (DeleteBackup_handler env rq)"
  "h_keeps dir (DownloadBackup env rq)" "h_keeps dir (RestoreBackup_handler env rq)" "h_keeps dir (ListBackupFiles_handler env rq)"
  "h_keeps dir (ReadBackupFile_handler env rq)" "h_keeps dir (ExtractBackupFile env rq)"
  unfolding CreateBackup_handler_def ListBackups_handler_def DeleteBackup_handler_def DownloadBackup_def
    RestoreBackup_handler_def ListBackupFiles_handler_def ReadBackupFile_handler_def ExtractBackupFile_def Let_def
  by (intro h_keeps_with_backup keeps_intros)+

lemma h_keeps_mount_checks [keeps_intros]: "h_keeps dir (writeBackupMountError code msg)" "h_keeps dir (mount_require b code msg)"
  "h_keeps dir (mount_decode d rq)" "h_keeps dir (or_mount_error env tbl code other m)"
  "(\<And>m. h_keeps dir (k m)) \<Longrightarrow> h_keeps dir (with_mounts cid i msg k)"
  unfolding writeBackupMountError_def mount_require_def mount_decode_def or_mount_error_def mount_error_def with_mounts_def
  by (intro keeps_intros; assumption?)+

lemma h_keeps_mounts: "h_keeps dir (MountBackup env rq)" "h_keeps dir (UnmountBackup env rq)"
  "h_keeps dir (ListMountedBackupFiles env rq)" "h_keeps dir (RestoreMountedBackupPath env rq)"
  unfolding MountBackup_def UnmountBackup_def ListMountedBackupFiles_def RestoreMountedBackupPath_def Let_def
  by (intro keeps_intros)+

lemma h_keeps_configuration: "h_keeps dir (UpdateAllocationConfiguration env rq)"
  unfolding UpdateAllocationConfiguration_def Let_def
  by (intro keeps_intros h_keeps_modify) (simp_all add: wf_api_def)

lemma wf_report: "wf_api dir s \<Longrightarrow> wf_api dir (report env c p s)"
  by (auto simp: report_def wf_api_def split: prod.split)

lemma h_keeps_import:
  "h_keeps dir (TestImporter env rq)" "h_keeps dir (ImporterStatus env rq)" "h_keeps dir (StartImporter env rq)"
proof -
  show "h_keeps dir (TestImporter env rq)"
    unfolding TestImporter_def Let_def by (intro keeps_intros)
  have "h_keeps dir (getImportProgressForCell env c)" for c
    unfolding getImportProgressForCell_def Let_def by (intro keeps_intros h_keeps_modify) (simp add: wf_api_def)
  then show "h_keeps dir (ImporterStatus env rq)"
    unfolding ImporterStatus_def Let_def by (intro keeps_intros)
  show "h_keeps dir (StartImporter env rq)"
    unfolding StartImporter_def Let_def
    by (intro h_keeps_with_cell keeps_intros h_keeps_modify; (rule wf_report)?; simp add: wf_api_def fits_def)
qed

lemma handlers_keep: "r \<in> set (NewRouter env) \<Longrightarrow> h_keeps dir (rt_handler r rq)"
  unfolding route_tables
  by (elim disjE)
    (auto simp: route_table_defs h_keeps_cells h_keeps_StopCell h_keeps_files h_keeps_ConsoleWebSocket h_keeps_backups
      h_keeps_mounts h_keeps_configuration h_keeps_import)

lemma dispatch_keeps: "h_keeps dir (dispatch env cfg rq)"
proof (cases rule: dispatch_found [of env cfg rq])
  case (miss m code)
  then show ?thesis by (simp add: keeps_intros)
next
  case (hit r)
  from handlers_keep [OF hit(1)] show ?thesis
    unfolding hit(3) Middleware_def Let_def by (intro keeps_intros)
qed

section \<open>Goroutines and runs\<close>

lemma wf_run_import: "wf_api dir s \<Longrightarrow> wf_api dir (snd (run_import env c request protocol s))"
  by (auto simp: run_import_def wf_api_def Let_def split: prod.split)

lemma wf_import_goroutine: "wf_api dir s \<Longrightarrow> wf_api dir (import_goroutine env c request protocol False cid s)"
  using wf_run_import [of dir s env c request protocol]
  by (auto simp: import_goroutine_def import_and_restart_def Let_def split: prod.split sum.split intro!: wf_report)

lemma wf_run_job: "wf_api dir s \<Longrightarrow> wf_job dir j \<Longrightarrow> wf_api dir (run_job env j s)"
proof (induction env j s rule: run_job.induct)
  case (1 env cid s)
  then show ?case by (auto simp: wf_api_def split: prod.split dest: wf_stop_goroutine)
next
  case (2 env cid c request protocol was s)
  let ?s = "import_goroutine env c request protocol was cid s"
  have "wf_api dir ?s" using 2 wf_import_goroutine by auto
  moreover have "sv_keeps (wf_manager dir) (UnlockCell cid)" by (intro keeps_intros)
  ultimately show ?case by (simp add: wf_api_def sv_keeps_def Let_def)
qed

lemma wf_worker_step: "wf_api dir s \<Longrightarrow> wf_api dir (worker_step cfg e s)"
proof (induction cfg e s rule: worker_step.induct)
  case (1 cfg env rq s)
  then show ?case
    using dispatch_keeps [of dir env cfg rq]
    by (auto simp: serve_def finish_def h_keeps_def split: sum.split prod.split)
next
  case (2 cfg env i s)
  let ?js = "take i (jobs s) @ drop (Suc i) (jobs s)"
  have "set ?js \<subseteq> set (jobs s)" by (simp add: set_take_subset set_drop_subset)
  then have "list_all (wf_job dir) ?js" using 2 by (auto simp: wf_api_def list_all_iff)
  then have rest: "wf_api dir (s\<lparr>jobs := ?js\<rparr>)" using 2 by (simp add: wf_api_def)
  have "i < length (jobs s) \<Longrightarrow> wf_job dir (jobs s ! i)" using 2 by (simp add: wf_api_def list_all_length)
  then show ?case using 2 wf_run_job [OF rest] by simp
next
  case (5 cfg env cid msg s)
  then show ?case
    by (auto simp: ws_command_def wf_api_def split: option.split prod.split dest: wf_SendCommand)
qed (auto simp: wf_api_def on_output_def on_exit_def intro: wf_broadcastByID wf_chan_receive wf_Unsubscribe)

lemma wf_worker_run: "wf_api dir s \<Longrightarrow> wf_api dir (worker_run cfg es s)"
  unfolding worker_run_def by (induction es arbitrary: s) (auto intro: wf_worker_step)

text \<open>
  C6. Whatever requests are served and whatever goroutines, processes and consoles do in between, the table of cells
  stays well formed: no two cells share an id, each is stored under its own id and lives in the directory of that name
  below the directory of instances, console tokens are distinct, and no goroutine waits that would work on a cell
  of another name or directory.
\<close>

theorem worker_stays_well_formed: "wf_api dir s \<Longrightarrow> wf_api dir (worker_run cfg es s)"
  by (rule wf_worker_run)

lemma runtime_report [simp]: "runtime (report env c p s) = runtime s"
  by (simp add: report_def split: prod.split)

lemma import_leaves_runtime: "runtime (import_goroutine env c request protocol False cid s) = runtime s"
  by (auto simp: import_goroutine_def import_and_restart_def run_import_def Let_def split: prod.split sum.split)

text \<open>
  C38. An import never stops a running server: in every state the worker can reach, no import waits that would stop or
  restart its cell first, and carrying one out leaves the runtime as it was, so the files are replaced under the server.
\<close>

theorem import_does_not_stop_the_server:
  assumes "wf_api dir s" "i < length (jobs (worker_run cfg es s))" "jobs (worker_run cfg es s) ! i = ImportJob cid c request protocol was"
  shows "\<not> was \<and> runtime (worker_step cfg (RunJob env i) (worker_run cfg es s)) = runtime (worker_run cfg es s)"
proof -
  have "wf_job dir (ImportJob cid c request protocol was)"
    using wf_worker_run [OF assms(1), of cfg es] assms(2,3) by (auto simp: wf_api_def list_all_length)
  then show ?thesis using assms(2,3) by (simp add: import_leaves_runtime Let_def)
qed

text \<open>The progress of \<open>c\<close> says that its import is over.\<close>

definition over :: "Cell \<Rightarrow> 'r api \<Rightarrow> bool" where
  "over c s \<longleftrightarrow> (let p = getImportProgress (cell_ID c) (importProgress s)
     in \<not> ip_Running p \<and> ip_Percent p = 100 \<and> ip_Stage p \<in> {''Failed'', ''Complete''})"

lemma over_report: "over c (report env c (import_failed msg e) s)" "over c (report env c (import_complete msg e) s)"
  by (simp_all add: over_def report_def setImportProgressForCell_def getImportProgress_def setImportProgress_def update_conv'
      import_failed_def import_complete_def split: prod.split)

lemma over_import_and_restart: "over c (import_and_restart env c request protocol was cid s)"
  by (auto simp: import_and_restart_def Let_def over_report split: prod.split sum.split)

lemma over_import_goroutine: "over c (import_goroutine env c request protocol was cid s)"
  by (auto simp: import_goroutine_def Let_def over_report over_import_and_restart split: prod.split sum.split)


section \<open>Examples\<close>

definition start_api :: "unit api" where
  "start_api = \<lparr>runtime = (), srv = \<lparr>mgr = one_cell, host = calm_world []\<rparr>, conf = sample_config, mounts = None,
     importProgress = [], jobs = []\<rparr>"

lemma wf_start_api: "wf_api ''/i'' start_api"
proof -
  have "path_join [''/i'', ''a''] = ''/i/a''" by code_simp
  then show ?thesis
    by (simp add: wf_api_def wf_manager_def start_api_def one_cell_def fresh_manager_def fits_def plain_cell_def)
qed

theorem worker_stays_well_formed_witness: "\<forall>es. wf_api ''/i'' (worker_run sample_config es start_api)"
  using worker_stays_well_formed [OF wf_start_api] by blast

definition some_import :: ImporterRequest where
  "some_import = \<lparr>imp_Protocol = ''local'', imp_Host = [], imp_Port = 0, imp_Username = [], imp_AuthType = [], imp_Password = [],
     imp_PrivateKey = [], imp_PrivateKeyPassphrase = [], imp_RemotePath = ''/old'', imp_Options = []\<rparr>"

theorem import_does_not_stop_the_server_witness:
  "let s = start_api\<lparr>jobs := [ImportJob ''a'' (plain_cell ''a'') some_import ''local'' False]\<rparr>
   in \<forall>env. runtime (worker_step sample_config (RunJob env 0) s) = runtime s"
proof -
  let ?s = "start_api\<lparr>jobs := [ImportJob ''a'' (plain_cell ''a'') some_import ''local'' False]\<rparr>"
  have "path_join [''/i'', ''a''] = ''/i/a''" by code_simp
  then have "wf_api ''/i'' ?s" using wf_start_api by (simp add: wf_api_def fits_def plain_cell_def)
  from import_does_not_stop_the_server [OF this, of 0 sample_config "[]"] show ?thesis
    by (simp add: worker_run_def Let_def del: worker_step.simps)
qed

end
