(* ===== verification/ApiProps.thy ===== *)
theory ApiProps
  imports WorkerInv
begin

text \<open>
  What the handlers promise: what a lock refuses and what it does not, the answers for errors of mounted backups, the
  fate of a configuration that cannot be saved, and that requests about the files of a cell stay below its directory.
\<close>

section \<open>Locks\<close>

definition disabled_by :: "CellLock \<Rightarrow> capability \<Rightarrow> bool" where
  "disabled_by l k = (case k of Power \<Rightarrow> DisablePower l | ConsoleUse \<Rightarrow> DisableConsole l | FilesUse \<Rightarrow> DisableFiles l
     | Backups \<Rightarrow> DisableBackups l | Settings \<Rightarrow> DisableSettings l | Import \<Rightarrow> DisableImporter l)"

text \<open>The handlers that ask whether a capability is allowed.\<close>

definition gated_handlers :: "'r api_env \<Rightarrow> capability \<Rightarrow> (http_request \<Rightarrow> ('r, unit) handler) list" where
  "gated_handlers env k = (case k of
     Power \<Rightarrow> [StartCell env, StopCell env]
   | ConsoleUse \<Rightarrow> [CreateConsoleSession_handler env, SendCommand_handler env, playerCommand ''kick'' env,
       playerCommand ''ban'' env, playerCommand ''op'' env, playerCommand ''deop'' env]
   | FilesUse \<Rightarrow> [WriteFile env, DeleteFile env, RestoreFile env, PermanentDeleteFile env, CreateFolder_handler env,
       RenameFile env, UploadFile env, CreateFile_handler env, UploadFromURL_handler env, CreateFileArchive env,
       ExtractFileArchive env]
   | Backups \<Rightarrow> [CreateBackup_handler env, ListBackups_handler env, DeleteBackup_handler env, DownloadBackup env,
       RestoreBackup_handler env, ListBackupFiles_handler env, ReadBackupFile_handler env, ExtractBackupFile env]
   | Settings \<Rightarrow> [WriteConfigFile env]
   | Import \<Rightarrow> [StartImporter env])"

lemma gate_closed:
  assumes "lookup_cell cid (mgr (srv s)) = Some c" "Locked (cell_Lock c)" "d (cell_Lock c)" "lock_Message (cell_Lock c) = msg"
    "msg \<noteq> []" "\<not> invalidCellID cid"
  shows "finish (h_seq (valid_cell_id cid) (h_seq (or_error env 423 (h_srv (ensureCapabilityAllowed cid d fallback))) k)) s
    = (HttpError 423 (errtext env (ErrorString msg)), s)"
  using assms
  by (simp add: finish_def valid_cell_id_def handler_defs ensureCapabilityAllowed_def with_cell_def sv_defs Let_def)

lemmas gate_defs = ensurePowerAllowed_def ensureConsoleAllowed_def ensureFilesAllowed_def ensureBackupsAllowed_def
  ensureSettingsAllowed_def ensureImporterAllowed_def EnsurePowerAllowed_def EnsureConsoleAllowed_def EnsureFilesAllowed_def
  EnsureBackupsAllowed_def EnsureSettingsAllowed_def EnsureImporterAllowed_def

lemmas gated_handler_defs = StartCell_def StopCell_def CreateConsoleSession_handler_def SendCommand_handler_def playerCommand_def
  WriteFile_def DeleteFile_def RestoreFile_def PermanentDeleteFile_def CreateFolder_handler_def RenameFile_def UploadFile_def
  CreateFile_handler_def UploadFromURL_handler_def CreateFileArchive_def ExtractFileArchive_def CreateBackup_handler_def
  ListBackups_handler_def DeleteBackup_handler_def DownloadBackup_def RestoreBackup_handler_def ListBackupFiles_handler_def
  ReadBackupFile_handler_def ExtractBackupFile_def WriteConfigFile_def StartImporter_def with_backup_def

text \<open>
  C8. What a lock takes away is refused by every handler that needs it before anything else is looked at: the answer is
  423 with the message of the lock, and nothing of the worker, its jobs, its runtime or its files changes.
\<close>

theorem locked_requests_are_refused:
  assumes "lookup_cell cid (mgr (srv s)) = Some c" "Locked (cell_Lock c)" "disabled_by (cell_Lock c) k"
    "lock_Message (cell_Lock c) = msg" "msg \<noteq> []" "cell_id rq = cid" "\<not> invalidCellID cid" "h \<in> set (gated_handlers env k)"
  shows "finish (h rq) s = (HttpError 423 (errtext env (ErrorString msg)), s)"
  using assms(3,8)
  by (cases k)
    (auto simp: gated_handlers_def disabled_by_def gated_handler_defs gate_defs assms(6) Let_def
      intro!: gate_closed [OF assms(1,2) _ assms(4,5,7)])

text \<open>A cell with another lock.\<close>

definition relock :: "string \<Rightarrow> CellLock \<Rightarrow> server \<Rightarrow> server" where
  "relock cid l v = (case lookup_cell cid (mgr v) of
     None \<Rightarrow> v | Some c \<Rightarrow> v\<lparr>mgr := put_cell cid (c\<lparr>cell_Lock := l\<rparr>) (mgr v)\<rparr>)"

lemma delete_updated: "AList.delete k (AList.update k v al) = AList.delete k al"
  by (induction al) (auto simp: AList.delete_eq)

lemma Delete_found:
  assumes "lookup_cell cid (mgr v) = Some c" "\<not> running cid"
  shows "Delete running cid v = (case os_remove (cellConfigPath (mgr v) cid) (host v) of (_, w) \<Rightarrow>
    (case os_remove_all (cell_Dir c) w of (r, w') \<Rightarrow>
      (r, \<lparr>mgr = (releaseCellAllocations c (mgr v))\<lparr>cells := AList.delete cid (cells (mgr v))\<rparr>, host = w'\<rparr>)))"
  using assms by (cases v) (simp add: Delete_def with_cell_def sv_defs split: prod.split)

lemma Delete_relock: "Delete running cid (relock cid l v) = map_prod (\<lambda>r. r) (relock cid l) (Delete running cid v)"
proof (cases "lookup_cell cid (mgr v)")
  case None
  then show ?thesis by (simp add: relock_def Delete_def with_cell_def sv_defs)
next
  case (Some c)
  show ?thesis
  proof (cases "running cid")
    case True
    then show ?thesis using Some by (simp add: relock_def Delete_def with_cell_def sv_defs)
  next
    case False
    let ?m = "(releaseCellAllocations c (mgr v))\<lparr>cells := AList.delete cid (cells (mgr v))\<rparr>"
    have gone: "lookup_cell cid ?m = None" by (simp add: lookup_cell_def delete_conv')
    have found: "lookup_cell cid (mgr (relock cid l v)) = Some (c\<lparr>cell_Lock := l\<rparr>)" by (simp add: relock_def Some)
    have same: "releaseCellAllocations (c\<lparr>cell_Lock := l\<rparr>) (mgr (relock cid l v))\<lparr>cells := AList.delete cid (cells (mgr (relock cid l v)))\<rparr> = ?m"
      by (simp add: relock_def Some releaseCellAllocations_def cellAllocations_def put_cell_def delete_updated)
    have "host (relock cid l v) = host v" "cellConfigPath (mgr (relock cid l v)) cid = cellConfigPath (mgr v) cid"
      by (simp_all add: relock_def Some put_cell_def cellConfigPath_def cellDataDir_def)
    with gone show ?thesis
      unfolding Delete_found [where running = running, OF Some False] Delete_found [where running = running, OF found False] same
      by (simp add: relock_def split: prod.split)
  qed
qed

text \<open>
  A lock does not protect a cell from being deleted: \<open>DELETE /cells/{id}\<close> answers and does exactly the same to a
  cell whatever its lock is.
\<close>

theorem delete_ignores_locks:
  "finish (DeleteCell env rq) (s\<lparr>srv := relock (cell_id rq) l (srv s)\<rparr>) =
    map_prod (\<lambda>r. r) (\<lambda>s'. s'\<lparr>srv := relock (cell_id rq) l (srv s')\<rparr>) (finish (DeleteCell env rq) s)"
  by (simp add: DeleteCell_def valid_cell_id_def finish_def message_def handler_defs Let_def Delete_relock
      split: prod.split sum.split)

section \<open>Requests about files stay in the cell\<close>

text \<open>
  Handlers that leave the manager alone and, as long as the cell \<open>c\<close> with its directory \<open>d\<close> is there without links,
  change no file outside of it.
\<close>

definition in_cell :: "string \<Rightarrow> Cell \<Rightarrow> fpath \<Rightarrow> ('r, 'a) handler \<Rightarrow> bool" where
  "in_cell cid c d h \<longleftrightarrow> (\<forall>s. lookup_cell cid (mgr (srv s)) = Some c \<and> solid (files (host (srv s))) d \<longrightarrow>
     (case h s of (_, s') \<Rightarrow> mgr (srv s') = mgr (srv s) \<and> agree_outside d (files (host (srv s))) (files (host (srv s')))
       \<and> solid (files (host (srv s'))) d))"

named_theorems in_cell_intros \<open>handlers that stay in a cell\<close>

lemma in_cell_simple [in_cell_intros]: "in_cell cid c d (h_return x)" "in_cell cid c d (h_reply r)"
  "in_cell cid c d (require b code msg)" "in_cell cid c d (writeJSON p)" "in_cell cid c d (message m rest)"
  "in_cell cid c d (done_at m q)" "in_cell cid c d (valid_cell_id i)"
  by (simp_all add: in_cell_def handler_defs message_def done_at_def valid_cell_id_def)

lemma in_cell_bind [in_cell_intros]:
  assumes "in_cell cid c d m" "\<And>x. in_cell cid c d (k x)"
  shows "in_cell cid c d (h_bind m k)"
  unfolding in_cell_def
proof (intro allI impI)
  fix s :: "'a api" assume s: "lookup_cell cid (mgr (srv s)) = Some c \<and> solid (files (host (srv s))) d"
  obtain r s1 where m: "m s = (r, s1)" by fastforce
  note first = assms(1) [unfolded in_cell_def, rule_format, OF s, unfolded m prod.case]
  show "case h_bind m k s of (_, s') \<Rightarrow> mgr (srv s') = mgr (srv s)
      \<and> agree_outside d (files (host (srv s))) (files (host (srv s'))) \<and> solid (files (host (srv s'))) d"
  proof (cases r)
    case (Inr x)
    have "lookup_cell cid (mgr (srv s1)) = Some c \<and> solid (files (host (srv s1))) d" using first s by simp
    from assms(2) [unfolded in_cell_def, rule_format, OF this, of x] first Inr m show ?thesis
      by (auto simp: h_bind_def split: prod.splits intro: agree_outside_trans)
  qed (use first m in \<open>simp add: h_bind_def\<close>)
qed

lemma in_cell_sum [in_cell_intros]:
  "(\<And>e. in_cell cid c d (f e)) \<Longrightarrow> (\<And>x. in_cell cid c d (g x)) \<Longrightarrow> in_cell cid c d (case r of Inl e \<Rightarrow> f e | Inr x \<Rightarrow> g x)"
  by (simp split: sum.split)

lemma in_cell_prod [in_cell_intros]: "(\<And>x y. in_cell cid c d (f x y)) \<Longrightarrow> in_cell cid c d (case p of (x, y) \<Rightarrow> f x y)"
  by (simp split: prod.split)

lemma in_cell_or [in_cell_intros]: "in_cell cid c d m \<Longrightarrow> in_cell cid c d (or_error env code m)"
  "in_cell cid c d m \<Longrightarrow> in_cell cid c d (or_message code msg m)"
  unfolding or_error_def or_message_def by (intro in_cell_intros; assumption)+

lemma in_cell_decode [in_cell_intros]: "in_cell cid c d (decode f rq)"
  unfolding decode_def by (intro in_cell_intros)

lemma in_cell_ensure [in_cell_intros]: "in_cell cid c d (ensureFilesAllowed env i)" "in_cell cid c d (ensureSettingsAllowed env i)"
  by (auto simp: in_cell_def gate_defs handler_defs ensureCapabilityAllowed_def with_cell_def sv_defs Let_def
      split: option.split prod.split sum.split)

lemma in_cell_os: "confined d m \<Longrightarrow> in_cell cid c d (h_os m)"
  by (auto simp: in_cell_def handler_defs sv_os_def confined_def split: prod.split)

lemma in_cell_reads: "reads_only m \<Longrightarrow> in_cell cid c d (h_os m)"
  by (auto simp: in_cell_def handler_defs sv_os_def reads_only_def agree_outside_def split: prod.split) (metis snd_conv)+

lemma in_cell_get: "in_cell cid c d (k c) \<Longrightarrow> in_cell cid c d (h_bind (get_cell cid) k)"
  by (auto simp: in_cell_def get_cell_def Get_def handler_defs)

lemma reads_list_entries [reads_intros]: "reads_only (list_entries p r xs)"
  by (induction p r xs rule: list_entries.induct) (auto intro!: reads_intros split: sum.split)

lemma reads_files [reads_intros]: "reads_only (files_Read dir p)" "reads_only (DownloadPath dir p)"
  "reads_only (files_List dir p page per)"
  unfolding files_Read_def DownloadPath_def files_List_def Let_def by (intro reads_intros)+

lemma reads_available_configs [reads_intros]: "reads_only (available_configs dir cs)"
  by (induction cs) (auto intro!: reads_intros)

lemmas file_handler_defs = ListFiles_handler_def ReadFile_def WriteFile_def DeleteFile_def CreateFolder_handler_def
  RenameFile_def UploadFile_def DownloadFile_def RestoreFile_def PermanentDeleteFile_def CreateFile_handler_def
  UploadFromURL_handler_def CreateFileArchive_def ExtractFileArchive_def ListConfigFiles_def ReadConfigFile_def
  WriteConfigFile_def read_reply_def Let_def

lemma in_cell_file_routes:
  assumes "r \<in> set (file_routes env)" "cell_Dir c = rooted d" "plains d" "slash \<notin> set (stamp env)"
  shows "in_cell (cell_id rq) c d (rt_handler r rq)"
proof -
  have archives: "confined d (CreateArchive cd fuel (rooted d) request limit)" "confined d (ExtractArchive cd fuel (rooted d) request' limit)"
    for cd fuel request request' limit
    using CreateArchive_confined [of "rooted d"] ExtractArchive_confined [of "rooted d"] assms(3) by simp_all
  note ops = confined_files [OF assms(3), folded assms(2)] confined_MoveToRecycleBin [OF assms(3,4), folded assms(2)]
    confined_RestoreFromRecycleBin [OF assms(3,4), folded assms(2)] confined_PermanentDelete [OF assms(3), folded assms(2)]
    archives [folded assms(2)]
  note reads = reads_files [THEN in_cell_reads] reads_available_configs [THEN in_cell_reads]
  have "\<forall>r \<in> set (file_routes env). in_cell (cell_id rq) c d (rt_handler r rq)"
    unfolding file_routes_def guarded_def list.set ball_simps route.select_convs file_handler_defs
    by (intro conjI TrueI in_cell_get in_cell_intros ops [THEN in_cell_os] reads)
  with assms(1) show ?thesis by blast
qed


section \<open>The configuration of allocations\<close>

lemma Reconfigure_taken:
  assumes "validateConfiguration p (normaliseAllocations as) = None" "set (used m) \<subseteq> allocationSet (normaliseAllocations as)"
  shows "Reconfigure p m as = (Inr (normaliseAllocations as), m\<lparr>allowed := normaliseAllocations as\<rparr>)"
proof -
  have "find (\<lambda>k. k \<notin> allocationSet (normaliseAllocations as)) (used m) = None"
    unfolding find_None_iff using assms(2) by blast
  then show ?thesis using assms(1) by (simp add: Reconfigure_def Let_def)
qed

lemma Reconfigure_refused:
  assumes "\<not> (validateConfiguration p (normaliseAllocations as) = None \<and> set (used m) \<subseteq> allocationSet (normaliseAllocations as))"
  obtains e where "Reconfigure p m as = (Inl e, m)"
proof (cases "find (\<lambda>k. k \<notin> allocationSet (normaliseAllocations as)) (used m)")
  case None
  then have "set (used m) \<subseteq> allocationSet (normaliseAllocations as)" unfolding find_None_iff by blast
  with assms obtain e where "validateConfiguration p (normaliseAllocations as) = Some e" by auto
  then show ?thesis using that by (simp add: Reconfigure_def Let_def)
next
  case (Some k)
  then show ?thesis using that by (cases "validateConfiguration p (normaliseAllocations as)") (simp_all add: Reconfigure_def Let_def)
qed


section \<open>Examples\<close>

definition held_api :: "unit api" where
  "held_api = start_api\<lparr>srv := \<lparr>mgr = fresh_manager\<lparr>cells := [(''a'', (plain_cell ''a'')\<lparr>cell_Lock := DefaultLock ''admin_lock'' ''r'' ''busy''\<rparr>)]\<rparr>,
     host = calm_world cell_files\<rparr>\<rparr>"

lemma held_api_simps: "mgr (srv held_api) = fresh_manager\<lparr>cells := [(''a'', (plain_cell ''a'')\<lparr>cell_Lock := DefaultLock ''admin_lock'' ''r'' ''busy''\<rparr>)]\<rparr>"
  "host (srv held_api) = calm_world cell_files"
  by (simp_all add: held_api_def)

theorem locked_requests_are_refused_witness:
  "\<forall>env rq. finish (WriteFile env (rq\<lparr>PathValue := \<lambda>_. ''a''\<rparr>)) held_api = (HttpError 423 (errtext env (ErrorString ''busy'')), held_api)"
proof (intro allI)
  fix env and rq :: http_request
  show "finish (WriteFile env (rq\<lparr>PathValue := \<lambda>_. ''a''\<rparr>)) held_api = (HttpError 423 (errtext env (ErrorString ''busy'')), held_api)"
    by (rule locked_requests_are_refused [where cid = "''a''" and k = FilesUse and msg = "''busy''"
        and c = "(plain_cell ''a'')\<lparr>cell_Lock := DefaultLock ''admin_lock'' ''r'' ''busy''\<rparr>"])
      (simp_all add: held_api_simps lookup_cell_def DefaultLock_def no_lock_def disabled_by_def cell_id_def invalidCellID_def
        gated_handlers_def)
qed


definition pool_one :: "Allocation list" where "pool_one = [\<lparr>IP = ''10.0.0.1'', Port = 8\<rparr>]"

definition stray_api :: "unit api" where
  "stray_api = start_api\<lparr>srv := \<lparr>mgr = fresh_manager\<lparr>allocManager := \<lparr>allowed = pool_one, used = [''10.0.0.2:9'']\<rparr>\<rparr>, host = calm_world []\<rparr>\<rparr>"

definition stray_env :: "unit api_env \<Rightarrow> unit api_env" where
  "stray_env env = env\<lparr>conf_env := sample_config_env\<lparr>yaml_enc := \<lambda>_. Inl (ErrorString ''no'')\<rparr>,
     dec := (dec env)\<lparr>dec_Allocations := \<lambda>_. Inr (pool_one @ [\<lparr>IP = ''10.0.0.2'', Port = 9\<rparr>])\<rparr>\<rparr>"


definition no_token_request :: http_request where
  "no_token_request = \<lparr>req_Method = ''DELETE'', req_Segments = [''cells'', ''a''], PathValue = \<lambda>_. [], query = \<lambda>_. [],
     Authorization = ''Bearer guess'', req_Body = []\<rparr>"


end
