(* ===== verification/Rcon.thy ===== *)
theory Rcon
  imports GoPrelude "HOL-Library.Word"
begin

text \<open>
  The RCON client, \<open>internal/rcon/client.go\<close>. A connection is the list of the pieces in which its incoming bytes
  arrive, and the packets that were written to it. A panic of the Go runtime is a result.
\<close>

section \<open>Bytes\<close>

fun le_bytes :: "nat \<Rightarrow> nat \<Rightarrow> string" where
  "le_bytes 0 n = []"
| "le_bytes (Suc k) n = char_of (n mod 256) # le_bytes k (n div 256)"

fun le_nat :: "string \<Rightarrow> nat" where
  "le_nat [] = 0"
| "le_nat (c # cs) = of_char c + 256 * le_nat cs"

text \<open>\<open>binary.Write\<close> and \<open>binary.Read\<close> of an \<open>int32\<close> in little endian.\<close>

definition put32 :: "32 word \<Rightarrow> string" where
  "put32 w = le_bytes 4 (unat w)"

definition get32 :: "string \<Rightarrow> 32 word" where
  "get32 s = of_nat (le_nat s)"

section \<open>The connection\<close>

record rcon_client =
  rc_id :: "32 word"
  incoming :: "string list"
  written :: "string list"

text \<open>\<open>io.ReadFull\<close>, which \<open>binary.Read\<close> uses, waits for all bytes; \<open>conn.Read\<close> returns what has arrived.\<close>

fun read_full :: "nat \<Rightarrow> string list \<Rightarrow> (string \<times> string list) option" where
  "read_full n [] = (if n = 0 then Some ([], []) else None)"
| "read_full n (c # cs) =
     (if n = 0 then Some ([], c # cs)
      else if length c \<le> n then map_option (\<lambda>(s, r). (c @ s, r)) (read_full (n - length c) cs)
      else Some (take n c, drop n c # cs))"

definition conn_read :: "nat \<Rightarrow> string list \<Rightarrow> (string \<times> string list) option" where
  "conn_read n cs =
     (if n = 0 then Some ([], cs)
      else case cs of [] \<Rightarrow> None
        | c # rest \<Rightarrow> Some (take n c, if length c \<le> n then rest else drop n c # rest))"

datatype 'a rcon_result = Panic string | Error go_error | Result 'a

definition rcon_EOF :: go_error where "rcon_EOF = ErrorString ''EOF''"

section \<open>Packets\<close>

definition packetAuth :: "32 word" where "packetAuth = 3"
definition packetCommand :: "32 word" where "packetCommand = 2"
definition packetResponse :: "32 word" where "packetResponse = 0"

definition rcon_packet :: "32 word \<Rightarrow> 32 word \<Rightarrow> string \<Rightarrow> string" where
  "rcon_packet pid packetType body =
     (let payload = put32 pid @ put32 packetType @ body @ [CHR 0x00, CHR 0x00]
      in put32 (of_nat (length payload)) @ payload)"

definition writePacket :: "32 word \<Rightarrow> string \<Rightarrow> rcon_client \<Rightarrow> rcon_client" where
  "writePacket packetType body c =
     (let pid = rc_id c + 1 in c\<lparr>rc_id := pid, written := written c @ [rcon_packet pid packetType body]\<rparr>)"

text \<open>\<open>make\<close> panics on a negative length; bytes of \<open>data\<close> that \<open>Read\<close> does not fill stay zero.\<close>

definition readPacket :: "rcon_client \<Rightarrow> (32 word \<times> 32 word \<times> string) rcon_result \<times> rcon_client" where
  "readPacket c =
     (case read_full 4 (incoming c) of
        None \<Rightarrow> (Error rcon_EOF, c\<lparr>incoming := []\<rparr>)
      | Some (s, rest) \<Rightarrow>
          (let size32 = sint (get32 s)
           in if size32 < 0 then (Panic ''makeslice: len out of range'', c\<lparr>incoming := rest\<rparr>)
              else case conn_read (nat size32) rest of
                  None \<Rightarrow> (Error rcon_EOF, c\<lparr>incoming := rest\<rparr>)
                | Some (got, rest') \<Rightarrow>
                    (let data = got @ replicate (nat size32 - length got) (CHR 0x00); c' = c\<lparr>incoming := rest'\<rparr>
                     in if size32 < 10 then (Panic ''makeslice: len out of range'', c')
                        else (Result (get32 (take 4 data), get32 (take 4 (drop 4 data)),
                          TrimRight (take (length data - 10) (drop 8 data)) [CHR 0x00]), c'))))"

definition auth :: "string \<Rightarrow> rcon_client \<Rightarrow> unit rcon_result \<times> rcon_client" where
  "auth password c =
     (case readPacket (writePacket packetAuth password c) of
        (Panic m, c') \<Rightarrow> (Panic m, c')
      | (Error e, c') \<Rightarrow> (Error e, c')
      | (Result (pid, _, _), c') \<Rightarrow>
          (if pid = - 1 then (Error (ErrorString ''rcon authentication failed''), c') else (Result (), c')))"

definition rcon_Dial :: "(string \<Rightarrow> go_error + string list) \<Rightarrow> string \<Rightarrow> string \<Rightarrow> rcon_client rcon_result" where
  "rcon_Dial dial_tcp address password =
     (case dial_tcp address of
        Inl e \<Rightarrow> Error e
      | Inr pieces \<Rightarrow>
          (case auth password \<lparr>rc_id = 1, incoming = pieces, written = []\<rparr> of
             (Panic m, _) \<Rightarrow> Panic m | (Error e, _) \<Rightarrow> Error e | (Result _, c) \<Rightarrow> Result c))"

definition rcon_Command :: "string \<Rightarrow> rcon_client \<Rightarrow> string rcon_result \<times> rcon_client" where
  "rcon_Command command c =
     (case readPacket (writePacket packetCommand command c) of
        (Panic m, c') \<Rightarrow> (Panic m, c')
      | (Error e, c') \<Rightarrow> (Error e, c')
      | (Result (_, _, body), c') \<Rightarrow> (Result body, c'))"

section \<open>What is read back\<close>

lemma length_le_bytes [simp]: "length (le_bytes k n) = k"
  by (induction k arbitrary: n) auto

lemma le_nat_le_bytes: "le_nat (le_bytes k n) = n mod 256 ^ k"
proof (induction k arbitrary: n)
  case (Suc k)
  have "n mod (256 * 256 ^ k) = 256 * (n div 256 mod 256 ^ k) + n mod 256" by (rule mod_mult2_eq)
  then show ?case using Suc by simp
qed simp

lemma length_put32 [simp]: "length (put32 w) = 4"
  by (simp add: put32_def)

lemma get32_put32 [simp]: "get32 (put32 w) = w"
proof -
  have "unat w < 256 ^ 4" using unsigned_less [of w] by simp
  then show ?thesis by (simp add: get32_def put32_def le_nat_le_bytes)
qed

lemma TrimRight_zero: "body = [] \<or> last body \<noteq> z \<Longrightarrow> TrimRight (body @ replicate n z) [z] = body"
  by (cases body rule: rev_cases) (auto simp: TrimRight_def dropWhile_append)

text \<open>The length in a packet.\<close>

lemma packet_length:
  assumes "length body + 10 < 2 ^ 31"
  shows "sint (of_nat (length body + 10) :: 32 word) = int (length body) + 10"
proof -
  have "sint (word_of_int (int (length body) + 10) :: 32 word) = int (length body) + 10"
    using assms by (subst sint_sbintrunc') (simp add: signed_take_bit_int_eq_self)
  then show ?thesis by simp
qed

lemma padded_body:
  assumes "n \<le> length body + 2"
  shows "take (length body) (take n (body @ [z, z]) @ replicate (length body + 2 - n) z) = take n body @ replicate (length body - n) z"
  using assms by (cases "n \<le> length body") (auto simp: take_Cons split: nat.split)

text \<open>
  \<open>readPacket\<close> does not wait for a packet: when its first piece ends anywhere behind the header, the part of the
  body in that piece is returned as if it were all, and the rest is left to be taken for the next packet. A packet
  that arrives in one piece is read as it was written.
\<close>

theorem readPacket_takes_one_piece:
  assumes "length body + 10 < 2 ^ 31" "n \<le> length body + 2" "CHR 0x00 \<notin> set body"
    "incoming c = take (12 + n) (rcon_packet pid ty body) # later"
  shows "readPacket c = (Result (pid, ty, take n body), c\<lparr>incoming := later\<rparr>)"
proof -
  let ?z = "CHR 0x00" and ?size = "length body + 10"
  define w :: "32 word" where "w = of_nat ?size"
  define got where "got = put32 pid @ put32 ty @ take n (body @ [?z, ?z])"
  have "rcon_packet pid ty body = put32 w @ put32 pid @ put32 ty @ body @ [?z, ?z]"
    by (simp add: rcon_packet_def w_def Let_def add.commute)
  then have piece: "take (12 + n) (rcon_packet pid ty body) = put32 w @ got" by (simp add: got_def)
  have sz: "sint w = int ?size" using packet_length [OF assms(1)] by (simp add: w_def)
  have len: "length got = 8 + n" using assms(2) by (simp add: got_def)
  have full: "read_full 4 (incoming c) = Some (put32 w, got # later)"
    unfolding assms(4) piece using len by simp
  have read: "conn_read ?size (got # later) = Some (got, later)"
    using assms(2) len by (simp add: conn_read_def)
  have zero: "last (take n body) \<noteq> ?z" if "take n body \<noteq> []"
    using assms(3) in_set_takeD [OF last_in_set [OF that]] by metis
  have "take (length body) (drop 8 got @ replicate (length body + 2 - n) ?z) = take n body @ replicate (length body - n) ?z"
    using padded_body [OF assms(2), of ?z] by (simp add: got_def)
  then have "TrimRight (take (length body) (drop 8 got @ replicate (length body + 2 - n) ?z)) [?z] = take n body"
    using TrimRight_zero [of "take n body" ?z] zero by metis
  moreover have "take 4 got = put32 pid" "take 4 (drop 4 got) = put32 ty" by (simp_all add: got_def)
  moreover have "readPacket c = (Result (get32 (take 4 got), get32 (take 4 (drop 4 got)),
      TrimRight (take (length body) (drop 8 got @ replicate (length body + 2 - n) ?z)) [?z]), c\<lparr>incoming := later\<rparr>)"
    using read len assms(2) by (simp add: readPacket_def full sz Let_def nat_add_distrib)
  ultimately show ?thesis by simp
qed

theorem readPacket_takes_one_piece_witness:
  "readPacket \<lparr>rc_id = 1, incoming = [take 15 (rcon_packet 7 0 ''hello''), drop 15 (rcon_packet 7 0 ''hello'')], written = []\<rparr> =
     (Result (7, 0, ''hel''), \<lparr>rc_id = 1, incoming = [drop 15 (rcon_packet 7 0 ''hello'')], written = []\<rparr>)"
  by (rule trans [OF readPacket_takes_one_piece [of "''hello''" 3 _ 7 0]]) simp_all

text \<open>A length below ten, or a negative one, ends the program.\<close>

theorem readPacket_panics:
  assumes "read_full 4 (incoming c) = Some (s, rest)" "sint (get32 s) < 10" "rest \<noteq> []"
  shows "\<exists>m c'. readPacket c = (Panic m, c')"
  using assms by (cases rest) (auto simp: readPacket_def Let_def conn_read_def)

end
