(* ===== verification/DockerRuntime.thy ===== *)
theory DockerRuntime
  imports ProcessRuntime GoPath
begin

text \<open>
  The runtime that starts cells as containers: \<open>internal/runtime/docker\<close>, with the image and network managers of
  \<open>internal/image\<close> and \<open>internal/network\<close>. The Docker daemon is an argument, a record of the calls the code makes over
  a state of any type. A connection to the input of a container is named by the container. Lines of output, the end
  of a container, and the stop that a goroutine asks the daemon for, are events of their own.
\<close>

section \<open>The daemon\<close>

record Resources =
  OomKillDisable :: bool
  Memory :: "64 word"
  NanoCPUs :: "64 word"
  CpusetCpus :: string
  BlkioWeight :: "16 word"
  MemorySwap :: "64 word"

record container_spec =
  spec_Image :: string
  spec_WorkingDir :: string
  spec_Cmd :: "string list"
  spec_Env :: "string list"
  spec_Port :: string
  spec_Labels :: "(string \<times> string) list"
  spec_Source :: string
  spec_HostIP :: string
  spec_HostPort :: string
  spec_Resources :: Resources
  spec_Network :: string

text \<open>\<open>ContainerInspect\<close> yields the id and, unless \<open>State\<close> is nil, whether the container runs.\<close>

record 'd docker_client =
  ImageInspect :: "string \<Rightarrow> 'd \<Rightarrow> bool"
  ImagePull :: "string \<Rightarrow> 'd \<Rightarrow> go_error option \<times> 'd"
  ContainerInspect :: "string \<Rightarrow> 'd \<Rightarrow> go_error + (string \<times> bool option)"
  ContainerStop :: "string \<Rightarrow> nat \<Rightarrow> 'd \<Rightarrow> 'd"
  ContainerRemove :: "string \<Rightarrow> 'd \<Rightarrow> go_error option \<times> 'd"
  ContainerCreate :: "container_spec \<Rightarrow> string \<Rightarrow> 'd \<Rightarrow> (go_error + string) \<times> 'd"
  ContainerStart :: "string \<Rightarrow> 'd \<Rightarrow> go_error option \<times> 'd"
  ContainerAttach :: "string \<Rightarrow> 'd \<Rightarrow> go_error option \<times> 'd"
  write_stdin :: "string \<Rightarrow> string \<Rightarrow> 'd \<Rightarrow> go_error option \<times> 'd"
  ContainerStats :: "string \<Rightarrow> 'd \<Rightarrow> go_error + string"
  NetworkInspect :: "string \<Rightarrow> 'd \<Rightarrow> bool"
  NetworkCreate :: "string \<Rightarrow> 'd \<Rightarrow> go_error option \<times> 'd"

section \<open>Images and networks\<close>

text \<open>\<open>Ensure\<close> of the image manager; the lines it logs are returned.\<close>

definition image_Ensure :: "'d docker_client \<Rightarrow> string \<Rightarrow> 'd \<Rightarrow> go_error option \<times> string list \<times> 'd" where
  "image_Ensure client img d =
     (if img = [] then (None, [], d)
      else if ImageInspect client img d then (None, [''Docker image already exists: '' @ img], d)
      else case ImagePull client img d of
          (Some e, d') \<Rightarrow> (Some e, [''Pulling Docker image: '' @ img], d')
        | (None, d') \<Rightarrow> (None, [''Pulling Docker image: '' @ img, ''Docker image ready: '' @ img], d'))"

definition network_Ensure :: "'d docker_client \<Rightarrow> string \<Rightarrow> 'd \<Rightarrow> go_error option \<times> 'd" where
  "network_Ensure client name d =
     (if name = [] then (None, d) else if NetworkInspect client name d then (None, d) else NetworkCreate client name d)"

section \<open>The runtime\<close>

record 'd DockerRuntime =
  daemon :: 'd
  containers :: "(string \<times> string) list"
  dr_startedAt :: "(string \<times> int) list"
  cancelLogs :: "(string \<times> string) list"
  dr_stdin :: "(string \<times> string) list"
  network_name :: string

definition NewDockerRuntime :: "'d docker_client \<Rightarrow> string \<Rightarrow> 'd \<Rightarrow> go_error + 'd DockerRuntime" where
  "NewDockerRuntime client networkName d =
     (case network_Ensure client networkName d of
        (Some e, _) \<Rightarrow> Inl e
      | (None, d') \<Rightarrow> Inr \<lparr>daemon = d', containers = [], dr_startedAt = [], cancelLogs = [], dr_stdin = [], network_name = networkName\<rparr>)"

definition dockerResources :: "Limits \<Rightarrow> Resources" where
  "dockerResources limits =
     (let mb = 1024 * 1024; memoryBytes = of_int (MemoryMB limits) * mb
      in \<lparr>OomKillDisable = \<not> OOMKiller limits,
          Memory = (if MemoryMB limits > 0 then memoryBytes else 0),
          NanoCPUs = (if CPUPercent limits > 0 then of_int (CPUPercent limits) * 10000000 else 0),
          CpusetCpus = CPUPinning limits,
          BlkioWeight = (if IOWeight limits > 0
            then of_int (if IOWeight limits < 10 then 10 else if IOWeight limits > 1000 then 1000 else IOWeight limits) else 0),
          MemorySwap = (if MemoryMB limits > 0
            then (if SwapMB limits > 0 then memoryBytes + of_int (SwapMB limits) * mb else memoryBytes) else 0)\<rparr>)"

definition shellCommand :: "string \<Rightarrow> string list" where
  "shellCommand command = [''bash'', ''-lc'', command]"

definition container_name :: "string \<Rightarrow> string" where
  "container_name cid = ''hivepanel-cell-'' @ cid"

text \<open>\<open>iter\<close> is the order in which Go visits the environment.\<close>

definition docker_spec ::
  "((string \<times> string) list \<Rightarrow> (string \<times> string) list) \<Rightarrow> string \<Rightarrow> string \<Rightarrow> RuntimeCell \<Rightarrow> container_spec" where
  "docker_spec iter networkName instanceAbs c =
     \<lparr>spec_Image = run_Image c, spec_WorkingDir = run_WorkingDir c, spec_Cmd = shellCommand (run_Command c),
      spec_Env = map (\<lambda>(k, v). k @ ''='' @ v) (iter (run_Environment c)), spec_Port = Itoa (run_AllocationPort c) @ ''/tcp'',
      spec_Labels = [(''hivepanel.worker'', ''true''), (''hivepanel.cell_id'', run_ID c)], spec_Source = instanceAbs,
      spec_HostIP = run_AllocationIP c, spec_HostPort = Itoa (run_AllocationPort c),
      spec_Resources = dockerResources (run_Limits c), spec_Network = networkName\<rparr>"

definition removeExistingContainer :: "'d docker_client \<Rightarrow> string \<Rightarrow> 'd \<Rightarrow> 'd" where
  "removeExistingContainer client name d =
     (case ContainerInspect client name d of
        Inl _ \<Rightarrow> d
      | Inr (cid, state) \<Rightarrow>
          snd (ContainerRemove client cid (if state = Some True then ContainerStop client cid 10 d else d)))"

text \<open>Creating and starting the container; the daemon is left without it when a later call fails.\<close>

definition launch :: "'d docker_client \<Rightarrow> container_spec \<Rightarrow> string \<Rightarrow> 'd \<Rightarrow> (go_error + string) \<times> 'd" where
  "launch client spec name d =
     (case ContainerCreate client spec name d of
        (Inl e, d1) \<Rightarrow> (Inl e, d1)
      | (Inr cid, d1) \<Rightarrow>
          (case ContainerStart client cid d1 of
             (Some e, d2) \<Rightarrow> (Inl e, snd (ContainerRemove client cid d2))
           | (None, d2) \<Rightarrow>
               (case ContainerAttach client cid d2 of
                  (Some e, d3) \<Rightarrow> (Inl e, snd (ContainerRemove client cid d3))
                | (None, d3) \<Rightarrow> (Inr cid, d3))))"

definition docker_Start ::
  "'d docker_client \<Rightarrow> ((string \<times> string) list \<Rightarrow> (string \<times> string) list) \<Rightarrow> getwd \<Rightarrow> int \<Rightarrow> RuntimeCell
    \<Rightarrow> 'd DockerRuntime \<Rightarrow> (go_error + unit) \<times> 'd DockerRuntime" where
  "docker_Start client iter wdir now c0 r =
     (if map_of (containers r) (run_ID c0) \<noteq> None then (Inl (ErrorString ''cell already running''), r)
      else if run_Image c0 = [] then (Inl (ErrorString ''docker image is required''), r)
      else let c = (if run_WorkingDir c0 = [] then c0\<lparr>run_WorkingDir := ''/home/container''\<rparr> else c0)
      in case image_Ensure client (run_Image c) (daemon r) of
          (Some e, _, d1) \<Rightarrow> (Inl e, r\<lparr>daemon := d1\<rparr>)
        | (None, _, d1) \<Rightarrow>
            (case path_abs wdir (run_InstanceDir c) of
               Inl e \<Rightarrow> (Inl e, r\<lparr>daemon := d1\<rparr>)
             | Inr instanceAbs \<Rightarrow>
                 (let name = container_name (run_ID c); d2 = removeExistingContainer client name d1
                  in case launch client (docker_spec iter (network_name r) instanceAbs c) name d2 of
                       (Inl e, d3) \<Rightarrow> (Inl e, r\<lparr>daemon := d3\<rparr>)
                     | (Inr cid, d3) \<Rightarrow>
                         (Inr (), r\<lparr>daemon := d3, containers := AList.update (run_ID c) cid (containers r),
                            dr_startedAt := AList.update (run_ID c) now (dr_startedAt r),
                            dr_stdin := AList.update (run_ID c) cid (dr_stdin r),
                            cancelLogs := AList.update (run_ID c) cid (cancelLogs r)\<rparr>))))"

text \<open>The goroutine that waited for the container.\<close>

definition docker_reap :: "string \<Rightarrow> 'd DockerRuntime \<Rightarrow> 'd DockerRuntime" where
  "docker_reap cid r =
     r\<lparr>containers := AList.delete cid (containers r), dr_startedAt := AList.delete cid (dr_startedAt r),
       dr_stdin := AList.delete cid (dr_stdin r), cancelLogs := AList.delete cid (cancelLogs r)\<rparr>"

definition docker_Stop :: "'d docker_client \<Rightarrow> string \<Rightarrow> 'd DockerRuntime \<Rightarrow> (go_error + unit) \<times> 'd DockerRuntime" where
  "docker_Stop client cid r =
     (case map_of (containers r) cid of
        None \<Rightarrow> (Inl (ErrorString ''cell is not running''), r)
      | Some containerID \<Rightarrow>
          (Inr (), case map_of (dr_stdin r) cid of
             None \<Rightarrow> r
           | Some conn \<Rightarrow> r\<lparr>daemon := snd (write_stdin client conn (''stop'' @ [CHR 0x0A]) (daemon r))\<rparr>))"

text \<open>What the goroutine that \<open>Stop\<close> begins asks for.\<close>

definition docker_stop_container :: "'d docker_client \<Rightarrow> string \<Rightarrow> 'd DockerRuntime \<Rightarrow> 'd DockerRuntime" where
  "docker_stop_container client containerID r = r\<lparr>daemon := ContainerStop client containerID 25 (daemon r)\<rparr>"

definition docker_SendCommand ::
  "'d docker_client \<Rightarrow> string \<Rightarrow> string \<Rightarrow> 'd DockerRuntime \<Rightarrow> (go_error + unit) \<times> 'd DockerRuntime" where
  "docker_SendCommand client cid command r =
     (case map_of (dr_stdin r) cid of
        None \<Rightarrow> (Inl (ErrorString ''cell is not running''), r)
      | Some conn \<Rightarrow>
          (case write_stdin client conn (command @ [CHR 0x0A]) (daemon r) of
             (e, d) \<Rightarrow> (case e of Some x \<Rightarrow> Inl x | None \<Rightarrow> Inr (), r\<lparr>daemon := d\<rparr>)))"

definition docker_IsRunning :: "'d DockerRuntime \<Rightarrow> string \<Rightarrow> bool" where
  "docker_IsRunning r cid \<longleftrightarrow> map_of (containers r) cid \<noteq> None"

definition docker_StartedAt :: "'d DockerRuntime \<Rightarrow> string \<Rightarrow> int option" where
  "docker_StartedAt r cid = map_of (dr_startedAt r) cid"

text \<open>Containers that outlived the worker are taken over.\<close>

fun docker_Recover :: "'d docker_client \<Rightarrow> int \<Rightarrow> string list \<Rightarrow> 'd DockerRuntime \<Rightarrow> 'd DockerRuntime" where
  "docker_Recover client now [] r = r"
| "docker_Recover client now (cellID # rest) r =
     (case ContainerInspect client (container_name cellID) (daemon r) of
        Inl _ \<Rightarrow> docker_Recover client now rest r
      | Inr (cid, state) \<Rightarrow>
          if state \<noteq> Some True then docker_Recover client now rest r
          else (case ContainerAttach client cid (daemon r) of
              (err, d) \<Rightarrow>
                docker_Recover client now rest
                  (r\<lparr>daemon := d, containers := AList.update cellID cid (containers r),
                     dr_startedAt := AList.update cellID now (dr_startedAt r),
                     cancelLogs := AList.update cellID cid (cancelLogs r),
                     dr_stdin := (if err = None then AList.update cellID cid (dr_stdin r) else dr_stdin r)\<rparr>)))"

section \<open>Statistics\<close>

record docker_stats =
  ds_TotalUsage :: "64 word"
  ds_SystemUsage :: "64 word"
  ds_OnlineCPUs :: "32 word"
  ds_PreTotalUsage :: "64 word"
  ds_PreSystemUsage :: "64 word"
  ds_Usage :: "64 word"
  ds_Cache :: "64 word"
  ds_Networks :: "(64 word \<times> 64 word) list"

definition docker_usage :: "docker_stats \<Rightarrow> Stats" where
  "docker_usage st =
     (let memoryUsage = (if ds_Cache st > 0 \<and> ds_Usage st > ds_Cache st then ds_Usage st - ds_Cache st else ds_Usage st);
          cpuDelta = unat (ds_TotalUsage st - ds_PreTotalUsage st);
          systemDelta = unat (ds_SystemUsage st - ds_PreSystemUsage st);
          onlineCPUs = (if ds_OnlineCPUs st = 0 then 1 else unat (ds_OnlineCPUs st))
      in \<lparr>stats_CPU = (if systemDelta > 0 \<and> cpuDelta > 0 then of_nat cpuDelta / of_nat systemDelta * of_nat onlineCPUs * 100 else 0),
          stats_MemoryMB = of_nat (unat memoryUsage) / 1024 / 1024, PID = 0,
          NetworkRxBytes = unat (sum_list (map fst (ds_Networks st))),
          NetworkTxBytes = unat (sum_list (map snd (ds_Networks st)))\<rparr>)"

definition docker_Stats ::
  "'d docker_client \<Rightarrow> (string \<Rightarrow> go_error + docker_stats) \<Rightarrow> 'd DockerRuntime \<Rightarrow> string \<Rightarrow> go_error + Stats" where
  "docker_Stats client decode r cid =
     (case map_of (containers r) cid of
        None \<Rightarrow> Inr no_stats
      | Some containerID \<Rightarrow>
          if containerID = [] then Inr no_stats
          else (case ContainerStats client containerID (daemon r) of
              Inl _ \<Rightarrow> Inr no_stats
            | Inr body \<Rightarrow> (case decode body of Inl e \<Rightarrow> Inl e | Inr st \<Rightarrow> Inr (docker_usage st))))"

section \<open>A runtime of cells\<close>

text \<open>The tables agree on which cells run; a cell that was taken over may have no input.\<close>

definition docker_sound :: "'d DockerRuntime \<Rightarrow> bool" where
  "docker_sound r \<longleftrightarrow> dom (map_of (dr_startedAt r)) = dom (map_of (containers r))
     \<and> dom (map_of (cancelLogs r)) = dom (map_of (containers r)) \<and> dom (map_of (dr_stdin r)) \<subseteq> dom (map_of (containers r))"

lemma docker_Start_cases:
  assumes "docker_Start client iter wdir now c r = (x, r')"
  obtains (failed) e d where "x = Inl e" "r' = r\<lparr>daemon := d\<rparr>"
  | (running) cid d where "x = Inr ()" "map_of (containers r) (run_ID c) = None"
      "r' = r\<lparr>daemon := d, containers := AList.update (run_ID c) cid (containers r),
         dr_startedAt := AList.update (run_ID c) now (dr_startedAt r), dr_stdin := AList.update (run_ID c) cid (dr_stdin r),
         cancelLogs := AList.update (run_ID c) cid (cancelLogs r)\<rparr>"
  using assms failed [of _ "daemon r"]
  by (auto simp: docker_Start_def Let_def split: if_splits prod.splits option.splits sum.splits)

lemma dom_tables: "dom (map_of (AList.update k v al)) = insert k (dom (map_of al))"
  "dom (map_of (AList.delete k al)) = dom (map_of al) - {k}"
  by (auto simp: update_conv' delete_conv')

lemma sound_daemon [simp]: "docker_sound (r\<lparr>daemon := d\<rparr>) = docker_sound r"
  by (simp add: docker_sound_def)

lemma docker_IsRunning_dom: "docker_IsRunning r i \<longleftrightarrow> i \<in> dom (map_of (containers r))"
  by (auto simp: docker_IsRunning_def)

lemma docker_Stop_cases: "docker_Stop client i r = (x, r') \<Longrightarrow> \<exists>d. r' = r\<lparr>daemon := d\<rparr>"
  by (auto simp: docker_Stop_def split: option.splits intro: exI [of _ "daemon r"])

lemma docker_SendCommand_cases: "docker_SendCommand client i line r = (x, r') \<Longrightarrow> \<exists>d. r' = r\<lparr>daemon := d\<rparr>"
  by (auto simp: docker_SendCommand_def split: option.splits prod.splits intro: exI [of _ "daemon r"])

interpretation docker: runtime docker_sound docker_IsRunning "docker_Start client iter wdir now" "docker_Stop client"
  "docker_SendCommand client" docker_reap
proof (unfold_locales, goal_cases)
  case (1 c r r' i)
  then show ?case by (cases rule: docker_Start_cases) (auto simp: docker_IsRunning_dom dom_tables)
next
  case (2 r c)
  then show ?case by (auto simp: docker_Start_def docker_IsRunning_def)
next
  case (3 c r e r')
  then show ?case by (cases rule: docker_Start_cases) (auto simp: docker_IsRunning_dom fun_eq_iff)
next
  case (4 i r x r')
  from docker_Stop_cases [OF this] show ?case by (auto simp: docker_IsRunning_dom fun_eq_iff)
next
  case (5 r i)
  then show ?case by (auto simp: docker_Stop_def docker_IsRunning_def)
next
  case (6 i line r x r')
  from docker_SendCommand_cases [OF this] show ?case by (auto simp: docker_IsRunning_dom fun_eq_iff)
next
  case (7 r i line)
  then have "map_of (dr_stdin r) i = None" by (auto simp: docker_sound_def docker_IsRunning_def dom_def)
  then show ?case by (simp add: docker_SendCommand_def)
next
  case (8 i r j)
  show ?case by (auto simp: docker_reap_def docker_IsRunning_dom dom_tables)
next
  case (9 r c x r')
  from 9(2) show ?case using 9(1) by (cases rule: docker_Start_cases) (simp, simp add: docker_sound_def dom_tables subset_insertI2)
next
  case (10 r i x r')
  from docker_Stop_cases [OF 10(2)] 10(1) show ?case by auto
next
  case (11 r i line x r')
  from docker_SendCommand_cases [OF 11(2)] 11(1) show ?case by auto
next
  case (12 r i)
  then show ?case by (simp add: docker_reap_def docker_sound_def dom_tables Diff_mono)
qed

section \<open>What reaches the daemon\<close>

lemma scaled_word:
  assumes "x < 2 ^ 42" "0 < x" "0 < k" "k \<le> 10 ^ 6 * 2"
  shows "sint (of_int x * of_int k :: 64 word) = x * k"
proof -
  have "x * k \<le> 2 ^ 42 * (10 ^ 6 * 2)" using assms by (intro mult_mono) auto
  moreover have "0 < x * k" using assms by simp
  ultimately have "- (2 ^ 63) \<le> x * k \<and> x * k < 2 ^ 63" by simp
  then have "sint (of_int (x * k) :: 64 word) = x * k" by (subst sint_sbintrunc') (simp add: signed_take_bit_int_eq_self)
  then show ?thesis by simp
qed


text \<open>
  What the code relies on of a daemon, over the set of its containers: only \<open>ContainerCreate\<close> makes one, the one it
  names, and a forced \<open>ContainerRemove\<close> takes it away.
\<close>

definition daemon_laws :: "'d docker_client \<Rightarrow> ('d \<Rightarrow> string set) \<Rightarrow> bool" where
  "daemon_laws client there \<longleftrightarrow>
     (\<forall>i d. there (snd (ImagePull client i d)) \<subseteq> there d) \<and> (\<forall>i n d. there (ContainerStop client i n d) \<subseteq> there d)
     \<and> (\<forall>i d. there (snd (ContainerRemove client i d)) \<subseteq> there d - {i})
     \<and> (\<forall>spec n d. case ContainerCreate client spec n d of
          (Inl _, d') \<Rightarrow> there d' \<subseteq> there d | (Inr i, d') \<Rightarrow> there d' \<subseteq> insert i (there d))
     \<and> (\<forall>i d. there (snd (ContainerStart client i d)) \<subseteq> there d) \<and> (\<forall>i d. there (snd (ContainerAttach client i d)) \<subseteq> there d)"

lemma daemon_lawsD:
  assumes "daemon_laws client there"
  shows "there (snd (ImagePull client img d)) \<subseteq> there d" "there (ContainerStop client i n d) \<subseteq> there d"
    "there (snd (ContainerRemove client i d)) \<subseteq> there d - {i}"
    "ContainerCreate client spec name d = (Inl e, d') \<Longrightarrow> there d' \<subseteq> there d"
    "ContainerCreate client spec name d = (Inr i, d') \<Longrightarrow> there d' \<subseteq> insert i (there d)"
    "there (snd (ContainerStart client i d)) \<subseteq> there d" "there (snd (ContainerAttach client i d)) \<subseteq> there d"
proof -
  have "\<forall>spec n d. case ContainerCreate client spec n d of
      (Inl _, d') \<Rightarrow> there d' \<subseteq> there d | (Inr i, d') \<Rightarrow> there d' \<subseteq> insert i (there d)"
    using assms unfolding daemon_laws_def by (elim conjE)
  then have create: "case ContainerCreate client spec name d of
      (Inl _, d') \<Rightarrow> there d' \<subseteq> there d | (Inr i, d') \<Rightarrow> there d' \<subseteq> insert i (there d)" by (elim allE)
  show "ContainerCreate client spec name d = (Inl e, d') \<Longrightarrow> there d' \<subseteq> there d"
    "ContainerCreate client spec name d = (Inr i, d') \<Longrightarrow> there d' \<subseteq> insert i (there d)"
    using create by simp_all
qed (use assms in \<open>unfold daemon_laws_def, blast+\<close>)

lemma launch_failed:
  assumes "daemon_laws client there" "launch client spec name d = (Inl e, d')"
  shows "there d' \<subseteq> there d"
proof (cases "ContainerCreate client spec name d")
  case (Pair c d1)
  show ?thesis
  proof (cases c)
    case (Inl e1)
    with Pair assms(2) daemon_lawsD(4) [OF assms(1), of spec name d] show ?thesis by (simp add: launch_def)
  next
    case (Inr i)
    have d1: "there d1 \<subseteq> insert i (there d)" using daemon_lawsD(5) [OF assms(1)] Pair Inr by simp
    obtain e2 d2 where s: "ContainerStart client i d1 = (e2, d2)" by fastforce
    obtain e3 d3 where a: "ContainerAttach client i d2 = (e3, d3)" by fastforce
    have "there d2 \<subseteq> there d1" "there d3 \<subseteq> there d2"
      using daemon_lawsD(6) [OF assms(1), of i d1] daemon_lawsD(7) [OF assms(1), of i d2] s a by simp_all
    then show ?thesis
      using d1 daemon_lawsD(3) [OF assms(1), of i d2] daemon_lawsD(3) [OF assms(1), of i d3] assms(2) Pair Inr s a
      by (cases e2; cases e3) (simp_all add: launch_def, blast+)
  qed
qed

lemma image_Ensure_laws: "daemon_laws client there \<Longrightarrow> image_Ensure client img d = (e, ls, d') \<Longrightarrow> there d' \<subseteq> there d"
  using daemon_lawsD(1) [of client there img d]
  by (auto simp: image_Ensure_def split: if_splits prod.splits option.splits)

lemma removeExisting_laws:
  assumes "daemon_laws client there"
  shows "there (removeExistingContainer client name d) \<subseteq> there d"
proof (cases "ContainerInspect client name d")
  case (Inr x)
  obtain i state where x: "x = (i, state)" by fastforce
  show ?thesis
    using daemon_lawsD(2) [OF assms, of i 10 d] daemon_lawsD(3) [OF assms, of i d]
      daemon_lawsD(3) [OF assms, of i "ContainerStop client i 10 d"] Inr x
    by (auto simp: removeExistingContainer_def split: if_splits)
qed (simp add: removeExistingContainer_def)


lemma Recover_sound: "docker_sound r \<Longrightarrow> docker_sound (docker_Recover client now ids r)"
proof (induction ids arbitrary: r)
  case (Cons i ids)
  show ?case
    using Cons.IH Cons.prems
    by (auto simp: docker_sound_def dom_tables subset_insertI2 insert_mono split: sum.split prod.split intro!: Cons.IH)
qed simp

text \<open>
  After a restart exactly the cells whose container still runs count as running again, besides those that already
  did; one whose input could not be attached counts as running although it takes no command.
\<close>

theorem Recover_takes_over:
  assumes "docker_sound r" "\<And>n i d. ContainerInspect client n (snd (ContainerAttach client i d)) = ContainerInspect client n d"
  shows "docker_sound (docker_Recover client now ids r)
    \<and> docker_IsRunning (docker_Recover client now ids r) j =
      (docker_IsRunning r j \<or> j \<in> set ids \<and> (\<exists>i. ContainerInspect client (container_name j) (daemon r) = Inr (i, Some True)))"
proof
  show "docker_sound (docker_Recover client now ids r)" by (rule Recover_sound [OF assms(1)])
  show "docker_IsRunning (docker_Recover client now ids r) j =
      (docker_IsRunning r j \<or> j \<in> set ids \<and> (\<exists>i. ContainerInspect client (container_name j) (daemon r) = Inr (i, Some True)))"
  proof (induction ids arbitrary: r)
    case (Cons k ids)
    show ?case
    proof (cases "ContainerInspect client (container_name k) (daemon r)")
      case (Inl e)
      then show ?thesis using Cons.IH [of r] by auto
    next
      case (Inr x)
      obtain i state where x: "x = (i, state)" by fastforce
      obtain err d where a: "ContainerAttach client i (daemon r) = (err, d)" by fastforce
      have "ContainerInspect client n d = ContainerInspect client n (daemon r)" for n
        using assms(2) [of n i "daemon r"] a by simp
      then show ?thesis using Inr x a Cons.IH by (auto simp: docker_IsRunning_dom dom_tables)
    qed
  qed simp
qed

section \<open>Examples\<close>

text \<open>A daemon whose containers are named like their cells; it cannot start any, and those it has run.\<close>

definition list_daemon :: "string list docker_client" where
  "list_daemon = \<lparr>ImageInspect = (\<lambda>_ _. True), ImagePull = (\<lambda>_ d. (None, d)),
     ContainerInspect = (\<lambda>n d. if n \<in> set d then Inr (n, Some True) else Inl (ErrorString ''no such container'')),
     ContainerStop = (\<lambda>_ _ d. d), ContainerRemove = (\<lambda>i d. (None, removeAll i d)), ContainerCreate = (\<lambda>_ n d. (Inr n, n # d)),
     ContainerStart = (\<lambda>_ d. (Some (ErrorString ''port is taken''), d)), ContainerAttach = (\<lambda>_ d. (None, d)),
     write_stdin = (\<lambda>_ _ d. (None, d)), ContainerStats = (\<lambda>_ _. Inl (ErrorString ''no'')),
     NetworkInspect = (\<lambda>_ _. True), NetworkCreate = (\<lambda>_ d. (None, d))\<rparr>"

definition idle_docker :: "string list \<Rightarrow> string list DockerRuntime" where
  "idle_docker d = \<lparr>daemon = d, containers = [], dr_startedAt = [], cancelLogs = [], dr_stdin = [], network_name = ''net''\<rparr>"


theorem Recover_takes_over_witness:
  "\<forall>j. docker_IsRunning (docker_Recover list_daemon 5 [''a'', ''b''] (idle_docker [''hivepanel-cell-a''])) j =
     (j \<in> {''a'', ''b''} \<and> container_name j = ''hivepanel-cell-a'')"
proof
  fix j
  have "docker_sound (idle_docker [''hivepanel-cell-a''])" by (simp add: docker_sound_def idle_docker_def)
  from Recover_takes_over [OF this, of list_daemon 5 "[''a'', ''b'']" j]
  show "docker_IsRunning (docker_Recover list_daemon 5 [''a'', ''b''] (idle_docker [''hivepanel-cell-a''])) j =
     (j \<in> {''a'', ''b''} \<and> container_name j = ''hivepanel-cell-a'')"
    by (auto simp: list_daemon_def idle_docker_def docker_IsRunning_def split: if_splits)
qed


end
