(* ===== verification/HostKey.thy ===== *)
theory HostKey
  imports CellStoreProps
begin

text \<open>
  The SSH host key of the SFTP server, \<open>internal/sftp/host_key.go\<close>. Generating, marshalling and parsing keys are
  arguments. The calls on the open file (writing, syncing, changing its mode, closing) are system calls of their own that
  may fail each.
\<close>

section \<open>Loading and creating\<close>

record key_env =
  parse_private :: "string \<Rightarrow> go_error + string"
  generate_key :: "go_error + string"
  marshal_key :: "string \<Rightarrow> go_error + string"
  pem_encode :: "string \<Rightarrow> string"

definition quoted :: "string \<Rightarrow> string" where
  "quoted p = [CHR 0x22] @ p @ [CHR 0x22]"

definition os_is_exist :: "go_error \<Rightarrow> bool" where
  "os_is_exist e \<longleftrightarrow> e = SysExist"

text \<open>\<open>Sync\<close>, \<open>Chmod\<close> and \<open>Close\<close> of a file, as far as contents go.\<close>

definition os_settle :: "unit os" where
  "os_settle = os_call (\<lambda>d f. (Inr (), f))"

definition parseHostKey :: "key_env \<Rightarrow> string \<Rightarrow> string \<Rightarrow> string os" where
  "parseHostKey env p data = os_wrap (''parse SFTP host key '' @ quoted p) (os_lift (parse_private env data))"

definition fill_host_key :: "key_env \<Rightarrow> string \<Rightarrow> string \<Rightarrow> string os" where
  "fill_host_key env p encoded =
     os_attempt
       (os_seq (os_wrap (''write SFTP host key '' @ quoted p) (os_write_file p encoded))
       (os_seq (os_wrap (''sync SFTP host key '' @ quoted p) os_settle)
       (os_seq (os_wrap (''set SFTP host key permissions '' @ quoted p) os_settle)
               (os_wrap (''close SFTP host key '' @ quoted p) os_settle))))
       (\<lambda>r. case r of
           Inl e \<Rightarrow> os_attempt (os_remove p) (\<lambda>_. os_throw e)
         | Inr _ \<Rightarrow> parseHostKey env p encoded)"

definition createHostKey :: "key_env \<Rightarrow> string \<Rightarrow> string os" where
  "createHostKey env p =
     (let parent = path_dir p
      in os_seq (os_wrap (''create SFTP host key directory '' @ quoted parent) (os_mkdir_all parent))
        (os_bind (os_wrap ''generate Ed25519 SFTP host key'' (os_lift (generate_key env))) (\<lambda>privateKey.
         os_bind (os_wrap ''marshal SFTP host key'' (os_lift (marshal_key env privateKey))) (\<lambda>block.
         let encoded = pem_encode env block
         in if encoded = [] then os_throw (ErrorString ''encode SFTP host key: empty PEM result'')
            else os_attempt (os_create_excl p) (\<lambda>r. case r of
                Inl e \<Rightarrow>
                  if os_is_exist e
                  then os_bind (os_wrap (''read concurrently created SFTP host key '' @ quoted p) (os_read_file p)) (parseHostKey env p)
                  else os_throw (WrapError (''create SFTP host key '' @ quoted p) e)
              | Inr _ \<Rightarrow> fill_host_key env p encoded)))))"

definition LoadOrCreateHostKey :: "key_env \<Rightarrow> string \<Rightarrow> string os" where
  "LoadOrCreateHostKey env p =
     (if p = [] then os_throw (ErrorString ''SFTP host key path is empty'')
      else os_attempt (os_read_file p) (\<lambda>r. case r of
          Inr data \<Rightarrow> parseHostKey env p data
        | Inl e \<Rightarrow> if \<not> os_is_not_exist e then os_throw (WrapError (''read SFTP host key '' @ quoted p) e)
            else createHostKey env p))"

section \<open>A key for good\<close>

lemma stored_key_is_loaded:
  assumes "calm w" "on_dirs (files w) q" "fs_get (files w) q = Some (FileNode data)" "parse_private env data = Inr signer"
  shows "LoadOrCreateHostKey env (rooted q) w = (Inr signer, w\<lparr>ticks := Suc (ticks w)\<rparr>)"
proof -
  have "rooted q \<noteq> []" by (simp add: rooted_def)
  then show ?thesis
    using assms
    by (simp add: LoadOrCreateHostKey_def os_attempt_def os_read_file_calm fs_read_def fs_info_on_dirs parseHostKey_def
        os_wrap_def os_lift_def)
qed

lemma new_key_is_stored:
  assumes "calm w" "dir_here (files w) D" "plain n" "CHR 0x00 \<notin> set n" "fs_get (files w) (D @ [n]) = None"
    "generate_key env = Inr k" "marshal_key env k = Inr b" "pem_encode env b \<noteq> []" "parse_private env (pem_encode env b) = Inr signer"
  obtains w' where "LoadOrCreateHostKey env (rooted (D @ [n])) w = (Inr signer, w')" "calm w'"
    "fs_get (files w') (D @ [n]) = Some (FileNode (pem_encode env b))"
    "\<And>p. p \<noteq> D @ [n] \<Longrightarrow> fs_get (files w') p = fs_get (files w) p"
proof -
  let ?q = "D @ [n]" and ?f = "files w"
  let ?f1 = "fs_put ?q (FileNode []) ?f"
  let ?f2 = "fs_put ?q (FileNode (pem_encode env b)) ?f1"
  have od: "on_dirs ?f ?q" by (rule on_dirs_entry [OF assms(2,3,4)])
  have od1: "on_dirs ?f1 ?q" using od by (auto simp: on_dirs_def strict_prefix_def)
  have pl: "plains D" using assms(2) by (simp add: dir_here_def on_dirs_def)
  have dir: "path_dir (rooted ?q) = rooted D" using pl assms(3) by (simp add: path_dir_plains)
  have ne: "rooted ?q \<noteq> []" by (simp add: rooted_def)
  let ?v = "\<lambda>f t. w\<lparr>files := f, ticks := t\<rparr>"
  have read: "os_read_file (rooted ?q) w = (Inl SysNotExist, w\<lparr>ticks := Suc (ticks w)\<rparr>)"
    using assms(1,5) od by (simp add: os_read_file_calm fs_read_def fs_info_on_dirs)
  have mk: "os_mkdir_all (rooted D) (w\<lparr>ticks := t\<rparr>) = (Inr (), w\<lparr>ticks := Suc t\<rparr>)" for t
    using os_mkdir_all_present [of "w\<lparr>ticks := t\<rparr>" D] assms(1,2) by simp
  have cr: "os_create_excl (rooted ?q) (w\<lparr>ticks := t\<rparr>) = (Inr (), ?v ?f1 (Suc t))" for t
    using assms(1,5) od by (simp add: os_create_excl_def os_call_calm locate_on_dirs)
  have wr: "os_write_file (rooted ?q) data (?v ?f1 t) = (Inr (), ?v (fs_put ?q (FileNode data) ?f1) (Suc t))" for data t
    using assms(1) od1 by (simp add: os_write_file_def os_call_calm locate_on_dirs)
  have settle: "os_settle (?v f t) = (Inr (), ?v f (Suc t))" for f t
    using assms(1) by (simp add: os_settle_def os_call_calm)
  have "\<exists>t. LoadOrCreateHostKey env (rooted ?q) w = (Inr signer, ?v ?f2 t)"
    using assms(6-9)
    by (intro exI [of _ "Suc (Suc (Suc (Suc (Suc (Suc (Suc (ticks w)))))))"])
      (simp add: LoadOrCreateHostKey_def ne os_attempt_def read os_is_not_exist_def createHostKey_def dir os_bind_def
        os_wrap_def os_lift_def Let_def mk cr fill_host_key_def wr settle parseHostKey_def)
  then obtain t where "LoadOrCreateHostKey env (rooted ?q) w = (Inr signer, ?v ?f2 t)" ..
  then show ?thesis using assms(1) by (intro that [of "?v ?f2 t"]) auto
qed

text \<open>
  C39. A server has one host key for good: the key made at the first start, when there is none, is the key of every later
  start as long as its file stays, whatever key would be generated then; making it changes no other file.
\<close>

theorem host_key_is_kept:
  assumes "calm w" "dir_here (files w) D" "plain n" "CHR 0x00 \<notin> set n" "fs_get (files w) (D @ [n]) = None"
    "generate_key env = Inr k" "marshal_key env k = Inr b" "pem_encode env b \<noteq> []" "parse_private env (pem_encode env b) = Inr signer"
    "parse_private later = parse_private env"
  shows "case LoadOrCreateHostKey env (rooted (D @ [n])) w of (r, w') \<Rightarrow>
    r = Inr signer \<and> fst (LoadOrCreateHostKey later (rooted (D @ [n])) w') = Inr signer
    \<and> (\<forall>p. p = D @ [n] \<or> fs_get (files w') p = fs_get (files w) p)"
proof -
  obtain w' where w': "LoadOrCreateHostKey env (rooted (D @ [n])) w = (Inr signer, w')" "calm w'"
    "fs_get (files w') (D @ [n]) = Some (FileNode (pem_encode env b))"
    "\<And>p. p \<noteq> D @ [n] \<Longrightarrow> fs_get (files w') p = fs_get (files w) p"
    using new_key_is_stored [OF assms(1-9)] by blast
  have "on_dirs (files w) (D @ [n])" by (rule on_dirs_entry [OF assms(2,3,4)])
  then have "on_dirs (files w') (D @ [n])" using w'(4) by (auto simp: on_dirs_def strict_prefix_def)
  from stored_key_is_loaded [OF w'(2) this w'(3), of later signer] assms(9,10) w' show ?thesis by auto
qed

definition fixed_keys :: "string \<Rightarrow> key_env" where
  "fixed_keys k = \<lparr>parse_private = (\<lambda>s. Inr s), generate_key = Inr k, marshal_key = (\<lambda>x. Inr x), pem_encode = (\<lambda>x. ''PEM '' @ x)\<rparr>"

theorem host_key_is_kept_witness:
  "case LoadOrCreateHostKey (fixed_keys ''one'') ''/etc/key'' (calm_world [([''etc''], DirNode)]) of (r, w') \<Rightarrow>
     r = Inr ''PEM one'' \<and> fst (LoadOrCreateHostKey (fixed_keys ''two'') ''/etc/key'' w') = Inr ''PEM one''"
proof -
  let ?w = "calm_world [([''etc''], DirNode)]"
  have d: "dir_here (files ?w) [''etc'']" unfolding calm_world_simps by (rule dir_here_check; code_simp)
  have n: "plain ''key''" "fs_get (files ?w) ([''etc''] @ [''key'']) = None" by code_simp+
  have e: "generate_key (fixed_keys ''one'') = Inr ''one''" "marshal_key (fixed_keys ''one'') ''one'' = Inr ''one''"
    "pem_encode (fixed_keys ''one'') ''one'' \<noteq> []" "parse_private (fixed_keys ''one'') (pem_encode (fixed_keys ''one'') ''one'') = Inr ''PEM one''"
    "parse_private (fixed_keys ''two'') = parse_private (fixed_keys ''one'')"
    by (simp_all add: fixed_keys_def)
  have c: "calm ?w" "CHR 0x00 \<notin> set ''key''" by simp_all
  have r: "rooted ([''etc''] @ [''key'']) = ''/etc/key''" by code_simp
  from host_key_is_kept [OF c(1) d n(1) c(2) n(2) e] show ?thesis unfolding r by (simp add: case_prod_beta)
qed

end
