(* ===== verification/Startup.thy ===== *)
theory Startup
  imports WorkerInv DockerRuntime HostKey
begin

text \<open>
  The start of the worker: \<open>main\<close> of \<open>cmd/daemon/main.go\<close>, with the two runtimes behind one interface
  (\<open>internal/runtime/runtime.go\<close>), and \<open>NewServer\<close> of \<open>internal/sftp/server.go\<close> as far as it can fail. \<open>log.Fatal\<close> is an
  error. The heartbeat, the listeners and the log are left out; the state that results is the one requests are served from.
\<close>

section \<open>The runtime of the worker\<close>

datatype 'd worker_runtime = Processes ProcessRuntime | Containers "'d DockerRuntime"

record 'd runtime_env =
  spawn :: "string \<Rightarrow> string \<Rightarrow> go_error + nat"
  kill :: "nat \<Rightarrow> go_error option"
  pipe_error :: "nat \<Rightarrow> go_error option"
  proc_stats :: "nat \<Rightarrow> (rat option \<times> nat option) option"
  client :: "'d docker_client"
  env_order :: "(string \<times> string) list \<Rightarrow> (string \<times> string) list"
  working_dir :: getwd
  stats_dec :: "string \<Rightarrow> go_error + docker_stats"
  rt_clock :: int

text \<open>The methods of the Docker runtime, and the dispatch of a call to the runtime that was chosen.\<close>

definition docker_ops :: "'d runtime_env \<Rightarrow> 'd DockerRuntime runtime_ops" where
  "docker_ops e =
     \<lparr>rt_IsRunning = docker_IsRunning, rt_Start = docker_Start (client e) (env_order e) (working_dir e) (rt_clock e),
      rt_Stop = docker_Stop (client e), rt_SendCommand = docker_SendCommand (client e), rt_StartedAt = docker_StartedAt,
      rt_Stats = docker_Stats (client e) (stats_dec e)\<rparr>"

definition processes_of :: "'d runtime_env \<Rightarrow> ProcessRuntime runtime_ops" where
  "processes_of e = process_ops (spawn e) (rt_clock e) (kill e) (pipe_error e) (proc_stats e)"

definition worker_IsRunning :: "'d worker_runtime \<Rightarrow> string \<Rightarrow> bool" where
  "worker_IsRunning r i = (case r of Processes p \<Rightarrow> process_IsRunning p i | Containers d \<Rightarrow> docker_IsRunning d i)"

definition worker_ops :: "'d runtime_env \<Rightarrow> 'd worker_runtime runtime_ops" where
  "worker_ops e =
     \<lparr>rt_IsRunning = worker_IsRunning,
      rt_Start = (\<lambda>c r. case r of Processes p \<Rightarrow> map_prod id Processes (rt_Start (processes_of e) c p)
        | Containers d \<Rightarrow> map_prod id Containers (rt_Start (docker_ops e) c d)),
      rt_Stop = (\<lambda>i r. case r of Processes p \<Rightarrow> map_prod id Processes (rt_Stop (processes_of e) i p)
        | Containers d \<Rightarrow> map_prod id Containers (rt_Stop (docker_ops e) i d)),
      rt_SendCommand = (\<lambda>i line r. case r of Processes p \<Rightarrow> map_prod id Processes (rt_SendCommand (processes_of e) i line p)
        | Containers d \<Rightarrow> map_prod id Containers (rt_SendCommand (docker_ops e) i line d)),
      rt_StartedAt = (\<lambda>r i. case r of Processes p \<Rightarrow> rt_StartedAt (processes_of e) p i | Containers d \<Rightarrow> rt_StartedAt (docker_ops e) d i),
      rt_Stats = (\<lambda>r i. case r of Processes p \<Rightarrow> rt_Stats (processes_of e) p i | Containers d \<Rightarrow> rt_Stats (docker_ops e) d i)\<rparr>"

text \<open>What the goroutine of a process or of a container does at its end.\<close>

definition worker_reap :: "string \<Rightarrow> 'd worker_runtime \<Rightarrow> 'd worker_runtime" where
  "worker_reap i r = (case r of Processes p \<Rightarrow> Processes (process_reap i p) | Containers d \<Rightarrow> Containers (docker_reap i d))"

definition worker_sound :: "'d worker_runtime \<Rightarrow> bool" where
  "worker_sound r \<longleftrightarrow> (case r of Processes _ \<Rightarrow> True | Containers d \<Rightarrow> docker_sound d)"

lemmas worker_runtime_defs = worker_ops_def worker_IsRunning_def docker_ops_def processes_of_def process_ops_def worker_reap_def worker_sound_def

interpretation worker: runtime worker_sound worker_IsRunning "rt_Start (worker_ops e)" "rt_Stop (worker_ops e)"
  "rt_SendCommand (worker_ops e)" worker_reap
proof (unfold_locales, goal_cases)
  case (1 c r r' i)
  then show ?case
    by (auto simp: worker_runtime_defs map_prod_def id_def split: worker_runtime.splits prod.splits
        dest: process.start_running docker.start_running)
next
  case (2 r c)
  then show ?case
    by (cases r; auto simp: worker_runtime_defs 
      dest!: process.start_refused [where spawn = "spawn e" and now = "rt_clock e"]
        docker.start_refused [where client = "client e" and iter = "env_order e" and wdir = "working_dir e" and now = "rt_clock e"])
next
  case (3 c r e r')
  then show ?case
    by (cases r; auto simp: worker_runtime_defs map_prod_def id_def fun_eq_iff split: prod.splits
        dest!: process.start_failed docker.start_failed)
next
  case (4 i r x r')
  then show ?case
    by (cases r; auto simp: worker_runtime_defs map_prod_def id_def fun_eq_iff split: prod.splits
        dest!: process.stop_running docker.stop_running)
next
  case (5 r i)
  then show ?case
    by (cases r; auto simp: worker_runtime_defs 
      dest!: process.stop_refused [where kill = "kill e"] docker.stop_refused [where client = "client e"])
next
  case (6 i line r x r')
  then show ?case
    by (cases r; auto simp: worker_runtime_defs map_prod_def id_def fun_eq_iff split: prod.splits
        dest!: process.send_running docker.send_running)
next
  case (7 r i line)
  have "\<not> process_IsRunning p i \<Longrightarrow> \<exists>x. process_SendCommand (pipe_error e) i line p = (Inl x, p)" for p
    using process.send_refused [of p i "pipe_error e" line] by simp
  moreover have "docker_sound d \<Longrightarrow> \<not> docker_IsRunning d i \<Longrightarrow> \<exists>x. docker_SendCommand (client e) i line d = (Inl x, d)" for d
    by (rule docker.send_refused)
  ultimately show ?case using 7 by (cases r) (fastforce simp: worker_runtime_defs)+
next
  case (8 i r j)
  then show ?case by (cases r; auto simp: worker_runtime_defs process.ended_running docker.ended_running)
next
  case (9 r c x r')
  then show ?case
    by (cases r; auto simp: worker_runtime_defs map_prod_def id_def split: prod.splits dest: docker.start_sound)
next
  case (10 r i x r')
  then show ?case
    by (cases r; auto simp: worker_runtime_defs map_prod_def id_def split: prod.splits dest: docker.stop_sound)
next
  case (11 r i line x r')
  then show ?case
    by (cases r; auto simp: worker_runtime_defs map_prod_def id_def split: prod.splits dest: docker.send_sound)
next
  case (12 r i)
  then show ?case by (cases r; auto simp: worker_runtime_defs docker.ended_sound)
qed

section \<open>Which cells run\<close>

text \<open>
  The contract of a runtime as a machine over the set of running cells: a start that succeeds takes a cell into the set
  and is only possible outside of it, stopping and sending succeed only within it and leave it as it is, the end of a
  cell takes it out, and what fails changes nothing.
\<close>

datatype run_event = Begin RuntimeCell | Halt string | Line string string | Exit string

fun spec_event :: "run_event \<Rightarrow> bool \<Rightarrow> string set \<Rightarrow> string set option" where
  "spec_event (Begin c) ok S = (if ok then if run_ID c \<in> S then None else Some (insert (run_ID c) S) else Some S)"
| "spec_event (Halt i) ok S = (if ok \<and> i \<notin> S then None else Some S)"
| "spec_event (Line i _) ok S = (if ok \<and> i \<notin> S then None else Some S)"
| "spec_event (Exit i) ok S = (if ok then Some (S - {i}) else None)"

fun spec_run :: "(run_event \<times> bool) list \<Rightarrow> string set \<Rightarrow> string set option" where
  "spec_run [] S = Some S"
| "spec_run ((ev, ok) # trace) S = (case spec_event ev ok S of None \<Rightarrow> None | Some S' \<Rightarrow> spec_run trace S')"

fun apply_event :: "'r runtime_ops \<Rightarrow> (string \<Rightarrow> 'r \<Rightarrow> 'r) \<Rightarrow> run_event \<Rightarrow> 'r \<Rightarrow> bool \<times> 'r" where
  "apply_event rt reap (Begin c) r = (case rt_Start rt c r of (x, r') \<Rightarrow> (x = Inr (), r'))"
| "apply_event rt reap (Halt i) r = (case rt_Stop rt i r of (x, r') \<Rightarrow> (x = Inr (), r'))"
| "apply_event rt reap (Line i l) r = (case rt_SendCommand rt i l r of (x, r') \<Rightarrow> (x = Inr (), r'))"
| "apply_event rt reap (Exit i) r = (True, reap i r)"

text \<open>The trace of a run; \<open>around\<close> gives the surroundings of each call, by the number of calls that are left.\<close>

fun observe :: "(nat \<Rightarrow> 'r runtime_ops) \<Rightarrow> (string \<Rightarrow> 'r \<Rightarrow> 'r) \<Rightarrow> run_event list \<Rightarrow> 'r \<Rightarrow> (run_event \<times> bool) list \<times> 'r" where
  "observe around reap [] r = ([], r)"
| "observe around reap (ev # evs) r =
     (case apply_event (around (length evs)) reap ev r of
        (ok, r') \<Rightarrow> (case observe around reap evs r' of (trace, r'') \<Rightarrow> ((ev, ok) # trace, r'')))"

context runtime begin

lemma event_refines:
  assumes "rt_Start rt = begin_run" "rt_Stop rt = stop_run" "rt_SendCommand rt = send" "sound r"
    "apply_event rt ended ev r = (ok, r')"
  shows "sound r' \<and> spec_event ev ok {i. is_running r i} = Some {i. is_running r' i}"
proof (cases ev)
  case (Begin c)
  with assms obtain x where x: "begin_run c r = (x, r')" "ok = (x = Inr ())" by (auto split: prod.splits)
  then show ?thesis
    using Begin start_sound [OF assms(4) x(1)] start_refused [of r c] start_running [of c r r'] start_failed [of c r _ r']
    by (cases x) auto
next
  case (Halt i)
  with assms obtain x where x: "stop_run i r = (x, r')" "ok = (x = Inr ())" by (auto split: prod.splits)
  then show ?thesis
    using Halt stop_sound [OF assms(4) x(1)] stop_running [OF x(1)] stop_refused [of r i] by auto
next
  case (Line i l)
  with assms obtain x where x: "send i l r = (x, r')" "ok = (x = Inr ())" by (auto split: prod.splits)
  then show ?thesis
    using Line send_sound [OF assms(4) x(1)] send_running [OF x(1)] send_refused [OF assms(4), of i l] by auto
next
  case (Exit i)
  then show ?thesis using assms(5) ended_sound [OF assms(4)] by (auto simp: ended_running)
qed

end

text \<open>
  C29. Both runtimes implement one contract: along every run of starts, stops, commands and ends of cells, with whatever
  processes, pipes and daemon answer in between, the outcomes are those that the machine over the set of running
  cells allows, and the set it arrives at is the set of cells the runtime calls running.
\<close>

theorem runtimes_refine_the_contract:
  assumes "worker_sound r"
  shows "case observe (\<lambda>t. worker_ops (surroundings t)) worker_reap evs r of (trace, r') \<Rightarrow>
    worker_sound r' \<and> spec_run trace {i. worker_IsRunning r i} = Some {i. worker_IsRunning r' i}"
  using assms
proof (induction evs arbitrary: r)
  case (Cons ev evs)
  obtain ok r' where step: "apply_event (worker_ops (surroundings (length evs))) worker_reap ev r = (ok, r')" by fastforce
  have "worker_sound r' \<and> spec_event ev ok {i. worker_IsRunning r i} = Some {i. worker_IsRunning r' i}"
    by (rule worker.event_refines [OF refl refl refl Cons.prems step])
  then show ?case using Cons.IH [of r'] step by (simp split: prod.splits)
qed simp

text \<open>Surroundings in which every process starts and every call succeeds.\<close>

definition plain_runtime :: "string list runtime_env" where
  "plain_runtime = \<lparr>spawn = \<lambda>_ _. Inr 7, kill = \<lambda>_. None, pipe_error = \<lambda>_. None, proc_stats = \<lambda>_. None, client = list_daemon,
     env_order = \<lambda>vs. vs, working_dir = Inr ''/'', stats_dec = \<lambda>_. Inl (ErrorString ''bad''), rt_clock = 0\<rparr>"

theorem runtimes_refine_the_contract_witness:
  "spec_run (fst (observe (\<lambda>_. worker_ops plain_runtime) worker_reap [Begin some_run, Begin some_run, Exit ''a'', Halt ''a'']
     (Processes NewProcessRuntime))) {} = Some {}
   \<and> fst (observe (\<lambda>_. worker_ops plain_runtime) worker_reap [Begin some_run, Begin some_run, Exit ''a'', Halt ''a'']
     (Processes NewProcessRuntime)) = [(Begin some_run, True), (Begin some_run, False), (Exit ''a'', True), (Halt ''a'', False)]"
proof -
  let ?evs = "[Begin some_run, Begin some_run, Exit ''a'', Halt ''a'']"
  have sound: "worker_sound (Processes NewProcessRuntime :: string list worker_runtime)" by (simp add: worker_sound_def)
  have run: "observe (\<lambda>_. worker_ops plain_runtime) worker_reap ?evs (Processes NewProcessRuntime) =
      ([(Begin some_run, True), (Begin some_run, False), (Exit ''a'', True), (Halt ''a'', False)], Processes NewProcessRuntime)"
    by (simp add: worker_runtime_defs plain_runtime_def process_Start_def process_Stop_def process_reap_def NewProcessRuntime_def some_run_def)
  from runtimes_refine_the_contract [OF sound, of "\<lambda>_. plain_runtime" ?evs] show ?thesis
    unfolding run by (simp add: worker_IsRunning_def process_IsRunning_def NewProcessRuntime_def)
qed

section \<open>Booting\<close>

record 'd boot_env =
  boot_conf :: config_env
  boot_cells :: cell_codec
  boot_runtime :: "'d runtime_env"
  boot_keys :: key_env

definition new_runtime :: "'d boot_env \<Rightarrow> Config \<Rightarrow> 'd \<Rightarrow> go_error + 'd worker_runtime" where
  "new_runtime env cfg d =
     (if RuntimeType cfg = ''process'' then Inr (Processes NewProcessRuntime)
      else if RuntimeType cfg = ''docker''
      then (case NewDockerRuntime (client (boot_runtime env)) (DockerNetwork cfg) d of
          Inl e \<Rightarrow> Inl e | Inr r \<Rightarrow> Inr (Containers r))
      else Inl (ErrorString (''unknown runtime type: '' @ RuntimeType cfg)))"

text \<open>Only the Docker runtime can be recovered; it reports no error.\<close>

definition recoverable :: "'d boot_env \<Rightarrow> 'd worker_runtime \<Rightarrow> (string list \<Rightarrow> 'd worker_runtime \<Rightarrow> (go_error + unit) \<times> 'd worker_runtime) option" where
  "recoverable env r =
     (case r of
        Processes _ \<Rightarrow> None
      | Containers d \<Rightarrow>
          Some (\<lambda>ids _. (Inr (), Containers (docker_Recover (client (boot_runtime env)) (rt_clock (boot_runtime env)) ids d))))"

definition sftp_NewServer :: "'d boot_env \<Rightarrow> Config \<Rightarrow> unit os" where
  "sftp_NewServer env cfg =
     (if \<not> SFTPEnabled cfg then os_throw (ErrorString ''SFTP server is disabled'')
      else os_seq (LoadOrCreateHostKey (boot_keys env) (HostKeyPath cfg)) (os_return ()))"

definition boot_manager :: "Config \<Rightarrow> CellManager" where
  "boot_manager cfg =
     NewCellManager (PathsData cfg) (PathsInstances cfg) [] (NewManager (Entries (Allocations cfg))) (NewBackupManager (PathsBackups cfg))"

text \<open>\<open>main\<close> after the configuration is there, up to the router: the runtime, the mounts, and the server it leaves.\<close>

definition boot_worker :: "'d boot_env \<Rightarrow> Config \<Rightarrow> 'd \<Rightarrow> ('d worker_runtime \<times> MountService) srv" where
  "boot_worker env cfg d =
     sv_seq (comb_Load (boot_cells env) (path_join [PathsData cfg, ''combs'']))
    (sv_bind (sv_lift (new_runtime env cfg d)) (\<lambda>r0.
     sv_bind (sv_os (os_wrap ''failed to initialise backup mount service'' (NewMountService (PathsBackups cfg) (PathsBackupMounts cfg)))) (\<lambda>ms.
     sv_seq (Load (boot_cells env))
    (sv_bind (\<lambda>s. case RecoverRuntime (recoverable env r0) (r0, s) of (Inl e, _, s') \<Rightarrow> (Inl e, s') | (Inr _, r1, s') \<Rightarrow> (Inr r1, s')) (\<lambda>r1.
     sv_seq (if SFTPEnabled cfg then sv_os (os_wrap ''failed to initialise SFTP server'' (sftp_NewServer env cfg)) else sv_return ())
       (sv_return (r1, ms)))))))"

definition boot :: "'d boot_env \<Rightarrow> 'd \<Rightarrow> world \<Rightarrow> (go_error + 'd worker_runtime api) \<times> world" where
  "boot env d w =
     (case config_Load (boot_conf env) w of
        (Inl e, w1) \<Rightarrow> (Inl e, w1)
      | (Inr cfg, w1) \<Rightarrow>
          if Entries (Allocations cfg) = [] then (Inl (ErrorString ''no allocations are configured''), w1)
          else case boot_worker env cfg d \<lparr>mgr = boot_manager cfg, host = w1\<rparr> of
              (Inl e, s) \<Rightarrow> (Inl e, host s)
            | (Inr (r, ms), s) \<Rightarrow>
                (Inr \<lparr>runtime = r, srv = s, conf = cfg, mounts = Some ms, importProgress = [], jobs = []\<rparr>, host s))"

section \<open>A worker that has started\<close>

text \<open>The table of a manager that has only loaded cells: each under its id, with its slots reserved.\<close>

definition loaded :: "string \<Rightarrow> CellManager \<Rightarrow> bool" where
  "loaded dir m \<longleftrightarrow> instancesDir m = dir \<and> distinct (map fst (cells m)) \<and> consoleSessions m = [] \<and> \<not> panicked m
     \<and> list_all (\<lambda>(i, c). cell_ID c = i \<and> console c = [] \<and> subscribers c = []
         \<and> list_all (\<lambda>a. usable a \<longrightarrow> IsReserved (allocManager m) a) (cellAllocations c)) (cells m)"

lemma fold_reserve: "fold (\<lambda>a am. ReserveExisting am a) as am = foldl ReserveExisting am as"
  by (simp add: foldl_conv_fold)

lemma loads_put:
  assumes "console c = []" "subscribers c = []"
  shows "sv_keeps (loaded dir) (sv_seq (sv_modify (reserveCellAllocations c)) (sv_modify (put_cell (cell_ID c) c)))"
proof -
  have "loaded dir (put_cell (cell_ID c) c (reserveCellAllocations c m))" if l: "loaded dir m" for m
  proof -
    have "list_all (\<lambda>(i, c'). cell_ID c' = i \<and> console c' = [] \<and> subscribers c' = []
        \<and> list_all (\<lambda>a. usable a \<longrightarrow> IsReserved (foldl ReserveExisting (allocManager m) (cellAllocations c)) a) (cellAllocations c'))
        (AList.update (cell_ID c) c (cells m))"
      using l assms unfolding loaded_def
      by (intro list_all_update) (auto simp: list_all_iff pool.reserved_many)
    with l show ?thesis
      by (simp add: loaded_def put_cell_def reserveCellAllocations_def fold_reserve distinct_update)
  qed
  then show ?thesis by (simp add: sv_keeps_def sv_defs)
qed

lemma loads_load_cell: "sv_keeps (loaded dir) (load_cell cc c)"
  unfolding load_cell_def Let_def
  by (intro keeps_intros loads_put) (auto split: sum.split)

lemma loads_load_cells: "sv_keeps (loaded dir) (load_cells cc d es)"
  by (induction cc d es rule: load_cells.induct)
    (auto intro!: keeps_intros loads_load_cell split: sum.split)

lemma loads_Load: "sv_keeps (loaded dir) (Load cc)"
  unfolding Load_def by (intro keeps_intros loads_load_cells)

lemma loads_combs: "sv_keeps (loaded dir) (load_combs cc d es)"
  by (induction cc d es rule: load_combs.induct)
    (auto intro!: keeps_intros keeps_modify simp: loaded_def split: sum.split)

lemma loads_comb_Load: "sv_keeps (loaded dir) (comb_Load cc d)"
  unfolding comb_Load_def by (intro keeps_intros loads_combs)

lemma loads_recover:
  "sv_keeps (loaded dir) (\<lambda>s. case RecoverRuntime f (r, s) of (Inl e, _, s') \<Rightarrow> (Inl e, s') | (Inr _, r1, s') \<Rightarrow> (Inr r1, s'))"
  by (auto simp: sv_keeps_def RecoverRuntime_def split: option.splits prod.splits sum.splits)

lemma loads_boot_worker: "sv_keeps (loaded dir) (boot_worker env cfg d)"
  unfolding boot_worker_def
  by (intro keeps_intros loads_comb_Load loads_Load loads_recover)

lemma loaded_boot_manager: "loaded (PathsInstances cfg) (boot_manager cfg)"
  by (simp add: loaded_def boot_manager_def NewCellManager_def)


definition boot_files :: fsys where
  "boot_files = cell_files @ [([''etc''], DirNode), ([''etc'', ''w.yml''], FileNode ''text'')]"

definition boot_config :: Config where
  "boot_config = sample_config\<lparr>PathsData := ''/d'', PathsInstances := ''/i'', PathsBackups := ''/b'', PathsBackupMounts := ''/m'',
     HostKeyPath := ''/etc/key''\<rparr>"

definition small_boot :: "string list boot_env" where
  "small_boot =
     \<lparr>boot_conf = sample_config_env\<lparr>yaml_dec := \<lambda>_ _. Inr boot_config\<rparr>,
      boot_cells = sample_codec ((plain_cell ''a'')\<lparr>cell_Allocation := \<lparr>IP = ''10.0.0.1'', Port = 8\<rparr>\<rparr>) no_lock some_comb,
      boot_runtime = plain_runtime, boot_keys = fixed_keys ''one''\<rparr>"

text \<open>The worker that starts on these files.\<close>

lemma boot_config_loads:
  "config_Load (boot_conf small_boot) (calm_world boot_files) = (Inr (normalise False boot_config), (calm_world boot_files)\<lparr>ticks := 1\<rparr>)"
proof -
  let ?w = "calm_world boot_files"
  have read: "fs_read (Inr ''/'') boot_files ''/etc/w.yml'' = Inr ''text''" by code_simp
  have valid: "config_validate (\<lambda>_. True) (normalise False boot_config) = None" by code_simp
  have "config_Load (boot_conf small_boot) ?w =
      (case config_validate (env_parse_ip (boot_conf small_boot)) (normalise (windows (boot_conf small_boot)) boot_config) of
        Some e \<Rightarrow> (Inl (WrapError ''invalid worker configuration'' e), ?w\<lparr>ticks := 1\<rparr>)
      | None \<Rightarrow> (Inr (normalise (windows (boot_conf small_boot)) boot_config), ?w\<lparr>ticks := 1\<rparr>))"
    by (rule default_token_stays [where body = "''text''", THEN conjunct1])
      (simp_all add: small_boot_def sample_config_env_def os_read_file_calm read boot_config_def sample_config_def Default_def)
  then show ?thesis by (simp add: small_boot_def sample_config_env_def valid)
qed

lemma boot_worker_runs:
  "case boot_worker small_boot (normalise False boot_config) []
      \<lparr>mgr = boot_manager (normalise False boot_config), host = (calm_world boot_files)\<lparr>ticks := 1\<rparr>\<rparr> of
     (Inr _, s) \<Rightarrow> map (map_prod id cell_Dir) (cells (mgr s)) = [(''a'', ''/i/a'')]
       \<and> map (cell_Status \<circ> snd) (cells (mgr s)) = [''offline'']
       \<and> list_all (list_all usable \<circ> cellAllocations \<circ> snd) (cells (mgr s))
   | (Inl _, _) \<Rightarrow> False"
  by code_simp


end
