(* ===== verification/Spec2Isabelle.thy ===== *)
theory Spec2Isabelle
  imports Allocation RecycleBin FilesProps ArchiveProps BackupProps MountService SftpServer CellRun Config ImporterProps DetectProps ApiProps Rcon Startup
begin

text \<open>
  HiveWorker is a daemon that runs game servers ("cells") on one host for a panel: it keeps a table of cells with their
  network slots, starts them as processes or containers, and offers their files, archives, backups, consoles and
  migrations over HTTP and SFTP. This library models the Go code under \<open>src/\<close>, one theory for each part, and proves
  what makes the parts correct, alone and together. Every definition is executable; names are those of the code, with a
  prefix or a suffix where two packages share one.

  \<^bold>\<open>The host.\<close> \<open>GoPrelude\<close> holds the errors, strings and decimal numbers of Go's library; \<open>GoPath\<close> cleans, joins and
  relates paths as \<open>path/filepath\<close> does on Linux. \<open>OsModel\<close> is the file system: a finite map from paths to files,
  directories and links, with the calls of \<open>os\<close> as functions over a world that also holds the working directory and a
  table of injected failures, so that every call may fail at any time; at most forty links are followed. A host is
  \<^emph>\<open>calm\<close> when nothing fails. \<open>PathGuard\<close> is the interface of all functions that check a path against a directory, as a
  locale that each of them interprets, with the calculus of confined operations: a directory is \<^emph>\<open>solid\<close> when it is there
  and holds no link, \<open>agree_outside d\<close> says that nothing outside of \<open>d\<close> differs. \<open>GoWalk\<close> and \<open>GoArchive\<close> model
  \<open>filepath.Walk\<close> and the streams of archives. Walks take the depth of the tree as fuel; what is said of their results
  assumes \<open>deep\<close>, that the fuel reaches the leaves, and confinement needs no fuel.

  \<^bold>\<open>Slots and cells.\<close> \<open>Allocation\<close> is the pool of addresses and ports (\<open>internal/allocation\<close>): its keys are
  injective, no slot is handed out twice, a new configuration is accepted exactly when it keeps the slots in use.
  \<open>Cell\<close> (\<open>internal/cell\<close>: locks, console, console sessions) and \<open>CellStore\<close> (creating, changing, deleting, saving,
  loading) work on a record of the manager's tables next to the host; \<open>CellProps\<close> and \<open>CellStoreProps\<close> say what locks
  refuse, what a console holds and sends, what each operation changes and what a restart brings back. \<open>Template\<close> and
  \<open>Installer\<close> are start-up templates and install steps (\<open>internal/install\<close>).

  \<^bold>\<open>Runtimes.\<close> \<open>ProcessRuntime\<close> and \<open>DockerRuntime\<close> interpret one locale, the contract of a runtime, and \<open>Startup\<close>
  interprets it for the runtime that was chosen: its runs refine a machine over the set of running cells. A
  goroutine that waits for a process or a container is an event of its own. \<open>CellRun\<close> connects cells and runtimes
  (\<open>lifecycle.go\<close>, \<open>install.go\<close>, \<open>backup.go\<close>, \<open>recover.go\<close>): commands, installing, what a running cell refuses.

  \<^bold>\<open>Files, archives, backups.\<close> \<open>Files\<close>, \<open>RecycleBin\<close> and \<open>FilesProps\<close> (\<open>internal/files/manager.go\<close>): every operation stays in
  its cell, pages of listings, the round trip through the recycle bin, and when the search for a free name ends;
  its unbounded loop has fuel, and its theorem says for which inputs some fuel is enough. \<open>Archive\<close> and \<open>ArchiveProps\<close> (\<open>archive.go\<close>):
  creating and extracting, and the disk limit in 64 bits. \<open>Backup\<close>, \<open>BackupProps\<close> and \<open>MountService\<close>
  (\<open>internal/backup\<close>): restoring gives back what was backed up, and restores and mounts stay in place.

  \<^bold>\<open>SFTP.\<close> \<open>Sftp\<close> is the jailed file system, \<open>SftpServer\<close> login and sessions, \<open>HostKey\<close> the key of the server
  (\<open>internal/sftp\<close>, \<open>internal/panel/sftp_auth.go\<close>).

  \<^bold>\<open>Migration and players.\<close> \<open>Importer\<close> and \<open>ImporterProps\<close> copy the files of another server from this or another host
  (\<open>internal/importer\<close>); \<open>MigrationDetect\<close> and \<open>DetectProps\<close> find them (\<open>internal/migrationdetect\<close>); \<open>Players\<close> reads the
  log of a game server (\<open>internal/players\<close>); \<open>Rcon\<close> is the client of its remote console (\<open>internal/rcon\<close>).

  \<^bold>\<open>The worker.\<close> \<open>Config\<close> loads, normalises, checks and saves the configuration. \<open>Api\<close>, \<open>ApiFiles\<close>, \<open>ApiBackups\<close> and
  \<open>ApiImport\<close> are the handlers of \<open>internal/api\<close>, state transformers over the whole worker that end in an answer;
  work they leave to goroutines is a list of jobs. \<open>Router\<close> has the sixty routes and the check of the token
  (\<open>internal/auth\<close>), and makes the worker a machine whose steps are requests, jobs, lines of output, ends of
  processes, console events, and changes from outside. \<open>RouterProps\<close>: no request has two handlers, and what one without the
  token can do. \<open>WorkerInv\<close>: the invariant of all runs, with a calculus for operations that keep a predicate of the
  manager, and the end of imports. \<open>ApiProps\<close>: locks, confinement of the file routes, allocation updates.
  \<open>Startup\<close> is \<open>cmd/daemon/main.go\<close> up to the router, and what holds of a worker that has started.

  \<^bold>\<open>What stands for code outside of the repository.\<close> Codecs (JSON, YAML, zip, tar, gzip, PEM), HTTP, SSH and the SFTP
  client, the Docker daemon, processes and \<open>/proc\<close>, clocks, random numbers, UUIDs and the order in which Go iterates over
  maps are arguments of the definitions. Theorems that need more of them state it as hypotheses: that a codec reads back
  what it wrote, that only creating a container makes one, that an order is a permutation.

  \<^bold>\<open>Numbers.\<close> Sizes are words of 64 bits where they are added or compared with a limit; \<open>int\<close> fields that are only
  compared are integers; statistics, floating point in the code, are exact rationals.

  \<^bold>\<open>Not modelled.\<close> Locking: every operation is one step, so a race between two requests inside an operation is outside
  of the model; goroutines interleave between operations. Modes, owners and times of files. The SSH handshake,
  deadlines and timeouts. The heartbeat (\<open>internal/panel/heartbeat.go\<close>), the log of containers
  (\<open>internal/runtime/docker/logs.go\<close>) and the counters of the host (\<open>internal/node/stats.go\<close>, but for the path of the
  disk) only pass data on. The stubs for other systems (\<open>disk_windows.go\<close>, \<open>runtime_windows.go\<close>,
  \<open>runtime_darwin.go\<close>): the model is of the worker on Linux.
\<close>

end
